(* ===== verification/Prelude.thy ===== *)
theory Prelude
  imports Main "HOL-Library.Char_ord" "HOL-Library.List_Lexorder"
begin

text \<open>
  What every component of the Do-Chain development shares:
  \<^item> Go's two ways to fail, an error value and a panic, as one sum type \<open>'a result\<close>,
    with sequencing (\<open>rbind\<close>) and a loop that stops at the first failure (\<open>fold_res\<close>);
  \<^item> Go's fixed-width integers with the wrap-around written out (\<open>i64\<close>, \<open>u64\<close>) and Go's
    division, which truncates towards zero (\<open>tquot\<close>);
  \<^item> a partition of a module's key-value store: an association list kept in ascending
    byte order of its keys, the order in which the store's iterators walk it;
  \<^item> the \<open>keyed_cell\<close> interface: what a getter returns after a setter, with the
    consequences every module's accessors inherit by interpretation.
\<close>

named_theorems res_simps \<open>sequencing of results\<close>
named_theorems key_simps \<open>injectivity of store keys\<close>
named_theorems width_simps \<open>fixed-width integers inside their range\<close>


section \<open>Errors, panics and results\<close>

text \<open>
  \<open>Registered m c\<close> is an error made with \<open>errorsmod.Register(m, c, ...)\<close>; wrapping keeps
  its identity. \<open>Sdk n\<close> is an error value named by the SDK, \<open>Text\<close> an error made on the
  spot with \<open>errors.New\<close> or \<open>fmt.Errorf\<close>, and \<open>Panic\<close> a Go panic.
\<close>

datatype error =
    Panic
  | Registered string nat
  | Sdk string
  | Text string

type_synonym 'a result = "error + 'a"

definition rbind :: "'a result \<Rightarrow> ('a \<Rightarrow> 'b result) \<Rightarrow> 'b result" where
  "rbind m f = (case m of Inl e \<Rightarrow> Inl e | Inr x \<Rightarrow> f x)"

text \<open>\<open>fail_if c e\<close>: the early return \<open>if c { return e }\<close>.\<close>

definition fail_if :: "bool \<Rightarrow> error \<Rightarrow> unit result" where
  "fail_if c e = (if c then Inl e else Inr ())"

fun fold_res :: "('a \<Rightarrow> 's \<Rightarrow> 's result) \<Rightarrow> 'a list \<Rightarrow> 's \<Rightarrow> 's result" where
  "fold_res f [] s = Inr s"
| "fold_res f (x # xs) s = rbind (f x s) (fold_res f xs)"

fun map_res :: "('a \<Rightarrow> 'b result) \<Rightarrow> 'a list \<Rightarrow> 'b list result" where
  "map_res f [] = Inr []"
| "map_res f (x # xs) = rbind (f x) (\<lambda>y. rbind (map_res f xs) (\<lambda>ys. Inr (y # ys)))"

text \<open>An error wrapped with \<open>errorsmod.Wrap(e, ...)\<close> is reported as \<open>e\<close>; a panic is not caught.\<close>

definition wrap_err :: "error \<Rightarrow> 'a result \<Rightarrow> 'a result" where
  "wrap_err e m = (case m of Inl x \<Rightarrow> Inl (if x = Panic then Panic else e) | Inr y \<Rightarrow> Inr y)"

text \<open>\<open>if err != nil { panic(err) }\<close>.\<close>

definition must :: "'a result \<Rightarrow> 'a result" where
  "must m = (case m of Inl _ \<Rightarrow> Inl Panic | Inr y \<Rightarrow> Inr y)"

lemma rbind_simps [simp, res_simps]:
  "rbind (Inl e) f = Inl e"
  "rbind (Inr x) f = f x"
  by (simp_all add: rbind_def)

lemma rbind_eq_Inr [res_simps]:
  "rbind m f = Inr y \<longleftrightarrow> (\<exists>x. m = Inr x \<and> f x = Inr y)"
  by (cases m) simp_all

lemma rbind_eq_Inl [res_simps]:
  "rbind m f = Inl e \<longleftrightarrow> m = Inl e \<or> (\<exists>x. m = Inr x \<and> f x = Inl e)"
  by (cases m) simp_all

lemma rbind_Inr_elim:
  assumes "rbind m f = Inr y"
  obtains x where "m = Inr x" and "f x = Inr y"
  using assms by (cases m) simp_all

lemma rbind_assoc: "rbind (rbind m f) g = rbind m (\<lambda>x. rbind (f x) g)"
  by (cases m) simp_all

lemma rbind_cong [fundef_cong]:
  "m = n \<Longrightarrow> (\<And>x. n = Inr x \<Longrightarrow> f x = g x) \<Longrightarrow> rbind m f = rbind n g"
  by (cases n) simp_all

lemma fail_if_simps [simp, res_simps]:
  "fail_if c e = Inr u \<longleftrightarrow> \<not> c"
  "fail_if c e = Inl e' \<longleftrightarrow> c \<and> e = e'"
  "fail_if True e = Inl e"
  "fail_if False e = Inr ()"
  by (auto simp: fail_if_def)

lemma wrap_err_simps [simp, res_simps]:
  "wrap_err e (Inr y) = Inr y"
  "wrap_err e m = Inr y \<longleftrightarrow> m = Inr y"
  by (cases m; simp add: wrap_err_def)+

lemma must_simps [simp, res_simps]:
  "must (Inr y) = Inr y"
  "must (Inl e) = Inl Panic"
  "must m = Inr y \<longleftrightarrow> m = Inr y"
  by (cases m; simp add: must_def)+

lemma fold_res_Cons_fun: "fold_res f (x # xs) = (\<lambda>s. rbind (f x s) (fold_res f xs))"
  by (simp add: fun_eq_iff)

lemma fold_res_append:
  "fold_res f (xs @ ys) s = rbind (fold_res f xs s) (fold_res f ys)"
  by (induction xs arbitrary: s) (simp_all add: rbind_assoc cong: rbind_cong)

lemma fold_res_pure: "fold_res (\<lambda>x s. Inr (g x s)) xs s = Inr (fold g xs s)"
  by (induction xs arbitrary: s) simp_all

lemma map_res_length: "map_res f xs = Inr ys \<Longrightarrow> length ys = length xs"
  by (induction xs arbitrary: ys) (auto simp: res_simps)

lemma map_res_list_all2: "map_res f xs = Inr ys \<Longrightarrow> list_all2 (\<lambda>x y. f x = Inr y) xs ys"
  by (induction xs arbitrary: ys) (auto simp: res_simps)

text \<open>A loop invariant: kept by every successful step, so true of the final state.\<close>

lemma fold_res_invariant:
  assumes "fold_res f xs s = Inr t" and "P s"
    and "\<And>x s t. x \<in> set xs \<Longrightarrow> P s \<Longrightarrow> f x s = Inr t \<Longrightarrow> P t"
  shows "P t"
  using assms
proof (induction xs arbitrary: s)
  case Nil
  then show ?case by simp
next
  case (Cons x xs)
  then obtain u where "f x s = Inr u" and "fold_res f xs u = Inr t"
    by (auto elim: rbind_Inr_elim)
  with Cons show ?case by (meson list.set_intros)
qed

text \<open>A loop whose steps all succeed under an invariant succeeds.\<close>

lemma fold_res_succeeds:
  assumes "P s"
    and "\<And>x s. x \<in> set xs \<Longrightarrow> P s \<Longrightarrow> \<exists>t. f x s = Inr t \<and> P t"
  shows "\<exists>t. fold_res f xs s = Inr t \<and> P t"
  using assms
proof (induction xs arbitrary: s)
  case Nil
  then show ?case by simp
next
  case (Cons x xs)
  obtain u where u: "f x s = Inr u" "P u"
    using Cons.prems by (meson list.set_intros(1))
  have "\<exists>t. fold_res f xs u = Inr t \<and> P t"
    by (rule Cons.IH [OF u(2)]) (use Cons.prems(2) in auto)
  with u show ?case by simp
qed


section \<open>Letters\<close>

definition upper :: "char \<Rightarrow> char" where
  "upper c = (if 97 \<le> (of_char c :: nat) \<and> (of_char c :: nat) \<le> 122 then char_of ((of_char c :: nat) - 32) else c)"


section \<open>Go's integers\<close>

text \<open>\<open>i64\<close> and \<open>u64\<close> are the conversions to \<open>int64\<close> and \<open>uint64\<close>.\<close>

definition i64 :: "int \<Rightarrow> int" where
  "i64 x = (x + 2 ^ 63) mod 2 ^ 64 - 2 ^ 63"

definition u64 :: "int \<Rightarrow> int" where
  "u64 x = x mod 2 ^ 64"

definition in_i64 :: "int \<Rightarrow> bool" where
  "in_i64 x \<longleftrightarrow> - (2 ^ 63) \<le> x \<and> x < 2 ^ 63"

lemma i64_id [width_simps]: "in_i64 x \<Longrightarrow> i64 x = x"
  by (simp add: i64_def in_i64_def)

lemma i64_id_nonneg [width_simps]: "0 \<le> x \<Longrightarrow> x < 2 ^ 63 \<Longrightarrow> i64 x = x"
  by (simp add: i64_def)

lemma u64_id [width_simps]: "0 \<le> x \<Longrightarrow> x < 2 ^ 64 \<Longrightarrow> u64 x = x"
  by (simp add: u64_def)

lemma in_i64_i64: "in_i64 (i64 x)"
proof -
  have "0 \<le> (x + 2 ^ 63) mod 2 ^ 64" and "(x + 2 ^ 63) mod 2 ^ 64 < (2 ^ 64 :: int)"
    by simp_all
  then show ?thesis
    by (simp add: in_i64_def i64_def)
qed

text \<open>Division of Go integers and of \<open>big.Int\<close> (\<open>Quo\<close>): truncation towards zero.\<close>

definition tquot :: "int \<Rightarrow> int \<Rightarrow> int" where
  "tquot a b = sgn a * sgn b * (\<bar>a\<bar> div \<bar>b\<bar>)"

lemma tquot_nonneg: "0 \<le> a \<Longrightarrow> 0 < b \<Longrightarrow> tquot a b = a div b"
  by (cases "a = 0") (simp_all add: tquot_def)

lemma tquot_minus: "tquot (- a) b = - tquot a b"
  by (simp add: tquot_def)

lemma tquot_zero [simp]: "tquot 0 b = 0"
  by (simp add: tquot_def)

lemma tquot_nonneg_ge: "0 \<le> a \<Longrightarrow> 0 < b \<Longrightarrow> 0 \<le> tquot a b"
  by (simp add: tquot_nonneg pos_imp_zdiv_nonneg_iff)

lemma tquot_le: "0 \<le> a \<Longrightarrow> 0 < b \<Longrightarrow> tquot a b \<le> a"
  using zdiv_mono2 [of a 1 b] by (simp add: tquot_nonneg)

lemma tquot_mono: "0 \<le> a \<Longrightarrow> a \<le> a' \<Longrightarrow> 0 < b \<Longrightarrow> tquot a b \<le> tquot a' b"
  by (simp add: tquot_nonneg zdiv_mono1)

text \<open>Distances, with every product abstracted to a variable for linear arithmetic.\<close>

lemma near_iff: "2 * \<bar>y - x\<bar> \<le> p \<longleftrightarrow> 2 * y \<le> 2 * x + p \<and> 2 * x \<le> 2 * y + (p :: int)"
  by (auto simp: abs_if)

lemma near_trans:
  "2 * \<bar>y - z\<bar> \<le> p \<Longrightarrow> \<bar>z - x\<bar> < q \<Longrightarrow> 2 * \<bar>y - x\<bar> < p + 2 * (q :: int)"
  by (auto simp: abs_if split: if_splits)

text \<open>An integer is determined by a bound on its distance in multiples of \<open>p\<close>.\<close>

lemma near_multiple_unique:
  fixes r q p :: int
  assumes "\<bar>r * p - q * p\<bar> < \<bar>p\<bar>"
  shows "r = q"
proof (rule ccontr)
  assume "r \<noteq> q"
  then have "1 \<le> \<bar>r - q\<bar>" by simp
  then have "\<bar>p\<bar> \<le> \<bar>r - q\<bar> * \<bar>p\<bar>" using mult_right_mono [of 1 "\<bar>r - q\<bar>" "\<bar>p\<bar>"] by simp
  moreover have "\<bar>r * p - q * p\<bar> = \<bar>r - q\<bar> * \<bar>p\<bar>"
    by (metis abs_mult left_diff_distrib)
  ultimately show False using assms by linarith
qed


section \<open>Sorted key-value partitions\<close>

type_synonym bytes = string
type_synonym 'v kv = "(bytes \<times> 'v) list"

definition kv_get :: "'v kv \<Rightarrow> bytes \<Rightarrow> 'v option" where
  "kv_get m k = map_of m k"

fun kv_set :: "bytes \<Rightarrow> 'v \<Rightarrow> 'v kv \<Rightarrow> 'v kv" where
  "kv_set k v [] = [(k, v)]"
| "kv_set k v ((k', v') # m) =
     (if k < k' then (k, v) # (k', v') # m
      else if k = k' then (k, v) # m
      else (k', v') # kv_set k v m)"

definition kv_del :: "bytes \<Rightarrow> 'v kv \<Rightarrow> 'v kv" where
  "kv_del k m = filter (\<lambda>p. fst p \<noteq> k) m"

definition kv_ok :: "'v kv \<Rightarrow> bool" where
  "kv_ok m \<longleftrightarrow> sorted_wrt (<) (map fst m)"

lemma kv_get_Nil [simp]: "kv_get [] k = None"
  by (simp add: kv_get_def)

lemma kv_get_set [simp]: "kv_get (kv_set k v m) k' = (if k' = k then Some v else kv_get m k')"
  by (induction k v m rule: kv_set.induct) (auto simp: kv_get_def)

lemma kv_get_del [simp]: "kv_get (kv_del k m) k' = (if k' = k then None else kv_get m k')"
  by (induction m) (auto simp: kv_get_def kv_del_def)

lemma set_kv_set: "fst ` set (kv_set k v m) = insert k (fst ` set m)"
  by (induction k v m rule: kv_set.induct) auto

lemma kv_ok_Nil [simp]: "kv_ok []"
  by (simp add: kv_ok_def)

lemma kv_ok_set [simp]: "kv_ok m \<Longrightarrow> kv_ok (kv_set k v m)"
proof (induction k v m rule: kv_set.induct)
  case (1 k v)
  then show ?case by (simp add: kv_ok_def)
next
  case (2 k v k' v' m)
  have ok: "kv_ok m" using "2.prems" by (simp add: kv_ok_def)
  have above: "\<forall>x \<in> fst ` set m. k' < x" using "2.prems" by (auto simp: kv_ok_def)
  show ?case
  proof (cases "k' < k")
    case True
    then have "kv_ok (kv_set k v m)" using 2 ok by (simp add: order.asym)
    moreover have "\<forall>x \<in> fst ` set (kv_set k v m). k' < x"
      using above True by (simp add: set_kv_set)
    ultimately show ?thesis using True by (auto simp: kv_ok_def order.asym)
  next
    case False
    then have "k < k' \<or> k = k'" by (auto simp: not_less order.order_iff_strict)
    then show ?thesis using "2.prems" by (auto simp: kv_ok_def intro: order.strict_trans)
  qed
qed

lemma kv_ok_del [simp]: "kv_ok m \<Longrightarrow> kv_ok (kv_del k m)"
  by (simp add: kv_ok_def kv_del_def sorted_wrt_map sorted_wrt_filter)

lemma kv_ok_distinct: "kv_ok m \<Longrightarrow> distinct (map fst m)"
  by (simp add: kv_ok_def strict_sorted_iff)

lemma kv_get_iff: "kv_ok m \<Longrightarrow> kv_get m k = Some v \<longleftrightarrow> (k, v) \<in> set m"
  by (simp add: kv_get_def kv_ok_distinct)


section \<open>Iterators and ranges over Go maps\<close>

text \<open>
  A store iterator hands the entries in key order to a callback, which returns the new
  accumulator and whether to stop.
\<close>

fun iterate :: "('k \<Rightarrow> 'v \<Rightarrow> 'a \<Rightarrow> ('a \<times> bool) result) \<Rightarrow> ('k \<times> 'v) list \<Rightarrow> 'a \<Rightarrow> 'a result" where
  "iterate h [] a = Inr a"
| "iterate h ((k, v) # kvs) a =
     rbind (h k v a) (\<lambda>(a', stop). if stop then Inr a' else iterate h kvs a')"

lemma iterate_pure:
  "iterate (\<lambda>k v a. Inr (f k v a, False)) kvs a = Inr (fold (\<lambda>(k, v). f k v) kvs a)"
  by (induction kvs arbitrary: a) auto

text \<open>An iterator whose callback keeps a property keeps it.\<close>

lemma iterate_invariant:
  assumes "iterate h kvs a = Inr b" and "P a"
    and "\<And>k v a b stop. (k, v) \<in> set kvs \<Longrightarrow> P a \<Longrightarrow> h k v a = Inr (b, stop) \<Longrightarrow> P b"
  shows "P b"
  using assms
proof (induction h kvs a rule: iterate.induct)
  case (2 h k v kvs a)
  from "2.prems"(1) obtain a' stop where step: "h k v a = Inr (a', stop)"
    and rest: "(if stop then Inr a' else iterate h kvs a') = Inr b"
    by (auto simp: res_simps)
  have "P a'" using "2.prems"(3) [OF _ "2.prems"(2) step] by simp
  show ?case
  proof (cases stop)
    case True
    with rest \<open>P a'\<close> show ?thesis by simp
  next
    case False
    then have "iterate h kvs a' = Inr b" using rest by simp
    from "2.IH" [OF step refl False this \<open>P a'\<close>] show ?thesis using "2.prems"(3) by (meson list.set_intros(2))
  qed
qed simp

text \<open>
  \<open>for k := range m\<close> visits the keys of \<open>m\<close> in an order the language leaves open. The order
  is an argument of the model: any list that covers the keys; the loop visits the keys of
  \<open>m\<close> in the order of their first occurrence.
\<close>

definition range_keys :: "'k list \<Rightarrow> ('k \<rightharpoonup> 'v) \<Rightarrow> 'k list" where
  "range_keys order m = filter (\<lambda>k. m k \<noteq> None) (remdups order)"

definition map_len :: "'k list \<Rightarrow> ('k \<rightharpoonup> 'v) \<Rightarrow> nat" where
  "map_len order m = length (range_keys order m)"

lemma distinct_range_keys [simp]: "distinct (range_keys order m)"
  by (simp add: range_keys_def)

lemma set_range_keys: "set (range_keys order m) = set order \<inter> dom m"
  by (auto simp: range_keys_def)

lemma set_range_keys_cover: "dom m \<subseteq> set order \<Longrightarrow> set (range_keys order m) = dom m"
  by (auto simp: set_range_keys)

lemma map_len_card: "dom m \<subseteq> set order \<Longrightarrow> map_len order m = card (dom m)"
  by (metis distinct_card distinct_range_keys map_len_def set_range_keys_cover)


section \<open>The interface of a keyed cell\<close>

text \<open>
  A getter and a setter of one kind of entry. What the provider promises is what a
  getter returns after a setter; every client lemma below follows from that alone.
\<close>

locale keyed_cell =
  fixes get :: "'s \<Rightarrow> 'k \<Rightarrow> 'v"
    and put :: "'s \<Rightarrow> 'k \<Rightarrow> 'w \<Rightarrow> 's"
    and out :: "'k \<Rightarrow> 'w \<Rightarrow> 'v"
  assumes get_put_same: "get (put s k v) k = out k v"
    and get_put_other: "k' \<noteq> k \<Longrightarrow> get (put s k v) k' = get s k'"
begin

lemma get_put: "get (put s k v) k' = (if k' = k then out k v else get s k')"
  by (simp add: get_put_same get_put_other)

lemma put_put_last: "get (put (put s k v) k w) k' = get (put s k w) k'"
  by (simp add: get_put)

lemma put_commute:
  "k \<noteq> l \<Longrightarrow> get (put (put s k v) l w) k' = get (put (put s l w) k v) k'"
  by (auto simp: get_put)

lemma fold_put_other:
  "k \<notin> fst ` set kvs \<Longrightarrow> get (fold (\<lambda>(k, v) s. put s k v) kvs s) k = get s k"
  by (induction kvs arbitrary: s) (auto simp: get_put)

lemma fold_put_mem:
  "distinct (map fst kvs) \<Longrightarrow> (k, v) \<in> set kvs \<Longrightarrow>
     get (fold (\<lambda>(k, v) s. put s k v) kvs s) k = out k v"
proof (induction kvs arbitrary: s)
  case Nil
  then show ?case by simp
next
  case (Cons p kvs)
  obtain a b where p: "p = (a, b)" by (cases p)
  show ?case
  proof (cases "(k, v) = (a, b)")
    case True
    then have "k \<notin> fst ` set kvs" using Cons.prems(1) p by auto
    then show ?thesis using True p by (simp add: fold_put_other get_put_same)
  next
    case False
    then have "(k, v) \<in> set kvs" and "distinct (map fst kvs)" using Cons.prems p by auto
    then show ?thesis by (simp add: Cons.IH p)
  qed
qed

end

interpretation kvc: keyed_cell kv_get "\<lambda>m k v. kv_set k v m" "\<lambda>k v. Some v"
  by unfold_locales simp_all



section \<open>Well-formed partitions\<close>

text \<open>
  A partition is well formed when its keys ascend strictly and each was made by the
  partition's key function. Partitions are determined by their lookups.
\<close>

definition part_ok :: "('a \<Rightarrow> bytes) \<Rightarrow> 'v kv \<Rightarrow> bool" where
  "part_ok mk m \<longleftrightarrow> kv_ok m \<and> fst ` set m \<subseteq> range mk"

lemma part_ok_Nil [simp]: "part_ok mk []"
  by (simp add: part_ok_def)

lemma part_ok_set [simp, intro]: "part_ok mk m \<Longrightarrow> part_ok mk (kv_set (mk a) v m)"
  by (auto simp: part_ok_def set_kv_set)

lemma part_ok_del [simp, intro]: "part_ok mk m \<Longrightarrow> part_ok mk (kv_del k m)"
  by (auto simp: part_ok_def kv_del_def kv_ok_def sorted_wrt_map sorted_wrt_filter)

lemma part_ok_kv_ok: "part_ok mk m \<Longrightarrow> kv_ok m"
  by (simp add: part_ok_def)

lemma part_ok_key: "part_ok mk m \<Longrightarrow> (k, v) \<in> set m \<Longrightarrow> \<exists>a. k = mk a"
  by (force simp: part_ok_def)

lemma kv_ext:
  assumes "kv_ok m" and "kv_ok m'" and "\<And>k. kv_get m k = kv_get m' k"
  shows "m = m'"
proof -
  have "set m = set m'" using assms kv_get_iff by (metis subrelI subset_antisym)
  moreover have "inj_on fst (set m)" using kv_ok_distinct [OF assms(1)] by (simp add: distinct_map)
  ultimately show ?thesis
    using assms(1,2) map_sorted_distinct_set_unique [of fst m m'] by (simp add: kv_ok_def strict_sorted_iff)
qed

lemma kv_set_commute:
  "kv_ok m \<Longrightarrow> k \<noteq> l \<Longrightarrow> kv_set k v (kv_set l w m) = kv_set l w (kv_set k v m)"
  by (rule kv_ext) auto

lemma kv_set_twice: "kv_ok m \<Longrightarrow> kv_set k v (kv_set k w m) = kv_set k v m"
  by (rule kv_ext) auto

lemma kv_get_None: "kv_ok m \<Longrightarrow> k \<notin> fst ` set m \<Longrightarrow> kv_get m k = None"
  by (force simp: kv_get_def map_of_eq_None_iff)

lemma kv_rebuild:
  assumes "kv_ok m"
  shows "fold (\<lambda>(k, v) m. kv_set k v m) m [] = m"
proof (rule kv_ext [OF _ assms])
  have "kv_ok (fold (\<lambda>(k, v) m. kv_set k v m) kvs a)" if "kv_ok a" for kvs :: "'a kv" and a
    using that by (induction kvs arbitrary: a) auto
  then show "kv_ok (fold (\<lambda>(k, v) m. kv_set k v m) m [])" by simp
next
  fix k
  show "kv_get (fold (\<lambda>(k, v) m. kv_set k v m) m []) k = kv_get m k"
  proof (cases "k \<in> fst ` set m")
    case True
    then obtain v where "(k, v) \<in> set m" by auto
    then show ?thesis
      using assms kvc.fold_put_mem [of m k v "[]"] kv_get_iff [OF assms, of k v] by (simp add: kv_ok_distinct)
  next
    case False
    then show ?thesis using assms kvc.fold_put_other [of k m "[]"] by (simp add: kv_get_None)
  qed
qed

lemma kv_del_fold_empty: "fst ` set m \<subseteq> set ks \<Longrightarrow> fold kv_del ks m = []"
proof (induction ks arbitrary: m)
  case (Cons k ks)
  then have "fst ` set (kv_del k m) \<subseteq> set ks" by (auto simp: kv_del_def)
  then show ?case by (simp add: Cons.IH)
qed simp

text \<open>A loop with pairwise commuting steps gives the same result in every order.\<close>

lemma fold_res_swap:
  assumes "\<And>x y s. x \<in> set xs \<Longrightarrow> y \<in> set xs \<Longrightarrow> x \<noteq> y \<Longrightarrow> P s \<Longrightarrow> rbind (f x s) (f y) = rbind (f y s) (f x)"
    and keep: "\<And>x s t. x \<in> set xs \<Longrightarrow> P s \<Longrightarrow> f x s = Inr t \<Longrightarrow> P t"
    and "a \<in> set xs" and "a \<notin> set bs" and "set bs \<subseteq> set xs" and "P s"
  shows "fold_res f (bs @ [a]) s = fold_res f (a # bs) s"
  using assms(3-6)
proof (induction bs arbitrary: s)
  case Nil
  then show ?case by simp
next
  case (Cons b bs)
  have "fold_res f ((b # bs) @ [a]) s = rbind (f b s) (fold_res f (a # bs))"
    using Cons.prems keep [of b s] by (auto intro!: rbind_cong simp: Cons.IH)
  also have "\<dots> = rbind (rbind (f b s) (f a)) (fold_res f bs)" by (simp add: rbind_assoc fold_res_Cons_fun)
  also have "\<dots> = rbind (rbind (f a s) (f b)) (fold_res f bs)"
    using Cons.prems by (subst assms(1)) auto
  finally show ?case by (simp add: rbind_assoc fold_res_Cons_fun)
qed

lemma fold_res_order:
  assumes comm: "\<And>x y s. x \<in> set xs \<Longrightarrow> y \<in> set xs \<Longrightarrow> x \<noteq> y \<Longrightarrow> P s \<Longrightarrow>
      rbind (f x s) (f y) = rbind (f y s) (f x)"
    and keep: "\<And>x s t. x \<in> set xs \<Longrightarrow> P s \<Longrightarrow> f x s = Inr t \<Longrightarrow> P t"
    and "distinct xs" and "distinct ys" and "set ys = set xs" and "P s"
  shows "fold_res f xs s = fold_res f ys s"
  using assms
proof (induction xs arbitrary: ys s)
  case Nil
  from Nil.prems(5) show ?case by simp
next
  case (Cons a xs)
  then obtain bs cs where ys: "ys = bs @ a # cs" by (metis list.set_intros(1) split_list)
  have "fold_res f ys s = rbind (fold_res f (bs @ [a]) s) (fold_res f cs)"
    by (simp add: ys fold_res_append rbind_assoc fold_res_Cons_fun)
  also have "fold_res f (bs @ [a]) s = fold_res f (a # bs) s"
  proof (rule fold_res_swap [where xs = "a # xs" and P = P])
    show "a \<notin> set bs" and "set bs \<subseteq> set (a # xs)" using Cons.prems(4,5) by (auto simp: ys)
    show "a \<in> set (a # xs)" by simp
  qed (fact Cons.prems)+
  also have "rbind \<dots> (fold_res f cs) = rbind (f a s) (fold_res f (bs @ cs))"
    by (simp add: rbind_assoc fold_res_append fun_eq_iff cong: rbind_cong)
  also have "\<dots> = rbind (f a s) (fold_res f xs)"
  proof (rule rbind_cong [OF refl])
    fix t assume t: "f a s = Inr t"
    have sub: "set (bs @ cs) = set xs" "distinct (bs @ cs)" "distinct xs"
      using Cons.prems(3-5) by (auto simp: ys)
    have "P t" using Cons.prems(2) [of a s t] Cons.prems(6) t by simp
    note IH = Cons.IH [OF _ _ sub(3,2,1) this]
    show "fold_res f (bs @ cs) t = fold_res f xs t"
      by (rule IH [symmetric]) (rule Cons.prems(1) Cons.prems(2); simp)+
  qed
  finally show ?case by simp
qed

lemma fold_order:
  assumes "\<And>x y s. x \<in> set xs \<Longrightarrow> y \<in> set xs \<Longrightarrow> P s \<Longrightarrow> f y (f x s) = f x (f y s)"
    and "\<And>x s. x \<in> set xs \<Longrightarrow> P s \<Longrightarrow> P (f x s)"
    and "distinct xs" and "distinct ys" and "set ys = set xs" and "P s"
  shows "fold f xs s = fold f ys s"
proof -
  have "fold_res (\<lambda>x s. Inr (f x s)) xs s = fold_res (\<lambda>x s. Inr (f x s)) ys s"
    by (rule fold_res_order [where P = P]) (use assms(2-6) in \<open>auto simp: assms(1)\<close>)
  then show ?thesis by (simp add: fold_res_pure)
qed


text \<open>Partitions whose entries satisfy \<open>Q\<close> between the address in the key and the value.\<close>

definition entries :: "('a \<Rightarrow> bytes) \<Rightarrow> ('a \<Rightarrow> 'v \<Rightarrow> bool) \<Rightarrow> 'v kv \<Rightarrow> bool" where
  "entries mk Q m \<longleftrightarrow> (\<forall>(k, v) \<in> set m. \<exists>a. k = mk a \<and> Q a v)"

lemma set_kv_set_subset: "set (kv_set k v m) \<subseteq> insert (k, v) (set m)"
  by (induction k v m rule: kv_set.induct) auto

lemma kv_get_member: "kv_get m k = Some v \<Longrightarrow> (k, v) \<in> set m"
  by (simp add: kv_get_def map_of_SomeD)

lemma entries_Nil [simp]: "entries mk Q []"
  by (simp add: entries_def)

lemma entries_set [intro]: "entries mk Q m \<Longrightarrow> Q a v \<Longrightarrow> entries mk Q (kv_set (mk a) v m)"
  using set_kv_set_subset [of "mk a" v m] by (fastforce simp: entries_def)

lemma entries_filter [intro]: "entries mk Q m \<Longrightarrow> entries mk Q (filter P m)"
  by (auto simp: entries_def)

lemma entries_del [intro]: "entries mk Q m \<Longrightarrow> entries mk Q (kv_del k m)"
  by (auto simp: kv_del_def)

lemma entriesE:
  assumes "entries mk Q m" and "(k, v) \<in> set m"
  obtains a where "k = mk a" and "Q a v"
  using assms by (auto simp: entries_def)

lemma fold_append_map: "fold (\<lambda>x acc. acc @ [f x]) xs acc = acc @ map f xs"
  by (induction xs arbitrary: acc) auto

text \<open>A loop of checked steps on a well-formed input is the loop of the plain steps.\<close>

lemma fold_res_pure_on:
  "(\<And>x s. x \<in> set xs \<Longrightarrow> f x s = Inr (g x s)) \<Longrightarrow> fold_res f xs s = Inr (fold g xs s)"
  by (induction xs arbitrary: s) auto


lemma fold_res_map: "fold_res f (map g xs) s = fold_res (\<lambda>x. f (g x)) xs s"
  by (induction xs arbitrary: s) (auto intro!: rbind_cong)

text \<open>A loop that only updates one field of a record is an update of that field.\<close>

lemma fold_field:
  assumes "\<And>f g s. upd f (upd g s) = upd (\<lambda>x. f (g x)) s" and "\<And>s. upd (\<lambda>x. x) s = s"
    and "\<And>x s. x \<in> set xs \<Longrightarrow> step x s = upd (h x) s"
  shows "fold step xs s = upd (fold h xs) s"
  using assms(3)
proof (induction xs arbitrary: s)
  case Nil
  then show ?case by (simp add: assms(2) id_def)
next
  case (Cons x xs)
  then show ?case by (simp add: assms(1) comp_def)
qed


lemma rebuild_field:
  assumes "\<And>f g s. upd f (upd g s) = upd (\<lambda>x. f (g x)) s" and "\<And>s. upd (\<lambda>x. x) s = s"
    and "\<And>f g s. f (fld s) = g (fld s) \<Longrightarrow> upd f s = upd g s" and "fld s = []" and "kv_ok m"
  shows "fold (\<lambda>(k, v). upd (\<lambda>m. kv_set k v m)) m s = upd (\<lambda>_. m) s"
proof -
  have "fold (\<lambda>(k, v). upd (\<lambda>m. kv_set k v m)) m s = upd (fold (\<lambda>(k, v) m. kv_set k v m) m) s"
    by (rule fold_field [where upd = upd]) (auto simp: assms(1,2))
  also have "\<dots> = upd (\<lambda>_. m) s" by (rule assms(3)) (simp add: assms(4) kv_rebuild [OF assms(5)])
  finally show ?thesis .
qed


lemma i64_add_left: "i64 (i64 a + b) = i64 (a + b)"
  unfolding i64_def using mod_add_left_eq [of "a + 2 ^ 63" "2 ^ 64" b] by (simp add: algebra_simps)

lemma u64_add_left: "u64 (u64 a + b) = u64 (a + b)"
  by (simp add: u64_def mod_simps)

lemma fold_res_split:
  assumes "\<And>x s. f x s = rbind (c x) (\<lambda>r. Inr (u x r s))"
  shows "fold_res f xs s = rbind (map_res c xs) (\<lambda>rs. Inr (fold (\<lambda>(x, r). u x r) (zip xs rs) s))"
proof (induction xs arbitrary: s)
  case (Cons x xs)
  show ?case
  proof (cases "c x")
    case (Inr r)
    then show ?thesis using Cons.IH [of "u x r s"] by (simp add: assms [of x] rbind_assoc)
  qed (simp add: assms [of x])
qed simp

lemma map_res_error: "map_res f xs = Inl e \<Longrightarrow> (\<And>x e. f x = Inl e \<Longrightarrow> P e) \<Longrightarrow> P e"
  by (induction xs) (auto simp: res_simps)

lemma fold_commute_list:
  assumes "\<And>x y s. f x (f y s) = f y (f x s)"
  shows "fold f xs (fold f ys s) = fold f ys (fold f xs s)"
proof -
  have one: "fold f xs (f y s) = f y (fold f xs s)" for y s xs
  proof (induction xs arbitrary: s)
    case (Cons x xs)
    have "fold f (x # xs) (f y s) = fold f xs (f y (f x s))" using assms [of x y s] by simp
    then show ?case by (simp add: Cons.IH)
  qed simp
  show ?thesis by (induction ys arbitrary: s) (simp_all add: one)
qed

end
