(* ===== verification/Sdk_Math.thy ===== *)
theory Sdk_Math
  imports Prelude
begin

text \<open>
  The pure part of the Cosmos SDK that the modules call: fixed-point decimals
  (\<open>math.LegacyDec\<close>), big integers (\<open>math.Int\<close>), coins, addresses and hashing. None of
  this code is part of the repository, so every operation is a field of the record
  \<open>sdk\<close>, which the modules' definitions take as an argument, and what the modules rely
  on is the locales \<open>dec_math\<close>, \<open>coin_math\<close> and \<open>bech32\<close>: the documented behaviour of
  these packages.

  A \<open>LegacyDec\<close> is its scaled integer: \<open>d\<close> stands for \<open>d / 10 ^ 18\<close>. Comparisons and
  sign tests of decimals are therefore comparisons of integers.

  \<open>ref_sdk\<close> is a concrete instance that follows the documented arithmetic (18 decimals,
  banker's rounding, truncating integer division, the bit-length limits); it discharges
  every law and is what the witnesses compute with.
\<close>


section \<open>Values\<close>

type_synonym dec = int
type_synonym address = bytes

abbreviation PREC :: int where
  "PREC \<equiv> 1000000000000000000"

abbreviation OneDec :: dec where
  "OneDec \<equiv> PREC"

text \<open>\<open>LegacyNewDec n\<close> (also \<open>LegacyNewDecFromInt\<close>) and \<open>LegacyNewDecWithPrec n p\<close>.\<close>

definition NewDec :: "int \<Rightarrow> dec" where
  "NewDec n = n * PREC"

definition NewDecWithPrec :: "int \<Rightarrow> nat \<Rightarrow> dec" where
  "NewDecWithPrec n p = n * 10 ^ (18 - p)"

record coin =
  Denom :: string
  Amount :: int

record deccoin =
  DDenom :: string
  DAmount :: dec

definition AmountOf :: "coin list \<Rightarrow> string \<Rightarrow> int" where
  "AmountOf cs d = sum_list (map Amount (filter (\<lambda>c. Denom c = d) cs))"

definition DecAmountOf :: "deccoin list \<Rightarrow> string \<Rightarrow> dec" where
  "DecAmountOf cs d = sum_list (map DAmount (filter (\<lambda>c. DDenom c = d) cs))"

lemma AmountOf_simps [simp]:
  "AmountOf [] d = 0"
  "AmountOf (c # cs) d = (if Denom c = d then Amount c else 0) + AmountOf cs d"
  "AmountOf (cs @ cs') d = AmountOf cs d + AmountOf cs' d"
  by (simp_all add: AmountOf_def)

lemma DecAmountOf_simps [simp]:
  "DecAmountOf [] d = 0"
  "DecAmountOf (c # cs) d = (if DDenom c = d then DAmount c else 0) + DecAmountOf cs d"
  "DecAmountOf (cs @ cs') d = DecAmountOf cs d + DecAmountOf cs' d"
  by (simp_all add: DecAmountOf_def)

text \<open>A valid coin list holds positive amounts in strictly ascending order of denoms.\<close>

definition coins_ok :: "coin list \<Rightarrow> bool" where
  "coins_ok cs \<longleftrightarrow> sorted_wrt (<) (map Denom cs) \<and> (\<forall>c \<in> set cs. 0 < Amount c)"


section \<open>The operations the modules call\<close>

record sdk =
  dAdd :: "dec \<Rightarrow> dec \<Rightarrow> dec result"
  dSub :: "dec \<Rightarrow> dec \<Rightarrow> dec result"
  dMul :: "dec \<Rightarrow> dec \<Rightarrow> dec result"
  dQuo :: "dec \<Rightarrow> dec \<Rightarrow> dec result"
  dMulInt :: "dec \<Rightarrow> int \<Rightarrow> dec result"
  dQuoInt :: "dec \<Rightarrow> int \<Rightarrow> dec result"
  dRoundInt :: "dec \<Rightarrow> int result"
  dTruncateInt :: "dec \<Rightarrow> int result"
  iAdd :: "int \<Rightarrow> int \<Rightarrow> int result"
  iSub :: "int \<Rightarrow> int \<Rightarrow> int result"
  iQuo :: "int \<Rightarrow> int \<Rightarrow> int result"
  ValidateDenom :: "string \<Rightarrow> bool"
  NewCoin :: "string \<Rightarrow> int \<Rightarrow> coin result"
  NewCoins :: "coin list \<Rightarrow> coin list result"
  CoinAdd :: "coin \<Rightarrow> coin \<Rightarrow> coin result"
  CoinsAdd :: "coin list \<Rightarrow> coin list \<Rightarrow> coin list result"
  CoinsSub :: "coin list \<Rightarrow> coin list \<Rightarrow> coin list result"
  NewDecCoinFromCoin :: "coin \<Rightarrow> deccoin result"
  NewDecCoinFromDec :: "string \<Rightarrow> dec \<Rightarrow> deccoin result"
  DecCoinAdd :: "deccoin \<Rightarrow> deccoin \<Rightarrow> deccoin result"
  DecCoinSub :: "deccoin \<Rightarrow> deccoin \<Rightarrow> deccoin result"
  DecCoinTruncate :: "deccoin \<Rightarrow> (coin \<times> deccoin) result"
  DecCoinsAdd :: "deccoin list \<Rightarrow> deccoin list \<Rightarrow> deccoin list result"
  DecCoinsMulDec :: "deccoin list \<Rightarrow> dec \<Rightarrow> deccoin list result"
  DecCoinsTruncate :: "deccoin list \<Rightarrow> (coin list \<times> deccoin list) result"
  NewDecCoinsFromCoins :: "coin list \<Rightarrow> deccoin list result"
  AccFromBech32 :: "string \<Rightarrow> address result"
  ValFromBech32 :: "string \<Rightarrow> address result"
  AccString :: "address \<Rightarrow> string"
  ValString :: "address \<Rightarrow> string"
  ParseDecCoin :: "string \<Rightarrow> deccoin result"
  tmhashTruncated :: "bytes \<Rightarrow> bytes"
  CoinsAmountOf :: "coin list \<Rightarrow> string \<Rightarrow> int"
  CoinsSort :: "coin list \<Rightarrow> coin list"
  CoinsIsValid :: "coin list \<Rightarrow> bool"
  CoinIsValid :: "coin \<Rightarrow> bool"
  NewDecCoin :: "string \<Rightarrow> int \<Rightarrow> deccoin result"
  ValidateAbstract :: "string \<Rightarrow> string \<Rightarrow> unit result"
  TokensToConsensusPower :: "int \<Rightarrow> int \<Rightarrow> int result"
  DecFromStr :: "string \<Rightarrow> dec result"
  dCeil :: "dec \<Rightarrow> dec result"
  CoinsEqual :: "coin list \<Rightarrow> coin list \<Rightarrow> bool"
  CoinsIsZero :: "coin list \<Rightarrow> bool"
  CoinsIsAnyGTE :: "coin list \<Rightarrow> coin list \<Rightarrow> bool"
  CoinsIsAllGTE :: "coin list \<Rightarrow> coin list \<Rightarrow> bool"
  DecCoinsIsZero :: "deccoin list \<Rightarrow> bool"


section \<open>Laws of the decimals\<close>

definition fits_dec :: "int \<Rightarrow> bool" where
  "fits_dec x \<longleftrightarrow> \<bar>x\<bar> < 2 ^ 315"

definition fits_int :: "int \<Rightarrow> bool" where
  "fits_int x \<longleftrightarrow> \<bar>x\<bar> < 2 ^ 256"

text \<open>
  Sums are exact and panic beyond 315 bits. A product is the exact product rounded to
  the nearest decimal, a quotient is off by less than one unit in the last place, and
  both exist when the exact value leaves room for the rounding. Products with an integer
  are exact, quotients by an integer truncate, and dividing by zero panics.
\<close>

locale dec_math =
  fixes K :: sdk
  assumes add: "dAdd K a b = (if fits_dec (a + b) then Inr (a + b) else Inl Panic)"
    and sub: "dSub K a b = (if fits_dec (a - b) then Inr (a - b) else Inl Panic)"
    and mul_near: "dMul K a b = Inr r \<Longrightarrow> 2 * \<bar>r * PREC - a * b\<bar> \<le> PREC"
    and mul_total: "\<bar>a * b\<bar> < (2 ^ 315 - 1) * PREC \<Longrightarrow> \<exists>r. dMul K a b = Inr r"
    and mul_panic: "dMul K a b = Inl e \<Longrightarrow> e = Panic"
    and quo_near: "b \<noteq> 0 \<Longrightarrow> dQuo K a b = Inr r \<Longrightarrow> \<bar>r * b - a * PREC\<bar> < \<bar>b\<bar>"
    and quo_total: "b \<noteq> 0 \<Longrightarrow> \<bar>a\<bar> * PREC < (2 ^ 315 - 1) * \<bar>b\<bar> \<Longrightarrow> \<exists>r. dQuo K a b = Inr r"
    and quo_zero: "dQuo K a 0 = Inl Panic"
    and quo_panic: "dQuo K a b = Inl e \<Longrightarrow> e = Panic"
    and mul_int: "dMulInt K a n = (if fits_dec (a * n) then Inr (a * n) else Inl Panic)"
    and quo_int: "dQuoInt K a n = (if n = 0 then Inl Panic else Inr (tquot a n))"
    and round_near: "dRoundInt K a = Inr r \<Longrightarrow> 2 * \<bar>r * PREC - a\<bar> \<le> PREC"
    and round_total: "fits_dec a \<Longrightarrow> \<exists>r. dRoundInt K a = Inr r"
    and truncate: "fits_dec a \<Longrightarrow> dTruncateInt K a = Inr (tquot a PREC)"
    and int_add: "iAdd K m n = (if fits_int (m + n) then Inr (m + n) else Inl Panic)"
    and int_sub: "iSub K m n = (if fits_int (m - n) then Inr (m - n) else Inl Panic)"
    and int_quo: "iQuo K m n = (if n = 0 then Inl Panic else Inr (tquot m n))"
begin

lemma add_Inr: "dAdd K a b = Inr r \<Longrightarrow> r = a + b"
  by (simp add: add split: if_splits)

lemma sub_Inr: "dSub K a b = Inr r \<Longrightarrow> r = a - b"
  by (simp add: sub split: if_splits)

lemma mul_int_Inr: "dMulInt K a n = Inr r \<Longrightarrow> r = a * n"
  by (simp add: mul_int split: if_splits)

lemma quo_int_Inr: "dQuoInt K a n = Inr r \<Longrightarrow> n \<noteq> 0 \<and> r = tquot a n"
  by (simp add: quo_int split: if_splits)

lemma mul_bounds:
  assumes "dMul K a b = Inr r"
  shows "2 * (r * PREC) \<le> 2 * (a * b) + PREC" and "2 * (a * b) \<le> 2 * (r * PREC) + PREC"
  using mul_near [OF assms] unfolding near_iff by blast+

lemma mul_nonneg:
  assumes "dMul K a b = Inr r" and "0 \<le> a" and "0 \<le> b"
  shows "0 \<le> r"
proof -
  have "0 \<le> a * b" using assms by simp
  with mul_bounds(2) [OF assms(1)] show ?thesis by linarith
qed

lemma mul_le:
  assumes "dMul K a b = Inr r" and "0 \<le> a" and "b \<le> PREC"
  shows "r \<le> a"
proof -
  have "a * b \<le> a * PREC" using assms(2,3) mult_left_mono by blast
  with mul_bounds(1) [OF assms(1)] show ?thesis by linarith
qed

lemma mul_le_right:
  assumes "dMul K a b = Inr r" and "0 \<le> b" and "a \<le> PREC"
  shows "r \<le> b"
proof -
  have "a * b \<le> PREC * b" using assms(2,3) mult_right_mono by blast
  with mul_bounds(1) [OF assms(1)] show ?thesis by linarith
qed

lemma mul_one: "dMul K a PREC = Inr r \<Longrightarrow> r = a"
  using mul_bounds [of a PREC r] by linarith

lemma quo_nonneg:
  assumes "dQuo K a b = Inr r" and "0 \<le> a" and "0 < b"
  shows "0 \<le> r"
proof (rule ccontr)
  assume "\<not> 0 \<le> r"
  then have "r * b \<le> - 1 * b" using assms by (intro mult_right_mono) auto
  moreover have "\<bar>r * b - a * PREC\<bar> < b" using quo_near [OF _ assms(1)] assms by simp
  ultimately show False using assms(2) by linarith
qed

lemma quo_exact:
  assumes "dQuo K a b = Inr r" and "b \<noteq> 0" and "a * PREC = q * b"
  shows "r = q"
  using quo_near [OF assms(2,1)] by (intro near_multiple_unique [of r b q]) (simp add: assms(3))

lemma quo_one: "dQuo K a PREC = Inr r \<Longrightarrow> r = a"
  by (rule quo_exact) simp_all

lemma round_bounds:
  assumes "dRoundInt K a = Inr r"
  shows "2 * (r * PREC) \<le> 2 * a + PREC" and "2 * a \<le> 2 * (r * PREC) + PREC"
  using round_near [OF assms] unfolding near_iff by blast+

lemma round_exact: "dRoundInt K (n * PREC) = Inr r \<Longrightarrow> r = n"
  using round_bounds [of "n * PREC" r] by linarith

end


section \<open>Laws of the coins\<close>

text \<open>
  Constructors panic on an invalid denom or a negative amount. Arithmetic on single
  coins needs equal denoms, decimal subtraction needs a non-negative result, and
  truncation splits an amount into its integral part and the remainder. Arithmetic on
  lists of coins is exact denom by denom and keeps them sorted and positive.
\<close>

locale coin_math = dec_math +
  assumes new_coin: "NewCoin K d a =
      (if ValidateDenom K d \<and> 0 \<le> a then Inr \<lparr>Denom = d, Amount = a\<rparr> else Inl Panic)"
    and new_coins_one: "NewCoins K [c] =
      (if ValidateDenom K (Denom c) \<and> 0 \<le> Amount c
       then Inr (if Amount c = 0 then [] else [c]) else Inl Panic)"
    and coin_add: "CoinAdd K c c' =
      (if Denom c = Denom c' \<and> fits_int (Amount c + Amount c')
       then Inr \<lparr>Denom = Denom c, Amount = Amount c + Amount c'\<rparr> else Inl Panic)"
    and coins_add: "CoinsAdd K cs cs' = Inr r \<Longrightarrow> AmountOf r d = AmountOf cs d + AmountOf cs' d"
    and coins_add_ok: "CoinsAdd K cs cs' = Inr r \<Longrightarrow> coins_ok cs \<Longrightarrow> coins_ok cs' \<Longrightarrow> coins_ok r"
    and coins_add_total: "coins_ok cs \<Longrightarrow> coins_ok cs' \<Longrightarrow>
      (\<forall>d. fits_int (AmountOf cs d + AmountOf cs' d)) \<Longrightarrow>
      \<exists>r. CoinsAdd K cs cs' = Inr r \<and> coins_ok r"
    and coins_sub: "CoinsSub K cs cs' = Inr r \<Longrightarrow> AmountOf r d = AmountOf cs d - AmountOf cs' d"
    and coins_sub_neg: "AmountOf cs d < AmountOf cs' d \<Longrightarrow> CoinsSub K cs cs' = Inl Panic"
    and dec_of_coin: "NewDecCoinFromCoin K c =
      (if ValidateDenom K (Denom c) \<and> 0 \<le> Amount c
       then Inr \<lparr>DDenom = Denom c, DAmount = Amount c * PREC\<rparr> else Inl Panic)"
    and new_dec_coin: "NewDecCoinFromDec K d a =
      (if ValidateDenom K d \<and> 0 \<le> a then Inr \<lparr>DDenom = d, DAmount = a\<rparr> else Inl Panic)"
    and dec_coin_add: "DecCoinAdd K e e' =
      (if DDenom e = DDenom e' \<and> fits_dec (DAmount e + DAmount e')
       then Inr \<lparr>DDenom = DDenom e, DAmount = DAmount e + DAmount e'\<rparr> else Inl Panic)"
    and dec_coin_sub: "DecCoinSub K e e' =
      (if DDenom e = DDenom e' \<and> DAmount e' \<le> DAmount e
       then Inr \<lparr>DDenom = DDenom e, DAmount = DAmount e - DAmount e'\<rparr> else Inl Panic)"
    and dec_coin_truncate: "DecCoinTruncate K e =
      (if ValidateDenom K (DDenom e) \<and> 0 \<le> DAmount e
       then Inr (\<lparr>Denom = DDenom e, Amount = DAmount e div PREC\<rparr>,
                 \<lparr>DDenom = DDenom e, DAmount = DAmount e mod PREC\<rparr>)
       else Inl Panic)"
begin

lemma truncate_whole:
  assumes "DecCoinTruncate K c = Inr (i, f)"
  shows "Denom i = DDenom c \<and> DDenom f = DDenom c \<and>
     Amount i * PREC + DAmount f = DAmount c \<and> 0 \<le> DAmount f \<and> DAmount f < PREC \<and> 0 \<le> Amount i"
  using assms by (auto simp: dec_coin_truncate pos_imp_zdiv_nonneg_iff split: if_splits)

end

text \<open>
  Lists of decimal coins: sums are exact denom by denom, scaling multiplies every amount
  (with the rounding of \<open>dMul\<close>), truncation takes the integral part of every amount.
\<close>

definition dec_coins_ok :: "deccoin list \<Rightarrow> bool" where
  "dec_coins_ok cs \<longleftrightarrow> sorted_wrt (<) (map DDenom cs) \<and> (\<forall>c \<in> set cs. 0 < DAmount c)"

locale dec_coins_math = coin_math +
  assumes dec_coins_add: "DecCoinsAdd K xs ys = Inr zs \<Longrightarrow> dec_coins_ok xs \<Longrightarrow>
      \<forall>c \<in> set ys. 0 \<le> DAmount c \<Longrightarrow>
      dec_coins_ok zs \<and> DecAmountOf zs d = DecAmountOf xs d + DecAmountOf ys d"
    and dec_coins_mul: "DecCoinsMulDec K xs r = Inr zs \<Longrightarrow> dec_coins_ok xs \<Longrightarrow> 0 \<le> r \<Longrightarrow>
      dec_coins_ok zs \<and> dMul K (DecAmountOf xs d) r = Inr (DecAmountOf zs d)"
    and dec_coins_truncate: "DecCoinsTruncate K xs = Inr (cs, ch) \<Longrightarrow> dec_coins_ok xs \<Longrightarrow>
      coins_ok cs \<and> AmountOf cs d = DecAmountOf xs d div PREC"

text \<open>
  Lists of coins as values: sorting keeps the coins and orders them by denom, a lookup in a
  sorted list finds a coin of the denom when there is one, the lists \<open>NewCoins\<close> makes are
  valid, and a list of decimal coins made from coins has their amounts.
\<close>

locale coin_lists = dec_coins_math +
  assumes coins_sort: "set (CoinsSort K cs) = set cs \<and> sorted_wrt (\<le>) (map Denom (CoinsSort K cs))"
    and amount_of_some: "sorted_wrt (\<le>) (map Denom cs) \<Longrightarrow> d \<in> Denom ` set cs \<Longrightarrow>
      \<exists>c \<in> set cs. Denom c = d \<and> CoinsAmountOf K cs d = Amount c"
    and amount_of_none: "d \<notin> Denom ` set cs \<Longrightarrow> CoinsAmountOf K cs d = 0"
    and new_coins_valid: "NewCoins K [c] = Inr r \<Longrightarrow> CoinsIsValid K r"
    and new_dec_coin_int: "NewDecCoin K d a =
      (if ValidateDenom K d \<and> 0 \<le> a then Inr \<lparr>DDenom = d, DAmount = a * PREC\<rparr> else Inl Panic)"
    and dec_coins_of: "NewDecCoinsFromCoins K cs = Inr ds \<Longrightarrow> coins_ok cs \<Longrightarrow>
      dec_coins_ok ds \<and> DecAmountOf ds d = AmountOf cs d * PREC"

text \<open>
  Comparisons of lists of coins: \<open>IsAnyGTE\<close> looks for a coin that covers a non-zero amount of
  its denom in the other list, \<open>IsAllGTE\<close> asks for every amount of the other list, and rounding
  up gives the least whole decimal not below.
\<close>

locale coin_order = coin_lists +
  assumes coins_equal: "CoinsEqual K cs cs' \<Longrightarrow> set cs = set cs'"
    and coins_zero: "CoinsIsZero K cs \<longleftrightarrow> (\<forall>c \<in> set cs. Amount c = 0)"
    and any_gte: "CoinsIsAnyGTE K cs cs' \<longleftrightarrow>
      (\<exists>c \<in> set cs. CoinsAmountOf K cs' (Denom c) \<noteq> 0 \<and> CoinsAmountOf K cs' (Denom c) \<le> Amount c)"
    and all_gte: "CoinsIsAllGTE K cs cs' \<longleftrightarrow>
      cs' = [] \<or> (cs \<noteq> [] \<and> (\<forall>c \<in> set cs'. Amount c \<le> CoinsAmountOf K cs (Denom c)))"
    and dec_coins_zero: "DecCoinsIsZero K ds \<longleftrightarrow> (\<forall>c \<in> set ds. DAmount c = 0)"
    and ceil: "dCeil K a = Inr r \<Longrightarrow> a \<le> r \<and> r < a + PREC \<and> PREC dvd r"


section \<open>Laws of the addresses\<close>

text \<open>
  The two textual forms of an address are written and read back without loss. Reading accepts
  the written form and, as bech32 demands, the same in capitals. An address has 20 bytes (accounts,
  validators, modules) or 32 (contracts): the verifier that cmd/dochaind/root.go sets, wasmd's
  VerifyAddressLen, accepts no other length.
\<close>

definition addr_ok :: "address \<Rightarrow> bool" where
  "addr_ok a \<longleftrightarrow> length a = 20 \<or> length a = 32"

definition bech32_form :: "string \<Rightarrow> string \<Rightarrow> bool" where
  "bech32_form written s \<longleftrightarrow> s = written \<or> s = map upper written"

locale bech32 =
  fixes K :: sdk
  assumes acc_read: "addr_ok a \<Longrightarrow> AccFromBech32 K (AccString K a) = Inr a"
    and acc_write: "AccFromBech32 K s = Inr a \<Longrightarrow> bech32_form (AccString K a) s \<and> addr_ok a"
    and val_read: "addr_ok a \<Longrightarrow> ValFromBech32 K (ValString K a) = Inr a"
    and val_write: "ValFromBech32 K s = Inr a \<Longrightarrow> bech32_form (ValString K a) s \<and> addr_ok a"
begin

lemma val_inject: "addr_ok a \<Longrightarrow> addr_ok b \<Longrightarrow> ValString K a = ValString K b \<longleftrightarrow> a = b"
  by (metis val_read sum.inject(2))

lemma acc_inject: "addr_ok a \<Longrightarrow> addr_ok b \<Longrightarrow> AccString K a = AccString K b \<longleftrightarrow> a = b"
  by (metis acc_read sum.inject(2))

end

end
