(* ===== verification/Sdk_Reference.thy ===== *)
theory Sdk_Reference
  imports Sdk_Math
begin

text \<open>
  A concrete instance of the pure SDK operations, \<open>ref_sdk\<close>, that follows their
  documentation: decimals with 18 places, banker's rounding and the 315-bit limit, coin
  lists that are merged in order, and the decimal-coin syntax. Its addresses are a plain
  prefixed form and its hash is a stand-in: the development relies on the laws of
  \<open>bech32\<close> only, and on nothing of the hash. The interpretations at the end discharge
  every law of \<open>Sdk_Math\<close>.
\<close>


section \<open>Rounding\<close>

definition chop_nonneg :: "int \<Rightarrow> int" where
  "chop_nonneg x =
     (let q = x div PREC; r = x mod PREC
      in if 2 * r < PREC then q else if 2 * r > PREC then q + 1
         else if even q then q else q + 1)"

definition chop :: "int \<Rightarrow> int" where
  "chop x = (if x < 0 then - chop_nonneg (- x) else chop_nonneg x)"

lemma chop_nonneg_near:
  "2 * (chop_nonneg x * PREC) \<le> 2 * x + PREC" "2 * x \<le> 2 * (chop_nonneg x * PREC) + PREC"
proof -
  define q r where "q = x div PREC" and "r = x mod PREC"
  have x: "x = q * PREC + r" and r: "0 \<le> r" "r < PREC"
    by (simp_all add: q_def r_def mult.commute)
  have c: "chop_nonneg x = (if 2 * r < PREC then q else if 2 * r > PREC then q + 1
         else if even q then q else q + 1)"
    by (simp add: chop_nonneg_def q_def r_def Let_def)
  show "2 * (chop_nonneg x * PREC) \<le> 2 * x + PREC"
    and "2 * x \<le> 2 * (chop_nonneg x * PREC) + PREC"
    unfolding c using x r by auto
qed

lemma chop_bounds: "2 * (chop x * PREC) \<le> 2 * x + PREC" "2 * x \<le> 2 * (chop x * PREC) + PREC"
  using chop_nonneg_near [of x] chop_nonneg_near [of "- x"] by (auto simp: chop_def)

lemma chop_near: "2 * \<bar>chop x * PREC - x\<bar> \<le> PREC"
  unfolding near_iff using chop_bounds [of x] by blast

lemma chop_abs: "2 * (\<bar>chop x\<bar> * PREC) \<le> 2 * \<bar>x\<bar> + PREC"
  using chop_bounds [of x] by linarith

definition ref_mul :: "dec \<Rightarrow> dec \<Rightarrow> dec result" where
  "ref_mul a b = (if fits_dec (chop (a * b)) then Inr (chop (a * b)) else Inl Panic)"

definition ref_quo :: "dec \<Rightarrow> dec \<Rightarrow> dec result" where
  "ref_quo a b =
     (if b = 0 then Inl Panic
      else let r = chop (tquot (a * PREC * PREC) b)
           in if fits_dec r then Inr r else Inl Panic)"

definition ref_round :: "dec \<Rightarrow> int result" where
  "ref_round a = (if fits_int (chop a) then Inr (chop a) else Inl Panic)"

lemma ref_mul_total:
  assumes "\<bar>a * b\<bar> < (2 ^ 315 - 1) * PREC"
  shows "\<exists>r. ref_mul a b = Inr r"
proof -
  define x where "x = a * b"
  have "2 * (\<bar>chop x\<bar> * PREC) < 2 * ((2 ^ 315 - 1) * PREC) + PREC"
    using chop_abs [of x] assms by (simp add: x_def)
  then have "\<bar>chop (a * b)\<bar> < 2 ^ 315" by (simp add: x_def)
  then show ?thesis by (simp add: ref_mul_def fits_dec_def)
qed

lemma tquot_near: "b \<noteq> 0 \<Longrightarrow> \<bar>tquot a b * b - a\<bar> < \<bar>b\<bar>"
proof -
  assume b: "b \<noteq> 0"
  have "tquot a b * b = sgn a * (\<bar>a\<bar> div \<bar>b\<bar> * \<bar>b\<bar>)"
    using b by (simp add: tquot_def abs_sgn [of b] mult_ac)
  also have "\<bar>a\<bar> div \<bar>b\<bar> * \<bar>b\<bar> = \<bar>a\<bar> - \<bar>a\<bar> mod \<bar>b\<bar>"
    by (simp add: minus_mod_eq_div_mult)
  finally have "tquot a b * b - a = - sgn a * (\<bar>a\<bar> mod \<bar>b\<bar>)"
    by (simp add: right_diff_distrib sgn_mult_abs)
  then have "\<bar>tquot a b * b - a\<bar> = \<bar>sgn a\<bar> * (\<bar>a\<bar> mod \<bar>b\<bar>)"
    using b by (simp add: abs_mult)
  also have "\<dots> \<le> \<bar>a\<bar> mod \<bar>b\<bar>" using b by (simp add: abs_sgn_eq)
  also have "\<dots> < \<bar>b\<bar>" using b by simp
  finally show ?thesis .
qed

lemma less_of_scaled: "2 * (x * PREC) < PREC * y + 2 * y \<Longrightarrow> 0 \<le> y \<Longrightarrow> x < y"
  by linarith

lemma ref_quo_near:
  assumes b: "b \<noteq> 0" and r: "ref_quo a b = Inr r"
  shows "\<bar>r * b - a * PREC\<bar> < \<bar>b\<bar>"
proof -
  define q where "q = tquot (a * PREC * PREC) b"
  have rq: "r = chop q" using r b by (simp add: ref_quo_def q_def Let_def split: if_splits)
  have 1: "\<bar>q * b - a * PREC * PREC\<bar> < \<bar>b\<bar>" unfolding q_def by (rule tquot_near [OF b])
  have "2 * \<bar>r * PREC - q\<bar> * \<bar>b\<bar> \<le> PREC * \<bar>b\<bar>"
    using chop_near [of q] rq by (intro mult_right_mono) simp_all
  then have 2: "2 * \<bar>r * PREC * b - q * b\<bar> \<le> PREC * \<bar>b\<bar>"
    by (simp add: abs_mult flip: left_diff_distrib)
  have "r * PREC * b - a * PREC * PREC = (r * b - a * PREC) * PREC"
    by (simp add: algebra_simps)
  then have "2 * \<bar>(r * b - a * PREC) * PREC\<bar> < PREC * \<bar>b\<bar> + 2 * \<bar>b\<bar>"
    using near_trans [OF 2 1] by (simp only:)
  then have "2 * (\<bar>r * b - a * PREC\<bar> * PREC) < PREC * \<bar>b\<bar> + 2 * \<bar>b\<bar>"
    by (simp only: abs_mult abs_numeral)
  then show ?thesis by (rule less_of_scaled) simp
qed

lemma tquot_abs_le: "b \<noteq> 0 \<Longrightarrow> \<bar>tquot a b\<bar> * \<bar>b\<bar> \<le> \<bar>a\<bar>"
proof -
  assume "b \<noteq> 0"
  have "\<bar>tquot a b\<bar> \<le> \<bar>a\<bar> div \<bar>b\<bar>"
    by (simp add: tquot_def abs_mult abs_sgn_eq pos_imp_zdiv_nonneg_iff)
  then have "\<bar>tquot a b\<bar> * \<bar>b\<bar> \<le> \<bar>a\<bar> div \<bar>b\<bar> * \<bar>b\<bar>"
    by (rule mult_right_mono) simp
  also have "\<dots> \<le> \<bar>a\<bar>"
    using \<open>b \<noteq> 0\<close> by (metis abs_ge_zero add_increasing2 div_mult_mod_eq le_add_same_cancel1
        pos_mod_sign zero_less_abs_iff)
  finally show ?thesis .
qed

lemma ref_quo_total:
  assumes b: "b \<noteq> 0" and a: "\<bar>a\<bar> * PREC < (2 ^ 315 - 1) * \<bar>b\<bar>"
  shows "\<exists>r. ref_quo a b = Inr r"
proof -
  define q where "q = tquot (a * PREC * PREC) b"
  have "\<bar>q\<bar> * \<bar>b\<bar> \<le> \<bar>a\<bar> * PREC * PREC"
    using tquot_abs_le [OF b, of "a * PREC * PREC"] by (simp add: q_def abs_mult)
  also have "\<dots> < (2 ^ 315 - 1) * \<bar>b\<bar> * PREC" using a by simp
  finally have "\<bar>q\<bar> * \<bar>b\<bar> < (2 ^ 315 - 1) * PREC * \<bar>b\<bar>" by simp
  then have "\<bar>q\<bar> < (2 ^ 315 - 1) * PREC"
    by (rule mult_right_less_imp_less) simp
  then have "\<bar>chop q\<bar> < 2 ^ 315" using chop_abs [of q] by simp
  then show ?thesis using b by (simp add: ref_quo_def q_def Let_def fits_dec_def)
qed

lemma ref_round_total: "fits_dec a \<Longrightarrow> \<exists>r. ref_round a = Inr r"
  using chop_abs [of a] by (simp add: ref_round_def fits_dec_def fits_int_def)

lemma ref_truncate_total: "fits_dec a \<Longrightarrow> fits_int (tquot a PREC)"
  using tquot_abs_le [of PREC a] by (simp add: fits_dec_def fits_int_def)


section \<open>Ordered lists of amounts\<close>

type_synonym amounts = "(string \<times> int) list"

fun ins_amt :: "string \<Rightarrow> int \<Rightarrow> amounts \<Rightarrow> amounts" where
  "ins_amt d a [] = [(d, a)]"
| "ins_amt d a ((d', a') # m) =
     (if d < d' then (d, a) # (d', a') # m
      else if d = d' then (d, a + a') # m
      else (d', a') # ins_amt d a m)"

definition amt :: "amounts \<Rightarrow> string \<Rightarrow> int" where
  "amt m d = sum_list (map snd (filter (\<lambda>p. fst p = d) m))"

definition merge_amts :: "amounts \<Rightarrow> amounts \<Rightarrow> amounts" where
  "merge_amts m n = filter (\<lambda>p. snd p \<noteq> 0) (fold (\<lambda>(d, a). ins_amt d a) n m)"

lemma amt_simps [simp]:
  "amt [] d = 0" "amt (p # m) d = (if fst p = d then snd p else 0) + amt m d"
  by (simp_all add: amt_def)

lemma amt_ins [simp]: "amt (ins_amt d a m) e = (if d = e then a else 0) + amt m e"
  by (induction d a m rule: ins_amt.induct) auto

lemma amt_nonzero [simp]: "amt (filter (\<lambda>p. snd p \<noteq> 0) m) d = amt m d"
  by (induction m) auto

lemma amt_merge: "amt (merge_amts m n) d = amt m d + amt n d"
proof -
  have "amt (fold (\<lambda>(d, a). ins_amt d a) n m) d = amt m d + amt n d"
    by (induction n arbitrary: m) auto
  then show ?thesis by (simp add: merge_amts_def)
qed

lemma set_ins_amt: "fst ` set (ins_amt d a m) = insert d (fst ` set m)"
  by (induction d a m rule: ins_amt.induct) auto

lemma sorted_ins_amt: "sorted_wrt (<) (map fst m) \<Longrightarrow> sorted_wrt (<) (map fst (ins_amt d a m))"
proof (induction d a m rule: ins_amt.induct)
  case (1 d a)
  then show ?case by simp
next
  case (2 d a d' a' m)
  consider "d < d'" | "d = d'" | "d' < d" by (rule linorder_cases)
  then show ?case
  proof cases
    case 3
    then have "\<forall>x \<in> fst ` set (ins_amt d a m). d' < x"
      using "2.prems" by (auto simp: set_ins_amt)
    moreover have "sorted_wrt (<) (map fst (ins_amt d a m))"
      using 2 3 by (auto simp: order.asym)
    ultimately show ?thesis using 3 by (auto simp: order.asym)
  qed (use "2.prems" in \<open>auto intro: order.strict_trans\<close>)
qed

lemma pos_ins_amt:
  "0 \<le> a \<Longrightarrow> \<forall>p \<in> set m. 0 \<le> snd p \<Longrightarrow> \<forall>p \<in> set (ins_amt d a m). 0 \<le> snd p"
  by (induction d a m rule: ins_amt.induct) auto

lemma merge_sorted:
  assumes "sorted_wrt (<) (map fst m)"
  shows "sorted_wrt (<) (map fst (merge_amts m n))"
proof -
  have "sorted_wrt (<) (map fst (fold (\<lambda>(d, a). ins_amt d a) n m))"
    using assms by (induction n arbitrary: m) (auto simp: sorted_ins_amt)
  then show ?thesis by (simp add: merge_amts_def sorted_wrt_map sorted_wrt_filter)
qed

lemma merge_pos:
  assumes "\<forall>p \<in> set m. 0 \<le> snd p" and "\<forall>p \<in> set n. 0 \<le> snd p"
  shows "\<forall>p \<in> set (merge_amts m n). 0 < snd p"
proof -
  have "\<forall>p \<in> set (fold (\<lambda>(d, a). ins_amt d a) n m). 0 \<le> snd p"
    using assms
  proof (induction n arbitrary: m)
    case (Cons p n)
    then have "\<forall>q \<in> set (ins_amt (fst p) (snd p) m). 0 \<le> snd q"
      by (intro pos_ins_amt) auto
    with Cons show ?case by (simp add: case_prod_beta)
  qed simp
  then show ?thesis by (auto simp: merge_amts_def less_le)
qed

lemma amt_member:
  assumes "sorted_wrt (<) (map fst m)" and "(d, a) \<in> set m"
  shows "amt m d = a"
  using assms
proof (induction m)
  case (Cons p m)
  have none: "amt m e = 0" if "\<forall>x \<in> set m. fst x \<noteq> e" for e
    using that by (induction m) auto
  show ?case
  proof (cases "p = (d, a)")
    case True
    then have "\<forall>x \<in> set m. fst x \<noteq> d" using Cons.prems by auto
    then show ?thesis using True none by simp
  next
    case False
    then have "fst p \<noteq> d" using Cons.prems by auto
    then show ?thesis using Cons False by simp
  qed
qed simp


section \<open>Coins\<close>

definition of_coin :: "coin \<Rightarrow> string \<times> int" where
  "of_coin c = (Denom c, Amount c)"

definition to_coin :: "string \<times> int \<Rightarrow> coin" where
  "to_coin p = \<lparr>Denom = fst p, Amount = snd p\<rparr>"

definition of_dec_coin :: "deccoin \<Rightarrow> string \<times> int" where
  "of_dec_coin c = (DDenom c, DAmount c)"

definition to_dec_coin :: "string \<times> int \<Rightarrow> deccoin" where
  "to_dec_coin p = \<lparr>DDenom = fst p, DAmount = snd p\<rparr>"

lemma AmountOf_to_coin: "AmountOf (map to_coin m) d = amt m d"
  by (induction m) (auto simp: to_coin_def)

lemma amt_of_coin: "amt (map of_coin cs) d = AmountOf cs d"
  by (induction cs) (auto simp: of_coin_def)

lemma DecAmountOf_to_dec_coin: "DecAmountOf (map to_dec_coin m) d = amt m d"
  by (induction m) (auto simp: to_dec_coin_def)

lemma amt_of_dec_coin: "amt (map of_dec_coin cs) d = DecAmountOf cs d"
  by (induction cs) (auto simp: of_dec_coin_def)

lemma coins_ok_to_coin:
  "coins_ok (map to_coin m) \<longleftrightarrow> sorted_wrt (<) (map fst m) \<and> (\<forall>p \<in> set m. 0 < snd p)"
  by (auto simp: coins_ok_def to_coin_def comp_def)

lemma dec_coins_ok_to_dec_coin:
  "dec_coins_ok (map to_dec_coin m) \<longleftrightarrow> sorted_wrt (<) (map fst m) \<and> (\<forall>p \<in> set m. 0 < snd p)"
  by (auto simp: dec_coins_ok_def to_dec_coin_def comp_def)

lemma coins_ok_of_coin:
  "coins_ok cs \<Longrightarrow> sorted_wrt (<) (map fst (map of_coin cs)) \<and> (\<forall>p \<in> set (map of_coin cs). 0 < snd p)"
  by (auto simp: coins_ok_def of_coin_def comp_def)

lemma dec_coins_ok_of_dec_coin:
  "dec_coins_ok cs \<Longrightarrow>
     sorted_wrt (<) (map fst (map of_dec_coin cs)) \<and> (\<forall>p \<in> set (map of_dec_coin cs). 0 < snd p)"
  by (auto simp: dec_coins_ok_def of_dec_coin_def comp_def)

definition is_letter :: "char \<Rightarrow> bool" where
  "is_letter c \<longleftrightarrow> (CHR ''a'' \<le> c \<and> c \<le> CHR ''z'') \<or> (CHR ''A'' \<le> c \<and> c \<le> CHR ''Z'')"

definition is_digit :: "char \<Rightarrow> bool" where
  "is_digit c \<longleftrightarrow> CHR ''0'' \<le> c \<and> c \<le> CHR ''9''"

definition ref_denom :: "string \<Rightarrow> bool" where
  "ref_denom d = (case d of [] \<Rightarrow> False
     | c # cs \<Rightarrow> is_letter c \<and> 2 \<le> length cs \<and> length cs \<le> 127 \<and>
         list_all (\<lambda>x. is_letter x \<or> is_digit x \<or> x \<in> set ''/:._-'') cs)"

definition ref_new_coins :: "coin list \<Rightarrow> coin list result" where
  "ref_new_coins cs =
     (let m = fold (\<lambda>c. ins_amt (Denom c) (Amount c)) cs []
      in if list_all (\<lambda>c. ref_denom (Denom c) \<and> 0 \<le> Amount c) cs \<and> length m = length cs
         then Inr (map to_coin (filter (\<lambda>p. snd p \<noteq> 0) m)) else Inl Panic)"

definition ref_coins_add :: "coin list \<Rightarrow> coin list \<Rightarrow> coin list result" where
  "ref_coins_add cs cs' =
     (let m = merge_amts (map of_coin cs) (map of_coin cs')
      in if list_all (\<lambda>p. fits_int (snd p)) m then Inr (map to_coin m) else Inl Panic)"

definition ref_coins_sub :: "coin list \<Rightarrow> coin list \<Rightarrow> coin list result" where
  "ref_coins_sub cs cs' =
     (let m = merge_amts (map of_coin cs) (map (\<lambda>c. (Denom c, - Amount c)) cs')
      in if list_all (\<lambda>p. 0 \<le> snd p) m then Inr (map to_coin m) else Inl Panic)"

definition ref_dec_coins_add :: "deccoin list \<Rightarrow> deccoin list \<Rightarrow> deccoin list result" where
  "ref_dec_coins_add cs cs' =
     (let m = merge_amts (map of_dec_coin cs) (map of_dec_coin cs')
      in if list_all (\<lambda>p. fits_dec (snd p)) m then Inr (map to_dec_coin m) else Inl Panic)"

definition ref_dec_coins_mul :: "deccoin list \<Rightarrow> dec \<Rightarrow> deccoin list result" where
  "ref_dec_coins_mul cs r =
     (if list_all (\<lambda>c. fits_dec (chop (DAmount c * r))) cs
      then Inr (map to_dec_coin (filter (\<lambda>p. snd p \<noteq> 0)
             (map (\<lambda>c. (DDenom c, chop (DAmount c * r))) cs)))
      else Inl Panic)"

definition ref_dec_coins_truncate :: "deccoin list \<Rightarrow> (coin list \<times> deccoin list) result" where
  "ref_dec_coins_truncate cs =
     (if list_all (\<lambda>c. ref_denom (DDenom c) \<and> 0 \<le> DAmount c) cs
      then Inr (map to_coin (filter (\<lambda>p. snd p \<noteq> 0) (map (\<lambda>c. (DDenom c, DAmount c div PREC)) cs)),
                map to_dec_coin (filter (\<lambda>p. snd p \<noteq> 0) (map (\<lambda>c. (DDenom c, DAmount c mod PREC)) cs)))
      else Inl Panic)"


section \<open>Addresses, decimal coins, hashing\<close>

definition strip :: "string \<Rightarrow> string \<Rightarrow> address result" where
  "strip pre s = (if take (length pre) s = pre \<and> (length s = length pre + 20 \<or> length s = length pre + 32)
     then Inr (drop (length pre) s) else Inl (Text ''decoding bech32 failed''))"

fun dec_digits :: "string \<Rightarrow> int \<Rightarrow> int" where
  "dec_digits [] n = n"
| "dec_digits (c # cs) n = dec_digits cs (10 * n + (of_char c - 48))"

definition ref_dec_from_str :: "string \<Rightarrow> dec result" where
  "ref_dec_from_str s =
     (let whole = takeWhile (\<lambda>c. c \<noteq> CHR ''.'') s; frac = drop 1 (dropWhile (\<lambda>c. c \<noteq> CHR ''.'') s)
      in if whole \<noteq> [] \<and> length frac \<le> 18 \<and> list_all (\<lambda>c. CHR ''0'' \<le> c \<and> c \<le> CHR ''9'') (whole @ frac)
         then Inr (dec_digits (whole @ frac) 0 * 10 ^ (18 - length frac)) else Inl (Text ''invalid decimal string''))"

definition ref_parse_dec_coin :: "string \<Rightarrow> deccoin result" where
  "ref_parse_dec_coin s =
     (let num = takeWhile (\<lambda>c. is_digit c \<or> c = CHR ''.'') s; d = dropWhile (\<lambda>c. is_digit c \<or> c = CHR ''.'') s;
          ip = takeWhile is_digit num; fp = drop 1 (dropWhile is_digit num)
      in if ip \<noteq> [] \<and> list_all is_digit fp \<and> length fp \<le> 18 \<and> ref_denom d
         then Inr \<lparr>DDenom = d, DAmount = dec_digits (ip @ fp) 0 * 10 ^ (18 - length fp)\<rparr>
         else Inl (Text ''invalid decimal coin expression''))"

definition ref_amount_of :: "coin list \<Rightarrow> string \<Rightarrow> int" where
  "ref_amount_of cs d = (case find (\<lambda>c. Denom c = d) cs of None \<Rightarrow> 0 | Some c \<Rightarrow> Amount c)"

definition ref_sdk :: sdk where
  "ref_sdk = \<lparr>
     dAdd = (\<lambda>a b. if fits_dec (a + b) then Inr (a + b) else Inl Panic),
     dSub = (\<lambda>a b. if fits_dec (a - b) then Inr (a - b) else Inl Panic),
     dMul = ref_mul,
     dQuo = ref_quo,
     dMulInt = (\<lambda>a n. if fits_dec (a * n) then Inr (a * n) else Inl Panic),
     dQuoInt = (\<lambda>a n. if n = 0 then Inl Panic else Inr (tquot a n)),
     dRoundInt = ref_round,
     dTruncateInt = (\<lambda>a. if fits_int (tquot a PREC) then Inr (tquot a PREC) else Inl Panic),
     iAdd = (\<lambda>m n. if fits_int (m + n) then Inr (m + n) else Inl Panic),
     iSub = (\<lambda>m n. if fits_int (m - n) then Inr (m - n) else Inl Panic),
     iQuo = (\<lambda>m n. if n = 0 then Inl Panic else Inr (tquot m n)),
     ValidateDenom = ref_denom,
     NewCoin = (\<lambda>d a. if ref_denom d \<and> 0 \<le> a then Inr \<lparr>Denom = d, Amount = a\<rparr> else Inl Panic),
     NewCoins = ref_new_coins,
     CoinAdd = (\<lambda>c c'. if Denom c = Denom c' \<and> fits_int (Amount c + Amount c')
       then Inr \<lparr>Denom = Denom c, Amount = Amount c + Amount c'\<rparr> else Inl Panic),
     CoinsAdd = ref_coins_add,
     CoinsSub = ref_coins_sub,
     NewDecCoinFromCoin = (\<lambda>c. if ref_denom (Denom c) \<and> 0 \<le> Amount c
       then Inr \<lparr>DDenom = Denom c, DAmount = Amount c * PREC\<rparr> else Inl Panic),
     NewDecCoinFromDec = (\<lambda>d a. if ref_denom d \<and> 0 \<le> a
       then Inr \<lparr>DDenom = d, DAmount = a\<rparr> else Inl Panic),
     DecCoinAdd = (\<lambda>c c'. if DDenom c = DDenom c' \<and> fits_dec (DAmount c + DAmount c')
       then Inr \<lparr>DDenom = DDenom c, DAmount = DAmount c + DAmount c'\<rparr> else Inl Panic),
     DecCoinSub = (\<lambda>c c'. if DDenom c = DDenom c' \<and> DAmount c' \<le> DAmount c
       then Inr \<lparr>DDenom = DDenom c, DAmount = DAmount c - DAmount c'\<rparr> else Inl Panic),
     DecCoinTruncate = (\<lambda>c. if ref_denom (DDenom c) \<and> 0 \<le> DAmount c
       then Inr (\<lparr>Denom = DDenom c, Amount = DAmount c div PREC\<rparr>,
                 \<lparr>DDenom = DDenom c, DAmount = DAmount c mod PREC\<rparr>)
       else Inl Panic),
     DecCoinsAdd = ref_dec_coins_add,
     DecCoinsMulDec = ref_dec_coins_mul,
     DecCoinsTruncate = ref_dec_coins_truncate,
     NewDecCoinsFromCoins = (\<lambda>cs. Inr (map (\<lambda>c. \<lparr>DDenom = Denom c, DAmount = Amount c * PREC\<rparr>) cs)),
     AccFromBech32 = strip ''do1'',
     ValFromBech32 = strip ''dovaloper1'',
     AccString = (\<lambda>a. ''do1'' @ a),
     ValString = (\<lambda>a. ''dovaloper1'' @ a),
     ParseDecCoin = ref_parse_dec_coin,
     tmhashTruncated = (\<lambda>b. take 20 (rev b @ replicate 20 (CHR 0x00))),
     CoinsAmountOf = ref_amount_of,
     CoinsSort = sort_key Denom,
     CoinsIsValid = (\<lambda>cs. sorted_wrt (<) (map Denom cs) \<and> list_all (\<lambda>c. 0 < Amount c \<and> ref_denom (Denom c)) cs),
     CoinIsValid = (\<lambda>c. ref_denom (Denom c) \<and> 0 \<le> Amount c),
     NewDecCoin = (\<lambda>d a. if ref_denom d \<and> 0 \<le> a
       then Inr \<lparr>DDenom = d, DAmount = a * PREC\<rparr> else Inl Panic),
     ValidateAbstract = (\<lambda>title description. if title = [] \<or> description = []
       then Inl (Sdk ''ErrInvalidProposalContent'') else Inr ()),
     TokensToConsensusPower = (\<lambda>t r. if r = 0 \<or> \<not> in_i64 (tquot t r) then Inl Panic else Inr (tquot t r)),
     DecFromStr = ref_dec_from_str,
     dCeil = (\<lambda>a. if fits_dec (a + PREC) then Inr ((- ((- a) div PREC)) * PREC) else Inl Panic),
     CoinsEqual = (\<lambda>cs cs'. sort_key Denom cs = sort_key Denom cs'),
     CoinsIsZero = (\<lambda>cs. list_all (\<lambda>c. Amount c = 0) cs),
     CoinsIsAnyGTE = (\<lambda>cs cs'. list_ex (\<lambda>c. ref_amount_of cs' (Denom c) \<noteq> 0 \<and> ref_amount_of cs' (Denom c) \<le> Amount c) cs),
     CoinsIsAllGTE = (\<lambda>cs cs'. cs' = [] \<or> (cs \<noteq> [] \<and> list_all (\<lambda>c. Amount c \<le> ref_amount_of cs (Denom c)) cs')),
     DecCoinsIsZero = (\<lambda>ds. list_all (\<lambda>c. DAmount c = 0) ds)
   \<rparr>"

lemma ref_sdk_simps [simp]:
  "dAdd ref_sdk = (\<lambda>a b. if fits_dec (a + b) then Inr (a + b) else Inl Panic)"
  "dSub ref_sdk = (\<lambda>a b. if fits_dec (a - b) then Inr (a - b) else Inl Panic)"
  "dMul ref_sdk = ref_mul"
  "dQuo ref_sdk = ref_quo"
  "dMulInt ref_sdk = (\<lambda>a n. if fits_dec (a * n) then Inr (a * n) else Inl Panic)"
  "dQuoInt ref_sdk = (\<lambda>a n. if n = 0 then Inl Panic else Inr (tquot a n))"
  "dRoundInt ref_sdk = ref_round"
  "dTruncateInt ref_sdk = (\<lambda>a. if fits_int (tquot a PREC) then Inr (tquot a PREC) else Inl Panic)"
  "iAdd ref_sdk = (\<lambda>m n. if fits_int (m + n) then Inr (m + n) else Inl Panic)"
  "iSub ref_sdk = (\<lambda>m n. if fits_int (m - n) then Inr (m - n) else Inl Panic)"
  "iQuo ref_sdk = (\<lambda>m n. if n = 0 then Inl Panic else Inr (tquot m n))"
  "ValidateDenom ref_sdk = ref_denom"
  "NewCoin ref_sdk = (\<lambda>d a. if ref_denom d \<and> 0 \<le> a then Inr \<lparr>Denom = d, Amount = a\<rparr> else Inl Panic)"
  "NewCoins ref_sdk = ref_new_coins"
  "CoinAdd ref_sdk = (\<lambda>c c'. if Denom c = Denom c' \<and> fits_int (Amount c + Amount c')
       then Inr \<lparr>Denom = Denom c, Amount = Amount c + Amount c'\<rparr> else Inl Panic)"
  "CoinsAdd ref_sdk = ref_coins_add"
  "CoinsSub ref_sdk = ref_coins_sub"
  "NewDecCoinFromCoin ref_sdk = (\<lambda>c. if ref_denom (Denom c) \<and> 0 \<le> Amount c
       then Inr \<lparr>DDenom = Denom c, DAmount = Amount c * PREC\<rparr> else Inl Panic)"
  "NewDecCoinFromDec ref_sdk = (\<lambda>d a. if ref_denom d \<and> 0 \<le> a
       then Inr \<lparr>DDenom = d, DAmount = a\<rparr> else Inl Panic)"
  "DecCoinAdd ref_sdk = (\<lambda>c c'. if DDenom c = DDenom c' \<and> fits_dec (DAmount c + DAmount c')
       then Inr \<lparr>DDenom = DDenom c, DAmount = DAmount c + DAmount c'\<rparr> else Inl Panic)"
  "DecCoinSub ref_sdk = (\<lambda>c c'. if DDenom c = DDenom c' \<and> DAmount c' \<le> DAmount c
       then Inr \<lparr>DDenom = DDenom c, DAmount = DAmount c - DAmount c'\<rparr> else Inl Panic)"
  "DecCoinTruncate ref_sdk = (\<lambda>c. if ref_denom (DDenom c) \<and> 0 \<le> DAmount c
       then Inr (\<lparr>Denom = DDenom c, Amount = DAmount c div PREC\<rparr>,
                 \<lparr>DDenom = DDenom c, DAmount = DAmount c mod PREC\<rparr>)
       else Inl Panic)"
  "DecCoinsAdd ref_sdk = ref_dec_coins_add"
  "DecCoinsMulDec ref_sdk = ref_dec_coins_mul"
  "DecCoinsTruncate ref_sdk = ref_dec_coins_truncate"
  "NewDecCoinsFromCoins ref_sdk = (\<lambda>cs. Inr (map (\<lambda>c. \<lparr>DDenom = Denom c, DAmount = Amount c * PREC\<rparr>) cs))"
  "AccFromBech32 ref_sdk = strip ''do1''"
  "ValFromBech32 ref_sdk = strip ''dovaloper1''"
  "AccString ref_sdk = (\<lambda>a. ''do1'' @ a)"
  "ValString ref_sdk = (\<lambda>a. ''dovaloper1'' @ a)"
  "ParseDecCoin ref_sdk = ref_parse_dec_coin"
  "tmhashTruncated ref_sdk = (\<lambda>b. take 20 (rev b @ replicate 20 (CHR 0x00)))"
  "CoinsAmountOf ref_sdk = ref_amount_of"
  "CoinsSort ref_sdk = sort_key Denom"
  "CoinsIsValid ref_sdk = (\<lambda>cs. sorted_wrt (<) (map Denom cs) \<and> list_all (\<lambda>c. 0 < Amount c \<and> ref_denom (Denom c)) cs)"
  "CoinIsValid ref_sdk = (\<lambda>c. ref_denom (Denom c) \<and> 0 \<le> Amount c)"
  "NewDecCoin ref_sdk = (\<lambda>d a. if ref_denom d \<and> 0 \<le> a
       then Inr \<lparr>DDenom = d, DAmount = a * PREC\<rparr> else Inl Panic)"
  "ValidateAbstract ref_sdk = (\<lambda>title description. if title = [] \<or> description = []
       then Inl (Sdk ''ErrInvalidProposalContent'') else Inr ())"
  "TokensToConsensusPower ref_sdk = (\<lambda>t r. if r = 0 \<or> \<not> in_i64 (tquot t r) then Inl Panic else Inr (tquot t r))"
  "DecFromStr ref_sdk = ref_dec_from_str"
  "dCeil ref_sdk = (\<lambda>a. if fits_dec (a + PREC) then Inr ((- ((- a) div PREC)) * PREC) else Inl Panic)"
  "CoinsEqual ref_sdk = (\<lambda>cs cs'. sort_key Denom cs = sort_key Denom cs')"
  "CoinsIsZero ref_sdk = (\<lambda>cs. list_all (\<lambda>c. Amount c = 0) cs)"
  "CoinsIsAnyGTE ref_sdk = (\<lambda>cs cs'. list_ex (\<lambda>c. ref_amount_of cs' (Denom c) \<noteq> 0 \<and> ref_amount_of cs' (Denom c) \<le> Amount c) cs)"
  "CoinsIsAllGTE ref_sdk = (\<lambda>cs cs'. cs' = [] \<or> (cs \<noteq> [] \<and> list_all (\<lambda>c. Amount c \<le> ref_amount_of cs (Denom c)) cs'))"
  "DecCoinsIsZero ref_sdk = (\<lambda>ds. list_all (\<lambda>c. DAmount c = 0) ds)"
  by (simp_all add: ref_sdk_def)


section \<open>The laws hold\<close>

interpretation ref: dec_math ref_sdk
proof
  fix a b r
  show "dMul ref_sdk a b = Inr r \<Longrightarrow> 2 * \<bar>r * PREC - a * b\<bar> \<le> PREC"
    using chop_near [of "a * b"] by (auto simp: ref_mul_def split: if_splits)
  show "dRoundInt ref_sdk a = Inr r \<Longrightarrow> 2 * \<bar>r * PREC - a\<bar> \<le> PREC"
    using chop_near [of a] by (auto simp: ref_round_def split: if_splits)
next
  fix a
  show "fits_dec a \<Longrightarrow> dTruncateInt ref_sdk a = Inr (tquot a PREC)"
    using ref_truncate_total [of a] by simp
  show "fits_dec a \<Longrightarrow> \<exists>r. dRoundInt ref_sdk a = Inr r"
    using ref_round_total [of a] by simp
qed (auto simp: ref_mul_total ref_quo_near ref_quo_total,
     auto simp: ref_mul_def ref_quo_def Let_def split: if_splits)

lemma sum_neg_member: "amt m d < 0 \<Longrightarrow> \<exists>p \<in> set m. snd p < 0"
  by (induction m) (force split: if_splits)+

lemma ref_coins_sub_amount:
  assumes "ref_coins_sub cs cs' = Inr r"
  shows "AmountOf r d = AmountOf cs d - AmountOf cs' d"
proof -
  have "amt (map (\<lambda>c. (Denom c, - Amount c)) cs') d = - AmountOf cs' d"
    by (induction cs') auto
  then show ?thesis using assms
    by (auto simp: ref_coins_sub_def Let_def AmountOf_to_coin amt_merge amt_of_coin split: if_splits)
qed

lemma ref_coins_sub_negative:
  assumes "AmountOf cs d < AmountOf cs' d"
  shows "ref_coins_sub cs cs' = Inl Panic"
proof (rule ccontr)
  assume "ref_coins_sub cs cs' \<noteq> Inl Panic"
  then obtain r where r: "ref_coins_sub cs cs' = Inr r"
    and pos: "list_all (\<lambda>p. 0 \<le> snd p) (map of_coin r)"
    by (auto simp: ref_coins_sub_def Let_def list_all_iff of_coin_def to_coin_def split: if_splits)
  have "amt (map of_coin r) d < 0"
    using ref_coins_sub_amount [OF r] assms by (simp add: amt_of_coin)
  then obtain p where "p \<in> set (map of_coin r)" and "snd p < 0"
    using sum_neg_member by blast
  then show False using pos by (force simp: list_all_iff)
qed

lemma ref_coins_add_ok:
  assumes "ref_coins_add cs cs' = Inr r" and "coins_ok cs" and "coins_ok cs'"
  shows "coins_ok r"
proof -
  have "sorted_wrt (<) (map fst (merge_amts (map of_coin cs) (map of_coin cs')))"
    using coins_ok_of_coin [OF assms(2)] by (intro merge_sorted) simp
  moreover have "\<forall>p \<in> set (merge_amts (map of_coin cs) (map of_coin cs')). 0 < snd p"
    using coins_ok_of_coin [OF assms(2)] coins_ok_of_coin [OF assms(3)]
    by (intro merge_pos) (auto simp: less_imp_le)
  ultimately show ?thesis
    using assms(1) by (auto simp: ref_coins_add_def Let_def coins_ok_to_coin split: if_splits)
qed

lemma ref_coins_add_total:
  assumes "coins_ok cs" and "coins_ok cs'"
    and fits: "\<forall>d. fits_int (AmountOf cs d + AmountOf cs' d)"
  shows "\<exists>r. ref_coins_add cs cs' = Inr r \<and> coins_ok r"
proof -
  define m where "m = merge_amts (map of_coin cs) (map of_coin cs')"
  have sorted: "sorted_wrt (<) (map fst m)"
    unfolding m_def using coins_ok_of_coin [OF assms(1)] by (intro merge_sorted) simp
  have pos: "\<forall>p \<in> set m. 0 < snd p"
    unfolding m_def using coins_ok_of_coin [OF assms(1)] coins_ok_of_coin [OF assms(2)]
    by (intro merge_pos) (auto simp: less_imp_le)
  have "fits_int (snd p)" if "p \<in> set m" for p
    using amt_member [OF sorted, of "fst p" "snd p"] that fits
    by (metis amt_merge amt_of_coin m_def prod.collapse)
  then have "list_all (\<lambda>p. fits_int (snd p)) m" by (simp add: list_all_iff)
  then show ?thesis using sorted pos
    by (simp add: ref_coins_add_def Let_def coins_ok_to_coin flip: m_def)
qed

interpretation ref: coin_math ref_sdk
proof
  fix cs cs' r d
  show "CoinsAdd ref_sdk cs cs' = Inr r \<Longrightarrow> AmountOf r d = AmountOf cs d + AmountOf cs' d"
    by (auto simp: ref_coins_add_def Let_def AmountOf_to_coin amt_merge amt_of_coin
        split: if_splits)
  show "CoinsSub ref_sdk cs cs' = Inr r \<Longrightarrow> AmountOf r d = AmountOf cs d - AmountOf cs' d"
    by (simp add: ref_coins_sub_amount)
next
  fix c
  show "NewCoins ref_sdk [c] = (if ValidateDenom ref_sdk (Denom c) \<and> 0 \<le> Amount c
       then Inr (if Amount c = 0 then [] else [c]) else Inl Panic)"
    by (simp add: ref_new_coins_def to_coin_def)
qed (auto simp: ref_coins_sub_negative ref_coins_add_total intro: ref_coins_add_ok)

lemma chop_zero [simp]: "chop 0 = 0"
  by (simp add: chop_def chop_nonneg_def)

lemma chop_nonneg_ge: "0 \<le> x \<Longrightarrow> 0 \<le> chop x"
  using chop_bounds [of x] by linarith

lemma absent_amount: "\<forall>c \<in> set cs. DDenom c \<noteq> d \<Longrightarrow> DecAmountOf cs d = 0"
  by (induction cs) auto

lemma scaled_amount:
  assumes "sorted_wrt (<) (map DDenom cs)" and "f 0 = (0 :: int)"
  shows "amt (map (\<lambda>c. (DDenom c, f (DAmount c))) cs) d = f (DecAmountOf cs d)"
  using assms
proof (induction cs)
  case (Cons c cs)
  show ?case
  proof (cases "DDenom c = d")
    case True
    then have "\<forall>c \<in> set cs. DDenom c \<noteq> d" using Cons.prems by auto
    then have "DecAmountOf cs d = 0" by (rule absent_amount)
    then show ?thesis using Cons True by simp
  qed (use Cons in simp)
qed simp

lemma scaled_ok:
  assumes "sorted_wrt (<) (map DDenom cs)" and "\<forall>c \<in> set cs. 0 \<le> f (DAmount c)"
  defines "m \<equiv> filter (\<lambda>p. snd p \<noteq> 0) (map (\<lambda>c. (DDenom c, f (DAmount c))) cs)"
  shows "sorted_wrt (<) (map fst m) \<and> (\<forall>p \<in> set m. (0 :: int) < snd p)"
  using assms by (auto simp: sorted_wrt_map sorted_wrt_filter less_le)

interpretation ref: dec_coins_math ref_sdk
proof
  fix xs ys zs d
  assume "DecCoinsAdd ref_sdk xs ys = Inr zs" and ok: "dec_coins_ok xs"
    and pos: "\<forall>c \<in> set ys. 0 \<le> DAmount c"
  then have zs: "zs = map to_dec_coin (merge_amts (map of_dec_coin xs) (map of_dec_coin ys))"
    by (auto simp: ref_dec_coins_add_def Let_def split: if_splits)
  have "\<forall>p \<in> set (merge_amts (map of_dec_coin xs) (map of_dec_coin ys)). 0 < snd p"
    using dec_coins_ok_of_dec_coin [OF ok] pos
    by (intro merge_pos) (auto simp: of_dec_coin_def less_imp_le)
  then show "dec_coins_ok zs \<and> DecAmountOf zs d = DecAmountOf xs d + DecAmountOf ys d"
    using dec_coins_ok_of_dec_coin [OF ok] zs
    by (simp add: dec_coins_ok_to_dec_coin DecAmountOf_to_dec_coin amt_merge amt_of_dec_coin merge_sorted)
next
  fix xs r zs d
  assume "DecCoinsMulDec ref_sdk xs r = Inr zs" and ok: "dec_coins_ok xs" and r: "0 \<le> r"
  then have zs: "zs = map to_dec_coin (filter (\<lambda>p. snd p \<noteq> 0) (map (\<lambda>c. (DDenom c, chop (DAmount c * r))) xs))"
    and fits: "list_all (\<lambda>c. fits_dec (chop (DAmount c * r))) xs"
    by (auto simp: ref_dec_coins_mul_def split: if_splits)
  have s: "sorted_wrt (<) (map DDenom xs)" and pos: "\<forall>c \<in> set xs. 0 < DAmount c"
    using ok by (simp_all add: dec_coins_ok_def)
  have "DecAmountOf zs d = chop (DecAmountOf xs d * r)"
    using scaled_amount [OF s, of "\<lambda>a. chop (a * r)" d] by (simp add: zs DecAmountOf_to_dec_coin)
  moreover have "fits_dec (chop (DecAmountOf xs d * r))"
  proof (cases "\<exists>c \<in> set xs. DDenom c = d")
    case True
    then obtain c where "c \<in> set xs" "DDenom c = d" by blast
    then have "amt (map of_dec_coin xs) d = DAmount c"
      using dec_coins_ok_of_dec_coin [OF ok] by (intro amt_member) (auto simp: of_dec_coin_def)
    then show ?thesis using fits \<open>c \<in> set xs\<close> by (auto simp: amt_of_dec_coin list_all_iff)
  qed (simp add: absent_amount fits_dec_def)
  moreover have "dec_coins_ok zs"
    using scaled_ok [OF s, of "\<lambda>a. chop (a * r)"] pos r
    by (auto simp: zs dec_coins_ok_to_dec_coin chop_nonneg_ge less_imp_le)
  ultimately show "dec_coins_ok zs \<and> dMul ref_sdk (DecAmountOf xs d) r = Inr (DecAmountOf zs d)"
    by (simp add: ref_mul_def)
next
  fix xs cs ch d
  assume "DecCoinsTruncate ref_sdk xs = Inr (cs, ch)" and ok: "dec_coins_ok xs"
  then have cs: "cs = map to_coin (filter (\<lambda>p. snd p \<noteq> 0) (map (\<lambda>c. (DDenom c, DAmount c div PREC)) xs))"
    by (auto simp: ref_dec_coins_truncate_def split: if_splits)
  have s: "sorted_wrt (<) (map DDenom xs)" and pos: "\<forall>c \<in> set xs. 0 < DAmount c"
    using ok by (simp_all add: dec_coins_ok_def)
  have "\<forall>c \<in> set xs. 0 \<le> DAmount c div PREC"
    using pos by (simp add: pos_imp_zdiv_nonneg_iff less_imp_le)
  from scaled_ok [OF s this] have "coins_ok cs" unfolding cs coins_ok_to_coin .
  moreover have "AmountOf cs d = DecAmountOf xs d div PREC"
    unfolding cs AmountOf_to_coin amt_nonzero by (rule scaled_amount [OF s]) simp
  ultimately show "coins_ok cs \<and> AmountOf cs d = DecAmountOf xs d div PREC" ..
qed

interpretation ref: bech32 ref_sdk
proof
  fix s a
  show "AccFromBech32 ref_sdk s = Inr a \<Longrightarrow> bech32_form (AccString ref_sdk a) s \<and> addr_ok a"
    and "ValFromBech32 ref_sdk s = Inr a \<Longrightarrow> bech32_form (ValString ref_sdk a) s \<and> addr_ok a"
    by (auto simp: strip_def addr_ok_def bech32_form_def split: if_splits)
      (metis append_take_drop_id append_Cons append_Nil)+
qed (auto simp: strip_def addr_ok_def)


interpretation ref: coin_lists ref_sdk
proof
  fix cs d
  show "set (CoinsSort ref_sdk cs) = set cs \<and> sorted_wrt (\<le>) (map Denom (CoinsSort ref_sdk cs))"
    using sorted_sort_key [of Denom cs] by simp
  show "d \<in> Denom ` set cs \<Longrightarrow> \<exists>c \<in> set cs. Denom c = d \<and> CoinsAmountOf ref_sdk cs d = Amount c"
    by (auto simp: ref_amount_of_def find_None_iff find_Some_iff split: option.splits)
  show "d \<notin> Denom ` set cs \<Longrightarrow> CoinsAmountOf ref_sdk cs d = 0"
    by (auto simp: ref_amount_of_def find_Some_iff split: option.splits)
next
  fix c r
  show "NewCoins ref_sdk [c] = Inr r \<Longrightarrow> CoinsIsValid ref_sdk r"
    by (auto simp: ref_new_coins_def to_coin_def split: if_splits)
next
  fix cs ds d
  assume "NewDecCoinsFromCoins ref_sdk cs = Inr ds" and ok: "coins_ok cs"
  then have ds: "ds = map (\<lambda>c. \<lparr>DDenom = Denom c, DAmount = Amount c * PREC\<rparr>) cs" by simp
  have "DecAmountOf (map (\<lambda>c. \<lparr>DDenom = Denom c, DAmount = Amount c * PREC\<rparr>) cs) d = AmountOf cs d * PREC" for cs
    by (induction cs) (simp_all add: distrib_right)
  then show "dec_coins_ok ds \<and> DecAmountOf ds d = AmountOf cs d * PREC"
    using ok ds by (auto simp: dec_coins_ok_def coins_ok_def comp_def)
qed simp

interpretation ref: coin_order ref_sdk
proof
  fix a r :: dec
  assume "dCeil ref_sdk a = Inr r"
  then have r: "r = - ((- a) div PREC) * PREC" by (simp split: if_splits)
  define q m where "q = (- a) div PREC" and "m = (- a) mod PREC"
  have "q * PREC + m = - a" "0 \<le> m" "m < PREC" unfolding q_def m_def by simp_all
  moreover have "r = - (q * PREC)" by (simp add: r q_def)
  ultimately show "a \<le> r \<and> r < a + PREC \<and> PREC dvd r" by auto
next
  fix cs cs' :: "coin list"
  show "CoinsEqual ref_sdk cs cs' \<Longrightarrow> set cs = set cs'"
    by (metis ref_sdk_simps set_sort)
qed (auto simp: list_all_iff list_ex_iff)

end
