(* ===== verification/Sdk_Keepers.thy ===== *)
theory Sdk_Keepers
  imports Sdk_Reference
begin

text \<open>
  The stateful SDK modules (bank, staking, distribution) as seen through the expected-keeper
  interfaces of the repository's modules. Their state is a type \<open>'w\<close> that stays abstract,
  their operations are the fields of \<open>'w keepers\<close>, and the law the modules rely on is
  the locale \<open>bank\<close>: what every bank operation does to every balance and to the supply.
  \<open>ref_keepers\<close> is a concrete ledger with validators that satisfies it.

  An operation that fails returns no state: the SDK runs every message and every hook on
  a cached store and drops the writes of a run that ends in an error or a panic.
\<close>

record validator =
  OperatorAddress :: string
  IsBonded :: bool
  IsJailed :: bool
  Tokens :: int
  ConsAddr :: "address result"
  CommissionRate :: dec
  MaxRate :: dec
  MaxChangeRate :: dec
  UpdateTime :: int

record metadata =
  Description :: string
  DenomUnits :: "(string \<times> nat \<times> string list) list"
  Base :: string
  Display :: string
  MetaName :: string
  Symbol :: string

record 'w keepers =
  SendCoinsFromAccountToModule :: "'w \<Rightarrow> address \<Rightarrow> string \<Rightarrow> coin list \<Rightarrow> 'w result"
  SendCoinsFromModuleToAccount :: "'w \<Rightarrow> string \<Rightarrow> address \<Rightarrow> coin list \<Rightarrow> 'w result"
  SendCoinsFromModuleToModule :: "'w \<Rightarrow> string \<Rightarrow> string \<Rightarrow> coin list \<Rightarrow> 'w result"
  MintCoins :: "'w \<Rightarrow> string \<Rightarrow> coin list \<Rightarrow> 'w result"
  BurnCoins :: "'w \<Rightarrow> string \<Rightarrow> coin list \<Rightarrow> 'w result"
  GetBalance :: "'w \<Rightarrow> address \<Rightarrow> string \<Rightarrow> coin"
  GetAllBalances :: "'w \<Rightarrow> address \<Rightarrow> coin list"
  GetSupply :: "'w \<Rightarrow> string \<Rightarrow> coin"
  GetModuleAddress :: "string \<Rightarrow> address option"
  GetDenomMetaData :: "'w \<Rightarrow> string \<Rightarrow> metadata option"
  SetDenomMetaData :: "'w \<Rightarrow> metadata \<Rightarrow> 'w"
  Validator :: "'w \<Rightarrow> address \<Rightarrow> validator option result"
  GetConsensusPower :: "validator \<Rightarrow> int \<Rightarrow> int"
  MaxValidators :: "'w \<Rightarrow> int result"
  ValidatorsPowerStore :: "'w \<Rightarrow> address list result"
  PowerReduction :: "'w \<Rightarrow> int"
  TotalBondedTokens :: "'w \<Rightarrow> int result"
  Slash :: "'w \<Rightarrow> address \<Rightarrow> int \<Rightarrow> int \<Rightarrow> dec \<Rightarrow> 'w"
  Jail :: "'w \<Rightarrow> address \<Rightarrow> 'w"
  AllocateTokensToValidator :: "'w \<Rightarrow> validator \<Rightarrow> deccoin list \<Rightarrow> 'w"
  CommunityPool :: "'w \<Rightarrow> deccoin list result"
  SetCommunityPool :: "'w \<Rightarrow> deccoin list \<Rightarrow> 'w"
  GetLastTotalPower :: "'w \<Rightarrow> int result"
  MinCommissionRate :: "'w \<Rightarrow> dec result"
  SetValidator :: "'w \<Rightarrow> validator \<Rightarrow> 'w"
  AllValidators :: "'w \<Rightarrow> validator list"
  Delegations :: "'w \<Rightarrow> address \<Rightarrow> (string \<times> dec) list result"

definition bal :: "'w keepers \<Rightarrow> 'w \<Rightarrow> address \<Rightarrow> string \<Rightarrow> int" where
  "bal N w a d = Amount (GetBalance N w a d)"

definition total_supply :: "'w keepers \<Rightarrow> 'w \<Rightarrow> string \<Rightarrow> int" where
  "total_supply N w d = Amount (GetSupply N w d)"

text \<open>The balance change of moving \<open>cs\<close> from one account to another.\<close>

definition moved :: "'w keepers \<Rightarrow> 'w \<Rightarrow> 'w \<Rightarrow> address \<Rightarrow> address \<Rightarrow> coin list \<Rightarrow> bool" where
  "moved N w w' a b cs \<longleftrightarrow>
     (\<forall>x d. bal N w' x d =
        bal N w x d - (if x = a then AmountOf cs d else 0) + (if x = b then AmountOf cs d else 0)) \<and>
     (\<forall>d. total_supply N w' d = total_supply N w d)"

locale bank =
  fixes N :: "'w keepers"
  assumes account_to_module: "SendCoinsFromAccountToModule N w a m cs = Inr w' \<Longrightarrow>
      \<exists>b. GetModuleAddress N m = Some b \<and> moved N w w' a b cs"
    and module_to_account: "SendCoinsFromModuleToAccount N w m a cs = Inr w' \<Longrightarrow>
      \<exists>b. GetModuleAddress N m = Some b \<and> moved N w w' b a cs"
    and module_to_module: "SendCoinsFromModuleToModule N w m m' cs = Inr w' \<Longrightarrow>
      \<exists>b b'. GetModuleAddress N m = Some b \<and> GetModuleAddress N m' = Some b' \<and> moved N w w' b b' cs"
    and mint: "MintCoins N w m cs = Inr w' \<Longrightarrow>
      \<exists>b. GetModuleAddress N m = Some b \<and>
        (\<forall>x d. bal N w' x d = bal N w x d + (if x = b then AmountOf cs d else 0)) \<and>
        (\<forall>d. total_supply N w' d = total_supply N w d + AmountOf cs d)"
    and burn: "BurnCoins N w m cs = Inr w' \<Longrightarrow>
      \<exists>b. GetModuleAddress N m = Some b \<and>
        (\<forall>x d. bal N w' x d = bal N w x d - (if x = b then AmountOf cs d else 0)) \<and>
        (\<forall>d. total_supply N w' d = total_supply N w d - AmountOf cs d)"
    and send_funded: "GetModuleAddress N m = Some b \<Longrightarrow> GetModuleAddress N m' = Some b' \<Longrightarrow>
      coins_ok cs \<Longrightarrow> (\<forall>d. AmountOf cs d \<le> bal N w b d) \<Longrightarrow>
      \<exists>w'. SendCoinsFromModuleToModule N w m m' cs = Inr w'"

text \<open>The community pool of the distribution module is an account of what its module account holds.\<close>

locale fee_pool =
  fixes N :: "'w keepers"
  assumes pool_set: "CommunityPool N (SetCommunityPool N w ds) = Inr ds"
    and pool_bal: "bal N (SetCommunityPool N w ds) x d = bal N w x d"
    and pool_supply: "total_supply N (SetCommunityPool N w ds) d = total_supply N w d"
    and mint_pool: "MintCoins N w m cs = Inr w' \<Longrightarrow> CommunityPool N w' = CommunityPool N w"
    and burn_pool: "BurnCoins N w m cs = Inr w' \<Longrightarrow> CommunityPool N w' = CommunityPool N w"
    and send_pool: "SendCoinsFromModuleToModule N w m m' cs = Inr w' \<Longrightarrow> CommunityPool N w' = CommunityPool N w"

text \<open>
  Validators are stored under their operator address; the power of the last block and the
  parameters are stored apart from them.
\<close>

locale validator_set =
  fixes N :: "'w keepers"
  assumes set_validator: "u \<in> set (AllValidators N w) \<Longrightarrow> OperatorAddress u = OperatorAddress v \<Longrightarrow>
      set (AllValidators N (SetValidator N w v)) =
        insert v {u \<in> set (AllValidators N w). OperatorAddress u \<noteq> OperatorAddress v}"
    and power_kept: "GetLastTotalPower N (SetValidator N w v) = GetLastTotalPower N w"
    and reduction_kept: "PowerReduction N (SetValidator N w v) = PowerReduction N w"
    and min_rate_kept: "MinCommissionRate N (SetValidator N w v) = MinCommissionRate N w"


section \<open>A reference ledger\<close>

record ref_world =
  rw_denoms :: "string list"
  rw_balances :: "(address \<times> string) \<Rightarrow> int"
  rw_supplies :: "string \<Rightarrow> int"
  rw_meta :: "string \<Rightarrow> metadata option"
  rw_vals :: "(address \<times> validator) list"
  rw_slashes :: "(address \<times> int \<times> int \<times> dec) list"
  rw_outstanding :: "(string \<times> deccoin list) list"
  rw_pool :: "deccoin list"
  rw_last_power :: int
  rw_delegations :: "address \<Rightarrow> (string \<times> dec) list"

definition ref_module :: "string \<Rightarrow> address option" where
  "ref_module m = Some (take 20 (m @ replicate 20 (CHR ''-'')))"

definition ref_move :: "ref_world \<Rightarrow> address \<Rightarrow> address \<Rightarrow> coin list \<Rightarrow> ref_world result" where
  "ref_move w a b cs =
     (if list_all (\<lambda>c. 0 \<le> Amount c \<and> AmountOf cs (Denom c) \<le> rw_balances w (a, Denom c)) cs
      then Inr (w\<lparr>rw_balances := (\<lambda>(x, d). rw_balances w (x, d) -
              (if x = a then AmountOf cs d else 0) + (if x = b then AmountOf cs d else 0))\<rparr>)
      else Inl (Sdk ''insufficient funds''))"

definition ref_mint :: "ref_world \<Rightarrow> address \<Rightarrow> coin list \<Rightarrow> ref_world result" where
  "ref_mint w b cs =
     Inr (w\<lparr>rw_balances := (\<lambda>(x, d). rw_balances w (x, d) + (if x = b then AmountOf cs d else 0)),
            rw_supplies := (\<lambda>d. rw_supplies w d + AmountOf cs d)\<rparr>)"

definition ref_burn :: "ref_world \<Rightarrow> address \<Rightarrow> coin list \<Rightarrow> ref_world result" where
  "ref_burn w b cs =
     (if list_all (\<lambda>c. 0 \<le> Amount c \<and> AmountOf cs (Denom c) \<le> rw_balances w (b, Denom c)) cs
      then Inr (w\<lparr>rw_balances := (\<lambda>(x, d). rw_balances w (x, d) - (if x = b then AmountOf cs d else 0)),
                  rw_supplies := (\<lambda>d. rw_supplies w d - AmountOf cs d)\<rparr>)
      else Inl (Sdk ''insufficient funds''))"

definition module_addr :: "string \<Rightarrow> address" where
  "module_addr m = the (ref_module m)"

definition ref_validator :: "ref_world \<Rightarrow> address \<Rightarrow> validator option result" where
  "ref_validator w a = (case map_of (rw_vals w) a of
     None \<Rightarrow> Inl (Sdk ''validator does not exist'') | Some v \<Rightarrow> Inr (Some v))"

definition ref_keepers :: "ref_world keepers" where
  "ref_keepers = \<lparr>
     SendCoinsFromAccountToModule = (\<lambda>w a m cs. ref_move w a (module_addr m) cs),
     SendCoinsFromModuleToAccount = (\<lambda>w m a cs. ref_move w (module_addr m) a cs),
     SendCoinsFromModuleToModule = (\<lambda>w m m' cs. ref_move w (module_addr m) (module_addr m') cs),
     MintCoins = (\<lambda>w m cs. ref_mint w (module_addr m) cs),
     BurnCoins = (\<lambda>w m cs. ref_burn w (module_addr m) cs),
     GetBalance = (\<lambda>w a d. \<lparr>Denom = d, Amount = rw_balances w (a, d)\<rparr>),
     GetAllBalances = (\<lambda>w a. map (\<lambda>d. \<lparr>Denom = d, Amount = rw_balances w (a, d)\<rparr>)
       (filter (\<lambda>d. rw_balances w (a, d) \<noteq> 0) (rw_denoms w))),
     GetSupply = (\<lambda>w d. \<lparr>Denom = d, Amount = rw_supplies w d\<rparr>),
     GetModuleAddress = ref_module,
     GetDenomMetaData = (\<lambda>w d. rw_meta w d),
     SetDenomMetaData = (\<lambda>w m. w\<lparr>rw_meta := (rw_meta w)(Base m \<mapsto> m)\<rparr>),
     Validator = ref_validator,
     GetConsensusPower = (\<lambda>v r. if IsBonded v then tquot (Tokens v) r else 0),
     MaxValidators = (\<lambda>w. Inr 100),
     ValidatorsPowerStore = (\<lambda>w. Inr (map fst (rw_vals w))),
     PowerReduction = (\<lambda>w. 1000000),
     TotalBondedTokens = (\<lambda>w. Inr (sum_list (map (\<lambda>(a, v). if IsBonded v then Tokens v else 0) (rw_vals w)))),
     Slash = (\<lambda>w a h p f. w\<lparr>rw_slashes := rw_slashes w @ [(a, h, p, f)]\<rparr>),
     Jail = (\<lambda>w a. w\<lparr>rw_vals := map (\<lambda>(x, v). (x, if ConsAddr v = Inr a then v\<lparr>IsJailed := True\<rparr> else v)) (rw_vals w)\<rparr>),
     AllocateTokensToValidator = (\<lambda>w v cs. w\<lparr>rw_outstanding := rw_outstanding w @ [(OperatorAddress v, cs)]\<rparr>),
     CommunityPool = (\<lambda>w. Inr (rw_pool w)),
     SetCommunityPool = (\<lambda>w cs. w\<lparr>rw_pool := cs\<rparr>),
     GetLastTotalPower = (\<lambda>w. Inr (rw_last_power w)),
     MinCommissionRate = (\<lambda>w. Inr 50000000000000000),
     SetValidator = (\<lambda>w v. w\<lparr>rw_vals := map (\<lambda>(x, u). (x, if OperatorAddress u = OperatorAddress v then v else u)) (rw_vals w)\<rparr>),
     AllValidators = (\<lambda>w. map snd (rw_vals w)),
     Delegations = (\<lambda>w a. Inr (rw_delegations w a))
   \<rparr>"

lemma ref_keepers_simps [simp]:
  "SendCoinsFromAccountToModule ref_keepers = (\<lambda>w a m cs. ref_move w a (module_addr m) cs)"
  "SendCoinsFromModuleToAccount ref_keepers = (\<lambda>w m a cs. ref_move w (module_addr m) a cs)"
  "SendCoinsFromModuleToModule ref_keepers = (\<lambda>w m m' cs. ref_move w (module_addr m) (module_addr m') cs)"
  "MintCoins ref_keepers = (\<lambda>w m cs. ref_mint w (module_addr m) cs)"
  "BurnCoins ref_keepers = (\<lambda>w m cs. ref_burn w (module_addr m) cs)"
  "GetBalance ref_keepers = (\<lambda>w a d. \<lparr>Denom = d, Amount = rw_balances w (a, d)\<rparr>)"
  "GetAllBalances ref_keepers = (\<lambda>w a. map (\<lambda>d. \<lparr>Denom = d, Amount = rw_balances w (a, d)\<rparr>)
       (filter (\<lambda>d. rw_balances w (a, d) \<noteq> 0) (rw_denoms w)))"
  "GetSupply ref_keepers = (\<lambda>w d. \<lparr>Denom = d, Amount = rw_supplies w d\<rparr>)"
  "GetModuleAddress ref_keepers = ref_module"
  "GetDenomMetaData ref_keepers = (\<lambda>w d. rw_meta w d)"
  "SetDenomMetaData ref_keepers = (\<lambda>w m. w\<lparr>rw_meta := (rw_meta w)(Base m \<mapsto> m)\<rparr>)"
  "Validator ref_keepers = ref_validator"
  "GetConsensusPower ref_keepers = (\<lambda>v r. if IsBonded v then tquot (Tokens v) r else 0)"
  "MaxValidators ref_keepers = (\<lambda>w. Inr 100)"
  "ValidatorsPowerStore ref_keepers = (\<lambda>w. Inr (map fst (rw_vals w)))"
  "PowerReduction ref_keepers = (\<lambda>w. 1000000)"
  "TotalBondedTokens ref_keepers = (\<lambda>w. Inr (sum_list (map (\<lambda>(a, v). if IsBonded v then Tokens v else 0) (rw_vals w))))"
  "Slash ref_keepers = (\<lambda>w a h p f. w\<lparr>rw_slashes := rw_slashes w @ [(a, h, p, f)]\<rparr>)"
  "Jail ref_keepers = (\<lambda>w a. w\<lparr>rw_vals := map (\<lambda>(x, v). (x, if ConsAddr v = Inr a then v\<lparr>IsJailed := True\<rparr> else v)) (rw_vals w)\<rparr>)"
  "AllocateTokensToValidator ref_keepers = (\<lambda>w v cs. w\<lparr>rw_outstanding := rw_outstanding w @ [(OperatorAddress v, cs)]\<rparr>)"
  "CommunityPool ref_keepers = (\<lambda>w. Inr (rw_pool w))"
  "SetCommunityPool ref_keepers = (\<lambda>w cs. w\<lparr>rw_pool := cs\<rparr>)"
  "GetLastTotalPower ref_keepers = (\<lambda>w. Inr (rw_last_power w))"
  "MinCommissionRate ref_keepers = (\<lambda>w. Inr 50000000000000000)"
  "SetValidator ref_keepers = (\<lambda>w v. w\<lparr>rw_vals := map (\<lambda>(x, u). (x, if OperatorAddress u = OperatorAddress v then v else u)) (rw_vals w)\<rparr>)"
  "AllValidators ref_keepers = (\<lambda>w. map snd (rw_vals w))"
  "Delegations ref_keepers = (\<lambda>w a. Inr (rw_delegations w a))"
  by (simp_all add: ref_keepers_def)

lemma ref_module_addr: "GetModuleAddress ref_keepers m = Some (module_addr m)"
  by (simp add: ref_module_def module_addr_def)

lemma ref_bal: "bal ref_keepers w a d = rw_balances w (a, d)"
  by (simp add: bal_def)

lemma ref_supply: "total_supply ref_keepers w d = rw_supplies w d"
  by (simp add: total_supply_def)

lemma ref_move_moved: "ref_move w a b cs = Inr w' \<Longrightarrow> moved ref_keepers w w' a b cs"
  by (auto simp: ref_move_def moved_def ref_bal ref_supply split: if_splits)

interpretation ref: bank ref_keepers
proof
  fix w :: ref_world and m m' b b' cs
  assume "GetModuleAddress ref_keepers m = Some b" and "coins_ok cs"
    and "\<forall>d. AmountOf cs d \<le> bal ref_keepers w b d"
  then have "list_all (\<lambda>c. 0 \<le> Amount c \<and> AmountOf cs (Denom c) \<le> rw_balances w (module_addr m, Denom c)) cs"
    by (simp add: list_all_iff ref_bal coins_ok_def less_imp_le module_addr_def)
  then show "\<exists>w'. SendCoinsFromModuleToModule ref_keepers w m m' cs = Inr w'"
    by (simp add: ref_move_def)
next
  fix w w' :: ref_world and m a cs
  show "SendCoinsFromAccountToModule ref_keepers w a m cs = Inr w' \<Longrightarrow>
      \<exists>b. GetModuleAddress ref_keepers m = Some b \<and> moved ref_keepers w w' a b cs"
    and "SendCoinsFromModuleToAccount ref_keepers w m a cs = Inr w' \<Longrightarrow>
      \<exists>b. GetModuleAddress ref_keepers m = Some b \<and> moved ref_keepers w w' b a cs"
    using ref_move_moved by (auto simp: ref_module_def module_addr_def)
next
  fix w w' :: ref_world and m m' cs
  show "SendCoinsFromModuleToModule ref_keepers w m m' cs = Inr w' \<Longrightarrow>
      \<exists>b b'. GetModuleAddress ref_keepers m = Some b \<and> GetModuleAddress ref_keepers m' = Some b' \<and>
        moved ref_keepers w w' b b' cs"
    using ref_move_moved by (auto simp: ref_module_def module_addr_def)
qed (auto simp: ref_module_def module_addr_def ref_mint_def ref_burn_def
       bal_def total_supply_def split: if_splits)

interpretation ref: fee_pool ref_keepers
  by unfold_locales
    (auto simp: bal_def total_supply_def ref_mint_def ref_burn_def ref_move_def split: if_splits)

interpretation ref: validator_set ref_keepers
proof
  fix u v :: validator and w :: ref_world
  assume "u \<in> set (AllValidators ref_keepers w)" and "OperatorAddress u = OperatorAddress v"
  then show "set (AllValidators ref_keepers (SetValidator ref_keepers w v)) =
      insert v {u \<in> set (AllValidators ref_keepers w). OperatorAddress u \<noteq> OperatorAddress v}"
    by (auto simp: image_iff split: if_splits) force+
qed simp_all


section \<open>Example worlds\<close>

text \<open>Concrete accounts and validators for the worked examples of the components.\<close>

definition alice :: address where "alice = ''aaaaaaaaaaaaaaaaaaaa''"
definition bob :: address where "bob = ''bbbbbbbbbbbbbbbbbbbb''"

definition ex_validator :: "address \<Rightarrow> int \<Rightarrow> validator" where
  "ex_validator a n = \<lparr>OperatorAddress = ''dovaloper1'' @ a, IsBonded = True, IsJailed = False,
     Tokens = n * 1000000, ConsAddr = Inr a, CommissionRate = 50000000000000000,
     MaxRate = PREC, MaxChangeRate = 10000000000000000, UpdateTime = 0\<rparr>"

fun ex_balances :: "(address \<times> string \<times> int) list \<Rightarrow> address \<times> string \<Rightarrow> int" where
  "ex_balances [] p = 0"
| "ex_balances ((a, d, n) # bs) p = (if p = (a, d) then n else 0) + ex_balances bs p"

definition ex_world :: "(address \<times> string \<times> int) list \<Rightarrow> (address \<times> int) list \<Rightarrow> ref_world" where
  "ex_world bs vs = \<lparr>rw_denoms = [''udo'', ''udodx'', ''uusd''],
     rw_balances = ex_balances bs,
     rw_supplies = (\<lambda>d. sum_list (map (\<lambda>(a, d', n). if d' = d then n else 0) bs)),
     rw_meta = (\<lambda>_. None),
     rw_vals = map (\<lambda>(a, n). (a, ex_validator a n)) vs,
     rw_slashes = [], rw_outstanding = [], rw_pool = [],
     rw_last_power = sum_list (map snd vs), rw_delegations = (\<lambda>_. [])\<rparr>"

end
