(* ===== verification/Core_Types.thy ===== *)
theory Core_Types
  imports Sdk_Keepers
begin

text \<open>
  The constants and helpers of \<open>src/types\<close>: denoms, block counts, fork heights, the
  period test every end-blocker uses, and the address check.
\<close>

definition MicroDoDenom :: string where "MicroDoDenom = ''udo''"
definition MicroDODxDenom :: string where "MicroDODxDenom = ''udodx''"
definition MicroSDRDenom :: string where "MicroSDRDenom = ''usdr''"
definition MicroUSDDenom :: string where "MicroUSDDenom = ''uusd''"
definition MicroUnit :: int where "MicroUnit = 1000000"

definition ColumbusChainID :: string where "ColumbusChainID = ''cookie-1''"
definition RebelChainID :: string where "RebelChainID = ''rebel-2''"

definition BlocksPerMinute :: int where "BlocksPerMinute = 60"
definition BlocksPerHour :: int where "BlocksPerHour = BlocksPerMinute * 60"
definition BlocksPerDay :: int where "BlocksPerDay = BlocksPerHour * 24"
definition BlocksPerWeek :: int where "BlocksPerWeek = BlocksPerDay * 7"
definition BlocksPerMonth :: int where "BlocksPerMonth = BlocksPerDay * 30"
definition BlocksPerYear :: int where "BlocksPerYear = BlocksPerDay * 365"

definition ReplayWriteOptimizationHeight :: int where "ReplayWriteOptimizationHeight = 2547000"
definition DoCommunityGovernanceHeight :: int where "DoCommunityGovernanceHeight = 1540500"

lemmas block_counts = BlocksPerMinute_def BlocksPerHour_def BlocksPerDay_def BlocksPerWeek_def
  BlocksPerMonth_def BlocksPerYear_def

text \<open>The remainder by zero of a period of length zero panics.\<close>

definition IsPeriodLastBlock :: "int \<Rightarrow> int \<Rightarrow> bool result" where
  "IsPeriodLastBlock height blocksPerPeriod =
     (if blocksPerPeriod = 0 then Inl Panic
      else Inr (u64 (u64 height + 1) mod blocksPerPeriod = 0))"

definition AddressVerifier :: "bytes \<Rightarrow> unit result" where
  "AddressVerifier bz = fail_if (length bz \<noteq> 20) (Text ''incorrect address length'')"

lemma IsPeriodLastBlock_Inr:
  "0 < n \<Longrightarrow> 0 \<le> h \<Longrightarrow> h < 2 ^ 63 \<Longrightarrow> IsPeriodLastBlock h n = Inr ((h + 1) mod n = 0)"
  by (simp add: IsPeriodLastBlock_def u64_def)

lemma AddressVerifier_addr: "AddressVerifier bz = Inr () \<Longrightarrow> addr_ok bz"
  by (auto simp: AddressVerifier_def addr_ok_def)

end
