(* ===== verification/Go_Lib.thy ===== *)
theory Go_Lib
  imports Prelude "HOL-Library.Sublist"
begin

text \<open>
  The parts of Go's standard library the modules use: \<open>strings.TrimSpace\<close> and
  \<open>strings.Split\<close>, \<open>encoding/hex\<close>, and the round trip through \<open>float64\<close> by which the oracle
  takes a square root (\<open>strconv.ParseFloat\<close>, \<open>math.Sqrt\<close>, \<open>fmt.Sprintf("%f")\<close>).
\<close>


section \<open>Strings\<close>

text \<open>The UTF-8 encodings of the code points for which \<open>unicode.IsSpace\<close> holds.\<close>

definition spaces :: "string list" where
  "spaces = [[CHR 0x09], [CHR 0x0A], [CHR 0x0B], [CHR 0x0C], [CHR 0x0D], [CHR 0x20],
     [CHR 0xC2, CHR 0x85], [CHR 0xC2, CHR 0xA0], [CHR 0xE1, CHR 0x9A, CHR 0x80],
     [CHR 0xE2, CHR 0x80, CHR 0x80], [CHR 0xE2, CHR 0x80, CHR 0x81], [CHR 0xE2, CHR 0x80, CHR 0x82],
     [CHR 0xE2, CHR 0x80, CHR 0x83], [CHR 0xE2, CHR 0x80, CHR 0x84], [CHR 0xE2, CHR 0x80, CHR 0x85],
     [CHR 0xE2, CHR 0x80, CHR 0x86], [CHR 0xE2, CHR 0x80, CHR 0x87], [CHR 0xE2, CHR 0x80, CHR 0x88],
     [CHR 0xE2, CHR 0x80, CHR 0x89], [CHR 0xE2, CHR 0x80, CHR 0x8A], [CHR 0xE2, CHR 0x80, CHR 0xA8],
     [CHR 0xE2, CHR 0x80, CHR 0xA9], [CHR 0xE2, CHR 0x80, CHR 0xAF], [CHR 0xE2, CHR 0x81, CHR 0x9F],
     [CHR 0xE3, CHR 0x80, CHR 0x80]]"

function trim_left :: "string list \<Rightarrow> string \<Rightarrow> string" where
  "trim_left sp s =
     (case find (\<lambda>p. p \<noteq> [] \<and> take (length p) s = p) sp of
        None \<Rightarrow> s
      | Some p \<Rightarrow> trim_left sp (drop (length p) s))"
  by pat_completeness auto
termination
proof (relation "measure (\<lambda>(sp, s). length s)", goal_cases)
  case (2 sp s p)
  then have "p \<noteq> []" and "take (length p) s = p"
    by (auto simp: find_Some_iff)
  then have "length p \<le> length s" by (metis length_take min.cobounded1)
  with \<open>p \<noteq> []\<close> have "length (drop (length p) s) < length s"
    by (cases p) simp_all
  then show ?case by simp
qed simp

definition TrimSpace :: "string \<Rightarrow> string" where
  "TrimSpace s = rev (trim_left (map rev spaces) (rev (trim_left spaces s)))"

fun split_comma :: "string \<Rightarrow> string list" where
  "split_comma [] = [[]]"
| "split_comma (c # s) =
     (if c = CHR '','' then [] # split_comma s
      else case split_comma s of [] \<Rightarrow> [[c]] | w # ws \<Rightarrow> (c # w) # ws)"

lemma split_comma_nonempty: "split_comma s \<noteq> []"
  by (induction s rule: split_comma.induct) (auto split: list.splits)

lemma split_comma_no_comma: "w \<in> set (split_comma s) \<Longrightarrow> CHR '','' \<notin> set w"
  by (induction s arbitrary: w rule: split_comma.induct) (auto split: list.splits if_splits)


section \<open>Hexadecimal\<close>

definition hex_digit :: "nat \<Rightarrow> char" where
  "hex_digit n = (if n < 10 then char_of (48 + n) else char_of (87 + n))"

definition hex_value :: "char \<Rightarrow> nat option" where
  "hex_value c = (let n = of_char c :: nat in
     if 48 \<le> n \<and> n \<le> 57 then Some (n - 48)
     else if 97 \<le> n \<and> n \<le> 102 then Some (n - 87)
     else if 65 \<le> n \<and> n \<le> 70 then Some (n - 55)
     else None)"

fun hex_encode :: "bytes \<Rightarrow> string" where
  "hex_encode [] = []"
| "hex_encode (b # bs) = hex_digit (of_char b div 16) # hex_digit (of_char b mod 16) # hex_encode bs"

fun hex_decode :: "string \<Rightarrow> bytes option" where
  "hex_decode [] = Some []"
| "hex_decode [c] = None"
| "hex_decode (c # d # s) =
     (case (hex_value c, hex_value d, hex_decode s) of
        (Some h, Some l, Some bs) \<Rightarrow> Some (char_of (16 * h + l) # bs)
      | _ \<Rightarrow> None)"

lemma hex_value_digit: "n < 16 \<Longrightarrow> hex_value (hex_digit n) = Some n"
  by (auto simp: hex_value_def hex_digit_def Let_def)

lemma hex_decode_encode: "hex_decode (hex_encode bs) = Some bs"
proof (induction bs)
  case (Cons b bs)
  have "of_char b div 16 < (16 :: nat)"
    using nat_of_char_less_256 [of b] by (simp only: div_less_iff_less_mult)
  moreover have "of_char b mod 16 < (16 :: nat)" by simp
  ultimately show ?case
    using Cons by (simp add: hex_value_digit mult_div_mod_eq [of 16 "of_char b"])
qed simp

lemma hex_decode_length: "hex_decode s = Some bs \<Longrightarrow> length s = 2 * length bs"
  by (induction s arbitrary: bs rule: hex_decode.induct) (auto split: option.splits prod.splits)

lemma hex_encode_length: "length (hex_encode bs) = 2 * length bs"
  by (induction bs) simp_all


section \<open>The square root through \<open>float64\<close>\<close>

text \<open>
  A finite positive \<open>float64\<close> is a pair \<open>(m, e)\<close> standing for \<open>m * 2 ^ e\<close>. Every step rounds
  to the nearest 53-bit significand, ties to even, as IEEE 754 and \<open>strconv\<close> do. The
  decimals that reach this code are multiples of \<open>10 ^ -18\<close> below \<open>2 ^ 315\<close>, far from the
  subnormal and the overflow range.
\<close>

definition round_div :: "int \<Rightarrow> int \<Rightarrow> int" where
  "round_div n d =
     (let q = n div d; r = n mod d
      in if 2 * r < d \<or> (2 * r = d \<and> even q) then q else q + 1)"

function bit_count :: "int \<Rightarrow> int" where
  "bit_count n = (if n \<le> 0 then 0 else 1 + bit_count (n div 2))"
  by pat_completeness auto
termination
  by (relation "measure nat") auto

declare bit_count.simps [simp del]

definition BitLen :: "int \<Rightarrow> int" where
  "BitLen x = bit_count \<bar>x\<bar>"

definition scale_num :: "int \<Rightarrow> int \<Rightarrow> int" where
  "scale_num n s = (if s < 0 then n * 2 ^ nat (- s) else n)"

definition scale_den :: "int \<Rightarrow> int \<Rightarrow> int" where
  "scale_den d s = (if s < 0 then d else d * 2 ^ nat s)"

text \<open>\<open>strconv.ParseFloat\<close> of the decimal \<open>n / d\<close>.\<close>

definition parse_float :: "int \<Rightarrow> int \<Rightarrow> int \<times> int" where
  "parse_float n d =
     (if n = 0 then (0, 0)
      else let s0 = BitLen n - BitLen d - 53;
               s = (if scale_num n s0 < 2 ^ 53 * scale_den d s0 then s0 else s0 + 1)
           in (round_div (scale_num n s) (scale_den d s), s))"

primrec isqrt_bits :: "nat \<Rightarrow> int \<Rightarrow> int \<Rightarrow> int" where
  "isqrt_bits 0 x r = r"
| "isqrt_bits (Suc b) x r = isqrt_bits b x (if (r + 2 ^ b)\<^sup>2 \<le> x then r + 2 ^ b else r)"

definition isqrt :: "int \<Rightarrow> int" where
  "isqrt x = isqrt_bits 64 x 0"

text \<open>\<open>math.Sqrt\<close>: the exponent is made even, the root taken with spare bits and rounded.\<close>

definition float_sqrt :: "int \<times> int \<Rightarrow> int \<times> int" where
  "float_sqrt f =
     (let (m, e) = f
      in if m = 0 then (0, 0)
         else let (m', e') = (if even e then (m, e) else (2 * m, e - 1));
                  x = m' * 2 ^ 60; r = isqrt x; sh = nat (BitLen r - 53);
                  q = r div 2 ^ sh; t = r mod 2 ^ sh; h = 2 ^ (sh - 1);
                  up = t > h \<or> (t = h \<and> (r * r < x \<or> odd q))
              in (if up then q + 1 else q, int sh - 30 + e' div 2))"

text \<open>\<open>fmt.Sprintf("%f")\<close>: six decimals, here as the integer of millionths.\<close>

definition format_micro :: "int \<times> int \<Rightarrow> int" where
  "format_micro f = (let (m, e) = f in round_div (scale_num (m * 1000000) (- e)) (scale_den 1 (- e)))"

definition sqrt_micro :: "int \<Rightarrow> int \<Rightarrow> int" where
  "sqrt_micro n d = format_micro (float_sqrt (parse_float n d))"

lemma isqrt_bits_spec:
  "0 \<le> r \<Longrightarrow> r\<^sup>2 \<le> x \<Longrightarrow> x < (r + 2 ^ b)\<^sup>2 \<Longrightarrow>
     (isqrt_bits b x r)\<^sup>2 \<le> x \<and> x < (isqrt_bits b x r + 1)\<^sup>2 \<and> 0 \<le> isqrt_bits b x r"
proof (induction b arbitrary: r)
  case (Suc b)
  show ?case
  proof (cases "(r + 2 ^ b)\<^sup>2 \<le> x")
    case True
    then show ?thesis using Suc.prems Suc.IH [of "r + 2 ^ b"] by (simp add: add.assoc)
  next
    case False
    then show ?thesis using Suc.prems Suc.IH [of r] by simp
  qed
qed simp

lemma isqrt_spec:
  "0 \<le> x \<Longrightarrow> x < 2 ^ 128 \<Longrightarrow> (isqrt x)\<^sup>2 \<le> x \<and> x < (isqrt x + 1)\<^sup>2 \<and> 0 \<le> isqrt x"
  unfolding isqrt_def by (rule isqrt_bits_spec) simp_all

lemma round_div_nonneg: "0 \<le> n \<Longrightarrow> 0 < d \<Longrightarrow> 0 \<le> round_div n d"
  by (auto simp: round_div_def Let_def pos_imp_zdiv_nonneg_iff)

lemma parse_float_nonneg: "0 \<le> n \<Longrightarrow> 0 < d \<Longrightarrow> 0 \<le> fst (parse_float n d)"
  by (auto simp: parse_float_def Let_def scale_num_def scale_den_def intro!: round_div_nonneg)

lemma isqrt_bits_nonneg: "0 \<le> r \<Longrightarrow> 0 \<le> isqrt_bits b x r"
  by (induction b arbitrary: r) simp_all

lemma float_sqrt_nonneg: "0 \<le> fst f \<Longrightarrow> 0 \<le> fst (float_sqrt f)"
  by (auto simp: float_sqrt_def Let_def case_prod_beta isqrt_def isqrt_bits_nonneg
      pos_imp_zdiv_nonneg_iff add_nonneg_nonneg split: if_splits)

lemma sqrt_micro_nonneg: "0 \<le> n \<Longrightarrow> 0 < d \<Longrightarrow> 0 \<le> sqrt_micro n d"
proof -
  assume "0 \<le> n" "0 < d"
  then have "0 \<le> fst (float_sqrt (parse_float n d))"
    by (intro float_sqrt_nonneg parse_float_nonneg)
  then show ?thesis
    by (auto simp: sqrt_micro_def format_micro_def Let_def case_prod_beta scale_num_def scale_den_def
        intro!: round_div_nonneg)
qed

lemma sqrt_micro_zero [simp]: "sqrt_micro 0 d = 0"
  by (simp add: sqrt_micro_def parse_float_def float_sqrt_def format_micro_def round_div_def
      scale_num_def scale_den_def)

end
