(* ===== verification/Oracle_Types.thy ===== *)
theory Oracle_Types
  imports Core_Types Go_Lib "HOL-Library.Multiset"
begin

text \<open>
  \<open>src/x/oracle/types\<close>: ballots with their weighted median and standard deviation, vote
  hashes, the rate-tuple parser, the store keys, the parameters and the stateless
  validation of the three messages.
\<close>


section \<open>Errors (errors.go)\<close>

abbreviation ErrInvalidExchangeRate :: error where "ErrInvalidExchangeRate \<equiv> Registered ''oracle'' 2"
abbreviation ErrNoVotingPermission :: error where "ErrNoVotingPermission \<equiv> Registered ''oracle'' 5"
abbreviation ErrInvalidHash :: error where "ErrInvalidHash \<equiv> Registered ''oracle'' 6"
abbreviation ErrInvalidHashLength :: error where "ErrInvalidHashLength \<equiv> Registered ''oracle'' 7"
abbreviation ErrVerificationFailed :: error where "ErrVerificationFailed \<equiv> Registered ''oracle'' 8"
abbreviation ErrRevealPeriodMissMatch :: error where "ErrRevealPeriodMissMatch \<equiv> Registered ''oracle'' 9"
abbreviation ErrInvalidSaltLength :: error where "ErrInvalidSaltLength \<equiv> Registered ''oracle'' 10"
abbreviation ErrNoAggregatePrevote :: error where "ErrNoAggregatePrevote \<equiv> Registered ''oracle'' 11"
abbreviation ErrNoAggregateVote :: error where "ErrNoAggregateVote \<equiv> Registered ''oracle'' 12"
abbreviation ErrNoTobinTax :: error where "ErrNoTobinTax \<equiv> Registered ''oracle'' 13"
abbreviation ErrUnknownDenom :: error where "ErrUnknownDenom \<equiv> Registered ''oracle'' 14"


section \<open>Store keys (keys.go)\<close>

text \<open>\<open>address.MustLengthPrefix\<close> puts the length of the address, one byte, in front.\<close>

definition GetExchangeRateKey :: "string \<Rightarrow> bytes" where
  "GetExchangeRateKey denom = CHR 0x01 # denom"

definition GetFeederDelegationKey :: "address \<Rightarrow> bytes" where
  "GetFeederDelegationKey v = CHR 0x02 # char_of (length v) # v"

definition GetMissCounterKey :: "address \<Rightarrow> bytes" where
  "GetMissCounterKey v = CHR 0x03 # char_of (length v) # v"

definition GetAggregateDoRatePrevoteKey :: "address \<Rightarrow> bytes" where
  "GetAggregateDoRatePrevoteKey v = CHR 0x04 # char_of (length v) # v"

definition GetAggregateDoRateVoteKey :: "address \<Rightarrow> bytes" where
  "GetAggregateDoRateVoteKey v = CHR 0x05 # char_of (length v) # v"

definition GetTobinTaxKey :: "string \<Rightarrow> bytes" where
  "GetTobinTaxKey d = CHR 0x06 # d"

definition ExtractDenomFromTobinTaxKey :: "bytes \<Rightarrow> string" where
  "ExtractDenomFromTobinTaxKey key = drop 1 key"

lemmas oracle_keys = GetExchangeRateKey_def GetFeederDelegationKey_def GetMissCounterKey_def
  GetAggregateDoRatePrevoteKey_def GetAggregateDoRateVoteKey_def GetTobinTaxKey_def

lemma oracle_key_inject [key_simps, simp]:
  "GetExchangeRateKey d = GetExchangeRateKey d' \<longleftrightarrow> d = d'"
  "GetFeederDelegationKey v = GetFeederDelegationKey v' \<longleftrightarrow> v = v'"
  "GetMissCounterKey v = GetMissCounterKey v' \<longleftrightarrow> v = v'"
  "GetAggregateDoRatePrevoteKey v = GetAggregateDoRatePrevoteKey v' \<longleftrightarrow> v = v'"
  "GetAggregateDoRateVoteKey v = GetAggregateDoRateVoteKey v' \<longleftrightarrow> v = v'"
  "GetTobinTaxKey d = GetTobinTaxKey d' \<longleftrightarrow> d = d'"
  by (auto simp: oracle_keys)

lemma oracle_key_read [key_simps, simp]:
  "drop (Suc 0) (GetExchangeRateKey d) = d"
  "drop 2 (GetFeederDelegationKey v) = v"
  "drop 2 (GetMissCounterKey v) = v"
  "drop 2 (GetAggregateDoRatePrevoteKey v) = v"
  "drop 2 (GetAggregateDoRateVoteKey v) = v"
  "ExtractDenomFromTobinTaxKey (GetTobinTaxKey d) = d"
  by (simp_all add: oracle_keys ExtractDenomFromTobinTaxKey_def)


section \<open>Ballots (ballot.go)\<close>

record VoteForTally =
  vDenom :: string
  vExchangeRate :: dec
  vVoter :: address
  vPower :: int

type_synonym ExchangeRateBallot = "VoteForTally list"

definition NewVoteForTally :: "dec \<Rightarrow> string \<Rightarrow> address \<Rightarrow> int \<Rightarrow> VoteForTally" where
  "NewVoteForTally rate denom voter pw =
     \<lparr>vDenom = denom, vExchangeRate = rate, vVoter = voter, vPower = pw\<rparr>"

definition ToMap :: "ExchangeRateBallot \<Rightarrow> (address \<rightharpoonup> dec)" where
  "ToMap pb = fold (\<lambda>vote m. if 0 < vExchangeRate vote
     then m(vVoter vote \<mapsto> vExchangeRate vote) else m) pb Map.empty"

definition cross_vote :: "sdk \<Rightarrow> (address \<rightharpoonup> dec) \<Rightarrow> VoteForTally \<Rightarrow> VoteForTally result" where
  "cross_vote K bases vote =
     (case bases (vVoter vote) of
        Some exchangeRateRT \<Rightarrow>
          if 0 < vExchangeRate vote
          then rbind (dQuo K exchangeRateRT (vExchangeRate vote))
                 (\<lambda>r. Inr (vote\<lparr>vExchangeRate := r\<rparr>))
          else Inr (vote\<lparr>vExchangeRate := 0, vPower := 0\<rparr>)
      | None \<Rightarrow> Inr (vote\<lparr>vExchangeRate := 0, vPower := 0\<rparr>))"

definition ToCrossRate :: "sdk \<Rightarrow> (address \<rightharpoonup> dec) \<Rightarrow> ExchangeRateBallot \<Rightarrow> ExchangeRateBallot result" where
  "ToCrossRate K bases pb = map_res (cross_vote K bases) pb"

text \<open>
  \<open>sort.Sort\<close> with \<open>Less\<close> on the exchange rates. It leaves the order of votes with equal rates
  open; the stable order stands for any of them, and that the median is the same for every
  ascending order of the ballot is shown below.
\<close>

definition sort_ballot :: "ExchangeRateBallot \<Rightarrow> ExchangeRateBallot" where
  "sort_ballot pb = sort_key vExchangeRate pb"

definition ToCrossRateWithSort ::
    "sdk \<Rightarrow> (address \<rightharpoonup> dec) \<Rightarrow> ExchangeRateBallot \<Rightarrow> ExchangeRateBallot result" where
  "ToCrossRateWithSort K bases pb = rbind (map_res (cross_vote K bases) pb) (\<lambda>cb. Inr (sort_ballot cb))"

definition Power :: "ExchangeRateBallot \<Rightarrow> int" where
  "Power pb = fold (\<lambda>vote totalPower. i64 (totalPower + vPower vote)) pb 0"

fun median_loop :: "int \<Rightarrow> int \<Rightarrow> ExchangeRateBallot \<Rightarrow> dec" where
  "median_loop half pivot [] = 0"
| "median_loop half pivot (v # pb) =
     (let pivot' = i64 (pivot + vPower v)
      in if pivot' \<ge> half then vExchangeRate v else median_loop half pivot' pb)"

definition WeightedMedian :: "ExchangeRateBallot \<Rightarrow> dec" where
  "WeightedMedian pb =
     (let totalPower = Power pb
      in if 0 < length pb then median_loop (tquot totalPower 2) 0 pb else 0)"

definition sum_squares :: "sdk \<Rightarrow> dec \<Rightarrow> ExchangeRateBallot \<Rightarrow> dec result" where
  "sum_squares K median pb =
     fold_res (\<lambda>v s. rbind (dSub K (vExchangeRate v) median) (\<lambda>deviation.
                rbind (dMul K deviation deviation) (\<lambda>sq. dAdd K s sq))) pb 0"

text \<open>The deferred \<open>recover\<close> turns a panic of the decimals into zero.\<close>

definition StandardDeviation :: "sdk \<Rightarrow> ExchangeRateBallot \<Rightarrow> dec \<Rightarrow> dec" where
  "StandardDeviation K pb median =
     (if length pb = 0 then 0
      else case rbind (sum_squares K median pb) (\<lambda>s. dQuoInt K s (int (length pb))) of
             Inl _ \<Rightarrow> 0
           | Inr variance \<Rightarrow> sqrt_micro variance PREC * 10 ^ 12)"

record Claim =
  cPower :: int
  cWeight :: int
  cWinCount :: int
  cRecipient :: address

definition NewClaim :: "int \<Rightarrow> int \<Rightarrow> int \<Rightarrow> address \<Rightarrow> Claim" where
  "NewClaim pw weight winCount recipient =
     \<lparr>cPower = pw, cWeight = weight, cWinCount = winCount, cRecipient = recipient\<rparr>"


section \<open>Votes (vote.go) and vote hashes (hash.go)\<close>

record DoRateTuple =
  tDenom :: string
  tExchangeRate :: dec

record AggregateDoRatePrevote =
  pHash :: string
  pVoter :: string
  pSubmitBlock :: int

record AggregateDoRateVote =
  aExchangeRateTuples :: "DoRateTuple list"
  aVoter :: string

definition NewAggregateDoRatePrevote :: "sdk \<Rightarrow> bytes \<Rightarrow> address \<Rightarrow> int \<Rightarrow> AggregateDoRatePrevote" where
  "NewAggregateDoRatePrevote K hash voter submitBlock =
     \<lparr>pHash = hex_encode hash, pVoter = ValString K voter, pSubmitBlock = submitBlock\<rparr>"

definition NewAggregateDoRateVote :: "sdk \<Rightarrow> DoRateTuple list \<Rightarrow> address \<Rightarrow> AggregateDoRateVote" where
  "NewAggregateDoRateVote K exchangeRateTuples voter =
     \<lparr>aExchangeRateTuples = exchangeRateTuples, aVoter = ValString K voter\<rparr>"

fun parse_tuples :: "sdk \<Rightarrow> string set \<Rightarrow> string list \<Rightarrow> DoRateTuple list result" where
  "parse_tuples K seen [] = Inr []"
| "parse_tuples K seen (t # ts) =
     rbind (ParseDecCoin K t) (\<lambda>decCoin.
       if DDenom decCoin \<in> seen then Inl (Text ''duplicated denom'')
       else rbind (parse_tuples K (insert (DDenom decCoin) seen) ts) (\<lambda>tuples.
              Inr (\<lparr>tDenom = DDenom decCoin, tExchangeRate = DAmount decCoin\<rparr> # tuples)))"

definition ParseDoRateTuples :: "sdk \<Rightarrow> string \<Rightarrow> DoRateTuple list result" where
  "ParseDoRateTuples K tuplesStr =
     (let s = TrimSpace tuplesStr
      in if length s = 0 then Inr [] else parse_tuples K {} (split_comma s))"

definition GetAggregateVoteHash :: "sdk \<Rightarrow> string \<Rightarrow> string \<Rightarrow> address \<Rightarrow> bytes" where
  "GetAggregateVoteHash K salt exchangeRatesStr voter =
     tmhashTruncated K (salt @ '':'' @ exchangeRatesStr @ '':'' @ ValString K voter)"

definition AggregateVoteHashFromHexString :: "string \<Rightarrow> bytes result" where
  "AggregateVoteHashFromHexString s =
     (case hex_decode s of None \<Rightarrow> Inl (Text ''encoding/hex'') | Some h \<Rightarrow> Inr h)"

definition hash_String :: "bytes \<Rightarrow> string" where
  "hash_String h = hex_encode h"


section \<open>Parameters (params.go)\<close>

record DenomEntry =
  Name :: string
  TobinTax :: dec

record OracleParams =
  VotePeriod :: int
  VoteThreshold :: dec
  RewardBand :: dec
  RewardDistributionWindow :: int
  Whitelist :: "DenomEntry list"
  SlashFraction :: dec
  SlashWindow :: int
  MinValidPerWindow :: dec

definition oracle_DefaultParams :: OracleParams where
  "oracle_DefaultParams = \<lparr>
     VotePeriod = BlocksPerMinute div 2,
     VoteThreshold = NewDecWithPrec 50 2,
     RewardBand = NewDecWithPrec 2 2,
     RewardDistributionWindow = BlocksPerYear,
     Whitelist = [\<lparr>Name = MicroDoDenom, TobinTax = 0\<rparr>,
                  \<lparr>Name = MicroUSDDenom, TobinTax = NewDecWithPrec 25 4\<rparr>],
     SlashFraction = NewDecWithPrec 1 4,
     SlashWindow = BlocksPerWeek,
     MinValidPerWindow = NewDecWithPrec 5 2\<rparr>"

definition check_whitelist :: "DenomEntry list \<Rightarrow> unit result" where
  "check_whitelist wl = fold_res (\<lambda>d _.
     rbind (fail_if (OneDec < TobinTax d \<or> TobinTax d < 0)
              (Text ''oracle parameter Whitelist Denom must have TobinTax between [0, 1]'')) (\<lambda>_.
     fail_if (length (Name d) = 0) (Text ''oracle parameter Whitelist Denom must have name''))) wl ()"

definition oracle_Params_Validate :: "OracleParams \<Rightarrow> unit result" where
  "oracle_Params_Validate p =
     rbind (fail_if (VotePeriod p = 0) (Text ''oracle parameter VotePeriod must be > 0'')) (\<lambda>_.
     rbind (fail_if (VoteThreshold p \<le> NewDecWithPrec 33 2)
              (Text ''oracle parameter VoteThreshold must be greater than 33 percent'')) (\<lambda>_.
     rbind (fail_if (OneDec < RewardBand p \<or> RewardBand p < 0)
              (Text ''oracle parameter RewardBand must be between [0, 1]'')) (\<lambda>_.
     rbind (fail_if (RewardDistributionWindow p < VotePeriod p)
              (Text ''oracle parameter RewardDistributionWindow must be greater than or equal with VotePeriod'')) (\<lambda>_.
     rbind (fail_if (OneDec < SlashFraction p \<or> SlashFraction p < 0)
              (Text ''oracle parameter SlashFraction must be between [0, 1]'')) (\<lambda>_.
     rbind (fail_if (SlashWindow p < VotePeriod p)
              (Text ''oracle parameter SlashWindow must be greater than or equal with VotePeriod'')) (\<lambda>_.
     rbind (fail_if (OneDec < MinValidPerWindow p \<or> MinValidPerWindow p < 0)
              (Text ''oracle parameter MinValidPerWindow must be between [0, 1]'')) (\<lambda>_.
     check_whitelist (Whitelist p))))))))"

text \<open>The validators of single parameters, run when governance changes one of them.\<close>

definition validateVotePeriod :: "int \<Rightarrow> unit result" where
  "validateVotePeriod v = fail_if (v = 0) (Text ''vote period must be positive'')"

definition validateVoteThreshold :: "dec \<Rightarrow> unit result" where
  "validateVoteThreshold v =
     rbind (fail_if (v < NewDecWithPrec 33 2) (Text ''vote threshold must be bigger than 33%'')) (\<lambda>_.
     fail_if (OneDec < v) (Text ''vote threshold too large''))"

definition validateRewardBand :: "dec \<Rightarrow> unit result" where
  "validateRewardBand v =
     rbind (fail_if (v < 0) (Text ''reward band must be positive'')) (\<lambda>_.
     fail_if (OneDec < v) (Text ''reward band is too large''))"

definition validateRewardDistributionWindow :: "int \<Rightarrow> unit result" where
  "validateRewardDistributionWindow v =
     fail_if (v = 0) (Text ''reward distribution window must be positive'')"

definition validateWhitelist :: "DenomEntry list \<Rightarrow> unit result" where
  "validateWhitelist v = check_whitelist v"

definition validateSlashFraction :: "dec \<Rightarrow> unit result" where
  "validateSlashFraction v =
     rbind (fail_if (v < 0) (Text ''slash fraction must be positive'')) (\<lambda>_.
     fail_if (OneDec < v) (Text ''slash fraction is too large''))"

definition validateSlashWindow :: "int \<Rightarrow> unit result" where
  "validateSlashWindow v = fail_if (v = 0) (Text ''slash window must be positive'')"

definition validateMinValidPerWindow :: "dec \<Rightarrow> unit result" where
  "validateMinValidPerWindow v =
     rbind (fail_if (v < 0) (Text ''min valid per window must be positive'')) (\<lambda>_.
     fail_if (OneDec < v) (Text ''min valid per window is too large''))"

lemmas oracle_validators = validateVotePeriod_def validateVoteThreshold_def validateRewardBand_def
  validateRewardDistributionWindow_def validateWhitelist_def validateSlashFraction_def
  validateSlashWindow_def validateMinValidPerWindow_def


section \<open>Messages (msgs.go)\<close>

record MsgAggregateDoRatePrevote =
  prevoteHash :: string
  prevoteFeeder :: string
  prevoteValidator :: string

record MsgAggregateDoRateVote =
  voteSalt :: string
  voteExchangeRates :: string
  voteFeeder :: string
  voteValidator :: string

record MsgDelegateFeedConsent =
  feedOperator :: string
  feedDelegate :: string

definition prevote_ValidateBasic :: "sdk \<Rightarrow> MsgAggregateDoRatePrevote \<Rightarrow> unit result" where
  "prevote_ValidateBasic K msg =
     rbind (wrap_err ErrInvalidHash (AggregateVoteHashFromHexString (prevoteHash msg))) (\<lambda>_.
     rbind (fail_if (length (prevoteHash msg) \<noteq> 20 * 2) ErrInvalidHashLength) (\<lambda>_.
     rbind (wrap_err (Sdk ''ErrInvalidAddress'') (AccFromBech32 K (prevoteFeeder msg))) (\<lambda>_.
     rbind (wrap_err (Sdk ''ErrInvalidAddress'') (ValFromBech32 K (prevoteValidator msg))) (\<lambda>_.
     Inr ()))))"

definition vote_ValidateBasic :: "sdk \<Rightarrow> MsgAggregateDoRateVote \<Rightarrow> unit result" where
  "vote_ValidateBasic K msg =
     rbind (wrap_err (Sdk ''ErrInvalidAddress'') (AccFromBech32 K (voteFeeder msg))) (\<lambda>_.
     rbind (wrap_err (Sdk ''ErrInvalidAddress'') (ValFromBech32 K (voteValidator msg))) (\<lambda>_.
     rbind (fail_if (length (voteExchangeRates msg) = 0) (Sdk ''ErrUnknownRequest'')) (\<lambda>_.
     rbind (fail_if (4096 < length (voteExchangeRates msg)) (Sdk ''ErrInvalidRequest'')) (\<lambda>_.
     rbind (wrap_err (Sdk ''ErrInvalidCoins'') (ParseDoRateTuples K (voteExchangeRates msg))) (\<lambda>exchangeRates.
     rbind (fold_res (\<lambda>t _. fail_if (255 + 60 < BitLen (tExchangeRate t)) ErrInvalidExchangeRate) exchangeRates ()) (\<lambda>_.
     fail_if (64 < length (voteSalt msg) \<or> length (voteSalt msg) < 1) ErrInvalidSaltLength))))))"

definition feed_ValidateBasic :: "sdk \<Rightarrow> MsgDelegateFeedConsent \<Rightarrow> unit result" where
  "feed_ValidateBasic K msg =
     rbind (wrap_err (Sdk ''ErrInvalidAddress'') (ValFromBech32 K (feedOperator msg))) (\<lambda>_.
     rbind (wrap_err (Sdk ''ErrInvalidAddress'') (AccFromBech32 K (feedDelegate msg))) (\<lambda>_.
     Inr ()))"

text \<open>\<open>GetSigners\<close> panics on an address that does not parse.\<close>

definition prevote_GetSigners :: "sdk \<Rightarrow> MsgAggregateDoRatePrevote \<Rightarrow> address list result" where
  "prevote_GetSigners K msg = rbind (must (AccFromBech32 K (prevoteFeeder msg))) (\<lambda>feeder. Inr [feeder])"

definition vote_GetSigners :: "sdk \<Rightarrow> MsgAggregateDoRateVote \<Rightarrow> address list result" where
  "vote_GetSigners K msg = rbind (must (AccFromBech32 K (voteFeeder msg))) (\<lambda>feeder. Inr [feeder])"

definition feed_GetSigners :: "sdk \<Rightarrow> MsgDelegateFeedConsent \<Rightarrow> address list result" where
  "feed_GetSigners K msg = rbind (must (ValFromBech32 K (feedOperator msg))) (\<lambda>operator. Inr [operator])"


section \<open>The weighted median\<close>

definition pow_sum :: "ExchangeRateBallot \<Rightarrow> int" where
  "pow_sum pb = sum_list (map vPower pb)"

definition pow_below :: "dec \<Rightarrow> ExchangeRateBallot \<Rightarrow> int" where
  "pow_below r pb = pow_sum (filter (\<lambda>v. vExchangeRate v < r) pb)"

definition pow_upto :: "dec \<Rightarrow> ExchangeRateBallot \<Rightarrow> int" where
  "pow_upto r pb = pow_sum (filter (\<lambda>v. vExchangeRate v \<le> r) pb)"

definition ballot_ok :: "ExchangeRateBallot \<Rightarrow> bool" where
  "ballot_ok pb \<longleftrightarrow> (\<forall>v \<in> set pb. 0 \<le> vPower v) \<and> pow_sum pb < 2 ^ 63"

lemma pow_simps [simp]:
  "pow_sum [] = 0" "pow_sum (v # pb) = vPower v + pow_sum pb"
  "pow_below r [] = 0" "pow_upto r [] = 0"
  "pow_below r (v # pb) = (if vExchangeRate v < r then vPower v else 0) + pow_below r pb"
  "pow_upto r (v # pb) = (if vExchangeRate v \<le> r then vPower v else 0) + pow_upto r pb"
  by (simp_all add: pow_sum_def pow_below_def pow_upto_def)

lemma pow_sum_nonneg: "\<forall>v \<in> set pb. 0 \<le> vPower v \<Longrightarrow> 0 \<le> pow_sum pb"
  by (induction pb) auto

lemma pow_below_zero: "\<forall>v \<in> set pb. r \<le> vExchangeRate v \<Longrightarrow> pow_below r pb = 0"
  by (induction pb) auto

lemma pow_upto_nonneg: "\<forall>v \<in> set pb. 0 \<le> vPower v \<Longrightarrow> 0 \<le> pow_upto r pb"
  by (induction pb) auto

lemma pow_sum_mset: "pow_sum pb = sum_mset (image_mset vPower (mset pb))"
  by (induction pb) simp_all

lemma pow_mset:
  assumes "mset pb = mset pb'"
  shows "pow_sum pb = pow_sum pb'" "pow_below r pb = pow_below r pb'" "pow_upto r pb = pow_upto r pb'"
  using assms by (simp_all add: pow_below_def pow_upto_def pow_sum_mset)

lemma Power_fold:
  "\<forall>v \<in> set pb. 0 \<le> vPower v \<Longrightarrow> 0 \<le> acc \<Longrightarrow> acc + pow_sum pb < 2 ^ 63 \<Longrightarrow>
     fold (\<lambda>vote totalPower. i64 (totalPower + vPower vote)) pb acc = acc + pow_sum pb"
proof (induction pb arbitrary: acc)
  case (Cons v pb)
  have "0 \<le> pow_sum pb" using Cons.prems by (intro pow_sum_nonneg) simp
  then have "i64 (acc + vPower v) = acc + vPower v"
    using Cons.prems by (intro i64_id_nonneg) auto
  then show ?case using Cons by simp
qed simp

lemma Power_eq: "ballot_ok pb \<Longrightarrow> Power pb = pow_sum pb"
  using Power_fold [of pb 0] by (simp add: Power_def ballot_ok_def)

lemma median_loop_spec:
  "sorted_wrt (\<le>) (map vExchangeRate pb) \<Longrightarrow> \<forall>v \<in> set pb. 0 \<le> vPower v \<Longrightarrow> 0 \<le> pivot \<Longrightarrow>
     pivot + pow_sum pb < 2 ^ 63 \<Longrightarrow> pivot < half \<Longrightarrow> half \<le> pivot + pow_sum pb \<Longrightarrow>
     median_loop half pivot pb \<in> vExchangeRate ` set pb \<and>
     pivot + pow_below (median_loop half pivot pb) pb < half \<and>
     half \<le> pivot + pow_upto (median_loop half pivot pb) pb"
proof (induction pb arbitrary: pivot)
  case (Cons v pb)
  have sum: "0 \<le> pow_sum pb" using Cons.prems by (intro pow_sum_nonneg) simp
  then have p: "i64 (pivot + vPower v) = pivot + vPower v"
    using Cons.prems by (intro i64_id_nonneg) auto
  have above: "\<forall>w \<in> set pb. vExchangeRate v \<le> vExchangeRate w"
    using Cons.prems by auto
  show ?case
  proof (cases "pivot + vPower v \<ge> half")
    case True
    then show ?thesis
      using p above Cons.prems pow_upto_nonneg [of pb "vExchangeRate v"] by (simp add: pow_below_zero)
  next
    case False
    let ?r = "median_loop half (pivot + vPower v) pb"
    have IH: "?r \<in> vExchangeRate ` set pb \<and> pivot + vPower v + pow_below ?r pb < half \<and>
        half \<le> pivot + vPower v + pow_upto ?r pb"
      using Cons.prems False by (intro Cons.IH) auto
    then have "vExchangeRate v \<le> ?r" using above by auto
    with IH show ?thesis using False p Cons.prems by simp
  qed
qed simp

lemma median_unique:
  assumes nonneg: "\<forall>v \<in> set pb. 0 \<le> vPower v"
    and "pow_below r pb < half" "half \<le> pow_upto r pb"
    and "pow_below r' pb < half" "half \<le> pow_upto r' pb"
  shows "r = r'"
proof -
  have le: "pow_upto a pb \<le> pow_below b pb" if "a < b" for a b
    using nonneg that by (induction pb) auto
  show ?thesis using le [of r r'] le [of r' r] assms by (cases r r' rule: linorder_cases) auto
qed

lemma WeightedMedian_spec:
  assumes sorted: "sorted_wrt (\<le>) (map vExchangeRate pb)" and ok: "ballot_ok pb"
    and two: "2 \<le> pow_sum pb"
  shows "WeightedMedian pb \<in> vExchangeRate ` set pb \<and>
     pow_below (WeightedMedian pb) pb < pow_sum pb div 2 \<and>
     pow_sum pb div 2 \<le> pow_upto (WeightedMedian pb) pb"
proof -
  have "pb \<noteq> []" using two by auto
  then have m: "WeightedMedian pb = median_loop (pow_sum pb div 2) 0 pb"
    using two by (simp add: WeightedMedian_def Power_eq [OF ok] tquot_nonneg)
  show ?thesis unfolding m
    using median_loop_spec [of pb 0 "pow_sum pb div 2"] sorted ok two by (simp add: ballot_ok_def)
qed

lemma WeightedMedian_small:
  assumes "ballot_ok (v # pb)" and "pow_sum (v # pb) < 2"
  shows "WeightedMedian (v # pb) = vExchangeRate v"
proof -
  have nonneg: "0 \<le> vPower v" "0 \<le> pow_sum pb"
    using assms(1) by (auto simp: ballot_ok_def intro!: pow_sum_nonneg)
  then have "0 \<le> pow_sum (v # pb)" by simp
  then have "tquot (Power (v # pb)) 2 = 0"
    using assms nonneg by (simp add: Power_eq tquot_nonneg del: pow_simps)
  moreover have "i64 (0 + vPower v) = vPower v"
    using nonneg assms(2) by (simp add: i64_id_nonneg)
  ultimately show ?thesis using nonneg by (simp add: WeightedMedian_def)
qed

text \<open>
  The median depends only on which votes were cast: any two sorted arrangements of the
  same votes have the same one. So the result of the unstable \<open>sort.Sort\<close> does not matter.
\<close>

lemma WeightedMedian_perm:
  assumes sorted: "sorted_wrt (\<le>) (map vExchangeRate pb)" "sorted_wrt (\<le>) (map vExchangeRate pb')"
    and ok: "ballot_ok pb" and perm: "mset pb = mset pb'"
  shows "WeightedMedian pb = WeightedMedian pb'"
proof -
  have ok': "ballot_ok pb'"
    using ok pow_mset(1) [OF perm] mset_eq_setD [OF perm] by (simp add: ballot_ok_def)
  show ?thesis
  proof (cases "2 \<le> pow_sum pb")
    case True
    then have "2 \<le> pow_sum pb'" using pow_mset(1) [OF perm] by simp
    note spec = WeightedMedian_spec [OF sorted(1) ok True]
      and spec' = WeightedMedian_spec [OF sorted(2) ok' this, folded pow_mset [OF perm]]
    show ?thesis
      using spec spec' ok by (intro median_unique [of pb _ "pow_sum pb div 2"]) (auto simp: ballot_ok_def)
  next
    case False
    have rates: "map vExchangeRate pb = map vExchangeRate pb'"
      using properties_for_sort [of "map vExchangeRate pb" "map vExchangeRate pb'"] sorted perm
      by (simp add: sorted_sort_id)
    show ?thesis
    proof (cases pb)
      case Nil
      then show ?thesis using perm by simp
    next
      case (Cons v vs)
      then obtain v' vs' where pb': "pb' = v' # vs'" using rates by (cases pb') auto
      have "WeightedMedian pb = vExchangeRate v" and "WeightedMedian pb' = vExchangeRate v'"
        using False pow_mset(1) [OF perm] ok ok' unfolding Cons pb'
        by (auto intro!: WeightedMedian_small simp del: pow_simps)
      then show ?thesis using rates Cons pb' by simp
    qed
  qed
qed

lemma mset_sort_ballot [simp]: "mset (sort_ballot pb) = mset pb"
  by (simp add: sort_ballot_def)

lemma set_sort_ballot [simp]: "set (sort_ballot pb) = set pb"
  by (simp add: sort_ballot_def)

lemma sorted_sort_ballot: "sorted_wrt (\<le>) (map vExchangeRate (sort_ballot pb))"
  by (simp add: sort_ballot_def)

lemma WeightedMedian_mem: "ballot_ok pb \<Longrightarrow> pb \<noteq> [] \<Longrightarrow> sorted_wrt (\<le>) (map vExchangeRate pb) \<Longrightarrow>
   WeightedMedian pb \<in> vExchangeRate ` set pb"
proof (cases "2 \<le> pow_sum pb")
  case True
  then show "ballot_ok pb \<Longrightarrow> sorted_wrt (\<le>) (map vExchangeRate pb) \<Longrightarrow> ?thesis"
    using WeightedMedian_spec by blast
next
  case False
  then show "ballot_ok pb \<Longrightarrow> pb \<noteq> [] \<Longrightarrow> ?thesis"
    using WeightedMedian_small by (cases pb) auto
qed


section \<open>Standard deviation and cross rates\<close>

context dec_math
begin

lemma sum_squares_step_nonneg:
  assumes "0 \<le> s" and "rbind (dSub K (vExchangeRate v) m) (\<lambda>deviation.
      rbind (dMul K deviation deviation) (\<lambda>sq. dAdd K s sq)) = Inr t"
  shows "0 \<le> t"
proof -
  obtain d sq where sq: "dMul K d d = Inr sq" and t: "t = s + sq"
    using assms(2) by (auto simp: res_simps dest: add_Inr)
  have "0 \<le> d * d" by simp
  then have "0 \<le> sq" using mul_bounds(2) [OF sq] by linarith
  then show ?thesis using assms(1) t by simp
qed

lemma sum_squares_nonneg: "sum_squares K m pb = Inr s \<Longrightarrow> 0 \<le> s"
  unfolding sum_squares_def
  by (erule fold_res_invariant) (auto intro: sum_squares_step_nonneg)

lemma StandardDeviation_nonneg: "0 \<le> StandardDeviation K pb m"
  by (cases pb)
    (auto simp: StandardDeviation_def res_simps quo_int split: sum.splits if_splits
      intro!: sqrt_micro_nonneg tquot_nonneg_ge dest!: sum_squares_nonneg)

text \<open>
  A cross rate keeps the voter and never adds power, and a vote with power has the
  quotient of its voter's reference rate by its own rate.
\<close>

lemma cross_vote_cases:
  assumes "cross_vote K bases v = Inr w"
  shows "vVoter w = vVoter v \<and> vDenom w = vDenom v \<and>
    ((vPower w = 0 \<and> vExchangeRate w = 0) \<or>
     (vPower w = vPower v \<and> 0 < vExchangeRate v \<and>
      (\<exists>b. bases (vVoter v) = Some b \<and> dQuo K b (vExchangeRate v) = Inr (vExchangeRate w))))"
  using assms by (auto simp: cross_vote_def res_simps split: option.splits if_splits)

end


section \<open>Parsing and hashing\<close>

lemma parse_tuples_distinct:
  "parse_tuples K seen ts = Inr r \<Longrightarrow> distinct (map tDenom r) \<and> tDenom ` set r \<inter> seen = {} \<and> length r = length ts"
  by (induction K seen ts arbitrary: r rule: parse_tuples.induct)
    (auto simp: res_simps split: if_splits, fastforce+)

lemma ParseDoRateTuples_distinct: "ParseDoRateTuples K s = Inr r \<Longrightarrow> distinct (map tDenom r)"
  by (auto simp: ParseDoRateTuples_def Let_def dest: parse_tuples_distinct split: if_splits)

lemma hash_round_trip: "AggregateVoteHashFromHexString (hash_String h) = Inr h"
  by (simp add: AggregateVoteHashFromHexString_def hash_String_def hex_decode_encode)


text \<open>
  C17: the weighted median is the weighted median, whatever the sort does with ties. For a
  ballot with non-negative powers whose total (at least 2) fits 64 bits, every sorted
  arrangement of the votes gives the same result: a rate of the ballot with power less than \<open>H\<close>
  strictly below it and at least \<open>H\<close> at or below it, where \<open>H\<close> is half of the total power rounded
  down, as the code divides integers: for an odd total, one half unit below the half.
\<close>

theorem weighted_median_correct:
  assumes "ballot_ok pb" and "2 \<le> pow_sum pb"
    and "mset pb' = mset pb" and "sorted_wrt (\<le>) (map vExchangeRate pb')"
  shows "WeightedMedian pb' = WeightedMedian (sort_ballot pb) \<and>
     WeightedMedian pb' \<in> vExchangeRate ` set pb \<and>
     pow_below (WeightedMedian pb') pb < pow_sum pb div 2 \<and>
     pow_sum pb div 2 \<le> pow_upto (WeightedMedian pb') pb"
proof -
  have set: "set pb' = set pb" by (rule mset_eq_setD [OF assms(3)])
  have ok: "ballot_ok pb'" using assms(1) pow_mset(1) [OF assms(3)] set by (simp add: ballot_ok_def)
  have "WeightedMedian pb' = WeightedMedian (sort_ballot pb)"
    by (rule WeightedMedian_perm [OF assms(4) sorted_sort_ballot ok]) (simp add: assms(3))
  moreover have "2 \<le> pow_sum pb'" using assms(2) pow_mset(1) [OF assms(3)] by simp
  ultimately show ?thesis
    using WeightedMedian_spec [OF assms(4) ok] set pow_mset [OF assms(3)] by auto
qed

theorem weighted_median_correct_witness:
  "WeightedMedian (sort_ballot [NewVoteForTally 7 ''uusd'' ''a'' 3, NewVoteForTally 2 ''uusd'' ''b'' 5,
     NewVoteForTally 7 ''uusd'' ''c'' 1]) = 2 \<and>
   pow_sum [NewVoteForTally 7 ''uusd'' ''a'' 3, NewVoteForTally 2 ''uusd'' ''b'' 5, NewVoteForTally 7 ''uusd'' ''c'' 1] div 2 \<le>
   pow_upto (WeightedMedian (sort_ballot [NewVoteForTally 7 ''uusd'' ''a'' 3, NewVoteForTally 2 ''uusd'' ''b'' 5,
     NewVoteForTally 7 ''uusd'' ''c'' 1])) [NewVoteForTally 7 ''uusd'' ''a'' 3, NewVoteForTally 2 ''uusd'' ''b'' 5,
     NewVoteForTally 7 ''uusd'' ''c'' 1]"
proof
  show "WeightedMedian (sort_ballot [NewVoteForTally 7 ''uusd'' ''a'' 3, NewVoteForTally 2 ''uusd'' ''b'' 5,
     NewVoteForTally 7 ''uusd'' ''c'' 1]) = 2" by code_simp
  have "ballot_ok [NewVoteForTally 7 ''uusd'' ''a'' 3, NewVoteForTally 2 ''uusd'' ''b'' 5, NewVoteForTally 7 ''uusd'' ''c'' 1]"
    by (simp add: ballot_ok_def NewVoteForTally_def)
  from weighted_median_correct [OF this _ mset_sort_ballot sorted_sort_ballot]
  show "pow_sum [NewVoteForTally 7 ''uusd'' ''a'' 3, NewVoteForTally 2 ''uusd'' ''b'' 5, NewVoteForTally 7 ''uusd'' ''c'' 1] div 2 \<le>
   pow_upto (WeightedMedian (sort_ballot [NewVoteForTally 7 ''uusd'' ''a'' 3, NewVoteForTally 2 ''uusd'' ''b'' 5,
     NewVoteForTally 7 ''uusd'' ''c'' 1])) [NewVoteForTally 7 ''uusd'' ''a'' 3, NewVoteForTally 2 ''uusd'' ''b'' 5,
     NewVoteForTally 7 ''uusd'' ''c'' 1]" by (simp add: NewVoteForTally_def)
qed

end
