(* ===== verification/Oracle_Keeper.thy ===== *)
theory Oracle_Keeper
  imports Oracle_Types
begin

text \<open>
  \<open>src/x/oracle/keeper\<close> and \<open>src/x/oracle/genesis.go\<close>: the oracle's store with its
  accessors and iterators, the message server (commit, reveal and feeder delegation),
  ballots, whitelist, rewards, slashing and genesis.

  The store holds six kinds of entries under distinct key prefixes; each kind is one
  partition of the record \<open>oracle_store\<close>, keyed by the full key. The parameter subspace
  is the field \<open>oparams\<close>. The block height is an argument where the code reads it.
\<close>

record oracle_store =
  rates :: "dec kv"
  feeders :: "address kv"
  missCounters :: "int kv"
  prevotes :: "AggregateDoRatePrevote kv"
  votes :: "AggregateDoRateVote kv"
  tobinTaxes :: "dec kv"
  oparams :: OracleParams


section \<open>Accessors and iterators (keeper.go, params.go, vote_target.go)\<close>

definition GetDoExchangeRate :: "oracle_store \<Rightarrow> string \<Rightarrow> dec result" where
  "GetDoExchangeRate s denom =
     (if denom = MicroDoDenom then Inr OneDec
      else case kv_get (rates s) (GetExchangeRateKey denom) of
             None \<Rightarrow> Inl ErrUnknownDenom
           | Some d \<Rightarrow> Inr d)"

definition SetDoExchangeRate :: "oracle_store \<Rightarrow> string \<Rightarrow> dec \<Rightarrow> oracle_store" where
  "SetDoExchangeRate s denom exchangeRate =
     s\<lparr>rates := kv_set (GetExchangeRateKey denom) exchangeRate (rates s)\<rparr>"

definition DeleteDoExchangeRate :: "oracle_store \<Rightarrow> string \<Rightarrow> oracle_store" where
  "DeleteDoExchangeRate s denom = s\<lparr>rates := kv_del (GetExchangeRateKey denom) (rates s)\<rparr>"

definition IterateDoExchangeRates ::
    "oracle_store \<Rightarrow> (string \<Rightarrow> dec \<Rightarrow> 'a \<Rightarrow> ('a \<times> bool) result) \<Rightarrow> 'a \<Rightarrow> 'a result" where
  "IterateDoExchangeRates s handler a = iterate handler (map (\<lambda>(k, d). (drop 1 k, d)) (rates s)) a"

definition GetFeederDelegation :: "oracle_store \<Rightarrow> address \<Rightarrow> address" where
  "GetFeederDelegation s operator =
     (case kv_get (feeders s) (GetFeederDelegationKey operator) of None \<Rightarrow> operator | Some bz \<Rightarrow> bz)"

definition SetFeederDelegation :: "oracle_store \<Rightarrow> address \<Rightarrow> address \<Rightarrow> oracle_store" where
  "SetFeederDelegation s operator delegatedFeeder =
     s\<lparr>feeders := kv_set (GetFeederDelegationKey operator) delegatedFeeder (feeders s)\<rparr>"

definition IterateFeederDelegations ::
    "oracle_store \<Rightarrow> (address \<Rightarrow> address \<Rightarrow> 'a \<Rightarrow> ('a \<times> bool) result) \<Rightarrow> 'a \<Rightarrow> 'a result" where
  "IterateFeederDelegations s handler a = iterate handler (map (\<lambda>(k, d). (drop 2 k, d)) (feeders s)) a"

definition GetMissCounter :: "oracle_store \<Rightarrow> address \<Rightarrow> int" where
  "GetMissCounter s operator =
     (case kv_get (missCounters s) (GetMissCounterKey operator) of None \<Rightarrow> 0 | Some n \<Rightarrow> n)"

definition SetMissCounter :: "oracle_store \<Rightarrow> address \<Rightarrow> int \<Rightarrow> oracle_store" where
  "SetMissCounter s operator missCounter =
     s\<lparr>missCounters := kv_set (GetMissCounterKey operator) missCounter (missCounters s)\<rparr>"

definition DeleteMissCounter :: "oracle_store \<Rightarrow> address \<Rightarrow> oracle_store" where
  "DeleteMissCounter s operator = s\<lparr>missCounters := kv_del (GetMissCounterKey operator) (missCounters s)\<rparr>"

definition IterateMissCounters ::
    "oracle_store \<Rightarrow> (address \<Rightarrow> int \<Rightarrow> 'a \<Rightarrow> ('a \<times> bool) result) \<Rightarrow> 'a \<Rightarrow> 'a result" where
  "IterateMissCounters s handler a = iterate handler (map (\<lambda>(k, n). (drop 2 k, n)) (missCounters s)) a"

definition GetAggregateDoRatePrevote :: "oracle_store \<Rightarrow> address \<Rightarrow> AggregateDoRatePrevote result" where
  "GetAggregateDoRatePrevote s voter =
     (case kv_get (prevotes s) (GetAggregateDoRatePrevoteKey voter) of
        None \<Rightarrow> Inl ErrNoAggregatePrevote | Some p \<Rightarrow> Inr p)"

definition SetAggregateDoRatePrevote ::
    "oracle_store \<Rightarrow> address \<Rightarrow> AggregateDoRatePrevote \<Rightarrow> oracle_store" where
  "SetAggregateDoRatePrevote s voter prevote =
     s\<lparr>prevotes := kv_set (GetAggregateDoRatePrevoteKey voter) prevote (prevotes s)\<rparr>"

definition DeleteAggregateDoRatePrevote :: "oracle_store \<Rightarrow> address \<Rightarrow> oracle_store" where
  "DeleteAggregateDoRatePrevote s voter =
     s\<lparr>prevotes := kv_del (GetAggregateDoRatePrevoteKey voter) (prevotes s)\<rparr>"

definition IterateAggregateDoRatePrevotes ::
    "oracle_store \<Rightarrow> (address \<Rightarrow> AggregateDoRatePrevote \<Rightarrow> 'a \<Rightarrow> ('a \<times> bool) result) \<Rightarrow> 'a \<Rightarrow> 'a result" where
  "IterateAggregateDoRatePrevotes s handler a =
     iterate handler (map (\<lambda>(k, p). (drop 2 k, p)) (prevotes s)) a"

definition GetAggregateDoRateVote :: "oracle_store \<Rightarrow> address \<Rightarrow> AggregateDoRateVote result" where
  "GetAggregateDoRateVote s voter =
     (case kv_get (votes s) (GetAggregateDoRateVoteKey voter) of
        None \<Rightarrow> Inl ErrNoAggregateVote | Some v \<Rightarrow> Inr v)"

definition SetAggregateDoRateVote ::
    "oracle_store \<Rightarrow> address \<Rightarrow> AggregateDoRateVote \<Rightarrow> oracle_store" where
  "SetAggregateDoRateVote s voter vote =
     s\<lparr>votes := kv_set (GetAggregateDoRateVoteKey voter) vote (votes s)\<rparr>"

definition DeleteAggregateDoRateVote :: "oracle_store \<Rightarrow> address \<Rightarrow> oracle_store" where
  "DeleteAggregateDoRateVote s voter = s\<lparr>votes := kv_del (GetAggregateDoRateVoteKey voter) (votes s)\<rparr>"

definition IterateAggregateDoRateVotes ::
    "oracle_store \<Rightarrow> (address \<Rightarrow> AggregateDoRateVote \<Rightarrow> 'a \<Rightarrow> ('a \<times> bool) result) \<Rightarrow> 'a \<Rightarrow> 'a result" where
  "IterateAggregateDoRateVotes s handler a =
     iterate handler (map (\<lambda>(k, v). (drop 2 k, v)) (votes s)) a"

definition GetTobinTax :: "oracle_store \<Rightarrow> string \<Rightarrow> dec result" where
  "GetTobinTax s denom =
     (case kv_get (tobinTaxes s) (GetTobinTaxKey denom) of None \<Rightarrow> Inl ErrNoTobinTax | Some d \<Rightarrow> Inr d)"

definition SetTobinTax :: "oracle_store \<Rightarrow> string \<Rightarrow> dec \<Rightarrow> oracle_store" where
  "SetTobinTax s denom tobinTax = s\<lparr>tobinTaxes := kv_set (GetTobinTaxKey denom) tobinTax (tobinTaxes s)\<rparr>"

definition IterateTobinTaxes ::
    "oracle_store \<Rightarrow> (string \<Rightarrow> dec \<Rightarrow> 'a \<Rightarrow> ('a \<times> bool) result) \<Rightarrow> 'a \<Rightarrow> 'a result" where
  "IterateTobinTaxes s handler a =
     iterate handler (map (\<lambda>(k, d). (ExtractDenomFromTobinTaxKey k, d)) (tobinTaxes s)) a"

definition ClearTobinTaxes :: "oracle_store \<Rightarrow> oracle_store" where
  "ClearTobinTaxes s = fold (\<lambda>(k, _) s. s\<lparr>tobinTaxes := kv_del k (tobinTaxes s)\<rparr>) (tobinTaxes s) s"

definition ValidateFeeder ::
    "'w keepers \<Rightarrow> 'w \<Rightarrow> oracle_store \<Rightarrow> address \<Rightarrow> address \<Rightarrow> unit result" where
  "ValidateFeeder N w s feederAddr validatorAddr =
     rbind (fail_if (feederAddr \<noteq> validatorAddr \<and> GetFeederDelegation s validatorAddr \<noteq> feederAddr)
              ErrNoVotingPermission) (\<lambda>_.
     rbind (Validator N w validatorAddr) (\<lambda>val.
       case val of
         None \<Rightarrow> Inl (Sdk ''ErrNoValidatorFound'')
       | Some v \<Rightarrow> fail_if (\<not> IsBonded v) (Sdk ''ErrNoValidatorFound'')))"

definition IsVoteTarget :: "oracle_store \<Rightarrow> string \<Rightarrow> bool" where
  "IsVoteTarget s denom = (case GetTobinTax s denom of Inl _ \<Rightarrow> False | Inr _ \<Rightarrow> True)"

definition GetVoteTargets :: "oracle_store \<Rightarrow> string list result" where
  "GetVoteTargets s = IterateTobinTaxes s (\<lambda>denom _ acc. Inr (acc @ [denom], False)) []"


section \<open>The message server (msg\_server.go)\<close>

definition AggregateDoRatePrevote_msg ::
    "sdk \<Rightarrow> 'w keepers \<Rightarrow> int \<Rightarrow> 'w \<Rightarrow> oracle_store \<Rightarrow> MsgAggregateDoRatePrevote \<Rightarrow> oracle_store result" where
  "AggregateDoRatePrevote_msg K N height w s msg =
     rbind (ValFromBech32 K (prevoteValidator msg)) (\<lambda>valAddr.
     rbind (AccFromBech32 K (prevoteFeeder msg)) (\<lambda>feederAddr.
     rbind (ValidateFeeder N w s feederAddr valAddr) (\<lambda>_.
     rbind (wrap_err ErrInvalidHash (AggregateVoteHashFromHexString (prevoteHash msg))) (\<lambda>voteHash.
     Inr (SetAggregateDoRatePrevote s valAddr (NewAggregateDoRatePrevote K voteHash valAddr (u64 height)))))))"

text \<open>The periods are unsigned, so their difference wraps around; a zero period panics.\<close>

definition reveal_period_ok :: "int \<Rightarrow> int \<Rightarrow> int \<Rightarrow> bool result" where
  "reveal_period_ok height votePeriod submitBlock =
     (if votePeriod = 0 then Inl Panic
      else Inr (u64 (u64 height div votePeriod - submitBlock div votePeriod) = 1))"

definition AggregateDoRateVote_msg ::
    "sdk \<Rightarrow> 'w keepers \<Rightarrow> int \<Rightarrow> 'w \<Rightarrow> oracle_store \<Rightarrow> MsgAggregateDoRateVote \<Rightarrow> oracle_store result" where
  "AggregateDoRateVote_msg K N height w s msg =
     rbind (ValFromBech32 K (voteValidator msg)) (\<lambda>valAddr.
     rbind (AccFromBech32 K (voteFeeder msg)) (\<lambda>feederAddr.
     rbind (ValidateFeeder N w s feederAddr valAddr) (\<lambda>_.
     rbind (wrap_err ErrNoAggregatePrevote (GetAggregateDoRatePrevote s valAddr)) (\<lambda>aggregatePrevote.
     rbind (reveal_period_ok height (VotePeriod (oparams s)) (pSubmitBlock aggregatePrevote)) (\<lambda>in_period.
     rbind (fail_if (\<not> in_period) ErrRevealPeriodMissMatch) (\<lambda>_.
     rbind (wrap_err (Sdk ''ErrInvalidCoins'') (ParseDoRateTuples K (voteExchangeRates msg))) (\<lambda>exchangeRateTuples.
     rbind (fold_res (\<lambda>tuple _. fail_if (\<not> IsVoteTarget s (tDenom tuple)) ErrUnknownDenom)
              exchangeRateTuples ()) (\<lambda>_.
     rbind (fail_if (pHash aggregatePrevote \<noteq>
                hash_String (GetAggregateVoteHash K (voteSalt msg) (voteExchangeRates msg) valAddr))
              ErrVerificationFailed) (\<lambda>_.
     Inr (DeleteAggregateDoRatePrevote
            (SetAggregateDoRateVote s valAddr (NewAggregateDoRateVote K exchangeRateTuples valAddr))
            valAddr))))))))))"

definition DelegateFeedConsent_msg ::
    "sdk \<Rightarrow> 'w keepers \<Rightarrow> 'w \<Rightarrow> oracle_store \<Rightarrow> MsgDelegateFeedConsent \<Rightarrow> oracle_store result" where
  "DelegateFeedConsent_msg K N w s msg =
     rbind (ValFromBech32 K (feedOperator msg)) (\<lambda>operatorAddr.
     rbind (AccFromBech32 K (feedDelegate msg)) (\<lambda>delegateAddr.
     rbind (Validator N w operatorAddr) (\<lambda>val.
     rbind (fail_if (val = None) (Sdk ''ErrNoValidatorFound'')) (\<lambda>_.
     Inr (SetFeederDelegation s operatorAddr delegateAddr)))))"


section \<open>Ballots and the whitelist (ballot.go)\<close>

definition organize_tuple ::
    "address \<Rightarrow> int \<Rightarrow> DoRateTuple \<Rightarrow> (string \<rightharpoonup> ExchangeRateBallot) \<Rightarrow> (string \<rightharpoonup> ExchangeRateBallot)" where
  "organize_tuple voterAddr pw tuple bm =
     (let tmpPower = (if \<not> 0 < tExchangeRate tuple then 0 else pw);
          old = (case bm (tDenom tuple) of None \<Rightarrow> [] | Some b \<Rightarrow> b)
      in bm(tDenom tuple \<mapsto> old @ [NewVoteForTally (tExchangeRate tuple) (tDenom tuple) voterAddr tmpPower]))"

definition aggregate_handler ::
    "(string \<rightharpoonup> Claim) \<Rightarrow> address \<Rightarrow> AggregateDoRateVote \<Rightarrow>
     (string \<rightharpoonup> ExchangeRateBallot) \<Rightarrow> (string \<rightharpoonup> ExchangeRateBallot)" where
  "aggregate_handler validatorClaimMap voterAddr vote bm =
     (case validatorClaimMap (aVoter vote) of
        None \<Rightarrow> bm
      | Some claim \<Rightarrow> fold (organize_tuple voterAddr (cPower claim)) (aExchangeRateTuples vote) bm)"

definition OrganizeBallotByDenom ::
    "oracle_store \<Rightarrow> (string \<rightharpoonup> Claim) \<Rightarrow> (string \<rightharpoonup> ExchangeRateBallot) result" where
  "OrganizeBallotByDenom s validatorClaimMap =
     rbind (IterateAggregateDoRateVotes s
              (\<lambda>voterAddr vote bm. Inr (aggregate_handler validatorClaimMap voterAddr vote bm, False))
              Map.empty) (\<lambda>bm.
     Inr (\<lambda>denom. map_option sort_ballot (bm denom)))"

definition ClearBallots :: "int \<Rightarrow> oracle_store \<Rightarrow> int \<Rightarrow> oracle_store result" where
  "ClearBallots height s votePeriod =
     rbind (IterateAggregateDoRatePrevotes s (\<lambda>voterAddr aggregatePrevote s.
              Inr (if i64 (u64 (pSubmitBlock aggregatePrevote + votePeriod)) < height
                   then DeleteAggregateDoRatePrevote s voterAddr else s, False)) s) (\<lambda>s.
     IterateAggregateDoRateVotes s (\<lambda>voterAddr _ s. Inr (DeleteAggregateDoRateVote s voterAddr, False)) s)"

definition to_upper :: "string \<Rightarrow> string" where
  "to_upper s = map (\<lambda>c. let n = of_char c :: nat in if 97 \<le> n \<and> n \<le> 122 then char_of (n - 32) else c) s"

text \<open>
  \<open>base[1:]\<close> panics on an empty name and \<open>display[:len(display)-1]\<close> on a name of length one.
\<close>

definition denom_metadata :: "string \<Rightarrow> metadata result" where
  "denom_metadata base =
     (let display = drop 1 base
      in if length base < 2 then Inl Panic
         else Inr \<lparr>Description = ''The native stable token of the do Columbus.'',
                   DenomUnits = [(''u'' @ display, 0, [''micro'' @ display]),
                                 (''m'' @ display, 3, [''milli'' @ display]),
                                 (display, 6, [])],
                   Base = base, Display = display,
                   MetaName = to_upper display @ '' do'',
                   Symbol = to_upper (take (length display - 1) display) @ ''T''\<rparr>)"

definition update_required :: "string list \<Rightarrow> DenomEntry list \<Rightarrow> (string \<rightharpoonup> dec) \<Rightarrow> bool" where
  "update_required order whitelist voteTargets \<longleftrightarrow>
     map_len order voteTargets \<noteq> length whitelist \<or>
     list_ex (\<lambda>item. voteTargets (Name item) \<noteq> Some (TobinTax item)) whitelist"

definition register_item ::
    "'w keepers \<Rightarrow> DenomEntry \<Rightarrow> oracle_store \<times> 'w \<Rightarrow> (oracle_store \<times> 'w) result" where
  "register_item N item sw =
     (let s = SetTobinTax (fst sw) (Name item) (TobinTax item)
      in case GetDenomMetaData N (snd sw) (Name item) of
           Some _ \<Rightarrow> Inr (s, snd sw)
         | None \<Rightarrow> rbind (denom_metadata (Name item)) (\<lambda>m. Inr (s, SetDenomMetaData N (snd sw) m)))"

definition ApplyWhitelist ::
    "'w keepers \<Rightarrow> string list \<Rightarrow> DenomEntry list \<Rightarrow> (string \<rightharpoonup> dec) \<Rightarrow>
     oracle_store \<times> 'w \<Rightarrow> (oracle_store \<times> 'w) result" where
  "ApplyWhitelist N order whitelist voteTargets sw =
     (if update_required order whitelist voteTargets
      then fold_res (register_item N) whitelist (ClearTobinTaxes (fst sw), snd sw)
      else Inr sw)"


section \<open>Slashing (slash.go)\<close>

definition doOracleJailOnlyActive :: "int \<Rightarrow> bool" where
  "doOracleJailOnlyActive height \<longleftrightarrow>
     DoCommunityGovernanceHeight > 0 \<and> height \<ge> DoCommunityGovernanceHeight"

text \<open>\<open>TruncateInt64\<close> panics outside \<open>int64\<close>; \<open>sdk.ValidatorUpdateDelay\<close> is 1.\<close>

definition truncate_i64 :: "sdk \<Rightarrow> dec \<Rightarrow> int result" where
  "truncate_i64 K d = rbind (dTruncateInt K d) (\<lambda>n. rbind (fail_if (\<not> in_i64 n) Panic) (\<lambda>_. Inr n))"

definition penalize ::
    "'w keepers \<Rightarrow> int \<Rightarrow> dec \<Rightarrow> validator \<Rightarrow> 'w \<Rightarrow> 'w result" where
  "penalize N height slashFraction v w =
     (if IsBonded v \<and> \<not> IsJailed v
      then rbind (must (ConsAddr v)) (\<lambda>consAddr.
             let w' = (if \<not> doOracleJailOnlyActive height
                       then Slash N w consAddr (height - 1 - 1) (GetConsensusPower N v (PowerReduction N w)) slashFraction
                       else w)
             in Inr (Jail N w' consAddr))
      else Inr w)"

definition miss_handler ::
    "sdk \<Rightarrow> 'w keepers \<Rightarrow> int \<Rightarrow> int \<Rightarrow> OracleParams \<Rightarrow> address \<Rightarrow> int \<Rightarrow>
     oracle_store \<times> 'w \<Rightarrow> ((oracle_store \<times> 'w) \<times> bool) result" where
  "miss_handler K N height votePeriodsPerWindow p operator missCounter sw =
     (let (s, w) = sw
      in rbind (dQuoInt K (NewDec (i64 (u64 (votePeriodsPerWindow - missCounter)))) (i64 votePeriodsPerWindow))
           (\<lambda>validVoteRate.
         if validVoteRate < MinValidPerWindow p
         then (case Validator N w operator of
                 Inl e \<Rightarrow> if e = Panic then Inl Panic else Inr ((s, w), False)
               | Inr None \<Rightarrow> Inl Panic
               | Inr (Some v) \<Rightarrow>
                   rbind (penalize N height (SlashFraction p) v w) (\<lambda>w'.
                   Inr ((DeleteMissCounter s operator, w'), False)))
         else Inr ((DeleteMissCounter s operator, w), False)))"

definition SlashAndResetMissCounters ::
    "sdk \<Rightarrow> 'w keepers \<Rightarrow> int \<Rightarrow> oracle_store \<times> 'w \<Rightarrow> (oracle_store \<times> 'w) result" where
  "SlashAndResetMissCounters K N height sw =
     (let p = oparams (fst sw)
      in rbind (dQuoInt K (NewDec (i64 (SlashWindow p))) (i64 (VotePeriod p))) (\<lambda>q.
         rbind (truncate_i64 K q) (\<lambda>n.
         IterateMissCounters (fst sw) (miss_handler K N height (u64 n) p) sw)))"


section \<open>Rewards (reward.go)\<close>

text \<open>
  \<open>rewardDenoms\<close>: Do first, then the vote targets other than Do in the order of the range.
\<close>

definition reward_denoms :: "string list \<Rightarrow> (string \<rightharpoonup> dec) \<Rightarrow> string list" where
  "reward_denoms order voteTargets =
     MicroDoDenom # filter (\<lambda>d. d \<noteq> MicroDoDenom) (range_keys order voteTargets)"

definition weight_sum :: "string list \<Rightarrow> (string \<rightharpoonup> Claim) \<Rightarrow> int" where
  "weight_sum order winners =
     fold (\<lambda>k t. case winners k of None \<Rightarrow> t | Some c \<Rightarrow> i64 (t + cWeight c)) (range_keys order winners) 0"

definition GetRewardPool :: "'w keepers \<Rightarrow> 'w \<Rightarrow> string \<Rightarrow> coin result" where
  "GetRewardPool N w denom =
     (case GetModuleAddress N ''oracle'' of
        None \<Rightarrow> Inl Panic
      | Some acc \<Rightarrow> Inr (GetBalance N w acc denom))"

definition period_rewards ::
    "sdk \<Rightarrow> 'w keepers \<Rightarrow> 'w \<Rightarrow> dec \<Rightarrow> string list \<Rightarrow> deccoin list result" where
  "period_rewards K N w distributionRatio denoms =
     fold_res (\<lambda>denom periodRewards.
       rbind (GetRewardPool N w denom) (\<lambda>rewardPool.
       if Amount rewardPool = 0 then Inr periodRewards
       else rbind (dMul K (NewDec (Amount rewardPool)) distributionRatio) (\<lambda>amt.
            rbind (NewDecCoinFromDec K denom amt) (\<lambda>c.
            DecCoinsAdd K periodRewards [c])))) denoms []"

definition reward_share ::
    "sdk \<Rightarrow> deccoin list \<Rightarrow> int \<Rightarrow> Claim \<Rightarrow> coin list result" where
  "reward_share K periodRewards ballotPowerSum winner =
     rbind (dQuoInt K (NewDec (cWeight winner)) ballotPowerSum) (\<lambda>ratio.
     rbind (DecCoinsMulDec K periodRewards ratio) (\<lambda>share.
     rbind (DecCoinsTruncate K share) (\<lambda>(rewardCoins, _). Inr rewardCoins)))"

definition reward_winner ::
    "sdk \<Rightarrow> 'w keepers \<Rightarrow> deccoin list \<Rightarrow> int \<Rightarrow> Claim \<Rightarrow> coin list \<times> 'w \<Rightarrow> (coin list \<times> 'w) result" where
  "reward_winner K N periodRewards ballotPowerSum winner dw =
     (let (distributedReward, w) = dw
      in case Validator N w (cRecipient winner) of
           Inl e \<Rightarrow> if e = Panic then Inl Panic else Inr dw
         | Inr None \<Rightarrow> Inr dw
         | Inr (Some receiverVal) \<Rightarrow>
             rbind (reward_share K periodRewards ballotPowerSum winner) (\<lambda>rewardCoins.
             if list_all (\<lambda>c. Amount c = 0) rewardCoins then Inr dw
             else rbind (NewDecCoinsFromCoins K rewardCoins) (\<lambda>tokens.
                  rbind (CoinsAdd K distributedReward rewardCoins) (\<lambda>d.
                  Inr (d, AllocateTokensToValidator N w receiverVal tokens)))))"

text \<open>The loop over the winners, with the coins given out so far and the world.\<close>

definition dole_out ::
    "sdk \<Rightarrow> 'w keepers \<Rightarrow> string list \<Rightarrow> deccoin list \<Rightarrow> int \<Rightarrow> (string \<rightharpoonup> Claim) \<Rightarrow> 'w \<Rightarrow> (coin list \<times> 'w) result" where
  "dole_out K N winnerOrder periodRewards ballotPowerSum ballotWinners w =
     fold_res (\<lambda>k dw. case ballotWinners k of
         None \<Rightarrow> Inr dw
       | Some winner \<Rightarrow> reward_winner K N periodRewards ballotPowerSum winner dw)
       (range_keys winnerOrder ballotWinners) ([], w)"

definition RewardBallotWinners ::
    "sdk \<Rightarrow> 'w keepers \<Rightarrow> string \<Rightarrow> string list \<Rightarrow> string list \<Rightarrow> string list \<Rightarrow> int \<Rightarrow> int \<Rightarrow>
     (string \<rightharpoonup> dec) \<Rightarrow> (string \<rightharpoonup> Claim) \<Rightarrow> 'w \<Rightarrow> 'w result" where
  "RewardBallotWinners K N distrName denomOrder sumOrder winnerOrder votePeriod rewardDistributionWindow
       voteTargets ballotWinners w =
     (let ballotPowerSum = weight_sum sumOrder ballotWinners
      in if ballotPowerSum = 0 then Inr w
         else rbind (dQuoInt K (NewDec votePeriod) rewardDistributionWindow) (\<lambda>distributionRatio.
              rbind (period_rewards K N w distributionRatio (reward_denoms denomOrder voteTargets)) (\<lambda>periodRewards.
              rbind (dole_out K N winnerOrder periodRewards ballotPowerSum ballotWinners w) (\<lambda>(distributedReward, w').
              must (SendCoinsFromModuleToModule N w' ''oracle'' distrName distributedReward)))))"


section \<open>Genesis (genesis.go)\<close>

record OracleGenesis =
  gParams :: OracleParams
  gExchangeRates :: "DoRateTuple list"
  gFeederDelegations :: "(string \<times> string) list"
  gMissCounters :: "(string \<times> int) list"
  gPrevotes :: "AggregateDoRatePrevote list"
  gVotes :: "AggregateDoRateVote list"
  gTobinTaxes :: "(string \<times> dec) list"

definition oracle_DefaultGenesisState :: OracleGenesis where
  "oracle_DefaultGenesisState = \<lparr>gParams = oracle_DefaultParams, gExchangeRates = [],
     gFeederDelegations = [], gMissCounters = [], gPrevotes = [], gVotes = [], gTobinTaxes = []\<rparr>"

definition oracle_ValidateGenesis :: "OracleGenesis \<Rightarrow> unit result" where
  "oracle_ValidateGenesis data = oracle_Params_Validate (gParams data)"

text \<open>
  A feeder delegation of the genesis state is the pair of the feeder address and the
  validator address. The module account is read from the account keeper's permissions.
\<close>

definition oracle_InitGenesis :: "sdk \<Rightarrow> 'w keepers \<Rightarrow> oracle_store \<Rightarrow> OracleGenesis \<Rightarrow> oracle_store result" where
  "oracle_InitGenesis K N s data =
     rbind (fold_res (\<lambda>(feederStr, valStr) s.
              rbind (must (ValFromBech32 K valStr)) (\<lambda>voter.
              rbind (must (AccFromBech32 K feederStr)) (\<lambda>feeder.
              Inr (SetFeederDelegation s voter feeder)))) (gFeederDelegations data) s) (\<lambda>s.
     let s = fold (\<lambda>ex s. SetDoExchangeRate s (tDenom ex) (tExchangeRate ex)) (gExchangeRates data) s
     in rbind (fold_res (\<lambda>(valStr, n) s.
              rbind (must (ValFromBech32 K valStr)) (\<lambda>operator.
              Inr (SetMissCounter s operator n))) (gMissCounters data) s) (\<lambda>s.
        rbind (fold_res (\<lambda>ap s.
              rbind (must (ValFromBech32 K (pVoter ap))) (\<lambda>valAddr.
              Inr (SetAggregateDoRatePrevote s valAddr ap))) (gPrevotes data) s) (\<lambda>s.
        rbind (fold_res (\<lambda>av s.
              rbind (must (ValFromBech32 K (aVoter av))) (\<lambda>valAddr.
              Inr (SetAggregateDoRateVote s valAddr av))) (gVotes data) s) (\<lambda>s.
        let s = (if 0 < length (gTobinTaxes data)
                 then fold (\<lambda>(d, t) s. SetTobinTax s d t) (gTobinTaxes data) s
                 else fold (\<lambda>item s. SetTobinTax s (Name item) (TobinTax item)) (Whitelist (gParams data)) s)
        in rbind (fail_if (GetModuleAddress N ''oracle'' = None) Panic) (\<lambda>_.
           Inr (s\<lparr>oparams := gParams data\<rparr>))))))"

definition oracle_ExportGenesis :: "sdk \<Rightarrow> oracle_store \<Rightarrow> OracleGenesis result" where
  "oracle_ExportGenesis K s =
     rbind (IterateFeederDelegations s (\<lambda>valAddr feederAddr acc.
              Inr (acc @ [(AccString K feederAddr, ValString K valAddr)], False)) []) (\<lambda>feederDelegations.
     rbind (IterateDoExchangeRates s (\<lambda>denom rate acc.
              Inr (acc @ [\<lparr>tDenom = denom, tExchangeRate = rate\<rparr>], False)) []) (\<lambda>exchangeRates.
     rbind (IterateMissCounters s (\<lambda>operator missCounter acc.
              Inr (acc @ [(ValString K operator, missCounter)], False)) []) (\<lambda>counters.
     rbind (IterateAggregateDoRatePrevotes s (\<lambda>_ aggregatePrevote acc.
              Inr (acc @ [aggregatePrevote], False)) []) (\<lambda>prevoteList.
     rbind (IterateAggregateDoRateVotes s (\<lambda>_ aggregateVote acc.
              Inr (acc @ [aggregateVote], False)) []) (\<lambda>voteList.
     rbind (IterateTobinTaxes s (\<lambda>denom tobinTax acc. Inr (acc @ [(denom, tobinTax)], False)) []) (\<lambda>taxes.
     Inr \<lparr>gParams = oparams s, gExchangeRates = exchangeRates, gFeederDelegations = feederDelegations,
          gMissCounters = counters, gPrevotes = prevoteList, gVotes = voteList, gTobinTaxes = taxes\<rparr>))))))"


section \<open>The accessors as keyed cells\<close>

interpretation rate_cell: keyed_cell GetDoExchangeRate SetDoExchangeRate
    "\<lambda>d r. if d = MicroDoDenom then Inr OneDec else Inr r"
  by unfold_locales (simp_all add: GetDoExchangeRate_def SetDoExchangeRate_def)

interpretation feeder_cell: keyed_cell GetFeederDelegation SetFeederDelegation "\<lambda>v f. f"
  by unfold_locales (simp_all add: GetFeederDelegation_def SetFeederDelegation_def)

interpretation miss_cell: keyed_cell GetMissCounter SetMissCounter "\<lambda>v n. n"
  by unfold_locales (simp_all add: GetMissCounter_def SetMissCounter_def)

interpretation prevote_cell: keyed_cell GetAggregateDoRatePrevote SetAggregateDoRatePrevote "\<lambda>v p. Inr p"
  by unfold_locales (simp_all add: GetAggregateDoRatePrevote_def SetAggregateDoRatePrevote_def)

interpretation vote_cell: keyed_cell GetAggregateDoRateVote SetAggregateDoRateVote "\<lambda>v p. Inr p"
  by unfold_locales (simp_all add: GetAggregateDoRateVote_def SetAggregateDoRateVote_def)

interpretation tax_cell: keyed_cell GetTobinTax SetTobinTax "\<lambda>d t. Inr t"
  by unfold_locales (simp_all add: GetTobinTax_def SetTobinTax_def)

lemmas oracle_setters = SetDoExchangeRate_def DeleteDoExchangeRate_def SetFeederDelegation_def
  SetMissCounter_def DeleteMissCounter_def SetAggregateDoRatePrevote_def DeleteAggregateDoRatePrevote_def
  SetAggregateDoRateVote_def DeleteAggregateDoRateVote_def SetTobinTax_def



section \<open>The well-formedness invariant\<close>

definition oracle_ok :: "oracle_store \<Rightarrow> bool" where
  "oracle_ok s \<longleftrightarrow>
     part_ok GetExchangeRateKey (rates s) \<and> part_ok GetFeederDelegationKey (feeders s) \<and>
     part_ok GetMissCounterKey (missCounters s) \<and> part_ok GetAggregateDoRatePrevoteKey (prevotes s) \<and>
     part_ok GetAggregateDoRateVoteKey (votes s) \<and> part_ok GetTobinTaxKey (tobinTaxes s)"

lemma oracle_ok_setters [simp, intro]:
  assumes "oracle_ok s"
  shows "oracle_ok (SetDoExchangeRate s d r)" "oracle_ok (DeleteDoExchangeRate s d)"
    "oracle_ok (SetFeederDelegation s v f)" "oracle_ok (SetMissCounter s v n)"
    "oracle_ok (DeleteMissCounter s v)" "oracle_ok (SetAggregateDoRatePrevote s v p)"
    "oracle_ok (DeleteAggregateDoRatePrevote s v)" "oracle_ok (SetAggregateDoRateVote s v a)"
    "oracle_ok (DeleteAggregateDoRateVote s v)" "oracle_ok (SetTobinTax s d t)"
    "oracle_ok (s\<lparr>oparams := p'\<rparr>)"
  using assms by (auto simp: oracle_ok_def oracle_setters)

lemma ClearTobinTaxes_eq: "ClearTobinTaxes s = s\<lparr>tobinTaxes := []\<rparr>"
proof -
  have "fold (\<lambda>(k, _) s. s\<lparr>tobinTaxes := kv_del k (tobinTaxes s)\<rparr>) kvs s =
      s\<lparr>tobinTaxes := fold kv_del (map fst kvs) (tobinTaxes s)\<rparr>" for kvs :: "dec kv" and s :: oracle_store
    by (induction kvs arbitrary: s) auto
  then show ?thesis by (simp add: ClearTobinTaxes_def kv_del_fold_empty)
qed

lemma oracle_ok_ClearTobinTaxes [simp, intro]: "oracle_ok s \<Longrightarrow> oracle_ok (ClearTobinTaxes s)"
  by (simp add: ClearTobinTaxes_eq oracle_ok_def)

text \<open>The iterators as plain loops over the entries.\<close>

lemmas oracle_iterators = IterateDoExchangeRates_def IterateFeederDelegations_def IterateMissCounters_def
  IterateAggregateDoRatePrevotes_def IterateAggregateDoRateVotes_def IterateTobinTaxes_def

lemma votes_cleared:
  assumes "part_ok GetAggregateDoRateVoteKey (votes s)"
  shows "fold (\<lambda>(v, _) s. DeleteAggregateDoRateVote s v) (map (\<lambda>(k, v). (drop 2 k, v)) (votes s)) s =
     s\<lparr>votes := []\<rparr>"
proof -
  have "fold (\<lambda>(v, _) s. DeleteAggregateDoRateVote s v) (map (\<lambda>(k, v). (drop 2 k, v)) kvs) s =
      s\<lparr>votes := fold kv_del (map (\<lambda>(k, _). GetAggregateDoRateVoteKey (drop 2 k)) kvs) (votes s)\<rparr>"
    for kvs :: "AggregateDoRateVote kv" and s :: oracle_store
    by (induction kvs arbitrary: s) (auto simp: DeleteAggregateDoRateVote_def)
  moreover have "map (\<lambda>(k, _). GetAggregateDoRateVoteKey (drop 2 k)) (votes s) = map fst (votes s)"
    by (auto simp: map_eq_conv dest!: part_ok_key [OF assms])
  ultimately show ?thesis by (simp add: kv_del_fold_empty)
qed

text \<open>Which prevotes survive the end of a vote period.\<close>

definition prevote_live :: "int \<Rightarrow> int \<Rightarrow> AggregateDoRatePrevote \<Rightarrow> bool" where
  "prevote_live height votePeriod p \<longleftrightarrow> height \<le> i64 (u64 (pSubmitBlock p + votePeriod))"

lemma prevotes_expired:
  assumes "part_ok GetAggregateDoRatePrevoteKey (prevotes s)"
  shows "fold (\<lambda>(v, p) s. if Q p then DeleteAggregateDoRatePrevote s v else s)
       (map (\<lambda>(k, p). (drop 2 k, p)) (prevotes s)) s =
     s\<lparr>prevotes := filter (\<lambda>(k, p). \<not> Q p) (prevotes s)\<rparr>"
proof -
  define key where "key = (\<lambda>k :: bytes. GetAggregateDoRatePrevoteKey (drop 2 k))"
  have "fold (\<lambda>(v, p) s. if Q p then DeleteAggregateDoRatePrevote s v else s)
      (map (\<lambda>(k, p). (drop 2 k, p)) kvs) s =
      s\<lparr>prevotes := filter (\<lambda>(k, p). k \<notin> (\<lambda>(k, p). key k) ` set (filter (\<lambda>(k, p). Q p) kvs)) (prevotes s)\<rparr>"
    for kvs :: "AggregateDoRatePrevote kv" and s :: oracle_store
    by (induction kvs arbitrary: s)
      (auto simp: DeleteAggregateDoRatePrevote_def kv_del_def key_def case_prod_unfold)
  moreover have "filter (\<lambda>(k, p). k \<notin> (\<lambda>(k, p). key k) ` set (filter (\<lambda>(k, p). Q p) (prevotes s))) (prevotes s) =
      filter (\<lambda>(k, p). \<not> Q p) (prevotes s)"
  proof (rule filter_cong [OF refl])
    fix kp assume kp: "kp \<in> set (prevotes s)"
    have key: "key k = k" if "(k, p) \<in> set (prevotes s)" for k p
      using part_ok_key [OF assms that] by (auto simp: key_def)
    have same: "p = p'" if "(k, p) \<in> set (prevotes s)" "(k, p') \<in> set (prevotes s)" for k p p'
      using that kv_get_iff [OF part_ok_kv_ok [OF assms]] by (metis option.inject)
    show "(case kp of (k, p) \<Rightarrow> k \<notin> (\<lambda>(k, p). key k) ` set (filter (\<lambda>(k, p). Q p) (prevotes s))) =
        (case kp of (k, p) \<Rightarrow> \<not> Q p)"
      using kp key by (auto simp: image_iff split: prod.splits dest: same)
  qed
  ultimately show ?thesis by simp
qed

lemma ClearBallots_eq:
  assumes "oracle_ok s"
  shows "ClearBallots height s P =
     Inr (s\<lparr>prevotes := filter (\<lambda>(k, p). prevote_live height P p) (prevotes s), votes := []\<rparr>)"
proof -
  have "IterateAggregateDoRatePrevotes s (\<lambda>v p s. Inr (if i64 (u64 (pSubmitBlock p + P)) < height
        then DeleteAggregateDoRatePrevote s v else s, False)) s =
      Inr (s\<lparr>prevotes := filter (\<lambda>(k, p). prevote_live height P p) (prevotes s)\<rparr>)"
    using assms prevotes_expired [of s "\<lambda>p. i64 (u64 (pSubmitBlock p + P)) < height"]
    by (simp add: oracle_iterators iterate_pure oracle_ok_def prevote_live_def not_less)
  then show ?thesis
    using assms votes_cleared [of "s\<lparr>prevotes := filter (\<lambda>(k, p). prevote_live height P p) (prevotes s)\<rparr>"]
    by (simp add: ClearBallots_def oracle_iterators iterate_pure oracle_ok_def)
qed

lemma part_ok_filter: "part_ok mk m \<Longrightarrow> part_ok mk (filter Q m)"
  by (auto simp: part_ok_def kv_ok_def sorted_wrt_map sorted_wrt_filter)

lemma oracle_ok_ClearBallots: "oracle_ok s \<Longrightarrow> ClearBallots height s P = Inr s' \<Longrightarrow> oracle_ok s'"
  using ClearBallots_eq [of s height P] part_ok_filter by (auto simp: oracle_ok_def)



section \<open>Commit and reveal\<close>

lemma reveal_period_iff:
  assumes "0 \<le> h" "h < 2 ^ 63" "0 \<le> b" "b < 2 ^ 63" "0 < P"
  shows "reveal_period_ok h P b = Inr True \<longleftrightarrow> h div P = b div P + 1"
proof -
  define x where "x = h div P - b div P"
  have "h div P \<le> h" "b div P \<le> b" "0 \<le> h div P" "0 \<le> b div P"
    using assms zdiv_mono2 [of h 1 P] zdiv_mono2 [of b 1 P] by (simp_all add: pos_imp_zdiv_nonneg_iff)
  then have x: "- (2 ^ 63) < x" "x < 2 ^ 63" using assms unfolding x_def by linarith+
  have "x mod 2 ^ 64 = 1 \<longleftrightarrow> x = 1"
  proof (cases "0 \<le> x")
    case True
    then show ?thesis using x by simp
  next
    case False
    then have "x mod 2 ^ 64 = (x + 2 ^ 64) mod 2 ^ 64" by simp
    also have "\<dots> = x + 2 ^ 64" using False x by (intro mod_pos_pos_trivial) simp_all
    finally show ?thesis using False x by simp
  qed
  then show ?thesis
    using assms by (auto simp: reveal_period_ok_def u64_id x_def) (simp_all add: u64_def)
qed

lemma targets_checked:
  "fold_res (\<lambda>t _. fail_if (\<not> Q t) e) ts u = Inr () \<longleftrightarrow> (\<forall>t \<in> set ts. Q t)"
  by (induction ts arbitrary: u) (auto simp: fail_if_def)

lemma ValidateFeeder_iff:
  "ValidateFeeder N w s f v = Inr () \<longleftrightarrow>
     (f = v \<or> GetFeederDelegation s v = f) \<and> (\<exists>val. Validator N w v = Inr (Some val) \<and> IsBonded val)"
  by (auto simp: ValidateFeeder_def res_simps fail_if_def split: option.splits)

lemma prevote_iff:
  "AggregateDoRatePrevote_msg K N h w s msg = Inr s' \<longleftrightarrow>
     (\<exists>val feeder hash. ValFromBech32 K (prevoteValidator msg) = Inr val \<and>
        AccFromBech32 K (prevoteFeeder msg) = Inr feeder \<and> ValidateFeeder N w s feeder val = Inr () \<and>
        AggregateVoteHashFromHexString (prevoteHash msg) = Inr hash \<and>
        s' = SetAggregateDoRatePrevote s val (NewAggregateDoRatePrevote K hash val (u64 h)))"
  by (auto simp: AggregateDoRatePrevote_msg_def res_simps)

lemma reveal_iff:
  "AggregateDoRateVote_msg K N h w s msg = Inr s' \<longleftrightarrow>
     (\<exists>val feeder p tuples. ValFromBech32 K (voteValidator msg) = Inr val \<and>
        AccFromBech32 K (voteFeeder msg) = Inr feeder \<and> ValidateFeeder N w s feeder val = Inr () \<and>
        GetAggregateDoRatePrevote s val = Inr p \<and>
        reveal_period_ok h (VotePeriod (oparams s)) (pSubmitBlock p) = Inr True \<and>
        ParseDoRateTuples K (voteExchangeRates msg) = Inr tuples \<and>
        (\<forall>t \<in> set tuples. IsVoteTarget s (tDenom t)) \<and>
        pHash p = hash_String (GetAggregateVoteHash K (voteSalt msg) (voteExchangeRates msg) val) \<and>
        s' = DeleteAggregateDoRatePrevote
               (SetAggregateDoRateVote s val (NewAggregateDoRateVote K tuples val)) val)"
  by (auto simp: AggregateDoRateVote_msg_def res_simps targets_checked)

lemma reveal_effect:
  fixes s :: oracle_store
  defines "t \<equiv> \<lambda>a v. DeleteAggregateDoRatePrevote (SetAggregateDoRateVote s v a) v"
  shows "GetAggregateDoRateVote (t a v) u = (if u = v then Inr a else GetAggregateDoRateVote s u)"
    and "GetAggregateDoRatePrevote (t a v) u =
      (if u = v then Inl ErrNoAggregatePrevote else GetAggregateDoRatePrevote s u)"
    and "rates (t a v) = rates s" "feeders (t a v) = feeders s" "missCounters (t a v) = missCounters s"
    "tobinTaxes (t a v) = tobinTaxes s" "oparams (t a v) = oparams s"
  by (simp_all add: t_def oracle_setters GetAggregateDoRateVote_def GetAggregateDoRatePrevote_def)

lemma prevote_effect:
  "GetFeederDelegation (SetAggregateDoRatePrevote s v p) = GetFeederDelegation s"
  "IsVoteTarget (SetAggregateDoRatePrevote s v p) = IsVoteTarget s"
  "oparams (SetAggregateDoRatePrevote s v p) = oparams s"
  by (auto simp: SetAggregateDoRatePrevote_def GetFeederDelegation_def IsVoteTarget_def GetTobinTax_def)


text \<open>
  C7: a reveal is accepted only for the rates that the validator committed to. If the
  handler succeeds, the feeder acts for a bonded validator, the validator has a stored
  prevote whose hash is the hash of the revealed salt, rates and validator, that prevote
  was submitted in the immediately preceding vote period, and the revealed denoms are
  distinct vote targets. The vote is stored, the prevote is consumed, and no vote, prevote,
  rate, delegation, counter or target of anyone else changes.
\<close>

theorem reveal_only_committed:
  assumes ok: "AggregateDoRateVote_msg K N h w s msg = Inr s'"
    and range: "0 \<le> h" "h < 2 ^ 63" "0 < VotePeriod (oparams s)"
    and submitted: "\<And>v p. GetAggregateDoRatePrevote s v = Inr p \<Longrightarrow> 0 \<le> pSubmitBlock p \<and> pSubmitBlock p < 2 ^ 63"
  shows "\<exists>val feeder p tuples.
     ValFromBech32 K (voteValidator msg) = Inr val \<and> AccFromBech32 K (voteFeeder msg) = Inr feeder \<and>
     (feeder = val \<or> GetFeederDelegation s val = feeder) \<and>
     (\<exists>v. Validator N w val = Inr (Some v) \<and> IsBonded v) \<and>
     GetAggregateDoRatePrevote s val = Inr p \<and>
     pHash p = hash_String (GetAggregateVoteHash K (voteSalt msg) (voteExchangeRates msg) val) \<and>
     h div VotePeriod (oparams s) = pSubmitBlock p div VotePeriod (oparams s) + 1 \<and>
     ParseDoRateTuples K (voteExchangeRates msg) = Inr tuples \<and>
     distinct (map tDenom tuples) \<and> (\<forall>t \<in> set tuples. IsVoteTarget s (tDenom t)) \<and>
     GetAggregateDoRateVote s' val = Inr (NewAggregateDoRateVote K tuples val) \<and>
     GetAggregateDoRatePrevote s' val = Inl ErrNoAggregatePrevote \<and>
     (\<forall>u. u \<noteq> val \<longrightarrow> GetAggregateDoRateVote s' u = GetAggregateDoRateVote s u \<and>
        GetAggregateDoRatePrevote s' u = GetAggregateDoRatePrevote s u) \<and>
     rates s' = rates s \<and> feeders s' = feeders s \<and> missCounters s' = missCounters s \<and>
     tobinTaxes s' = tobinTaxes s \<and> oparams s' = oparams s"
proof -
  obtain val feeder p tuples where r:
    "ValFromBech32 K (voteValidator msg) = Inr val" "AccFromBech32 K (voteFeeder msg) = Inr feeder"
    "ValidateFeeder N w s feeder val = Inr ()" "GetAggregateDoRatePrevote s val = Inr p"
    "reveal_period_ok h (VotePeriod (oparams s)) (pSubmitBlock p) = Inr True"
    "ParseDoRateTuples K (voteExchangeRates msg) = Inr tuples"
    "\<forall>t \<in> set tuples. IsVoteTarget s (tDenom t)"
    "pHash p = hash_String (GetAggregateVoteHash K (voteSalt msg) (voteExchangeRates msg) val)"
    "s' = DeleteAggregateDoRatePrevote (SetAggregateDoRateVote s val (NewAggregateDoRateVote K tuples val)) val"
    using ok unfolding reveal_iff by blast
  moreover have "h div VotePeriod (oparams s) = pSubmitBlock p div VotePeriod (oparams s) + 1"
    using reveal_period_iff r(5) range submitted [OF r(4)] by blast
  ultimately show ?thesis
    using ParseDoRateTuples_distinct [OF r(6)]
    by (intro exI [of _ val] exI [of _ feeder] exI [of _ p] exI [of _ tuples])
      (simp add: reveal_effect ValidateFeeder_iff)
qed

definition ex_oracle :: oracle_store where
  "ex_oracle = \<lparr>rates = [], feeders = [], missCounters = [], prevotes = [], votes = [],
     tobinTaxes = [(GetTobinTaxKey ''udo'', 0), (GetTobinTaxKey ''uusd'', NewDecWithPrec 25 4)],
     oparams = oracle_DefaultParams\<rparr>"

definition ex_committed :: oracle_store where
  "ex_committed = SetAggregateDoRatePrevote ex_oracle alice
     (NewAggregateDoRatePrevote ref_sdk (GetAggregateVoteHash ref_sdk ''s'' ''2.5uusd'' alice) alice 40)"

definition ex_revealed :: oracle_store where
  "ex_revealed = DeleteAggregateDoRatePrevote (SetAggregateDoRateVote ex_committed alice
     (NewAggregateDoRateVote ref_sdk [\<lparr>tDenom = ''uusd'', tExchangeRate = 2500000000000000000\<rparr>] alice)) alice"

definition ex_reveal :: MsgAggregateDoRateVote where
  "ex_reveal = \<lparr>voteSalt = ''s'', voteExchangeRates = ''2.5uusd'', voteFeeder = ''do1'' @ alice,
     voteValidator = ''dovaloper1'' @ alice\<rparr>"

theorem reveal_only_committed_witness:
  "AggregateDoRateVote_msg ref_sdk ref_keepers 70 (ex_world [] [(alice, 10)]) ex_committed ex_reveal = Inr ex_revealed \<and>
   (\<exists>val p. GetAggregateDoRatePrevote ex_committed val = Inr p \<and>
      pHash p = hash_String (GetAggregateVoteHash ref_sdk (voteSalt ex_reveal) (voteExchangeRates ex_reveal) val) \<and>
      GetAggregateDoRatePrevote ex_revealed val = Inl ErrNoAggregatePrevote)"
proof -
  have run: "AggregateDoRateVote_msg ref_sdk ref_keepers 70 (ex_world [] [(alice, 10)]) ex_committed ex_reveal = Inr ex_revealed"
    by code_simp
  have period: "0 < VotePeriod (oparams ex_committed)" by code_simp
  have range: "0 \<le> pSubmitBlock p \<and> pSubmitBlock p < 2 ^ 63"
    if "GetAggregateDoRatePrevote ex_committed v = Inr p" for v p
    using that by (auto simp: ex_committed_def SetAggregateDoRatePrevote_def ex_oracle_def kv_get_def
      GetAggregateDoRatePrevote_def NewAggregateDoRatePrevote_def split: if_splits)
  show ?thesis using run reveal_only_committed [OF run _ _ period range] by fastforce
qed



section \<open>The invariant of the oracle's store\<close>

text \<open>
  Beyond well-formedness: addresses have 20 or 32 bytes, feeders too, counters are \<open>uint64\<close>,
  and a stored prevote or vote names the validator it is stored under and was made by
  the code's constructors.
\<close>

definition oracle_inv :: "sdk \<Rightarrow> oracle_store \<Rightarrow> bool" where
  "oracle_inv K s \<longleftrightarrow> oracle_ok s \<and>
     entries GetFeederDelegationKey (\<lambda>a f. addr_ok a \<and> addr_ok f) (feeders s) \<and>
     entries GetMissCounterKey (\<lambda>a n. addr_ok a \<and> 0 \<le> n \<and> n < 2 ^ 64) (missCounters s) \<and>
     entries GetAggregateDoRatePrevoteKey (\<lambda>a p. addr_ok a \<and> pVoter p = ValString K a \<and>
       0 \<le> pSubmitBlock p \<and> pSubmitBlock p < 2 ^ 64) (prevotes s) \<and>
     entries GetAggregateDoRateVoteKey (\<lambda>a v. addr_ok a \<and> aVoter v = ValString K a \<and>
       distinct (map tDenom (aExchangeRateTuples v))) (votes s)"

lemma oracle_inv_ok: "oracle_inv K s \<Longrightarrow> oracle_ok s"
  by (simp add: oracle_inv_def)

lemma oracle_inv_setters [simp, intro]:
  assumes "oracle_inv K s"
  shows "oracle_inv K (SetDoExchangeRate s d r)" "oracle_inv K (DeleteDoExchangeRate s d)"
    "addr_ok v \<Longrightarrow> addr_ok f \<Longrightarrow> oracle_inv K (SetFeederDelegation s v f)"
    "addr_ok v \<Longrightarrow> 0 \<le> n \<Longrightarrow> n < 2 ^ 64 \<Longrightarrow> oracle_inv K (SetMissCounter s v n)"
    "oracle_inv K (DeleteMissCounter s v)"
    "addr_ok v \<Longrightarrow> pVoter p = ValString K v \<Longrightarrow> 0 \<le> pSubmitBlock p \<Longrightarrow> pSubmitBlock p < 2 ^ 64 \<Longrightarrow>
       oracle_inv K (SetAggregateDoRatePrevote s v p)"
    "oracle_inv K (DeleteAggregateDoRatePrevote s v)"
    "addr_ok v \<Longrightarrow> aVoter a = ValString K v \<Longrightarrow> distinct (map tDenom (aExchangeRateTuples a)) \<Longrightarrow>
       oracle_inv K (SetAggregateDoRateVote s v a)"
    "oracle_inv K (DeleteAggregateDoRateVote s v)" "oracle_inv K (SetTobinTax s d t)"
    "oracle_inv K (s\<lparr>oparams := p'\<rparr>)" "oracle_inv K (ClearTobinTaxes s)"
  using assms unfolding oracle_inv_def
  by (auto simp: oracle_setters ClearTobinTaxes_eq oracle_ok_def)

lemma u64_range: "0 \<le> u64 x" "u64 x < 2 ^ 64"
  by (simp_all add: u64_def)

context bech32
begin

lemma prevote_inv:
  "oracle_inv K s \<Longrightarrow> AggregateDoRatePrevote_msg K N h w s msg = Inr s' \<Longrightarrow> oracle_inv K s'"
  using val_write u64_range by (auto simp: prevote_iff NewAggregateDoRatePrevote_def)

lemma reveal_inv:
  "oracle_inv K s \<Longrightarrow> AggregateDoRateVote_msg K N h w s msg = Inr s' \<Longrightarrow> oracle_inv K s'"
  using val_write ParseDoRateTuples_distinct by (auto simp: reveal_iff NewAggregateDoRateVote_def)

lemma delegate_inv:
  "oracle_inv K s \<Longrightarrow> DelegateFeedConsent_msg K N w s msg = Inr s' \<Longrightarrow> oracle_inv K s'"
  using val_write acc_write by (auto simp: DelegateFeedConsent_msg_def res_simps)

end

lemma ClearBallots_inv:
  assumes "oracle_inv K s" and "ClearBallots h s P = Inr s'"
  shows "oracle_inv K s'"
proof -
  have "s' = s\<lparr>prevotes := filter (\<lambda>(k, p). prevote_live h P p) (prevotes s), votes := []\<rparr>"
    using ClearBallots_eq [OF oracle_inv_ok [OF assms(1)], of h P] assms(2) by simp
  then show ?thesis
    using assms(1) oracle_ok_ClearBallots [OF oracle_inv_ok [OF assms(1)] assms(2)]
    by (auto simp: oracle_inv_def)
qed

lemma ApplyWhitelist_inv:
  assumes "oracle_inv K (fst sw)" and "ApplyWhitelist N order wl vt sw = Inr sw'"
  shows "oracle_inv K (fst sw')"
proof -
  have "oracle_inv K (fst t')" if "register_item N i t = Inr t'" "oracle_inv K (fst t)" for i t t'
    using that by (auto simp: register_item_def res_simps Let_def split: option.splits)
  then show ?thesis
    using assms by (auto simp: ApplyWhitelist_def split: if_splits elim: fold_res_invariant)
qed

lemma miss_handler_inv:
  assumes "miss_handler K N h n p op m sw = Inr (sw', stop)" and "oracle_inv K (fst sw)"
  shows "oracle_inv K (fst sw')"
  using assms by (auto simp: miss_handler_def res_simps split: prod.splits if_splits sum.splits option.splits)

lemma SlashAndResetMissCounters_inv:
  assumes "oracle_inv K (fst sw)" and "SlashAndResetMissCounters K N h sw = Inr sw'"
  shows "oracle_inv K (fst sw')"
  using assms unfolding SlashAndResetMissCounters_def Let_def IterateMissCounters_def
  by (auto simp: rbind_eq_Inr elim!: iterate_invariant [where P = "\<lambda>sw. oracle_inv K (fst sw)"]
      dest: miss_handler_inv)



section \<open>Genesis round trip\<close>

definition empty_oracle :: "OracleParams \<Rightarrow> oracle_store" where
  "empty_oracle p = \<lparr>rates = [], feeders = [], missCounters = [], prevotes = [], votes = [],
     tobinTaxes = [], oparams = p\<rparr>"

lemma ExportGenesis_eq:
  "oracle_ExportGenesis K s = Inr \<lparr>gParams = oparams s,
     gExchangeRates = map (\<lambda>(k, r). \<lparr>tDenom = drop 1 k, tExchangeRate = r\<rparr>) (rates s),
     gFeederDelegations = map (\<lambda>(k, f). (AccString K f, ValString K (drop 2 k))) (feeders s),
     gMissCounters = map (\<lambda>(k, n). (ValString K (drop 2 k), n)) (missCounters s),
     gPrevotes = map snd (prevotes s), gVotes = map snd (votes s),
     gTobinTaxes = map (\<lambda>(k, t). (ExtractDenomFromTobinTaxKey k, t)) (tobinTaxes s)\<rparr>"
  by (simp add: oracle_ExportGenesis_def oracle_iterators iterate_pure fold_append_map comp_def case_prod_unfold)

context bech32
begin

lemma init_feeders:
  assumes "part_ok GetFeederDelegationKey m" and "entries GetFeederDelegationKey (\<lambda>a f. addr_ok a \<and> addr_ok f) m"
    and "feeders s = []"
  shows "fold_res (\<lambda>(feederStr, valStr) s.
      rbind (must (ValFromBech32 K valStr)) (\<lambda>voter.
      rbind (must (AccFromBech32 K feederStr)) (\<lambda>feeder. Inr (SetFeederDelegation s voter feeder))))
      (map (\<lambda>(k, f). (AccString K f, ValString K (drop 2 k))) m) s = Inr (s\<lparr>feeders := m\<rparr>)"
proof -
  have "fold_res (\<lambda>(feederStr, valStr) s.
      rbind (must (ValFromBech32 K valStr)) (\<lambda>voter.
      rbind (must (AccFromBech32 K feederStr)) (\<lambda>feeder. Inr (SetFeederDelegation s voter feeder))))
      (map (\<lambda>(k, f). (AccString K f, ValString K (drop 2 k))) m) s =
    Inr (fold (\<lambda>(k, f). feeders_update (\<lambda>m. kv_set k f m)) m s)"
    unfolding fold_res_map
    by (rule fold_res_pure_on)
      (auto elim!: entriesE [OF assms(2)] simp: val_read acc_read SetFeederDelegation_def)
  also have "\<dots> = Inr (s\<lparr>feeders := m\<rparr>)"
    by (subst rebuild_field [where fld = feeders])
      (auto simp: assms(3) part_ok_kv_ok [OF assms(1)] intro!: oracle_store.equality)
  finally show ?thesis .
qed

lemma init_counters:
  assumes "part_ok GetMissCounterKey m" and "entries GetMissCounterKey (\<lambda>a n. addr_ok a \<and> Q a n) m"
    and "missCounters s = []"
  shows "fold_res (\<lambda>(valStr, n) s. rbind (must (ValFromBech32 K valStr)) (\<lambda>operator.
      Inr (SetMissCounter s operator n))) (map (\<lambda>(k, n). (ValString K (drop 2 k), n)) m) s =
     Inr (s\<lparr>missCounters := m\<rparr>)"
proof -
  have "fold_res (\<lambda>(valStr, n) s. rbind (must (ValFromBech32 K valStr)) (\<lambda>operator.
      Inr (SetMissCounter s operator n))) (map (\<lambda>(k, n). (ValString K (drop 2 k), n)) m) s =
     Inr (fold (\<lambda>(k, n). missCounters_update (\<lambda>m. kv_set k n m)) m s)"
    unfolding fold_res_map
    by (rule fold_res_pure_on) (auto elim!: entriesE [OF assms(2)] simp: val_read SetMissCounter_def)
  also have "\<dots> = Inr (s\<lparr>missCounters := m\<rparr>)"
    by (subst rebuild_field [where fld = missCounters])
      (auto simp: assms(3) part_ok_kv_ok [OF assms(1)] intro!: oracle_store.equality)
  finally show ?thesis .
qed

lemma init_prevotes:
  assumes "part_ok GetAggregateDoRatePrevoteKey m"
    and "entries GetAggregateDoRatePrevoteKey (\<lambda>a p. addr_ok a \<and> pVoter p = ValString K a \<and> Q p) m"
    and "prevotes s = []"
  shows "fold_res (\<lambda>ap s. rbind (must (ValFromBech32 K (pVoter ap))) (\<lambda>valAddr.
      Inr (SetAggregateDoRatePrevote s valAddr ap))) (map snd m) s = Inr (s\<lparr>prevotes := m\<rparr>)"
proof -
  have "fold_res (\<lambda>ap s. rbind (must (ValFromBech32 K (pVoter ap))) (\<lambda>valAddr.
      Inr (SetAggregateDoRatePrevote s valAddr ap))) (map snd m) s =
     Inr (fold (\<lambda>(k, n). prevotes_update (\<lambda>m. kv_set k n m)) m s)"
    unfolding fold_res_map
    by (rule fold_res_pure_on) (auto elim!: entriesE [OF assms(2)] simp: val_read SetAggregateDoRatePrevote_def)
  also have "\<dots> = Inr (s\<lparr>prevotes := m\<rparr>)"
    by (subst rebuild_field [where fld = prevotes])
      (auto simp: assms(3) part_ok_kv_ok [OF assms(1)] intro!: oracle_store.equality)
  finally show ?thesis .
qed

lemma init_votes:
  assumes "part_ok GetAggregateDoRateVoteKey m"
    and "entries GetAggregateDoRateVoteKey (\<lambda>a p. addr_ok a \<and> aVoter p = ValString K a \<and> Q p) m"
    and "votes s = []"
  shows "fold_res (\<lambda>av s. rbind (must (ValFromBech32 K (aVoter av))) (\<lambda>valAddr.
      Inr (SetAggregateDoRateVote s valAddr av))) (map snd m) s = Inr (s\<lparr>votes := m\<rparr>)"
proof -
  have "fold_res (\<lambda>av s. rbind (must (ValFromBech32 K (aVoter av))) (\<lambda>valAddr.
      Inr (SetAggregateDoRateVote s valAddr av))) (map snd m) s =
     Inr (fold (\<lambda>(k, n). votes_update (\<lambda>m. kv_set k n m)) m s)"
    unfolding fold_res_map
    by (rule fold_res_pure_on) (auto elim!: entriesE [OF assms(2)] simp: val_read SetAggregateDoRateVote_def)
  also have "\<dots> = Inr (s\<lparr>votes := m\<rparr>)"
    by (subst rebuild_field [where fld = votes])
      (auto simp: assms(3) part_ok_kv_ok [OF assms(1)] intro!: oracle_store.equality)
  finally show ?thesis .
qed

end


lemma init_rates:
  assumes "part_ok GetExchangeRateKey m" and "rates s = []"
  shows "fold (\<lambda>ex s. SetDoExchangeRate s (tDenom ex) (tExchangeRate ex))
     (map (\<lambda>(k, r). \<lparr>tDenom = drop (Suc 0) k, tExchangeRate = r\<rparr>) m) s = s\<lparr>rates := m\<rparr>"
proof -
  have "fold (\<lambda>ex s. SetDoExchangeRate s (tDenom ex) (tExchangeRate ex))
      (map (\<lambda>(k, r). \<lparr>tDenom = drop (Suc 0) k, tExchangeRate = r\<rparr>) m) s =
      fold (\<lambda>(k, r). rates_update (\<lambda>m. kv_set k r m)) m s"
    unfolding fold_map by (rule fold_cong [OF refl refl])
      (auto simp: SetDoExchangeRate_def fun_eq_iff dest!: part_ok_key [OF assms(1)])
  also have "\<dots> = s\<lparr>rates := m\<rparr>"
    by (subst rebuild_field [where fld = rates])
      (auto simp: assms(2) part_ok_kv_ok [OF assms(1)] intro!: oracle_store.equality)
  finally show ?thesis .
qed

lemma init_taxes:
  assumes "part_ok GetTobinTaxKey m" and "tobinTaxes s = []"
  shows "fold (\<lambda>(d, t) s. SetTobinTax s d t) (map (\<lambda>(k, t). (ExtractDenomFromTobinTaxKey k, t)) m) s =
     s\<lparr>tobinTaxes := m\<rparr>"
proof -
  have "fold (\<lambda>(d, t) s. SetTobinTax s d t) (map (\<lambda>(k, t). (ExtractDenomFromTobinTaxKey k, t)) m) s =
      fold (\<lambda>(k, r). tobinTaxes_update (\<lambda>m. kv_set k r m)) m s"
    unfolding fold_map by (rule fold_cong [OF refl refl])
      (auto simp: SetTobinTax_def fun_eq_iff dest!: part_ok_key [OF assms(1)])
  also have "\<dots> = s\<lparr>tobinTaxes := m\<rparr>"
    by (subst rebuild_field [where fld = tobinTaxes])
      (auto simp: assms(2) part_ok_kv_ok [OF assms(1)] intro!: oracle_store.equality)
  finally show ?thesis .
qed

text \<open>
  Genesis round trip. Exporting a store that satisfies the invariant and importing the
  result into an empty store gives the same store back, provided the store has vote targets
  (an export without any is read as a request to register the whitelist).
\<close>

lemma oracle_genesis_round_trip:
  assumes K: "bech32 K" and inv: "oracle_inv K s" and acc: "GetModuleAddress N ''oracle'' \<noteq> None"
    and targets: "tobinTaxes s \<noteq> []"
  shows "rbind (oracle_ExportGenesis K s) (oracle_InitGenesis K N (empty_oracle p)) = Inr s"
proof -
  note parts = inv [unfolded oracle_inv_def oracle_ok_def]
  show ?thesis
    using parts targets acc
    by (auto simp: ExportGenesis_eq oracle_InitGenesis_def Let_def empty_oracle_def
        bech32.init_feeders [OF K] bech32.init_counters [OF K] bech32.init_prevotes [OF K]
        bech32.init_votes [OF K] init_rates init_taxes intro!: oracle_store.equality)
qed

lemma oracle_genesis_round_trip_example:
  "rbind (oracle_ExportGenesis ref_sdk ex_revealed)
     (oracle_InitGenesis ref_sdk ref_keepers (empty_oracle oracle_DefaultParams)) = Inr ex_revealed"
proof (rule oracle_genesis_round_trip)
  show "bech32 ref_sdk" by (rule ref.bech32_axioms)
  have "oracle_inv ref_sdk ex_oracle"
    by (simp add: oracle_inv_def oracle_ok_def ex_oracle_def part_ok_def kv_ok_def oracle_keys)
  moreover have "addr_ok alice" by (simp add: addr_ok_def alice_def)
  ultimately show "oracle_inv ref_sdk ex_revealed"
    unfolding ex_revealed_def ex_committed_def
    by (auto simp: NewAggregateDoRatePrevote_def NewAggregateDoRateVote_def)
  show "GetModuleAddress ref_keepers ''oracle'' \<noteq> None" by (simp add: ref_module_def)
  show "tobinTaxes ex_revealed \<noteq> []" by code_simp
qed

end
