(* ===== verification/Oracle_Abci.thy ===== *)
theory Oracle_Abci
  imports Oracle_Keeper
begin

text \<open>
  \<open>src/x/oracle/tally.go\<close> and \<open>abci.go\<close>: tallying the ballots and the end-blocker.
  The end-blocker ranges over Go maps, whose order the language leaves open; each of its
  loops takes its order from the record \<open>ranges\<close>.
\<close>


section \<open>Tallying (tally.go)\<close>

definition zero_claim :: Claim where
  "zero_claim = \<lparr>cPower = 0, cWeight = 0, cWinCount = 0, cRecipient = []\<rparr>"

definition claim_of :: "(string \<rightharpoonup> Claim) \<Rightarrow> string \<Rightarrow> Claim" where
  "claim_of m k = (case m k of None \<Rightarrow> zero_claim | Some c \<Rightarrow> c)"

definition tally_vote ::
    "sdk \<Rightarrow> dec \<Rightarrow> dec \<Rightarrow> VoteForTally \<Rightarrow> (string \<rightharpoonup> Claim) \<Rightarrow> (string \<rightharpoonup> Claim) result" where
  "tally_vote K weightedMedian rewardSpread vote m =
     rbind (dSub K weightedMedian rewardSpread) (\<lambda>lo.
     rbind (if lo \<le> vExchangeRate vote
            then rbind (dAdd K weightedMedian rewardSpread) (\<lambda>hi. Inr (vExchangeRate vote \<le> hi))
            else Inr False) (\<lambda>within.
     if within \<or> \<not> 0 < vExchangeRate vote
     then let key = ValString K (vVoter vote); claim = claim_of m key
          in Inr (m(key \<mapsto> claim\<lparr>cWeight := i64 (cWeight claim + vPower vote),
                                 cWinCount := i64 (cWinCount claim + 1)\<rparr>))
     else Inr m))"

definition Tally ::
    "sdk \<Rightarrow> ExchangeRateBallot \<Rightarrow> dec \<Rightarrow> (string \<rightharpoonup> Claim) \<Rightarrow> (dec \<times> (string \<rightharpoonup> Claim)) result" where
  "Tally K pb rewardBand validatorClaimMap =
     (let weightedMedian = WeightedMedian pb;
          standardDeviation = StandardDeviation K pb weightedMedian
      in rbind (dQuoInt K rewardBand 2) (\<lambda>halfBand.
         rbind (dMul K weightedMedian halfBand) (\<lambda>spread.
         let rewardSpread = (if spread < standardDeviation then standardDeviation else spread)
         in rbind (fold_res (tally_vote K weightedMedian rewardSpread) pb validatorClaimMap) (\<lambda>m.
            Inr (weightedMedian, m)))))"

definition ballotIsPassing :: "ExchangeRateBallot \<Rightarrow> int \<Rightarrow> int \<times> bool" where
  "ballotIsPassing ballot thresholdVotes =
     (let ballotPower = Power ballot in (ballotPower, ballotPower \<noteq> 0 \<and> thresholdVotes \<le> ballotPower))"

record pick_state =
  referenceDo :: string
  largestBallotPower :: int
  pickTargets :: "string \<rightharpoonup> dec"
  pickVotes :: "string \<rightharpoonup> ExchangeRateBallot"

definition pick_step :: "int \<Rightarrow> string \<Rightarrow> pick_state \<Rightarrow> pick_state" where
  "pick_step thresholdVotes denom st =
     (case pickVotes st denom of
        None \<Rightarrow> st
      | Some ballot \<Rightarrow>
          if pickTargets st denom = None then st\<lparr>pickVotes := (pickVotes st)(denom := None)\<rparr>
          else let (ballotPower, ok) = ballotIsPassing ballot thresholdVotes
               in if \<not> ok
                  then st\<lparr>pickTargets := (pickTargets st)(denom := None),
                          pickVotes := (pickVotes st)(denom := None)\<rparr>
                  else if largestBallotPower st < ballotPower \<or> largestBallotPower st = 0
                  then st\<lparr>referenceDo := denom, largestBallotPower := ballotPower\<rparr>
                  else if largestBallotPower st = ballotPower \<and> denom < referenceDo st
                  then st\<lparr>referenceDo := denom\<rparr>
                  else st)"

definition PickReferenceDo ::
    "sdk \<Rightarrow> 'w keepers \<Rightarrow> 'w \<Rightarrow> oracle_store \<Rightarrow> string list \<Rightarrow> (string \<rightharpoonup> dec) \<Rightarrow>
     (string \<rightharpoonup> ExchangeRateBallot) \<Rightarrow> pick_state result" where
  "PickReferenceDo K N w s order voteTargets voteMap =
     (let st = \<lparr>referenceDo = '''', largestBallotPower = 0, pickTargets = voteTargets, pickVotes = voteMap\<rparr>
      in case TotalBondedTokens N w of
           Inl e \<Rightarrow> if e = Panic then Inl Panic else Inr st
         | Inr totalBondedTokens \<Rightarrow>
             rbind (iQuo K totalBondedTokens (PowerReduction N w)) (\<lambda>totalBondedPower.
             rbind (dMulInt K (VoteThreshold (oparams s)) totalBondedPower) (\<lambda>t.
             rbind (dRoundInt K t) (\<lambda>thresholdVotes.
             Inr (fold (pick_step thresholdVotes) (range_keys order voteMap) st)))))"


section \<open>The end-blocker (abci.go)\<close>

record ranges =
  oPick :: "string list"
  oTally :: "string list"
  oMiss :: "string list"
  oDenoms :: "string list"
  oSum :: "string list"
  oWinners :: "string list"

fun claim_loop ::
    "sdk \<Rightarrow> 'w keepers \<Rightarrow> 'w \<Rightarrow> int \<Rightarrow> address list \<Rightarrow> int \<Rightarrow> (string \<rightharpoonup> Claim) \<Rightarrow> (string \<rightharpoonup> Claim) result" where
  "claim_loop K N w maxValidators [] i m = Inr m"
| "claim_loop K N w maxValidators (a # as) i m =
     (if \<not> i < maxValidators then Inr m
      else case Validator N w a of
             Inl e \<Rightarrow> if e = Panic then Inl Panic else claim_loop K N w maxValidators as i m
           | Inr None \<Rightarrow> Inl Panic
           | Inr (Some validator) \<Rightarrow>
               if IsBonded validator
               then (case ValFromBech32 K (OperatorAddress validator) of
                       Inl e \<Rightarrow> if e = Panic then Inl Panic else claim_loop K N w maxValidators as i m
                     | Inr valAddr \<Rightarrow>
                         claim_loop K N w maxValidators as (i + 1)
                           (m(OperatorAddress validator \<mapsto>
                              NewClaim (GetConsensusPower N validator (PowerReduction N w)) 0 0 valAddr)))
               else claim_loop K N w maxValidators as i m)"

definition vote_targets :: "oracle_store \<Rightarrow> (string \<rightharpoonup> dec) result" where
  "vote_targets s = IterateTobinTaxes s (\<lambda>denom tobinTax m. Inr (m(denom \<mapsto> tobinTax), False)) Map.empty"

definition clear_rates :: "oracle_store \<Rightarrow> oracle_store result" where
  "clear_rates s = IterateDoExchangeRates s (\<lambda>denom _ s. Inr (DeleteDoExchangeRate s denom, False)) s"

definition tally_denom ::
    "sdk \<Rightarrow> dec \<Rightarrow> string \<Rightarrow> (address \<rightharpoonup> dec) \<Rightarrow> dec \<Rightarrow> (string \<rightharpoonup> ExchangeRateBallot) \<Rightarrow>
     string \<Rightarrow> oracle_store \<times> (string \<rightharpoonup> Claim) \<Rightarrow> (oracle_store \<times> (string \<rightharpoonup> Claim)) result" where
  "tally_denom K rewardBand ref voteMapRT exchangeRateRT voteMap denom sm =
     (case voteMap denom of
        None \<Rightarrow> Inr sm
      | Some ballot \<Rightarrow>
          rbind (if denom \<noteq> ref then ToCrossRateWithSort K voteMapRT ballot else Inr ballot) (\<lambda>ballot'.
          rbind (Tally K ballot' rewardBand (snd sm)) (\<lambda>(exchangeRate, m).
          rbind (if denom \<noteq> ref then dQuo K exchangeRateRT exchangeRate else Inr exchangeRate) (\<lambda>rate.
          Inr (SetDoExchangeRate (fst sm) denom rate, m)))))"

definition miss_count ::
    "nat \<Rightarrow> (string \<rightharpoonup> Claim) \<Rightarrow> string \<Rightarrow> oracle_store \<Rightarrow> oracle_store" where
  "miss_count voteTargetsLen m k s =
     (case m k of
        None \<Rightarrow> s
      | Some claim \<Rightarrow>
          if cWinCount claim = int voteTargetsLen then s
          else SetMissCounter s (cRecipient claim) (u64 (GetMissCounter s (cRecipient claim) + 1)))"

text \<open>
  From the ballots to the miss counters: the exchange rates, the claims with their wins and
  the vote targets that are left. \<open>s\<close> is the store whose rates have been cleared.
\<close>

definition count_votes ::
    "sdk \<Rightarrow> 'w keepers \<Rightarrow> 'w \<Rightarrow> ranges \<Rightarrow> (string \<rightharpoonup> dec) \<Rightarrow> (string \<rightharpoonup> Claim) \<Rightarrow> oracle_store \<Rightarrow>
     (oracle_store \<times> (string \<rightharpoonup> Claim) \<times> (string \<rightharpoonup> dec)) result" where
  "count_votes K N w R targets0 claims s =
     rbind (OrganizeBallotByDenom s claims) (\<lambda>voteMap0.
     rbind (PickReferenceDo K N w s (oPick R) targets0 voteMap0) (\<lambda>pick.
     let ref = referenceDo pick; voteTargets = pickTargets pick; voteMap = pickVotes pick
     in rbind (if ref \<noteq> ''''
               then let ballotRT = (case voteMap ref of None \<Rightarrow> [] | Some b \<Rightarrow> b)
                    in fold_res (tally_denom K (RewardBand (oparams s)) ref (ToMap ballotRT) (WeightedMedian ballotRT) voteMap)
                         (range_keys (oTally R) voteMap) (s, claims)
               else Inr (s, claims)) (\<lambda>(s1, claims1).
        Inr (fold (miss_count (map_len (oDenoms R) voteTargets) claims1) (range_keys (oMiss R) claims1) s1,
             claims1, voteTargets))))"

definition end_vote_period ::
    "sdk \<Rightarrow> 'w keepers \<Rightarrow> string \<Rightarrow> ranges \<Rightarrow> int \<Rightarrow> (string \<rightharpoonup> Claim) \<Rightarrow>
     oracle_store \<times> 'w \<Rightarrow> (oracle_store \<times> 'w) result" where
  "end_vote_period K N distrName R height claims sw =
     (let params = oparams (fst sw); w = snd sw
      in rbind (vote_targets (fst sw)) (\<lambda>targets0.
         rbind (clear_rates (fst sw)) (\<lambda>s0.
         rbind (count_votes K N w R targets0 claims s0) (\<lambda>(s2, claims1, voteTargets).
         rbind (RewardBallotWinners K N distrName (oDenoms R) (oSum R) (oWinners R)
                  (i64 (VotePeriod params)) (i64 (RewardDistributionWindow params)) voteTargets claims1 w) (\<lambda>w1.
         rbind (ClearBallots height s2 (VotePeriod params)) (\<lambda>s3.
         ApplyWhitelist N (oDenoms R) (Whitelist params) voteTargets (s3, w1)))))))"

text \<open>An error of the staking keeper ends the end-blocker early, without the slash window.\<close>

definition oracle_EndBlocker ::
    "sdk \<Rightarrow> 'w keepers \<Rightarrow> string \<Rightarrow> ranges \<Rightarrow> int \<Rightarrow> oracle_store \<times> 'w \<Rightarrow> (oracle_store \<times> 'w) result" where
  "oracle_EndBlocker K N distrName R height sw =
     (let params = oparams (fst sw);
          slash = (\<lambda>sw. rbind (IsPeriodLastBlock height (SlashWindow params)) (\<lambda>last.
                     if last then SlashAndResetMissCounters K N height sw else Inr sw))
      in rbind (IsPeriodLastBlock height (VotePeriod params)) (\<lambda>last.
         if \<not> last then slash sw
         else case MaxValidators N (snd sw) of
                Inl e \<Rightarrow> if e = Panic then Inl Panic else Inr sw
              | Inr maxValidators \<Rightarrow>
                  (case ValidatorsPowerStore N (snd sw) of
                     Inl e \<Rightarrow> if e = Panic then Inl Panic else Inr sw
                   | Inr addrs \<Rightarrow>
                       rbind (claim_loop K N (snd sw) maxValidators addrs 0 Map.empty) (\<lambda>claims.
                       rbind (end_vote_period K N distrName R height claims sw) slash))))"


section \<open>Choosing the reference denom\<close>

definition ballot_power :: "(string \<rightharpoonup> ExchangeRateBallot) \<Rightarrow> string \<Rightarrow> int" where
  "ballot_power V d = (case V d of None \<Rightarrow> 0 | Some b \<Rightarrow> Power b)"

definition passing :: "int \<Rightarrow> (string \<rightharpoonup> dec) \<Rightarrow> (string \<rightharpoonup> ExchangeRateBallot) \<Rightarrow> string \<Rightarrow> bool" where
  "passing th T V d \<longleftrightarrow> V d \<noteq> None \<and> T d \<noteq> None \<and> ballot_power V d \<noteq> 0 \<and> th \<le> ballot_power V d"

text \<open>\<open>best V D r\<close>: \<open>r\<close> has the largest power in \<open>D\<close>, and is the first such denom in the alphabet.\<close>

definition best :: "(string \<rightharpoonup> ExchangeRateBallot) \<Rightarrow> string set \<Rightarrow> string \<Rightarrow> bool" where
  "best V D r \<longleftrightarrow> r \<in> D \<and>
     (\<forall>d \<in> D. ballot_power V d < ballot_power V r \<or> (ballot_power V d = ballot_power V r \<and> r \<le> d))"

lemma best_unique: "best V D r \<Longrightarrow> best V D r' \<Longrightarrow> r = r'"
proof -
  assume "best V D r" "best V D r'"
  then have "ballot_power V r' < ballot_power V r \<or> (ballot_power V r' = ballot_power V r \<and> r \<le> r')"
    and "ballot_power V r < ballot_power V r' \<or> (ballot_power V r = ballot_power V r' \<and> r' \<le> r)"
    by (simp_all add: best_def)
  then show ?thesis by auto
qed

lemma best_insert:
  assumes "best V D r"
  shows "best V (insert d D)
    (if ballot_power V r < ballot_power V d then d
     else if ballot_power V r = ballot_power V d \<and> d < r then d else r)"
proof -
  have le: "ballot_power V x < ballot_power V r \<or> (ballot_power V x = ballot_power V r \<and> r \<le> x)"
    if "x \<in> D" for x using assms that by (simp add: best_def)
  consider "ballot_power V r < ballot_power V d" | "ballot_power V r = ballot_power V d" "d < r"
    | "ballot_power V r = ballot_power V d" "r \<le> d" | "ballot_power V d < ballot_power V r"
    using linorder_less_linear [of "ballot_power V r" "ballot_power V d"] linorder_not_le [of r d] by blast
  then show ?thesis
  proof cases
    case 1
    then show ?thesis using le by (fastforce simp: best_def)
  next
    case 2
    then show ?thesis using le by (fastforce simp: best_def)
  next
    case 3
    then show ?thesis using le assms by (auto simp: best_def)
  next
    case 4
    then show ?thesis using le assms by (auto simp: best_def)
  qed
qed

text \<open>
  The state of the loop after the denoms in \<open>D\<close>: the failed ballots are gone from both
  maps, and the reference is the best of the passed ones.
\<close>

definition pick_maps ::
    "int \<Rightarrow> (string \<rightharpoonup> dec) \<Rightarrow> (string \<rightharpoonup> ExchangeRateBallot) \<Rightarrow> string set \<Rightarrow> pick_state \<Rightarrow> bool" where
  "pick_maps th T V D st \<longleftrightarrow>
     pickTargets st = (\<lambda>d. if d \<in> D \<and> V d \<noteq> None \<and> \<not> passing th T V d then None else T d) \<and>
     pickVotes st = (\<lambda>d. if d \<in> D \<and> \<not> passing th T V d then None else V d)"

definition pick_choice :: "(string \<rightharpoonup> ExchangeRateBallot) \<Rightarrow> string set \<Rightarrow> pick_state \<Rightarrow> bool" where
  "pick_choice V E st \<longleftrightarrow>
     (if E = {} then referenceDo st = '''' \<and> largestBallotPower st = 0
      else best V E (referenceDo st) \<and> largestBallotPower st = ballot_power V (referenceDo st))"

definition pick_inv ::
    "int \<Rightarrow> (string \<rightharpoonup> dec) \<Rightarrow> (string \<rightharpoonup> ExchangeRateBallot) \<Rightarrow> string set \<Rightarrow> pick_state \<Rightarrow> bool" where
  "pick_inv th T V D st \<longleftrightarrow>
     pick_maps th T V D st \<and> pick_choice V {d \<in> D. passing th T V d} st"

lemma pick_choice_unique:
  assumes "pick_choice V E st" "pick_choice V E st'"
  shows "referenceDo st = referenceDo st'" and "largestBallotPower st = largestBallotPower st'"
  using assms best_unique [of V E "referenceDo st" "referenceDo st'"]
  by (auto simp: pick_choice_def split: if_splits)

lemma pick_inv_unique: "pick_inv th T V D st \<Longrightarrow> pick_inv th T V D st' \<Longrightarrow> st = st'"
  using pick_choice_unique [of V "{d \<in> D. passing th T V d}" st st']
  by (auto simp: pick_inv_def pick_maps_def intro!: pick_state.equality)

lemma pick_step_fail:
  assumes "pick_inv th T V D st" and "d \<notin> D" and "\<not> passing th T V d"
  shows "pick_inv th T V (insert d D) (pick_step th d st)"
proof -
  have same: "{x \<in> insert d D. passing th T V x} = {x \<in> D. passing th T V x}" using assms(3) by auto
  have st: "pickVotes st d = V d" "pickTargets st d = T d"
    using assms by (simp_all add: pick_inv_def pick_maps_def)
  have choice: "referenceDo (pick_step th d st) = referenceDo st \<and>
      largestBallotPower (pick_step th d st) = largestBallotPower st"
    using assms(3) st
    by (auto simp: pick_step_def ballotIsPassing_def passing_def ballot_power_def Let_def split: option.splits)
  have "pick_maps th T V (insert d D) (pick_step th d st)"
  proof (cases "V d")
    case None
    then show ?thesis using assms st
      by (auto simp: pick_inv_def pick_maps_def pick_step_def fun_eq_iff)
  next
    case (Some b)
    then have "T d = None \<or> \<not> snd (ballotIsPassing b th)"
      using assms(3) by (auto simp: passing_def ballotIsPassing_def ballot_power_def Let_def)
    then show ?thesis using assms st Some
      by (auto simp: pick_inv_def pick_maps_def pick_step_def fun_eq_iff split: prod.splits)
  qed
  then show ?thesis using assms(1) choice unfolding pick_inv_def same by (simp add: pick_choice_def)
qed

lemma pick_step_pass:
  assumes inv: "pick_inv th T V D st" and new: "d \<notin> D" and pass: "passing th T V d"
    and pos: "\<And>d. passing th T V d \<Longrightarrow> 0 < ballot_power V d"
  shows "pick_inv th T V (insert d D) (pick_step th d st)"
proof -
  define E where "E = {x \<in> D. passing th T V x}"
  obtain b y where b: "V d = Some b" and T: "T d = Some y" using pass by (auto simp: passing_def)
  have st: "pickVotes st d = Some b" "pickTargets st d = T d"
    using inv new b by (simp_all add: pick_inv_def pick_maps_def)
  have bp: "ballot_power V d = Power b" and ok: "ballotIsPassing b th = (Power b, True)"
    using pass b by (auto simp: ballot_power_def ballotIsPassing_def passing_def Let_def)
  have ins: "{x \<in> insert d D. passing th T V x} = insert d E" using pass by (auto simp: E_def)
  have maps: "pickTargets (pick_step th d st) = pickTargets st" "pickVotes (pick_step th d st) = pickVotes st"
    using st T by (simp_all add: pick_step_def ok)
  then have "pick_maps th T V (insert d D) (pick_step th d st)"
    using inv pass by (auto simp: pick_inv_def pick_maps_def fun_eq_iff)
  moreover have "pick_choice V (insert d E) (pick_step th d st)"
  proof (cases "E = {}")
    case True
    then have "largestBallotPower st = 0" using inv by (simp add: pick_inv_def pick_choice_def flip: E_def)
    then show ?thesis using st T True by (simp add: pick_choice_def pick_step_def ok best_def bp)
  next
    case False
    then have b0: "best V E (referenceDo st)" and l: "largestBallotPower st = ballot_power V (referenceDo st)"
      using inv by (simp_all add: pick_inv_def pick_choice_def flip: E_def)
    then have p0: "0 < ballot_power V (referenceDo st)" using pos by (auto simp: best_def E_def)
    show ?thesis
      using best_insert [OF b0, of d] st T l p0 by (auto simp: pick_choice_def pick_step_def ok bp split: if_splits)
  qed
  ultimately show ?thesis unfolding pick_inv_def ins by blast
qed

lemma pick_fold_inv:
  assumes pos: "\<And>d. passing th T V d \<Longrightarrow> 0 < ballot_power V d"
  shows "distinct ks \<Longrightarrow> pick_inv th T V D st \<Longrightarrow> set ks \<inter> D = {} \<Longrightarrow>
     pick_inv th T V (set ks \<union> D) (fold (pick_step th) ks st)"
proof (induction ks arbitrary: D st)
  case (Cons k ks)
  then have "pick_inv th T V (insert k D) (pick_step th k st)"
    using pick_step_fail [of th T V D st k] pick_step_pass [of th T V D st k] pos by auto
  then have "pick_inv th T V (set ks \<union> insert k D) (fold (pick_step th) ks (pick_step th k st))"
    using Cons.prems by (intro Cons.IH) auto
  then show ?case by simp
qed simp

lemma pick_init: "pick_inv th T V {} \<lparr>referenceDo = '''', largestBallotPower = 0, pickTargets = T, pickVotes = V\<rparr>"
  by (simp add: pick_inv_def pick_maps_def pick_choice_def)

definition ballots_ok :: "(string \<rightharpoonup> ExchangeRateBallot) \<Rightarrow> bool" where
  "ballots_ok V \<longleftrightarrow> (\<forall>d b. V d = Some b \<longrightarrow> ballot_ok b)"

lemma passing_pos:
  assumes "ballots_ok V" and "passing th T V d"
  shows "0 < ballot_power V d"
proof -
  obtain b where "V d = Some b" using assms(2) by (auto simp: passing_def)
  then have "ballot_power V d = pow_sum b" and "0 \<le> pow_sum b"
    using assms(1) by (auto simp: ballots_ok_def ballot_power_def Power_eq ballot_ok_def intro: pow_sum_nonneg)
  then show ?thesis using assms(2) by (simp add: passing_def)
qed



section \<open>The ballots\<close>

definition claim_power :: "(string \<rightharpoonup> Claim) \<Rightarrow> string \<Rightarrow> int" where
  "claim_power m k = (case m k of None \<Rightarrow> 0 | Some c \<Rightarrow> cPower c)"

definition ballot_of :: "(string \<rightharpoonup> ExchangeRateBallot) \<Rightarrow> string \<Rightarrow> ExchangeRateBallot" where
  "ballot_of bm d = (case bm d of None \<Rightarrow> [] | Some b \<Rightarrow> b)"

lemma pow_sum_append [simp]: "pow_sum (xs @ ys) = pow_sum xs + pow_sum ys"
  by (simp add: pow_sum_def)

lemma ballot_of_tuple:
  "ballot_of (organize_tuple a pw t bm) d = ballot_of bm d @
     (if d = tDenom t then [NewVoteForTally (tExchangeRate t) d a (if 0 < tExchangeRate t then pw else 0)] else [])"
  by (auto simp: ballot_of_def organize_tuple_def)

lemma organize_tuples:
  assumes "0 \<le> pw" and "distinct (map tDenom ts)"
  shows "(\<forall>v \<in> set (ballot_of bm d). 0 \<le> vPower v) \<longrightarrow>
     (\<forall>v \<in> set (ballot_of (fold (organize_tuple a pw) ts bm) d). 0 \<le> vPower v)"
    and "pow_sum (ballot_of (fold (organize_tuple a pw) ts bm) d) \<le>
       pow_sum (ballot_of bm d) + (if d \<in> tDenom ` set ts then pw else 0)"
  using assms(2)
proof (induction ts arbitrary: bm)
  case Nil
  { case 1 show ?case by simp }
  { case 2 show ?case by simp }
next
  case (Cons t ts)
  { case 1 then show ?case using Cons.IH(1) [of "organize_tuple a pw t bm"] assms(1)
      by (auto simp: ballot_of_tuple NewVoteForTally_def) }
  { case 2 then show ?case using Cons.IH(2) [of "organize_tuple a pw t bm"] assms(1)
      by (auto simp: ballot_of_tuple NewVoteForTally_def split: if_splits) }
qed

lemma organize_votes:
  assumes "\<And>k. 0 \<le> claim_power m k"
    and "\<forall>(a, v) \<in> set L. distinct (map tDenom (aExchangeRateTuples v))"
    and "\<forall>v \<in> set (ballot_of bm d). 0 \<le> vPower v"
  shows "(\<forall>v \<in> set (ballot_of (fold (\<lambda>(a, v). aggregate_handler m a v) L bm) d). 0 \<le> vPower v) \<and>
     pow_sum (ballot_of (fold (\<lambda>(a, v). aggregate_handler m a v) L bm) d) \<le>
       pow_sum (ballot_of bm d) + sum_list (map (\<lambda>(a, v). claim_power m (aVoter v)) L)"
  using assms(2,3)
proof (induction L arbitrary: bm)
  case (Cons x L)
  obtain a v where x: "x = (a, v)" by (cases x)
  let ?bm = "aggregate_handler m a v bm"
  have d: "distinct (map tDenom (aExchangeRateTuples v))" using Cons.prems(1) x by simp
  have step: "(\<forall>v \<in> set (ballot_of ?bm d). 0 \<le> vPower v) \<and>
      pow_sum (ballot_of ?bm d) \<le> pow_sum (ballot_of bm d) + claim_power m (aVoter v)"
  proof (cases "m (aVoter v)")
    case None
    then show ?thesis using Cons.prems(2) by (simp add: aggregate_handler_def claim_power_def)
  next
    case (Some c)
    then have "0 \<le> cPower c" using assms(1) [of "aVoter v"] by (simp add: claim_power_def)
    then show ?thesis using Some Cons.prems(2) organize_tuples [OF _ d, where pw = "cPower c" and bm = bm and d = d and a = a]
      by (auto simp: aggregate_handler_def claim_power_def split: if_splits)
  qed
  then have "(\<forall>v \<in> set (ballot_of (fold (\<lambda>(a, v). aggregate_handler m a v) L ?bm) d). 0 \<le> vPower v) \<and>
      pow_sum (ballot_of (fold (\<lambda>(a, v). aggregate_handler m a v) L ?bm) d) \<le>
        pow_sum (ballot_of ?bm d) + sum_list (map (\<lambda>(a, v). claim_power m (aVoter v)) L)"
    using Cons.prems(1) by (intro Cons.IH) auto
  with step show ?case by (simp add: x)
qed simp

lemma sum_voters_le:
  assumes "distinct ks" and "finite (dom m)" and "\<And>k. 0 \<le> claim_power m k"
  shows "sum_list (map (claim_power m) ks) \<le> sum (claim_power m) (dom m)"
proof -
  have "sum_list (map (claim_power m) ks) = sum (claim_power m) (set ks)"
    using assms(1) by (simp add: sum_list_distinct_conv_sum_set)
  also have "\<dots> = sum (claim_power m) (set ks \<inter> dom m)"
    by (rule sum.mono_neutral_right) (auto simp: claim_power_def dom_def)
  also have "\<dots> \<le> sum (claim_power m) (dom m)"
    by (rule sum_mono2) (use assms in auto)
  finally show ?thesis .
qed

lemma ballot_ok_sort: "ballot_ok b \<Longrightarrow> ballot_ok (sort_ballot b)"
  using pow_mset(1) [of "sort_ballot b" b] by (simp add: ballot_ok_def)

context bech32
begin

lemma voters_distinct:
  assumes "oracle_inv K s"
  shows "distinct (map (\<lambda>(k, v). aVoter v) (votes s))"
proof -
  have ok: "part_ok GetAggregateDoRateVoteKey (votes s)" using assms by (simp add: oracle_inv_def oracle_ok_def)
  have d: "distinct (map fst (votes s))" using kv_ok_distinct part_ok_kv_ok [OF ok] by blast
  have voter: "\<exists>a. k = GetAggregateDoRateVoteKey a \<and> addr_ok a \<and> aVoter v = ValString K a" if "(k, v) \<in> set (votes s)" for k v
    using assms that by (auto simp: oracle_inv_def elim!: entriesE)
  have "inj_on (\<lambda>(k, v). aVoter v) (set (votes s))"
  proof (rule inj_onI, clarify)
    fix k v k' v' assume kv: "(k, v) \<in> set (votes s)" "(k', v') \<in> set (votes s)" "aVoter v = aVoter v'"
    then have "k = k'" using voter [OF kv(1)] voter [OF kv(2)] val_inject by auto
    then show "k = k' \<and> v = v'" using kv kv_get_iff [OF part_ok_kv_ok [OF ok]] by (metis option.inject)
  qed
  then show ?thesis using d by (simp add: distinct_map)
qed

lemma organized_ballots_ok:
  assumes inv: "oracle_inv K s" and m: "finite (dom m)" "\<And>k. 0 \<le> claim_power m k"
    "sum (claim_power m) (dom m) < 2 ^ 63" and V: "OrganizeBallotByDenom s m = Inr V" "V d = Some b"
  shows "ballot_ok b"
proof -
  define L where "L = map (\<lambda>(k, v). (drop 2 k, v)) (votes s)"
  define bm where "bm = fold (\<lambda>(a, v). aggregate_handler m a v) L Map.empty"
  have b: "b = sort_ballot (ballot_of bm d)"
    using V by (auto simp: OrganizeBallotByDenom_def IterateAggregateDoRateVotes_def iterate_pure
        ballot_of_def simp flip: L_def bm_def)
  have dist: "\<forall>(a, v) \<in> set L. distinct (map tDenom (aExchangeRateTuples v))"
    using inv by (auto simp: L_def oracle_inv_def elim!: entriesE)
  have "map (\<lambda>(a, v). claim_power m (aVoter v)) L = map (claim_power m) (map (\<lambda>(k, v). aVoter v) (votes s))"
    by (simp add: L_def comp_def case_prod_unfold)
  then have "sum_list (map (\<lambda>(a, v). claim_power m (aVoter v)) L) \<le> sum (claim_power m) (dom m)"
    using sum_voters_le [OF voters_distinct [OF inv] m(1,2)] by simp
  then have "ballot_ok (ballot_of bm d)"
    using organize_votes [OF m(2) dist, of Map.empty d] m(3)
    by (simp add: bm_def ballot_ok_def ballot_of_def)
  then show ?thesis unfolding b by (rule ballot_ok_sort)
qed

end



section \<open>The tally does not depend on the order of the ballots\<close>

definition tally_wins :: "sdk \<Rightarrow> dec \<Rightarrow> dec \<Rightarrow> VoteForTally \<Rightarrow> bool result" where
  "tally_wins K med spread vote =
     rbind (dSub K med spread) (\<lambda>lo.
     rbind (if lo \<le> vExchangeRate vote
            then rbind (dAdd K med spread) (\<lambda>hi. Inr (vExchangeRate vote \<le> hi)) else Inr False) (\<lambda>within.
     Inr (within \<or> \<not> 0 < vExchangeRate vote)))"

definition bump :: "sdk \<Rightarrow> VoteForTally \<Rightarrow> (string \<rightharpoonup> Claim) \<Rightarrow> (string \<rightharpoonup> Claim)" where
  "bump K vote m = (let key = ValString K (vVoter vote); claim = claim_of m key
     in m(key \<mapsto> claim\<lparr>cWeight := i64 (cWeight claim + vPower vote), cWinCount := i64 (cWinCount claim + 1)\<rparr>))"

lemma tally_vote_split:
  "tally_vote K med spread v m = rbind (tally_wins K med spread v) (\<lambda>b. Inr (if b then bump K v m else m))"
  by (auto simp: tally_vote_def tally_wins_def bump_def rbind_assoc Let_def intro!: rbind_cong)

lemma bump_commute: "bump K v (bump K w m) = bump K w (bump K v m)"
proof (cases "ValString K (vVoter v) = ValString K (vVoter w)")
  case True
  then show ?thesis
    by (simp add: bump_def claim_of_def Let_def i64_add_left split: option.splits)
      (simp add: add.assoc add.commute [of "vPower v"])
next
  case False
  then show ?thesis by (auto simp: bump_def claim_of_def Let_def fun_upd_twist)
qed

definition tally_result ::
    "sdk \<Rightarrow> ExchangeRateBallot \<Rightarrow> dec \<Rightarrow> (dec \<times> VoteForTally list) result" where
  "tally_result K pb band =
     rbind (dQuoInt K band 2) (\<lambda>half. rbind (dMul K (WeightedMedian pb) half) (\<lambda>spread.
     let sd = StandardDeviation K pb (WeightedMedian pb); rs = (if spread < sd then sd else spread)
     in rbind (map_res (tally_wins K (WeightedMedian pb) rs) pb) (\<lambda>bs.
        Inr (WeightedMedian pb, map fst (filter snd (zip pb bs))))))"

lemma fold_winners: "fold (\<lambda>(v, b) m. if b then bump K v m else m) vbs m = fold (bump K) (map fst (filter snd vbs)) m"
  by (induction vbs arbitrary: m) auto

lemma Tally_split: "Tally K pb band m = rbind (tally_result K pb band) (\<lambda>(med, vs). Inr (med, fold (bump K) vs m))"
  by (simp add: Tally_def tally_result_def Let_def rbind_assoc fold_res_split [OF tally_vote_split] fold_winners
      cong: rbind_cong)

definition denom_result ::
    "sdk \<Rightarrow> dec \<Rightarrow> string \<Rightarrow> (address \<rightharpoonup> dec) \<Rightarrow> dec \<Rightarrow> ExchangeRateBallot \<Rightarrow> string \<Rightarrow> (dec \<times> VoteForTally list) result" where
  "denom_result K band ref rt rateRT ballot d =
     rbind (if d \<noteq> ref then ToCrossRateWithSort K rt ballot else Inr ballot) (\<lambda>b.
     rbind (tally_result K b band) (\<lambda>(r, vs).
     rbind (if d \<noteq> ref then dQuo K rateRT r else Inr r) (\<lambda>rate. Inr (rate, vs))))"

lemma tally_denom_split:
  assumes "V d = Some ballot"
  shows "tally_denom K band ref rt rateRT V d (s, m) =
     rbind (denom_result K band ref rt rateRT ballot d) (\<lambda>(rate, vs). Inr (SetDoExchangeRate s d rate, fold (bump K) vs m))"
  unfolding tally_denom_def denom_result_def Tally_split
  by (simp add: assms rbind_assoc case_prod_unfold cong: rbind_cong)

context dec_math
begin

lemma tally_wins_error: "tally_wins K med spread v = Inl e \<Longrightarrow> e = Panic"
  by (auto simp: tally_wins_def res_simps add sub split: if_splits)

lemma tally_result_error: "tally_result K pb band = Inl e \<Longrightarrow> e = Panic"
  by (auto simp: tally_result_def rbind_eq_Inl quo_int mul_panic Let_def split: if_splits
      dest: tally_wins_error elim!: map_res_error)

lemma cross_error: "ToCrossRateWithSort K rt b = Inl e \<Longrightarrow> e = Panic"
  by (auto simp: ToCrossRateWithSort_def rbind_eq_Inl elim!: map_res_error)
    (auto simp: cross_vote_def rbind_eq_Inl quo_panic split: option.splits if_splits)

lemma denom_result_error: "denom_result K band ref rt rateRT b d = Inl e \<Longrightarrow> e = Panic"
  by (auto simp: denom_result_def rbind_eq_Inl quo_panic split: if_splits dest: tally_result_error cross_error)

lemma tally_denom_commute:
  assumes "V x \<noteq> None" "V y \<noteq> None" "x \<noteq> y" "kv_ok (rates (fst sm))"
  shows "rbind (tally_denom K band ref rt rateRT V x sm) (tally_denom K band ref rt rateRT V y) =
     rbind (tally_denom K band ref rt rateRT V y sm) (tally_denom K band ref rt rateRT V x)"
proof -
  obtain s m where sm: "sm = (s, m)" by (cases sm)
  obtain bx "by" where b: "V x = Some bx" "V y = Some by" using assms by auto
  let ?c = "denom_result K band ref rt rateRT"
  have swap: "SetDoExchangeRate (SetDoExchangeRate s x r) y r' = SetDoExchangeRate (SetDoExchangeRate s y r') x r" for r r'
    using assms(3,4) by (auto simp: SetDoExchangeRate_def sm kv_set_commute)
  have swap': "fold (bump K) vs (fold (bump K) ws m) = fold (bump K) ws (fold (bump K) vs m)" for vs ws
    by (rule fold_commute_list) (rule bump_commute)
  note split = tally_denom_split [of V x bx, OF b(1)] tally_denom_split [of V y "by", OF b(2)]
  show ?thesis
  proof (cases "?c bx x"; cases "?c by y")
    fix e e' assume "?c bx x = Inl e" "?c by y = Inl e'"
    moreover from this have "e = Panic" "e' = Panic" using denom_result_error by blast+
    ultimately show ?thesis using split by (simp add: sm)
  next
    fix e r assume "?c bx x = Inl e" "?c by y = Inr r"
    then show ?thesis using split by (cases r) (simp add: sm)
  next
    fix e r assume "?c bx x = Inr r" "?c by y = Inl e"
    then show ?thesis using split by (cases r) (simp add: sm)
  next
    fix r r' assume "?c bx x = Inr r" "?c by y = Inr r'"
    then show ?thesis using split swap swap' by (cases r; cases r') (simp add: sm)
  qed
qed

lemma tally_denom_rates:
  assumes "tally_denom K band ref rt rateRT V x sm = Inr sm'" and "kv_ok (rates (fst sm))"
  shows "kv_ok (rates (fst sm'))"
  using assms by (auto simp: tally_denom_def res_simps SetDoExchangeRate_def split: option.splits)

lemma tally_order:
  assumes "kv_ok (rates (fst sm))" and "dom V \<subseteq> set o1" and "dom V \<subseteq> set o2"
  shows "fold_res (tally_denom K band ref rt rateRT V) (range_keys o1 V) sm =
     fold_res (tally_denom K band ref rt rateRT V) (range_keys o2 V) sm"
proof (rule fold_res_order [where P = "\<lambda>sm. kv_ok (rates (fst sm))"])
  fix x y and sm :: "oracle_store \<times> (string \<rightharpoonup> Claim)"
  assume "x \<in> set (range_keys o1 V)" "y \<in> set (range_keys o1 V)" "x \<noteq> y" "kv_ok (rates (fst sm))"
  then show "rbind (tally_denom K band ref rt rateRT V x sm) (tally_denom K band ref rt rateRT V y) =
     rbind (tally_denom K band ref rt rateRT V y sm) (tally_denom K band ref rt rateRT V x)"
    by (intro tally_denom_commute) (auto simp: set_range_keys)
qed (simp_all add: assms set_range_keys_cover tally_denom_rates)

end

lemma miss_count_commute:
  assumes "kv_ok (missCounters s)"
  shows "miss_count n m x (miss_count n m y s) = miss_count n m y (miss_count n m x s)"
proof -
  have tick: "SetMissCounter (SetMissCounter s a (u64 (GetMissCounter s a + 1))) b
        (u64 (GetMissCounter (SetMissCounter s a (u64 (GetMissCounter s a + 1))) b + 1)) =
      SetMissCounter (SetMissCounter s b (u64 (GetMissCounter s b + 1))) a
        (u64 (GetMissCounter (SetMissCounter s b (u64 (GetMissCounter s b + 1))) a + 1))" for a b
    using assms by (cases "a = b") (simp_all add: miss_cell.get_put, simp add: SetMissCounter_def kv_set_commute)
  show ?thesis using tick by (auto simp: miss_count_def split: option.splits)
qed

lemma miss_order:
  assumes "kv_ok (missCounters s)" and "dom m \<subseteq> set o1" and "dom m \<subseteq> set o2"
  shows "fold (miss_count n m) (range_keys o1 m) s = fold (miss_count n m) (range_keys o2 m) s"
proof (rule fold_order [where P = "\<lambda>s. kv_ok (missCounters s)"])
  show "miss_count n m y (miss_count n m x s) = miss_count n m x (miss_count n m y s)"
    if "kv_ok (missCounters s)" for x y s using miss_count_commute [OF that] .
  show "kv_ok (missCounters (miss_count n m x s))" if "kv_ok (missCounters s)" for x s
    using that by (auto simp: miss_count_def SetMissCounter_def split: option.splits)
qed (simp_all add: assms set_range_keys_cover)


text \<open>The claims that the tally updates are the claims of the voters, so no key is added.\<close>

lemma dom_bump: "dom (bump K v m) = insert (ValString K (vVoter v)) (dom m)"
  by (simp add: bump_def Let_def)

lemma dom_bumps: "(\<And>v. v \<in> set vs \<Longrightarrow> ValString K (vVoter v) \<in> dom m) \<Longrightarrow> dom (fold (bump K) vs m) = dom m"
proof (induction vs arbitrary: m)
  case (Cons v vs)
  have d: "dom (bump K v m) = dom m" using Cons.prems [of v] dom_bump [of K v m] by auto
  have "dom (fold (bump K) vs (bump K v m)) = dom (bump K v m)"
    by (rule Cons.IH) (simp add: d Cons.prems)
  then show ?case by (simp add: d)
qed simp

lemma cross_vote_voter: "cross_vote K rt v = Inr w \<Longrightarrow> vVoter w = vVoter v"
  by (auto simp: cross_vote_def res_simps split: option.splits if_splits)

lemma map_res_voters:
  "map_res (cross_vote K rt) b = Inr b' \<Longrightarrow> vVoter ` set b' \<subseteq> vVoter ` set b"
proof (induction b arbitrary: b')
  case (Cons v b)
  then obtain w ws where "cross_vote K rt v = Inr w" "map_res (cross_vote K rt) b = Inr ws" "b' = w # ws"
    by (auto simp: res_simps)
  then show ?case using Cons.IH [of ws] cross_vote_voter [of K rt v w] by auto
qed simp

lemma tally_result_voters:
  assumes "tally_result K b band = Inr (r, vs)"
  shows "set vs \<subseteq> set b"
proof -
  obtain bs where "vs = map fst (filter snd (zip b bs))"
    using assms by (auto simp: tally_result_def res_simps Let_def)
  then show ?thesis using set_zip_leftD [of _ _ b bs] by fastforce
qed

lemma denom_result_voters:
  assumes "denom_result K band ref rt rateRT b d = Inr (r, vs)"
  shows "vVoter ` set vs \<subseteq> vVoter ` set b"
proof -
  obtain b' r' where b': "(if d \<noteq> ref then ToCrossRateWithSort K rt b else Inr b) = Inr b'"
    and "tally_result K b' band = Inr (r', vs)"
    using assms by (auto simp: denom_result_def rbind_eq_Inr)
  moreover have "vVoter ` set b' \<subseteq> vVoter ` set b"
    using b' map_res_voters by (auto simp: ToCrossRateWithSort_def res_simps split: if_splits) blast+
  ultimately show ?thesis using tally_result_voters by blast
qed

lemma tally_dom:
  assumes "fold_res (tally_denom K band ref rt rateRT V) ds (s, m) = Inr (s', m')"
    and "\<And>d b v. V d = Some b \<Longrightarrow> v \<in> set b \<Longrightarrow> ValString K (vVoter v) \<in> dom m"
  shows "dom m' = dom m"
proof -
  have step: "dom (snd sm') = dom m" if "dom (snd sm) = dom m" and run: "tally_denom K band ref rt rateRT V d sm = Inr sm'" for d sm sm'
  proof (cases "V d")
    case None
    then show ?thesis using that by (simp add: tally_denom_def)
  next
    case (Some b)
    obtain s1 m1 where sm: "sm = (s1, m1)" by (cases sm)
    obtain r vs where dr: "denom_result K band ref rt rateRT b d = Inr (r, vs)" and sm': "snd sm' = fold (bump K) vs m1"
      using run unfolding sm tally_denom_split [where V = V and d = d, OF Some] by (auto simp: res_simps)
    have "ValString K (vVoter v) \<in> dom m1" if "v \<in> set vs" for v
    proof -
      have "vVoter v \<in> vVoter ` set b" using denom_result_voters [OF dr] that by (rule subsetD [OF _ imageI])
      then obtain v' where "v' \<in> set b" "vVoter v = vVoter v'" by (rule imageE)
      then show ?thesis using assms(2) [OF Some, of v'] \<open>dom (snd sm) = dom m\<close> by (simp add: sm)
    qed
    then have "dom (fold (bump K) vs m1) = dom m1" by (rule dom_bumps)
    then show ?thesis using that(1) by (simp add: sm' sm)
  qed
  have "dom (snd (s', m')) = dom m"
    by (rule fold_res_invariant [OF assms(1), where P = "\<lambda>sm. dom (snd sm) = dom m"]) (simp, rule step)
  then show ?thesis by simp
qed

lemma organize_tuples_voters:
  "v \<in> set (ballot_of (fold (organize_tuple a pw) ts bm) d) \<Longrightarrow> v \<in> set (ballot_of bm d) \<or> vVoter v = a"
proof (induction ts arbitrary: bm)
  case (Cons t ts)
  then have "v \<in> set (ballot_of (organize_tuple a pw t bm) d) \<or> vVoter v = a" by simp
  then show ?case by (auto simp: ballot_of_tuple NewVoteForTally_def split: if_splits)
qed simp

lemma organize_voters:
  assumes "v \<in> set (ballot_of (fold (\<lambda>(a, v). aggregate_handler m a v) L bm) d)"
    and "\<forall>(a, v) \<in> set L. aVoter v = ValString K a"
    and "\<And>v. v \<in> set (ballot_of bm d) \<Longrightarrow> ValString K (vVoter v) \<in> dom m"
  shows "ValString K (vVoter v) \<in> dom m"
  using assms
proof (induction L arbitrary: bm)
  case (Cons x L)
  obtain a av where x: "x = (a, av)" by (cases x)
  have "ValString K (vVoter u) \<in> dom m" if "u \<in> set (ballot_of (aggregate_handler m a av bm) d)" for u
  proof (cases "m (aVoter av)")
    case None
    then show ?thesis using that Cons.prems(3) by (simp add: aggregate_handler_def)
  next
    case (Some c)
    then have "u \<in> set (ballot_of bm d) \<or> vVoter u = a"
      using that organize_tuples_voters by (fastforce simp: aggregate_handler_def)
    then show ?thesis using Cons.prems(2,3) Some x by auto
  qed
  then show ?case using Cons.prems(1,2) x by (intro Cons.IH [of "aggregate_handler m a av bm"]) auto
qed simp

lemma organized_voters:
  assumes inv: "oracle_inv K s" and V: "OrganizeBallotByDenom s m = Inr V" "V d = Some b" and v: "v \<in> set b"
  shows "ValString K (vVoter v) \<in> dom m"
proof -
  define L where "L = map (\<lambda>(k, v). (drop 2 k, v)) (votes s)"
  have "b = sort_ballot (ballot_of (fold (\<lambda>(a, v). aggregate_handler m a v) L Map.empty) d)"
    using V by (auto simp: OrganizeBallotByDenom_def IterateAggregateDoRateVotes_def iterate_pure
        ballot_of_def simp flip: L_def)
  moreover have "\<forall>(a, v) \<in> set L. aVoter v = ValString K a"
    using inv by (auto simp: L_def oracle_inv_def elim!: entriesE)
  ultimately show ?thesis using v organize_voters [of v m L Map.empty d K] by (simp add: ballot_of_def)
qed


text \<open>\<open>PickReferenceDo\<close>, when the staking keeper answers, in every order of the ballots.\<close>

lemma pick_result:
  assumes ok: "ballots_ok V" and cover: "dom V \<subseteq> set order"
    and run: "PickReferenceDo K N w s order T V = Inr st" and bonded: "TotalBondedTokens N w = Inr n"
  shows "\<exists>q t th. iQuo K n (PowerReduction N w) = Inr q \<and> dMulInt K (VoteThreshold (oparams s)) q = Inr t \<and>
     dRoundInt K t = Inr th \<and> pick_inv th T V (dom V) st"
proof -
  obtain q t th where th: "iQuo K n (PowerReduction N w) = Inr q"
      "dMulInt K (VoteThreshold (oparams s)) q = Inr t" "dRoundInt K t = Inr th"
    and st: "st = fold (pick_step th) (range_keys order V)
      \<lparr>referenceDo = '''', largestBallotPower = 0, pickTargets = T, pickVotes = V\<rparr>"
    using run bonded by (auto simp: PickReferenceDo_def res_simps Let_def)
  have "pick_inv th T V (set (range_keys order V) \<union> {}) st"
    unfolding st by (rule pick_fold_inv [OF _ _ pick_init]) (use passing_pos [OF ok] in auto)
  then show ?thesis using th by (auto simp: set_range_keys_cover [OF cover])
qed

lemma pick_order:
  assumes ok: "ballots_ok V" and cover: "dom V \<subseteq> set o1" "dom V \<subseteq> set o2"
  shows "PickReferenceDo K N w s o1 T V = PickReferenceDo K N w s o2 T V"
proof -
  let ?st = "\<lparr>referenceDo = '''', largestBallotPower = 0, pickTargets = T, pickVotes = V\<rparr>"
  have inv: "pick_inv th T V (dom V) (fold (pick_step th) (range_keys ord V) ?st)" if "dom V \<subseteq> set ord" for th ord
    using pick_fold_inv [OF passing_pos [OF ok, of th T], where ks = "range_keys ord V" and D = "{}" and st = ?st]
      pick_init set_range_keys_cover [OF that] by simp
  have "fold (pick_step th) (range_keys o1 V) ?st = fold (pick_step th) (range_keys o2 V) ?st" for th
    by (rule pick_inv_unique [OF inv inv]) (rule cover)+
  then show ?thesis by (auto simp: PickReferenceDo_def Let_def split: sum.splits intro!: rbind_cong)
qed

lemma pick_maps_sub:
  assumes "ballots_ok V" and "dom V \<subseteq> set order"
    and "PickReferenceDo K N w s order T V = Inr st"
  shows "pickVotes st \<subseteq>\<^sub>m V" and "dom (pickTargets st) \<subseteq> dom T"
proof -
  have "pickVotes st \<subseteq>\<^sub>m V \<and> dom (pickTargets st) \<subseteq> dom T"
  proof (cases "TotalBondedTokens N w")
    case (Inl e)
    then show ?thesis using assms(3) by (auto simp: PickReferenceDo_def Let_def split: if_splits)
  next
    case (Inr n)
    then obtain th where "pick_inv th T V (dom V) st" using pick_result [OF assms(1-3)] by blast
    then show ?thesis by (auto simp: pick_inv_def pick_maps_def map_le_def split: if_splits)
  qed
  then show "pickVotes st \<subseteq>\<^sub>m V" "dom (pickTargets st) \<subseteq> dom T" by blast+
qed

text \<open>What the orders of the loops have to be: lists of all the keys of the maps.\<close>

definition covers :: "ranges \<Rightarrow> (string \<rightharpoonup> dec) \<Rightarrow> (string \<rightharpoonup> ExchangeRateBallot) \<Rightarrow> (string \<rightharpoonup> Claim) \<Rightarrow> bool" where
  "covers R T V m \<longleftrightarrow> dom V \<subseteq> set (oPick R) \<and> dom V \<subseteq> set (oTally R) \<and> dom T \<subseteq> set (oDenoms R) \<and> dom m \<subseteq> set (oMiss R)"

definition claims_ok :: "(string \<rightharpoonup> Claim) \<Rightarrow> bool" where
  "claims_ok m \<longleftrightarrow> finite (dom m) \<and> (\<forall>k. 0 \<le> claim_power m k) \<and> sum (claim_power m) (dom m) < 2 ^ 63"

lemma tally_keeps_ok:
  assumes "fold_res (tally_denom K band ref rt rateRT V) ds (s, m) = Inr (s', m')" and "oracle_inv K s"
  shows "oracle_inv K s'"
proof -
  have "oracle_inv K (fst (s', m'))"
    by (rule fold_res_invariant [OF assms(1), where P = "\<lambda>sm. oracle_inv K (fst sm)"])
      (use assms(2) in \<open>auto simp: tally_denom_def res_simps split: option.splits\<close>)
  then show ?thesis by simp
qed

text \<open>The part of the count that follows the choice of the reference denom, in two phases.\<close>

definition tally_phase ::
    "sdk \<Rightarrow> string list \<Rightarrow> (string \<rightharpoonup> Claim) \<Rightarrow> oracle_store \<Rightarrow> pick_state \<Rightarrow> (oracle_store \<times> (string \<rightharpoonup> Claim)) result" where
  "tally_phase K order m s st =
     (if referenceDo st \<noteq> ''''
      then let b = (case pickVotes st (referenceDo st) of None \<Rightarrow> [] | Some b \<Rightarrow> b)
           in fold_res (tally_denom K (RewardBand (oparams s)) (referenceDo st) (ToMap b) (WeightedMedian b) (pickVotes st))
                (range_keys order (pickVotes st)) (s, m)
      else Inr (s, m))"

lemma count_votes_phases:
  "count_votes K N w R T m s =
     rbind (OrganizeBallotByDenom s m) (\<lambda>V.
     rbind (PickReferenceDo K N w s (oPick R) T V) (\<lambda>st.
     rbind (tally_phase K (oTally R) m s st) (\<lambda>(s1, m1).
     Inr (fold (miss_count (map_len (oDenoms R) (pickTargets st)) m1) (range_keys (oMiss R) m1) s1, m1, pickTargets st))))"
  by (simp add: count_votes_def tally_phase_def Let_def)

lemma tally_phase_order:
  assumes "dec_math K" and "oracle_inv K s" and "dom (pickVotes st) \<subseteq> set o1" and "dom (pickVotes st) \<subseteq> set o2"
  shows "tally_phase K o1 m s st = tally_phase K o2 m s st"
proof -
  have "kv_ok (rates (fst (s, m)))" using assms(2) by (auto simp: oracle_inv_def oracle_ok_def part_ok_def)
  note order = dec_math.tally_order [OF assms(1) this assms(3,4)]
  show ?thesis unfolding tally_phase_def Let_def order ..
qed

lemma tally_phase_keeps:
  assumes "tally_phase K order m s st = Inr (s1, m1)" and inv: "oracle_inv K s"
    and voters: "\<And>d b v. pickVotes st d = Some b \<Longrightarrow> v \<in> set b \<Longrightarrow> ValString K (vVoter v) \<in> dom m"
  shows "dom m1 = dom m" and "oracle_inv K s1"
proof -
  show "dom m1 = dom m"
    using assms(1) tally_dom [OF _ voters] by (cases "referenceDo st = ''''") (fastforce simp: tally_phase_def Let_def)+
  show "oracle_inv K s1"
    using assms(1) tally_keeps_ok [OF _ inv] inv by (cases "referenceDo st = ''''") (fastforce simp: tally_phase_def Let_def)+
qed

text \<open>
  C5: counting the votes is deterministic. The exchange rates, the claims with their wins,
  the miss counters and the remaining vote targets that come out of a vote period are the
  same for every order in which Go may range over the maps involved, so all nodes compute
  the same state.
\<close>

theorem count_votes_deterministic:
  assumes laws: "dec_math K" "bech32 K" and inv: "oracle_inv K s" and m: "claims_ok m"
    and cover: "\<And>V. OrganizeBallotByDenom s m = Inr V \<Longrightarrow> covers R T V m \<and> covers R' T V m"
  shows "count_votes K N w R T m s = count_votes K N w R' T m s"
proof (cases "OrganizeBallotByDenom s m")
  case (Inr V)
  have ok: "ballots_ok V"
    using bech32.organized_ballots_ok [OF laws(2) inv _ _ _ Inr] m by (simp add: claims_ok_def ballots_ok_def)
  have c: "dom V \<subseteq> set (oPick R)" "dom V \<subseteq> set (oPick R')" "dom V \<subseteq> set (oTally R)" "dom V \<subseteq> set (oTally R')"
    "dom T \<subseteq> set (oDenoms R)" "dom T \<subseteq> set (oDenoms R')" "dom m \<subseteq> set (oMiss R)" "dom m \<subseteq> set (oMiss R')"
    using cover [OF Inr] by (auto simp: covers_def)
  have pick: "PickReferenceDo K N w s (oPick R) T V = PickReferenceDo K N w s (oPick R') T V"
    by (rule pick_order [OF ok c(1,2)])
  show ?thesis unfolding count_votes_phases Inr pick rbind_simps
  proof (rule rbind_cong [OF refl])
    fix st assume st: "PickReferenceDo K N w s (oPick R') T V = Inr st"
    note le = pick_maps_sub [OF ok c(2) st]
    have dom: "dom (pickVotes st) \<subseteq> dom V" using map_le_implies_dom_le [OF le(1)] .
    have voters: "ValString K (vVoter v) \<in> dom m" if "pickVotes st d = Some b" "v \<in> set b" for d b v
      using organized_voters [OF inv Inr _ that(2)] le(1) that(1) by (metis domI map_le_def)
    have tally: "tally_phase K (oTally R) m s st = tally_phase K (oTally R') m s st"
      by (rule tally_phase_order [OF laws(1) inv]) (use dom c(3,4) in blast)+
    have len: "map_len (oDenoms R) (pickTargets st) = map_len (oDenoms R') (pickTargets st)"
      using map_len_card [OF order_trans [OF le(2) c(5)]] map_len_card [OF order_trans [OF le(2) c(6)]] by simp
    have miss: "fold (miss_count n m1) (range_keys (oMiss R) m1) s1 = fold (miss_count n m1) (range_keys (oMiss R') m1) s1"
      if "tally_phase K (oTally R') m s st = Inr (s1, m1)" for n m1 s1
      using tally_phase_keeps [OF that inv voters] c(7,8)
      by (intro miss_order) (auto simp: oracle_inv_def oracle_ok_def part_ok_def)
    show "rbind (tally_phase K (oTally R) m s st) (\<lambda>(s1, m1).
        Inr (fold (miss_count (map_len (oDenoms R) (pickTargets st)) m1) (range_keys (oMiss R) m1) s1, m1, pickTargets st)) =
      rbind (tally_phase K (oTally R') m s st) (\<lambda>(s1, m1).
        Inr (fold (miss_count (map_len (oDenoms R') (pickTargets st)) m1) (range_keys (oMiss R') m1) s1, m1, pickTargets st))"
      unfolding tally len by (rule rbind_cong [OF refl]) (use miss in force)
  qed
qed (simp add: count_votes_def)


definition ex_voted :: oracle_store where
  "ex_voted = SetAggregateDoRateVote ex_oracle alice (NewAggregateDoRateVote ref_sdk
     [\<lparr>tDenom = ''uusd'', tExchangeRate = 2500000000000000000\<rparr>, \<lparr>tDenom = ''udo'', tExchangeRate = PREC\<rparr>] alice)"

definition ex_claims :: "string \<rightharpoonup> Claim" where
  "ex_claims = [''dovaloper1'' @ alice \<mapsto> NewClaim 10 0 0 alice]"

definition ex_range :: "string list \<Rightarrow> ranges" where
  "ex_range ds = \<lparr>oPick = ds, oTally = ds, oMiss = [''dovaloper1'' @ alice, ''dovaloper1'' @ bob],
     oDenoms = ds, oSum = [''dovaloper1'' @ alice, ''dovaloper1'' @ bob], oWinners = [''dovaloper1'' @ alice, ''dovaloper1'' @ bob]\<rparr>"

lemma ex_oracle_inv: "oracle_inv ref_sdk ex_oracle"
  by (simp add: oracle_inv_def oracle_ok_def ex_oracle_def part_ok_def kv_ok_def oracle_keys)

lemma ex_voted_inv: "oracle_inv ref_sdk ex_voted"
  unfolding ex_voted_def using ex_oracle_inv
  by (auto simp: NewAggregateDoRateVote_def addr_ok_def alice_def)

theorem count_votes_deterministic_witness:
  "count_votes ref_sdk ref_keepers (ex_world [] [(alice, 10)]) (ex_range [''udo'', ''uusd''])
     [''udo'' \<mapsto> 0, ''uusd'' \<mapsto> 0] ex_claims ex_voted =
   count_votes ref_sdk ref_keepers (ex_world [] [(alice, 10)]) (ex_range [''uusd'', ''udo''])
     [''udo'' \<mapsto> 0, ''uusd'' \<mapsto> 0] ex_claims ex_voted"
proof (rule count_votes_deterministic [OF ref.dec_math_axioms ref.bech32_axioms ex_voted_inv])
  show "claims_ok ex_claims" by (simp add: claims_ok_def ex_claims_def claim_power_def NewClaim_def)
  fix V assume V: "OrganizeBallotByDenom ex_voted ex_claims = Inr V"
  have "dom V \<subseteq> {''udo'', ''uusd''}"
    using V by (auto simp: OrganizeBallotByDenom_def IterateAggregateDoRateVotes_def ex_voted_def ex_oracle_def
        SetAggregateDoRateVote_def NewAggregateDoRateVote_def iterate_pure aggregate_handler_def ex_claims_def
        organize_tuple_def Let_def split: if_splits)
  then show "covers (ex_range [''udo'', ''uusd'']) [''udo'' \<mapsto> 0, ''uusd'' \<mapsto> 0] V ex_claims \<and>
      covers (ex_range [''uusd'', ''udo'']) [''udo'' \<mapsto> 0, ''uusd'' \<mapsto> 0] V ex_claims"
    by (auto simp: covers_def ex_range_def ex_claims_def)
qed

text \<open>
  The reference denom is the best voted one. For well-formed ballots, in any order of
  the map: exactly the ballots of vote targets whose power is non-zero and reaches the
  threshold (the vote threshold times the bonded power, rounded) remain, the targets whose
  ballots failed are dropped, and the reference is the remaining denom with the largest
  power, the alphabetically first one among equals; it is empty only if no ballot passed.
\<close>

lemma reference_is_best:
  assumes ok: "ballots_ok V" and cover: "dom V \<subseteq> set order"
    and run: "PickReferenceDo K N w s order T V = Inr st" and bonded: "TotalBondedTokens N w = Inr n"
  shows "\<exists>q t th. iQuo K n (PowerReduction N w) = Inr q \<and> dMulInt K (VoteThreshold (oparams s)) q = Inr t \<and>
     dRoundInt K t = Inr th \<and>
     (\<forall>d. pickVotes st d = (if passing th T V d then V d else None)) \<and>
     (\<forall>d. pickTargets st d = (if V d \<noteq> None \<and> \<not> passing th T V d then None else T d)) \<and>
     (if {d. passing th T V d} = {} then referenceDo st = ''''
      else best V {d. passing th T V d} (referenceDo st))"
proof -
  obtain q t th where th: "iQuo K n (PowerReduction N w) = Inr q" "dMulInt K (VoteThreshold (oparams s)) q = Inr t"
      "dRoundInt K t = Inr th" and inv: "pick_inv th T V (dom V) st"
    using pick_result [OF ok cover run bonded] by blast
  have dom: "{d \<in> dom V. passing th T V d} = {d. passing th T V d}" by (auto simp: passing_def)
  have maps: "pick_maps th T V (dom V) st" and choice: "pick_choice V {d. passing th T V d} st"
    using inv unfolding pick_inv_def dom by blast+
  have "pickVotes st d = (if passing th T V d then V d else None)"
    and "pickTargets st d = (if V d \<noteq> None \<and> \<not> passing th T V d then None else T d)" for d
    using maps by (auto simp: pick_maps_def)
  then show ?thesis using th choice unfolding pick_choice_def by (intro exI [of _ q] exI [of _ t] exI [of _ th]) auto
qed

lemma reference_is_best_example:
  "\<exists>V st. OrganizeBallotByDenom ex_voted ex_claims = Inr V \<and>
     PickReferenceDo ref_sdk ref_keepers (ex_world [] [(alice, 10)]) ex_voted [''uusd'', ''udo'']
       [''udo'' \<mapsto> 0, ''uusd'' \<mapsto> 0] V = Inr st \<and>
     referenceDo st = ''udo'' \<and> (\<exists>th. best V {d. passing th [''udo'' \<mapsto> 0, ''uusd'' \<mapsto> 0] V d} (referenceDo st))"
proof -
  define T :: "string \<rightharpoonup> dec" where "T = [''udo'' \<mapsto> 0, ''uusd'' \<mapsto> 0]"
  define run where "run = rbind (OrganizeBallotByDenom ex_voted ex_claims)
    (PickReferenceDo ref_sdk ref_keepers (ex_world [] [(alice, 10)]) ex_voted [''uusd'', ''udo''] T)"
  have "map_sum id (\<lambda>st. (referenceDo st, pickVotes st ''udo'' \<noteq> None)) run = Inr (''udo'', True)"
    unfolding run_def T_def by code_simp
  then obtain V st where V: "OrganizeBallotByDenom ex_voted ex_claims = Inr V"
    and p: "PickReferenceDo ref_sdk ref_keepers (ex_world [] [(alice, 10)]) ex_voted [''uusd'', ''udo''] T V = Inr st"
    and r: "referenceDo st = ''udo''" and u: "pickVotes st ''udo'' \<noteq> None"
    unfolding run_def by (cases "OrganizeBallotByDenom ex_voted ex_claims")
      (auto split: sum.splits simp: map_sum_def elim!: rbind_Inr_elim)
  have ok: "ballots_ok V"
    using bech32.organized_ballots_ok [OF ref.bech32_axioms ex_voted_inv _ _ _ V]
    by (auto simp: ballots_ok_def ex_claims_def claim_power_def NewClaim_def)
  have "dom V \<subseteq> set [''uusd'', ''udo'']"
    using V by (auto simp: OrganizeBallotByDenom_def IterateAggregateDoRateVotes_def ex_voted_def ex_oracle_def
        SetAggregateDoRateVote_def NewAggregateDoRateVote_def iterate_pure aggregate_handler_def ex_claims_def
        organize_tuple_def Let_def split: if_splits)
  moreover have "TotalBondedTokens ref_keepers (ex_world [] [(alice, 10)]) = Inr 10000000"
    by (simp add: ex_world_def ex_validator_def)
  ultimately obtain th where "\<forall>d. pickVotes st d = (if passing th T V d then V d else None)"
    and "if {d. passing th T V d} = {} then referenceDo st = '''' else best V {d. passing th T V d} (referenceDo st)"
    using reference_is_best [OF ok _ p] by blast
  then have "best V {d. passing th T V d} (referenceDo st)" using u by (auto split: if_splits)
  then show ?thesis using V p r unfolding T_def by blast
qed



section \<open>The end-blocker keeps the invariant\<close>

definition recipients_ok :: "(string \<rightharpoonup> Claim) \<Rightarrow> bool" where
  "recipients_ok m \<longleftrightarrow> (\<forall>k c. m k = Some c \<longrightarrow> addr_ok (cRecipient c))"

lemma recipients_bumps:
  "recipients_ok m \<Longrightarrow> (\<And>v. v \<in> set vs \<Longrightarrow> ValString K (vVoter v) \<in> dom m) \<Longrightarrow> recipients_ok (fold (bump K) vs m)"
proof (induction vs arbitrary: m)
  case (Cons v vs)
  have k: "ValString K (vVoter v) \<in> dom m" using Cons.prems(2) [of v] by simp
  then have "recipients_ok (bump K v m)"
    using Cons.prems(1) by (auto simp: recipients_ok_def bump_def claim_of_def Let_def)
  moreover have "ValString K (vVoter u) \<in> dom (bump K v m)" if "u \<in> set vs" for u
    using Cons.prems(2) [of u] that by (simp add: dom_bump)
  ultimately show ?case using Cons.IH [of "bump K v m"] by simp
qed simp

lemma tally_recipients:
  assumes "fold_res (tally_denom K band ref rt rateRT V) ds (s, m) = Inr (s', m')" and "recipients_ok m"
    and voters: "\<And>d b v. V d = Some b \<Longrightarrow> v \<in> set b \<Longrightarrow> ValString K (vVoter v) \<in> dom m"
  shows "recipients_ok m'"
  using assms(1,2) voters
proof (induction ds arbitrary: s m)
  case (Cons d ds)
  obtain s1 m1 where st: "tally_denom K band ref rt rateRT V d (s, m) = Inr (s1, m1)"
    and rest: "fold_res (tally_denom K band ref rt rateRT V) ds (s1, m1) = Inr (s', m')"
    using Cons.prems(1) by (auto elim: rbind_Inr_elim)
  have dom: "dom m1 = dom m"
  proof (rule tally_dom)
    show "fold_res (tally_denom K band ref rt rateRT V) [d] (s, m) = Inr (s1, m1)" using st by simp
  qed (rule Cons.prems(3))
  have "recipients_ok m1"
  proof (cases "V d")
    case None
    then show ?thesis using st Cons.prems(2) by (simp add: tally_denom_def)
  next
    case (Some b)
    obtain r vs where dr: "denom_result K band ref rt rateRT b d = Inr (r, vs)" and m1: "m1 = fold (bump K) vs m"
      using st unfolding tally_denom_split [where V = V and d = d, OF Some] by (auto simp: res_simps)
    have "ValString K (vVoter v) \<in> dom m" if "v \<in> set vs" for v
    proof -
      have "vVoter v \<in> vVoter ` set b" using denom_result_voters [OF dr] that by (rule subsetD [OF _ imageI])
      then obtain v' where "v' \<in> set b" "vVoter v = vVoter v'" by (rule imageE)
      then show ?thesis using Cons.prems(3) [OF Some, of v'] by simp
    qed
    then show ?thesis unfolding m1 by (rule recipients_bumps [OF Cons.prems(2)])
  qed
  then show ?case using Cons.IH [OF rest] Cons.prems(3) dom by simp
qed simp

lemma pick_votes_sub:
  assumes "PickReferenceDo K N w s order T V = Inr st"
  shows "pickVotes st \<subseteq>\<^sub>m V"
proof -
  have step: "pickVotes (pick_step th d st) \<subseteq>\<^sub>m pickVotes st" for th d st
    by (auto simp: pick_step_def map_le_def split: option.splits prod.splits)
  have "pickVotes (fold (pick_step th) ds st) \<subseteq>\<^sub>m pickVotes st" for th ds st
    by (induction ds arbitrary: st) (auto intro: map_le_trans step)
  from this [of _ "range_keys order V" "\<lparr>referenceDo = '''', largestBallotPower = 0, pickTargets = T, pickVotes = V\<rparr>"]
  show ?thesis using assms by (auto simp: PickReferenceDo_def Let_def res_simps split: sum.splits if_splits)
qed

lemma miss_count_inv: "oracle_inv K s \<Longrightarrow> recipients_ok m \<Longrightarrow> oracle_inv K (miss_count n m k s)"
  using u64_range by (auto simp: miss_count_def recipients_ok_def split: option.splits)

lemma count_votes_inv:
  assumes "count_votes K N w R T m s = Inr (s', m', T')" and inv: "oracle_inv K s" and m: "recipients_ok m"
  shows "oracle_inv K s'"
proof -
  obtain V st s1 m1 where V: "OrganizeBallotByDenom s m = Inr V"
    and p: "PickReferenceDo K N w s (oPick R) T V = Inr st"
    and t: "(s1, m1) = (s, m) \<or> (\<exists>band ref rt r. fold_res (tally_denom K band ref rt r (pickVotes st))
        (range_keys (oTally R) (pickVotes st)) (s, m) = Inr (s1, m1))"
    and s': "\<exists>n. s' = fold (miss_count n m1) (range_keys (oMiss R) m1) s1"
    using assms(1) by (auto simp: count_votes_def res_simps Let_def split: if_splits prod.splits) blast+
  have voters: "ValString K (vVoter v) \<in> dom m" if "pickVotes st d = Some b" "v \<in> set b" for d b v
    using organized_voters [OF inv V _ that(2)] pick_votes_sub [OF p] that(1) by (metis domI map_le_def)
  have "oracle_inv K s1" using t inv tally_keeps_ok by blast
  moreover have "recipients_ok m1"
    using t
  proof (elim disjE exE)
    fix band ref rt r
    assume "fold_res (tally_denom K band ref rt r (pickVotes st)) (range_keys (oTally R) (pickVotes st)) (s, m) = Inr (s1, m1)"
    then show ?thesis by (rule tally_recipients [OF _ m voters])
  qed (simp add: m)
  ultimately have "oracle_inv K (fold (miss_count n m1) ks s1)" for n ks
    by (induction ks arbitrary: s1) (auto intro: miss_count_inv)
  then show ?thesis using s' by blast
qed

lemma clear_rates_inv: "clear_rates s = Inr s' \<Longrightarrow> oracle_inv K s \<Longrightarrow> oracle_inv K s'"
  unfolding clear_rates_def IterateDoExchangeRates_def
  by (erule iterate_invariant) auto

context bech32
begin

lemma claim_loop_recipients:
  "claim_loop K N w mx as i m = Inr m' \<Longrightarrow> recipients_ok m \<Longrightarrow> recipients_ok m'"
proof (induction as arbitrary: i m)
  case (Cons a as)
  have "recipients_ok (m(k \<mapsto> NewClaim p 0 0 addr))" if "ValFromBech32 K k' = Inr addr" for k k' p addr
    using val_write [OF that] Cons.prems(2) by (auto simp: recipients_ok_def NewClaim_def)
  then show ?case using Cons.prems by (fastforce split: if_splits sum.splits option.splits intro: Cons.IH)
qed simp

lemma end_vote_period_inv:
  assumes "end_vote_period K N distr R h m (s, w) = Inr sw'" and "oracle_inv K s" and "recipients_ok m"
  shows "oracle_inv K (fst sw')"
proof -
  obtain T s0 s2 m1 T' w1 s3 where "clear_rates s = Inr s0" and c: "count_votes K N w R T m s0 = Inr (s2, m1, T')"
    and "ClearBallots h s2 (VotePeriod (oparams s)) = Inr s3"
    and "ApplyWhitelist N (oDenoms R) (Whitelist (oparams s)) T' (s3, w1) = Inr sw'"
    using assms(1) by (auto simp: end_vote_period_def Let_def rbind_eq_Inr)
  moreover from this have "oracle_inv K s2" using count_votes_inv [OF c] clear_rates_inv assms(2,3) by blast
  ultimately show ?thesis using ClearBallots_inv ApplyWhitelist_inv [where sw = "(s3, w1)"] by auto
qed

lemma EndBlocker_inv:
  assumes "oracle_EndBlocker K N distr R h (s, w) = Inr sw'" and inv: "oracle_inv K s"
  shows "oracle_inv K (fst sw')"
proof -
  define slash where "slash = (\<lambda>sw :: oracle_store \<times> 'a.
     rbind (IsPeriodLastBlock h (SlashWindow (oparams s))) (\<lambda>last.
       if last then SlashAndResetMissCounters K N h sw else Inr sw))"
  have slash: "oracle_inv K (fst b)" if "slash a = Inr b" "oracle_inv K (fst a)" for a b
    using that SlashAndResetMissCounters_inv [OF that(2), of N h b]
    by (auto simp: slash_def rbind_eq_Inr split: if_splits)
  have run: "rbind (IsPeriodLastBlock h (VotePeriod (oparams s))) (\<lambda>last. if \<not> last then slash (s, w)
       else case MaxValidators N w of Inl e \<Rightarrow> if e = Panic then Inl Panic else Inr (s, w)
       | Inr mx \<Rightarrow> (case ValidatorsPowerStore N w of Inl e \<Rightarrow> if e = Panic then Inl Panic else Inr (s, w)
         | Inr as \<Rightarrow> rbind (claim_loop K N w mx as 0 Map.empty) (\<lambda>m.
             rbind (end_vote_period K N distr R h m (s, w)) slash))) = Inr sw'"
    using assms(1) unfolding oracle_EndBlocker_def Let_def slash_def fst_conv snd_conv .
  have period: "oracle_inv K (fst b)" if "claim_loop K N w mx as 0 Map.empty = Inr m"
      "end_vote_period K N distr R h m (s, w) = Inr a" "slash a = Inr b" for mx as m a b
    using slash [OF that(3)] end_vote_period_inv [OF that(2) inv] claim_loop_recipients [OF that(1)]
    by (simp add: recipients_ok_def)
  obtain s' w' where sw': "sw' = (s', w')" by (cases sw')
  show ?thesis using run inv slash [of "(s, w)" sw'] period unfolding sw'
    by (auto simp: rbind_eq_Inr split: if_splits sum.splits)
qed

end



section \<open>The oracle as a state machine\<close>

text \<open>
  The transitions of the oracle's store: the three messages, a change of the parameters
  and the end-blocker, each in any state of the rest of the chain and at any height.
\<close>

inductive oracle_step :: "sdk \<Rightarrow> 'w keepers \<Rightarrow> string \<Rightarrow> oracle_store \<Rightarrow> oracle_store \<Rightarrow> bool"
  for K :: sdk and N :: "'w keepers" and distr :: string where
  step_prevote: "AggregateDoRatePrevote_msg K N h w s msg = Inr s' \<Longrightarrow> oracle_step K N distr s s'"
| step_reveal: "AggregateDoRateVote_msg K N h w s msg' = Inr s' \<Longrightarrow> oracle_step K N distr s s'"
| step_delegate: "DelegateFeedConsent_msg K N w s msg'' = Inr s' \<Longrightarrow> oracle_step K N distr s s'"
| step_params: "oracle_step K N distr s (s\<lparr>oparams := p\<rparr>)"
| step_end_block: "oracle_EndBlocker K N distr R h (s, w) = Inr (s', w') \<Longrightarrow> oracle_step K N distr s s'"

inductive oracle_reachable :: "sdk \<Rightarrow> 'w keepers \<Rightarrow> string \<Rightarrow> oracle_store \<Rightarrow> bool"
  for K :: sdk and N :: "'w keepers" and distr :: string where
  reach_start: "oracle_reachable K N distr (empty_oracle p)"
| reach_step: "oracle_reachable K N distr s \<Longrightarrow> oracle_step K N distr s s' \<Longrightarrow> oracle_reachable K N distr s'"

inductive_cases oracle_stepE: "oracle_step K N distr s s'"

lemma empty_oracle_inv: "oracle_inv K (empty_oracle p)"
  by (simp add: oracle_inv_def oracle_ok_def empty_oracle_def)

lemma oracle_step_inv:
  assumes "bech32 K" and "oracle_step K N distr s s'" and "oracle_inv K s"
  shows "oracle_inv K s'"
  using assms(2)
proof cases
  case step_prevote
  then show ?thesis by (rule bech32.prevote_inv [OF assms(1,3)])
next
  case step_reveal
  then show ?thesis by (rule bech32.reveal_inv [OF assms(1,3)])
next
  case step_delegate
  then show ?thesis by (rule bech32.delegate_inv [OF assms(1,3)])
next
  case step_params
  then show ?thesis using assms(3) by simp
next
  case step_end_block
  then show ?thesis using bech32.EndBlocker_inv [OF assms(1) _ assms(3)] by fastforce
qed

text \<open>
  C6: every reachable state of the oracle is well formed. Whatever messages, parameter
  changes and ends of blocks happen, the partitions stay sorted with keys of the right
  form, every stored vote and prevote belongs to the validator it names, votes have
  distinct denoms, addresses have 20 or 32 bytes, the lengths the chain's verifier accepts, and
  counters fit 64 bits.
\<close>

theorem oracle_reachable_inv:
  assumes "bech32 K" and "oracle_reachable K N distr s"
  shows "oracle_inv K s"
  using assms(2)
proof (induction rule: oracle_reachable.induct)
  case (reach_start p)
  show ?case by (rule empty_oracle_inv)
next
  case (reach_step s s')
  show ?case by (rule oracle_step_inv [OF assms(1) reach_step(2) reach_step.IH])
qed

definition ex_delegated :: oracle_store where
  "ex_delegated = SetFeederDelegation (empty_oracle oracle_DefaultParams) alice bob"

theorem oracle_reachable_inv_witness:
  "oracle_reachable ref_sdk ref_keepers ''distribution'' ex_delegated \<and> oracle_inv ref_sdk ex_delegated"
proof -
  have "DelegateFeedConsent_msg ref_sdk ref_keepers (ex_world [] [(alice, 10)]) (empty_oracle oracle_DefaultParams)
      \<lparr>feedOperator = ''dovaloper1'' @ alice, feedDelegate = ''do1'' @ bob\<rparr> = Inr ex_delegated"
    by code_simp
  then have "oracle_reachable ref_sdk ref_keepers ''distribution'' ex_delegated"
    by (intro reach_step [OF reach_start] step_delegate)
  then show ?thesis using oracle_reachable_inv [OF ref.bech32_axioms] by blast
qed

lemma fold_fixed_field:
  "(\<And>x s. f (g x s) = f s) \<Longrightarrow> f (fold g xs s) = f s"
  by (induction xs arbitrary: s) auto

text \<open>What a commitment rests on: the prevotes, the delegations to feeders and the parameters.\<close>

definition commitments :: "oracle_store \<Rightarrow> AggregateDoRatePrevote kv \<times> address kv \<times> OracleParams" where
  "commitments s = (prevotes s, feeders s, oparams s)"

lemma tally_commitments:
  assumes "fold_res (tally_denom K band ref rt rateRT V) ds (s, m) = Inr (s', m')"
  shows "commitments s' = commitments s"
proof -
  have "commitments (fst (s', m')) = commitments s"
    by (rule fold_res_invariant [OF assms, where P = "\<lambda>sm. commitments (fst sm) = commitments s"])
      (auto simp: tally_denom_def res_simps SetDoExchangeRate_def commitments_def split: option.splits)
  then show ?thesis by simp
qed

lemma count_votes_commitments:
  assumes "count_votes K N w R T m s = Inr (s', m', T')"
  shows "commitments s' = commitments s"
proof -
  have "commitments (miss_count n c k t) = commitments t" for n c k t
    by (simp add: miss_count_def SetMissCounter_def commitments_def split: option.splits)
  then have "commitments (fold (miss_count n c) ks t) = commitments t" for n c ks t
    by (rule fold_fixed_field)
  then show ?thesis using assms tally_commitments
    by (auto simp: count_votes_def res_simps Let_def split: if_splits prod.splits)
qed

lemma clear_rates_commitments: "clear_rates s = Inr s' \<Longrightarrow> commitments s' = commitments s"
  unfolding clear_rates_def IterateDoExchangeRates_def iterate_pure
  by (auto simp: DeleteDoExchangeRate_def commitments_def case_prod_unfold intro!: fold_fixed_field)

lemma ApplyWhitelist_votes:
  assumes "ApplyWhitelist N order wl vt (s, w) = Inr (s', w')"
  shows "votes s' = votes s \<and> commitments s' = commitments s"
proof -
  have "votes (fst sw') = votes (fst sw) \<and> commitments (fst sw') = commitments (fst sw)"
    if "register_item N i sw = Inr sw'" for i sw sw'
    using that by (auto simp: register_item_def res_simps Let_def SetTobinTax_def commitments_def split: option.splits)
  then have "votes (fst sw') = votes s \<and> commitments (fst sw') = commitments s"
    if "fold_res (register_item N) wl (ClearTobinTaxes s, w) = Inr sw'" for sw'
    by (intro fold_res_invariant [OF that, where P = "\<lambda>sw. votes (fst sw) = votes s \<and> commitments (fst sw) = commitments s"])
      (auto simp: ClearTobinTaxes_eq commitments_def)
  then show ?thesis using assms by (auto simp: ApplyWhitelist_def split: if_splits)
qed

lemma slash_commitments:
  assumes "SlashAndResetMissCounters K N h sw = Inr sw'"
  shows "commitments (fst sw') = commitments (fst sw)"
  using assms unfolding SlashAndResetMissCounters_def Let_def IterateMissCounters_def
  by (auto simp: rbind_eq_Inr elim!: iterate_invariant [where P = "\<lambda>sx. commitments (fst sx) = commitments (fst sw)"])
    (auto simp: miss_handler_def res_simps DeleteMissCounter_def commitments_def
      split: prod.splits if_splits sum.splits option.splits)

text \<open>
  At the end of a vote period every vote is cleared and exactly the live prevotes stay.
  After a successful run of the end of the period the store holds no votes, and a prevote
  is kept if and only if its submit block plus the vote period is not yet over.
\<close>

lemma period_clears_ballots:
  assumes K: "bech32 K" and inv: "oracle_inv K s" and m: "recipients_ok m"
    and run: "end_vote_period K N distr R h m (s, w) = Inr (s', w')"
  shows "votes s' = [] \<and>
     prevotes s' = filter (\<lambda>(k, p). prevote_live h (VotePeriod (oparams s)) p) (prevotes s) \<and>
     feeders s' = feeders s \<and> oparams s' = oparams s"
proof -
  obtain T s0 s2 m1 T' w1 s3 where r: "clear_rates s = Inr s0" "count_votes K N w R T m s0 = Inr (s2, m1, T')"
    "ClearBallots h s2 (VotePeriod (oparams s)) = Inr s3"
    "ApplyWhitelist N (oDenoms R) (Whitelist (oparams s)) T' (s3, w1) = Inr (s', w')"
    using run by (auto simp: end_vote_period_def Let_def rbind_eq_Inr)
  have "oracle_ok s2" using count_votes_inv [OF r(2)] clear_rates_inv [OF r(1) inv] m oracle_inv_ok by blast
  then show ?thesis
    using ClearBallots_eq [of s2 h "VotePeriod (oparams s)"] r(3) ApplyWhitelist_votes [OF r(4)]
      count_votes_commitments [OF r(2)] clear_rates_commitments [OF r(1)] by (auto simp: commitments_def)
qed


lemma period_clears_ballots_example:
  "\<exists>s' w'. end_vote_period ref_sdk ref_keepers ''distribution'' (ex_range [''udo'', ''uusd'']) 29 ex_claims
       (ex_voted, ex_world [] [(alice, 10)]) = Inr (s', w') \<and> votes s' = []"
proof -
  define run where "run = end_vote_period ref_sdk ref_keepers ''distribution'' (ex_range [''udo'', ''uusd'']) 29 ex_claims
       (ex_voted, ex_world [] [(alice, 10)])"
  have "\<not> isl run" unfolding run_def by code_simp
  then obtain s' w' where r: "run = Inr (s', w')" by (cases run) auto
  have "recipients_ok ex_claims"
    by (auto simp: recipients_ok_def ex_claims_def NewClaim_def addr_ok_def alice_def)
  then have "votes s' = []"
    using period_clears_ballots [OF ref.bech32_axioms ex_voted_inv _ r [unfolded run_def]] by blast
  then show ?thesis using r [unfolded run_def] by blast
qed

text \<open>Two validators with equal power, each of whom votes on another denom.\<close>

definition ex_split :: oracle_store where
  "ex_split = (SetAggregateDoRateVote (SetAggregateDoRateVote (empty_oracle (oracle_DefaultParams\<lparr>Whitelist :=
       [\<lparr>Name = ''ukrw'', TobinTax = 0\<rparr>, \<lparr>Name = ''uusd'', TobinTax = 0\<rparr>]\<rparr>))
     alice (NewAggregateDoRateVote ref_sdk [\<lparr>tDenom = ''ukrw'', tExchangeRate = PREC\<rparr>] alice))
     bob (NewAggregateDoRateVote ref_sdk [\<lparr>tDenom = ''uusd'', tExchangeRate = PREC\<rparr>] bob))
     \<lparr>tobinTaxes := [(GetTobinTaxKey ''ukrw'', 0), (GetTobinTaxKey ''uusd'', 0)]\<rparr>"

lemma median_zero: "\<forall>v \<in> set pb. vExchangeRate v = 0 \<Longrightarrow> WeightedMedian pb = 0"
proof -
  have "\<forall>v \<in> set pb. vExchangeRate v = 0 \<Longrightarrow> median_loop half pivot pb = 0" for half pivot
    by (induction pb arbitrary: pivot) (auto simp: Let_def)
  then show "\<forall>v \<in> set pb. vExchangeRate v = 0 \<Longrightarrow> ?thesis" by (simp add: WeightedMedian_def)
qed

text \<open>A ballot whose voters have no rate for the reference crosses to zero rates without power.\<close>

definition abstained :: "ExchangeRateBallot \<Rightarrow> ExchangeRateBallot" where
  "abstained b = sort_ballot (map (\<lambda>v. v\<lparr>vExchangeRate := 0, vPower := 0\<rparr>) b)"

lemma cross_no_common:
  assumes "\<forall>v \<in> set b. rt (vVoter v) = None \<or> \<not> 0 < vExchangeRate v"
  shows "ToCrossRateWithSort K rt b = Inr (abstained b)" and "WeightedMedian (abstained b) = 0"
proof -
  have "map_res (cross_vote K rt) b = Inr (map (\<lambda>v. v\<lparr>vExchangeRate := 0, vPower := 0\<rparr>) b)"
    using assms by (induction b) (auto simp: cross_vote_def split: option.splits)
  then show "ToCrossRateWithSort K rt b = Inr (abstained b)" by (simp add: ToCrossRateWithSort_def abstained_def)
  show "WeightedMedian (abstained b) = 0" by (rule median_zero) (simp add: abstained_def sort_ballot_def)
qed

lemma fold_res_panics:
  assumes "x \<in> set xs" and "\<And>s. f x s = Inl Panic" and "\<And>y s e. f y s = Inl e \<Longrightarrow> e = Panic"
  shows "fold_res f xs s = Inl Panic"
  using assms(1)
proof (induction xs arbitrary: s)
  case (Cons y ys)
  then show ?case using assms(2,3) by (cases "f y s") auto
qed simp

context dec_math
begin

lemma tally_denom_error: "tally_denom K band ref rt rateRT V d sm = Inl e \<Longrightarrow> e = Panic"
proof (cases "V d")
  case (Some b)
  obtain s m where "sm = (s, m)" by (cases sm)
  then show "tally_denom K band ref rt rateRT V d sm = Inl e \<Longrightarrow> e = Panic"
    using denom_result_error [of band ref rt rateRT b d] tally_denom_split [of V d b, OF Some] by (auto simp: rbind_eq_Inl)
qed (simp add: tally_denom_def)

lemma tally_denom_no_common:
  assumes "V d = Some b" and "d \<noteq> ref" and "\<forall>v \<in> set b. rt (vVoter v) = None \<or> \<not> 0 < vExchangeRate v"
  shows "tally_denom K band ref rt rateRT V d sm = Inl Panic"
proof -
  note cross = cross_no_common [OF assms(3)]
  have "rbind (tally_result K (abstained b) band) (\<lambda>(r, vs). rbind (dQuo K rateRT r) (\<lambda>rate. Inr (rate, vs))) = Inl Panic"
  proof (cases "tally_result K (abstained b) band")
    case (Inl e)
    then show ?thesis using tally_result_error by simp
  next
    case (Inr x)
    then have "fst x = 0" using cross(2) by (auto simp: tally_result_def rbind_eq_Inr Let_def)
    then show ?thesis using Inr by (simp add: quo_zero case_prod_unfold)
  qed
  then have "denom_result K band ref rt rateRT b d = Inl Panic" using assms(2) by (simp add: denom_result_def cross(1))
  then show ?thesis using tally_denom_split [of V d b, OF assms(1)] by (cases sm) simp
qed

lemma count_votes_no_common:
  assumes "OrganizeBallotByDenom s claims = Inr V" and "PickReferenceDo K N w s (oPick R) T V = Inr st"
    and "referenceDo st \<noteq> ''''" and "pickVotes st (referenceDo st) = Some rb"
    and "pickVotes st d = Some b" and "d \<noteq> referenceDo st" and "d \<in> set (oTally R)"
    and "\<forall>v \<in> set b. ToMap rb (vVoter v) = None \<or> \<not> 0 < vExchangeRate v"
  shows "count_votes K N w R T claims s = Inl Panic"
proof -
  have "d \<in> set (range_keys (oTally R) (pickVotes st))" using assms(5,7) by (auto simp: set_range_keys)
  moreover have "tally_denom K band (referenceDo st) (ToMap rb) rateRT (pickVotes st) d sm = Inl Panic" for band rateRT sm
    by (rule tally_denom_no_common) (use assms(5,6,8) in auto)
  ultimately have "fold_res (tally_denom K band (referenceDo st) (ToMap rb) rateRT (pickVotes st))
      (range_keys (oTally R) (pickVotes st)) sm = Inl Panic" for band rateRT sm
    by (rule fold_res_panics) (rule tally_denom_error)
  then show ?thesis using assms(1-4) by (simp add: count_votes_def Let_def)
qed

end

text \<open>
  C30: a vote period can end in a panic of the end-blocker. Take the last block of a vote period
  whose ballots passed for a reference denom and for a second denom, where nobody who gave a
  positive rate for the second gave one for the reference: every vote of the cross ballot is zero
  without power, so its median is zero, the reference rate is divided by it, and the end-blocker
  panics, in any order of the maps that reaches the second denom. The chain halts.
\<close>

theorem end_blocker_division_by_zero:
  assumes "dec_math K" and "IsPeriodLastBlock h (VotePeriod (oparams s)) = Inr True"
    and "MaxValidators N w = Inr mx" "ValidatorsPowerStore N w = Inr addrs" "claim_loop K N w mx addrs 0 Map.empty = Inr claims"
    and "vote_targets s = Inr T" "clear_rates s = Inr s0"
    and "OrganizeBallotByDenom s0 claims = Inr V" "PickReferenceDo K N w s0 (oPick R) T V = Inr st"
    and "referenceDo st \<noteq> ''''" "pickVotes st (referenceDo st) = Some rb"
    and "pickVotes st d = Some b" "d \<noteq> referenceDo st" "d \<in> set (oTally R)"
    and "\<forall>v \<in> set b. ToMap rb (vVoter v) = None \<or> \<not> 0 < vExchangeRate v"
  shows "(\<exists>cb. ToCrossRateWithSort K (ToMap rb) b = Inr cb \<and> WeightedMedian cb = 0 \<and>
      dQuo K (WeightedMedian rb) (WeightedMedian cb) = Inl Panic) \<and>
    oracle_EndBlocker K N distr R h (s, w) = Inl Panic"
proof -
  have "count_votes K N w R T claims s0 = Inl Panic" by (rule dec_math.count_votes_no_common [OF assms(1,8-15)])
  then have "end_vote_period K N distr R h claims (s, w) = Inl Panic"
    using assms(6,7) by (simp add: end_vote_period_def Let_def)
  then have "oracle_EndBlocker K N distr R h (s, w) = Inl Panic"
    using assms(2-5) by (simp add: oracle_EndBlocker_def Let_def)
  then show ?thesis using cross_no_common [OF assms(15)] dec_math.quo_zero [OF assms(1)] by simp
qed

definition ex_halt :: ref_world where
  "ex_halt = ex_world [] [(alice, 10), (bob, 10)]"

text \<open>The ballots of \<open>ex_split\<close> with the reference denom, as the end-blocker computes them.\<close>

definition split_ballots :: "(string \<times> ExchangeRateBallot option \<times> ExchangeRateBallot option) result" where
  "split_ballots =
     rbind (MaxValidators ref_keepers ex_halt) (\<lambda>mx. rbind (ValidatorsPowerStore ref_keepers ex_halt) (\<lambda>addrs.
     rbind (claim_loop ref_sdk ref_keepers ex_halt mx addrs 0 Map.empty) (\<lambda>claims.
     rbind (vote_targets ex_split) (\<lambda>T. rbind (clear_rates ex_split) (\<lambda>s0. rbind (OrganizeBallotByDenom s0 claims) (\<lambda>V.
     rbind (PickReferenceDo ref_sdk ref_keepers ex_halt s0 (oPick (ex_range [''ukrw'', ''uusd''])) T V) (\<lambda>st.
     Inr (referenceDo st, pickVotes st ''ukrw'', pickVotes st ''uusd''))))))))"

lemma ex_split_inv: "oracle_inv ref_sdk ex_split"
proof -
  have "oracle_inv ref_sdk (SetAggregateDoRateVote (SetAggregateDoRateVote (empty_oracle p)
     alice (NewAggregateDoRateVote ref_sdk [\<lparr>tDenom = ''ukrw'', tExchangeRate = PREC\<rparr>] alice))
     bob (NewAggregateDoRateVote ref_sdk [\<lparr>tDenom = ''uusd'', tExchangeRate = PREC\<rparr>] bob))" for p
    using empty_oracle_inv [of ref_sdk p] by (simp add: NewAggregateDoRateVote_def addr_ok_def alice_def bob_def)
  moreover have "GetTobinTaxKey ''ukrw'' < GetTobinTaxKey ''uusd''" by code_simp
  ultimately show ?thesis
    by (simp add: ex_split_def oracle_inv_def oracle_ok_def part_ok_def kv_ok_def entries_def)
qed

theorem end_blocker_division_by_zero_witness:
  "oracle_Params_Validate (oparams ex_split) = Inr () \<and> oracle_inv ref_sdk ex_split \<and>
   oracle_EndBlocker ref_sdk ref_keepers ''distribution'' (ex_range [''ukrw'', ''uusd'']) 29 (ex_split, ex_halt) = Inl Panic"
proof -
  have "split_ballots = Inr (''ukrw'', Some [NewVoteForTally PREC ''ukrw'' alice 10], Some [NewVoteForTally PREC ''uusd'' bob 10])"
    by code_simp
  then obtain mx addrs claims T s0 V st where run: "MaxValidators ref_keepers ex_halt = Inr mx"
      "ValidatorsPowerStore ref_keepers ex_halt = Inr addrs" "claim_loop ref_sdk ref_keepers ex_halt mx addrs 0 Map.empty = Inr claims"
      "vote_targets ex_split = Inr T" "clear_rates ex_split = Inr s0" "OrganizeBallotByDenom s0 claims = Inr V"
      "PickReferenceDo ref_sdk ref_keepers ex_halt s0 (oPick (ex_range [''ukrw'', ''uusd''])) T V = Inr st"
    and st: "referenceDo st = ''ukrw''" "pickVotes st ''ukrw'' = Some [NewVoteForTally PREC ''ukrw'' alice 10]"
      "pickVotes st ''uusd'' = Some [NewVoteForTally PREC ''uusd'' bob 10]"
    unfolding split_ballots_def rbind_eq_Inr by blast
  have last: "IsPeriodLastBlock 29 (VotePeriod (oparams ex_split)) = Inr True" by code_simp
  have none: "\<forall>v \<in> set [NewVoteForTally PREC ''uusd'' bob 10].
      ToMap [NewVoteForTally PREC ''ukrw'' alice 10] (vVoter v) = None \<or> \<not> 0 < vExchangeRate v"
    by (simp add: ToMap_def NewVoteForTally_def alice_def bob_def)
  have "oracle_EndBlocker ref_sdk ref_keepers ''distribution'' (ex_range [''ukrw'', ''uusd'']) 29 (ex_split, ex_halt) = Inl Panic"
    by (rule end_blocker_division_by_zero [OF ref.dec_math_axioms last run _ _ st(3) _ _ none, THEN conjunct2])
       (simp_all add: st ex_range_def)
  moreover have "oracle_Params_Validate (oparams ex_split) = Inr ()" by code_simp
  ultimately show ?thesis using ex_split_inv by blast
qed

text \<open>The whitelist holds only \<open>udo\<close>; \<open>uusd\<close> is still a target and a minority votes on it.\<close>

definition ex_stale :: oracle_store where
  "ex_stale = (SetAggregateDoRateVote (SetAggregateDoRateVote (empty_oracle (oracle_DefaultParams\<lparr>Whitelist :=
       [\<lparr>Name = ''udo'', TobinTax = 0\<rparr>]\<rparr>))
     alice (NewAggregateDoRateVote ref_sdk [\<lparr>tDenom = ''udo'', tExchangeRate = PREC\<rparr>] alice))
     bob (NewAggregateDoRateVote ref_sdk [\<lparr>tDenom = ''uusd'', tExchangeRate = PREC\<rparr>] bob))
     \<lparr>tobinTaxes := [(GetTobinTaxKey ''udo'', 0), (GetTobinTaxKey ''uusd'', 0)]\<rparr>"

text \<open>
  A denom that was removed from the whitelist can stay a vote target. The update is
  decided by comparing the whitelist with the vote targets whose ballots passed, so when
  only the removed denom's ballot fails the two agree and the stored target is kept.
\<close>

lemma removed_denom_stays_target:
  "Whitelist (oparams ex_stale) = [\<lparr>Name = ''udo'', TobinTax = 0\<rparr>] \<and>
   (\<exists>s' w'. oracle_EndBlocker ref_sdk ref_keepers ''distribution'' (ex_range [''udo'', ''uusd'']) 29
      (ex_stale, ex_world [] [(alice, 10), (bob, 1)]) = Inr (s', w') \<and> IsVoteTarget s' ''uusd'')"
proof -
  define run where "run = oracle_EndBlocker ref_sdk ref_keepers ''distribution'' (ex_range [''udo'', ''uusd'']) 29
      (ex_stale, ex_world [] [(alice, 10), (bob, 1)])"
  have "map_sum id (\<lambda>(s, w). IsVoteTarget s ''uusd'') run = Inr True" unfolding run_def by code_simp
  then obtain s' w' where "run = Inr (s', w')" "IsVoteTarget s' ''uusd''" by (cases run) auto
  moreover have "Whitelist (oparams ex_stale) = [\<lparr>Name = ''udo'', TobinTax = 0\<rparr>]" by code_simp
  ultimately show ?thesis unfolding run_def by blast
qed


section \<open>Commit and reveal over the end of a vote period\<close>

text \<open>The end of a block keeps the delegations, the parameters and the live prevotes.\<close>

lemma EndBlocker_commitments:
  assumes K: "bech32 K" and inv: "oracle_inv K s" and run: "oracle_EndBlocker K N distr R h (s, w) = Inr (s', w')"
  shows "feeders s' = feeders s \<and> oparams s' = oparams s \<and>
    (prevotes s' = prevotes s \<or> IsPeriodLastBlock h (VotePeriod (oparams s)) = Inr True \<and>
       prevotes s' = filter (\<lambda>(k, p). prevote_live h (VotePeriod (oparams s)) p) (prevotes s))"
proof -
  define slash where "slash = (\<lambda>sw :: oracle_store \<times> 'a.
     rbind (IsPeriodLastBlock h (SlashWindow (oparams s))) (\<lambda>last.
       if last then SlashAndResetMissCounters K N h sw else Inr sw))"
  have slash: "commitments (fst b) = commitments (fst a)" if "slash a = Inr b" for a b
    using that slash_commitments [of K N h a b] by (auto simp: slash_def rbind_eq_Inr split: if_splits)
  have run': "rbind (IsPeriodLastBlock h (VotePeriod (oparams s))) (\<lambda>last. if \<not> last then slash (s, w)
       else case MaxValidators N w of Inl e \<Rightarrow> if e = Panic then Inl Panic else Inr (s, w)
       | Inr mx \<Rightarrow> (case ValidatorsPowerStore N w of Inl e \<Rightarrow> if e = Panic then Inl Panic else Inr (s, w)
         | Inr as \<Rightarrow> rbind (claim_loop K N w mx as 0 Map.empty) (\<lambda>m.
             rbind (end_vote_period K N distr R h m (s, w)) slash))) = Inr (s', w')"
    using run unfolding oracle_EndBlocker_def Let_def slash_def fst_conv snd_conv .
  consider "commitments s' = commitments s" | mx as m s1 w1 where "IsPeriodLastBlock h (VotePeriod (oparams s)) = Inr True"
      "claim_loop K N w mx as 0 Map.empty = Inr m" "end_vote_period K N distr R h m (s, w) = Inr (s1, w1)" "slash (s1, w1) = Inr (s', w')"
    using run' slash [of "(s, w)" "(s', w')"] by (auto simp: rbind_eq_Inr split: if_splits sum.splits)
  then show ?thesis
  proof cases
    case 2
    have "recipients_ok m" using bech32.claim_loop_recipients [OF K 2(2)] by (simp add: recipients_ok_def)
    from period_clears_ballots [OF K inv this 2(3)] slash [OF 2(4)] 2(1) show ?thesis by (auto simp: commitments_def)
  qed (simp add: commitments_def)
qed

lemma prevote_mem:
  assumes "oracle_inv K s"
  shows "GetAggregateDoRatePrevote s v = Inr p \<longleftrightarrow> (GetAggregateDoRatePrevoteKey v, p) \<in> set (prevotes s)"
proof -
  have "kv_ok (prevotes s)" using assms part_ok_kv_ok by (auto simp: oracle_inv_def oracle_ok_def)
  then show ?thesis
    using kv_get_iff [of "prevotes s" "GetAggregateDoRatePrevoteKey v" p]
    by (cases "kv_get (prevotes s) (GetAggregateDoRatePrevoteKey v)") (auto simp: GetAggregateDoRatePrevote_def)
qed

text \<open>
  What can happen between a commitment of the validator \<open>val\<close> and its reveal: any messages that
  name other validators and the ends of the blocks, in any states of the rest of the chain.
  \<open>meanwhile K N distr val h s h' s'\<close> leads from height \<open>h\<close> and store \<open>s\<close> to \<open>h'\<close> and \<open>s'\<close>.
\<close>

inductive meanwhile ::
    "sdk \<Rightarrow> 'w keepers \<Rightarrow> string \<Rightarrow> address \<Rightarrow> int \<Rightarrow> oracle_store \<Rightarrow> int \<Rightarrow> oracle_store \<Rightarrow> bool"
  for K :: sdk and N :: "'w keepers" and distr :: string and val :: address and h0 :: int and s0 :: oracle_store where
  nothing: "meanwhile K N distr val h0 s0 h0 s0"
| other_prevote: "meanwhile K N distr val h0 s0 h s \<Longrightarrow> ValFromBech32 K (prevoteValidator msg) \<noteq> Inr val \<Longrightarrow>
    AggregateDoRatePrevote_msg K N h w s msg = Inr s' \<Longrightarrow> meanwhile K N distr val h0 s0 h s'"
| other_reveal: "meanwhile K N distr val h0 s0 h s \<Longrightarrow> ValFromBech32 K (voteValidator msg') \<noteq> Inr val \<Longrightarrow>
    AggregateDoRateVote_msg K N h w s msg' = Inr s' \<Longrightarrow> meanwhile K N distr val h0 s0 h s'"
| other_delegate: "meanwhile K N distr val h0 s0 h s \<Longrightarrow> ValFromBech32 K (feedOperator msg'') \<noteq> Inr val \<Longrightarrow>
    DelegateFeedConsent_msg K N w s msg'' = Inr s' \<Longrightarrow> meanwhile K N distr val h0 s0 h s'"
| end_block: "meanwhile K N distr val h0 s0 h s \<Longrightarrow> oracle_EndBlocker K N distr R h (s, w) = Inr (s', w') \<Longrightarrow>
    meanwhile K N distr val h0 s0 (h + 1) s'"

lemma meanwhile_height: "meanwhile K N distr val h s h' s' \<Longrightarrow> h \<le> h'"
  by (induction rule: meanwhile.induct) auto

lemma meanwhile_inv:
  assumes "bech32 K" "oracle_inv K s" shows "meanwhile K N distr val h s h' s' \<Longrightarrow> oracle_inv K s'"
proof (induction rule: meanwhile.induct)
  case (other_prevote h s msg w s')
  show ?case by (rule oracle_step_inv [OF assms(1) step_prevote [OF other_prevote.hyps(3)] other_prevote.IH])
next
  case (other_reveal h s msg' w s')
  show ?case by (rule oracle_step_inv [OF assms(1) step_reveal [OF other_reveal.hyps(3)] other_reveal.IH])
next
  case (other_delegate h s msg'' w s')
  show ?case by (rule oracle_step_inv [OF assms(1) step_delegate [OF other_delegate.hyps(3)] other_delegate.IH])
next
  case (end_block h s R w s' w')
  show ?case by (rule oracle_step_inv [OF assms(1) step_end_block [OF end_block.hyps(2)] end_block.IH])
qed (rule assms(2))

text \<open>Within the period after the commitment the prevote is live at every end of a period.\<close>

lemma committed_live:
  assumes "0 \<le> b" "0 < P" "b + P < 2 ^ 63" and "b \<le> g" "g < h'" "h' < 2 ^ 63" "h' div P = b div P + 1"
    and "IsPeriodLastBlock g P = Inr True" "pSubmitBlock p = b"
  shows "prevote_live g P p"
proof -
  have "(g + 1) mod P = 0" using assms(1,2,4-6,8) by (simp add: IsPeriodLastBlock_Inr)
  then have "g + 1 = (g + 1) div P * P" using div_mult_mod_eq [of "g + 1" P] by linarith
  moreover have "(g + 1) div P \<le> b div P + 1" using zdiv_mono1 [of "g + 1" h' P] assms(2,5,7) by linarith
  then have "(g + 1) div P * P \<le> (b div P + 1) * P" using assms(2) by (intro mult_right_mono) simp_all
  moreover have "b div P * P \<le> b" using assms(2) div_mult_mod_eq [of b P] pos_mod_sign [of P b] by linarith
  ultimately have "g \<le> b + P" by (simp add: distrib_right)
  then show ?thesis using assms(1-3,9) by (simp add: prevote_live_def u64_id i64_id_nonneg)
qed

lemma meanwhile_keeps:
  assumes K: "bech32 K" and inv: "oracle_inv K s0" and p: "GetAggregateDoRatePrevote s0 val = Inr p" "pSubmitBlock p = h0"
    and P: "P = VotePeriod (oparams s0)" "0 < P"
    and heights: "0 \<le> h0" "h0 + P < 2 ^ 63" "h' < 2 ^ 63" "h' div P = h0 div P + 1"
  shows "meanwhile K N distr val h0 s0 h s \<Longrightarrow> h \<le> h' \<Longrightarrow>
    GetAggregateDoRatePrevote s val = Inr p \<and> GetFeederDelegation s val = GetFeederDelegation s0 val \<and> oparams s = oparams s0"
proof (induction rule: meanwhile.induct)
  case (other_prevote h s msg w s')
  then show ?case by (auto simp: prevote_iff prevote_effect prevote_cell.get_put)
next
  case (other_reveal h s msg' w s')
  from other_reveal.hyps(2,3) obtain v a where "v \<noteq> val" "s' = DeleteAggregateDoRatePrevote (SetAggregateDoRateVote s v a) v"
    unfolding reveal_iff by auto
  then show ?case using other_reveal reveal_effect [of s v a] by (simp add: GetFeederDelegation_def)
next
  case (other_delegate h s msg'' w s')
  then show ?case
    by (auto simp: DelegateFeedConsent_msg_def res_simps SetFeederDelegation_def GetFeederDelegation_def GetAggregateDoRatePrevote_def)
next
  case (end_block h s R w s' w')
  have s: "oracle_inv K s" using meanwhile_inv [OF K inv end_block(1)] .
  have IH: "GetAggregateDoRatePrevote s val = Inr p" "GetFeederDelegation s val = GetFeederDelegation s0 val" "oparams s = oparams s0"
    using end_block.IH end_block.prems by simp_all
  note kept = EndBlocker_commitments [OF K s end_block(2)]
  have s': "oracle_inv K s'" using oracle_step_inv [OF K step_end_block [OF end_block(2)] s] .
  have "prevote_live h P p" if "IsPeriodLastBlock h P = Inr True"
    using committed_live [OF heights(1) P(2) heights(2) meanwhile_height [OF end_block(1)] _ heights(3,4) that p(2)] end_block.prems
    by simp
  then have "(GetAggregateDoRatePrevoteKey val, p) \<in> set (prevotes s')"
    using kept IH(1) unfolding prevote_mem [OF s] IH(3) P(1) [symmetric] by auto
  then show ?case using kept IH(2,3) unfolding prevote_mem [OF s'] by (simp add: GetFeederDelegation_def)
qed (simp add: p(1))

text \<open>
  C16: the commit-reveal round trip. A feeder that commits to the hash of its salt and rates at one
  height succeeds; and whatever the messages of other validators and the ends of the blocks up to a
  height of the next vote period have done in between, among them the end of the period that clears
  the ballots, it succeeds in revealing them at that height, as long as the validator is still bonded
  and the revealed denoms are still vote targets: the validator's stored vote is what was revealed,
  and the commitment is used up. The parameters do not change in between.
\<close>

theorem commit_reveal_round_trip:
  assumes K: "bech32 K" and inv: "oracle_inv K s"
    and addr: "ValFromBech32 K valStr = Inr val" "AccFromBech32 K feederStr = Inr feeder"
    and feeder: "ValidateFeeder N w s feeder val = Inr ()" and rates: "ParseDoRateTuples K ratesStr = Inr tuples"
    and heights: "0 \<le> h" "h + VotePeriod (oparams s) < 2 ^ 63" "h' < 2 ^ 63" "0 < VotePeriod (oparams s)"
      "h' div VotePeriod (oparams s) = h div VotePeriod (oparams s) + 1"
  shows "\<exists>s1. AggregateDoRatePrevote_msg K N h w s
       \<lparr>prevoteHash = hash_String (GetAggregateVoteHash K salt ratesStr val),
        prevoteFeeder = feederStr, prevoteValidator = valStr\<rparr> = Inr s1 \<and>
     (\<forall>s2 w' v. meanwhile K N distr val h s1 h' s2 \<and> Validator N w' val = Inr (Some v) \<and> IsBonded v \<and>
          (\<forall>t \<in> set tuples. IsVoteTarget s2 (tDenom t)) \<longrightarrow>
        (\<exists>s3. AggregateDoRateVote_msg K N h' w' s2
           \<lparr>voteSalt = salt, voteExchangeRates = ratesStr, voteFeeder = feederStr, voteValidator = valStr\<rparr> = Inr s3 \<and>
         GetAggregateDoRateVote s3 val = Inr (NewAggregateDoRateVote K tuples val) \<and>
         GetAggregateDoRatePrevote s3 val = Inl ErrNoAggregatePrevote))"
proof -
  define p where "p = NewAggregateDoRatePrevote K (GetAggregateVoteHash K salt ratesStr val) val (u64 h)"
  define s1 where "s1 = SetAggregateDoRatePrevote s val p"
  have submit: "pSubmitBlock p = h" using heights by (simp add: p_def NewAggregateDoRatePrevote_def u64_id)
  have commit: "AggregateDoRatePrevote_msg K N h w s
       \<lparr>prevoteHash = hash_String (GetAggregateVoteHash K salt ratesStr val),
        prevoteFeeder = feederStr, prevoteValidator = valStr\<rparr> = Inr s1"
    unfolding prevote_iff s1_def p_def using addr feeder hash_round_trip by auto
  have inv1: "oracle_inv K s1" by (rule bech32.prevote_inv [OF K inv commit])
  have s1: "GetAggregateDoRatePrevote s1 val = Inr p" "GetFeederDelegation s1 val = GetFeederDelegation s val" "oparams s1 = oparams s"
    by (simp_all add: s1_def prevote_effect prevote_cell.get_put)
  note kept = meanwhile_keeps [OF K inv1 s1(1) submit refl, unfolded s1(2,3), OF heights(4,1,2,3,5) _ order_refl]
  have "\<exists>s3. AggregateDoRateVote_msg K N h' w' s2
           \<lparr>voteSalt = salt, voteExchangeRates = ratesStr, voteFeeder = feederStr, voteValidator = valStr\<rparr> = Inr s3 \<and>
         GetAggregateDoRateVote s3 val = Inr (NewAggregateDoRateVote K tuples val) \<and>
         GetAggregateDoRatePrevote s3 val = Inl ErrNoAggregatePrevote"
    if run: "meanwhile K N distr val h s1 h' s2" and bonded: "Validator N w' val = Inr (Some v)" "IsBonded v"
      and targets: "\<forall>t \<in> set tuples. IsVoteTarget s2 (tDenom t)" for s2 w' v
  proof -
    let ?s3 = "DeleteAggregateDoRatePrevote (SetAggregateDoRateVote s2 val (NewAggregateDoRateVote K tuples val)) val"
    note k = kept [OF run]
    have "ValidateFeeder N w' s2 feeder val = Inr ()" using feeder k bonded by (auto simp: ValidateFeeder_iff)
    moreover have "reveal_period_ok h' (VotePeriod (oparams s2)) (pSubmitBlock p) = Inr True"
      using heights k submit reveal_period_iff [of h' h "VotePeriod (oparams s)"] meanwhile_height [OF run] by simp
    moreover have "pHash p = hash_String (GetAggregateVoteHash K salt ratesStr val)"
      by (simp add: p_def NewAggregateDoRatePrevote_def hash_String_def)
    ultimately have "AggregateDoRateVote_msg K N h' w' s2
        \<lparr>voteSalt = salt, voteExchangeRates = ratesStr, voteFeeder = feederStr, voteValidator = valStr\<rparr> = Inr ?s3"
      unfolding reveal_iff using addr rates targets k by auto
    then show ?thesis using reveal_effect(1,2) [of s2 val] by auto
  qed
  with commit show ?thesis by blast
qed

text \<open>A commitment in the last block of a period and its reveal in the next block.\<close>

definition ex_commit :: MsgAggregateDoRatePrevote where
  "ex_commit = \<lparr>prevoteHash = hash_String (GetAggregateVoteHash ref_sdk ''s'' ''2.5uusd'' alice),
     prevoteFeeder = ''do1'' @ alice, prevoteValidator = ''dovaloper1'' @ alice\<rparr>"

definition ex_period_end :: "(oracle_store \<times> ref_world) result" where
  "ex_period_end = rbind (AggregateDoRatePrevote_msg ref_sdk ref_keepers 59 (ex_world [] [(alice, 10)]) ex_oracle ex_commit) (\<lambda>s1.
     oracle_EndBlocker ref_sdk ref_keepers ''distribution'' (ex_range [''udo'', ''uusd'']) 59 (s1, ex_world [] [(alice, 10)]))"

theorem commit_reveal_round_trip_witness:
  "\<exists>s1 s2 s3 w1. AggregateDoRatePrevote_msg ref_sdk ref_keepers 59 (ex_world [] [(alice, 10)]) ex_oracle ex_commit = Inr s1 \<and>
     oracle_EndBlocker ref_sdk ref_keepers ''distribution'' (ex_range [''udo'', ''uusd'']) 59 (s1, ex_world [] [(alice, 10)]) = Inr (s2, w1) \<and>
     AggregateDoRateVote_msg ref_sdk ref_keepers 60 (ex_world [] [(alice, 10)]) s2 ex_reveal = Inr s3 \<and>
     GetAggregateDoRateVote s3 alice = Inr (NewAggregateDoRateVote ref_sdk
       [\<lparr>tDenom = ''uusd'', tExchangeRate = 2500000000000000000\<rparr>] alice)"
proof -
  have "map_sum id (\<lambda>(s, w). IsVoteTarget s ''uusd'') ex_period_end = Inr True" by code_simp
  then obtain s1 s2 w1 where run: "AggregateDoRatePrevote_msg ref_sdk ref_keepers 59 (ex_world [] [(alice, 10)]) ex_oracle ex_commit = Inr s1"
      "oracle_EndBlocker ref_sdk ref_keepers ''distribution'' (ex_range [''udo'', ''uusd'']) 59 (s1, ex_world [] [(alice, 10)]) = Inr (s2, w1)"
    and target: "IsVoteTarget s2 ''uusd''"
    by (cases ex_period_end) (auto simp: ex_period_end_def rbind_eq_Inr)
  have "meanwhile ref_sdk ref_keepers ''distribution'' alice 59 s1 60 s2"
    using meanwhile.end_block [OF meanwhile.nothing run(2)] by simp
  moreover have "Validator ref_keepers (ex_world [] [(alice, 10)]) alice = Inr (Some (ex_validator alice 10))" "IsBonded (ex_validator alice 10)"
    by (simp_all add: ex_world_def ex_validator_def ref_validator_def)
  moreover have "\<exists>s1. AggregateDoRatePrevote_msg ref_sdk ref_keepers 59 (ex_world [] [(alice, 10)]) ex_oracle
       \<lparr>prevoteHash = hash_String (GetAggregateVoteHash ref_sdk ''s'' ''2.5uusd'' alice),
        prevoteFeeder = ''do1'' @ alice, prevoteValidator = ''dovaloper1'' @ alice\<rparr> = Inr s1 \<and>
     (\<forall>s2 w' v. meanwhile ref_sdk ref_keepers ''distribution'' alice 59 s1 60 s2 \<and> Validator ref_keepers w' alice = Inr (Some v) \<and> IsBonded v \<and>
          (\<forall>t \<in> set [\<lparr>tDenom = ''uusd'', tExchangeRate = 2500000000000000000\<rparr>]. IsVoteTarget s2 (tDenom t)) \<longrightarrow>
        (\<exists>s3. AggregateDoRateVote_msg ref_sdk ref_keepers 60 w' s2
           \<lparr>voteSalt = ''s'', voteExchangeRates = ''2.5uusd'', voteFeeder = ''do1'' @ alice, voteValidator = ''dovaloper1'' @ alice\<rparr> = Inr s3 \<and>
         GetAggregateDoRateVote s3 alice = Inr (NewAggregateDoRateVote ref_sdk [\<lparr>tDenom = ''uusd'', tExchangeRate = 2500000000000000000\<rparr>] alice) \<and>
         GetAggregateDoRatePrevote s3 alice = Inl ErrNoAggregatePrevote))"
    by (rule commit_reveal_round_trip [where feeder = alice, OF ref.bech32_axioms ex_oracle_inv]) code_simp+
  ultimately show ?thesis using run target unfolding ex_commit_def [symmetric] ex_reveal_def [symmetric] by auto
qed

end
