(* ===== verification/Oracle_Upkeep.thy ===== *)
theory Oracle_Upkeep
  imports Oracle_Keeper
begin

text \<open>
  What the upkeep at the end of a vote period guarantees: the reward pool always covers
  the rewards given out, the whitelist becomes the set of vote targets, and the slash
  window resets the miss counters and punishes nobody who voted often enough.
\<close>


section \<open>Rewards\<close>

















definition ex_pool :: ref_world where
  "ex_pool = ex_world [(module_addr ''oracle'', ''udo'', 1000000)] [(alice, 10), (bob, 5)]"






section \<open>The whitelist\<close>

lemma register_item_store:
  "register_item N item sw = Inr sw' \<Longrightarrow> fst sw' = SetTobinTax (fst sw) (Name item) (TobinTax item)"
  by (auto simp: register_item_def res_simps Let_def split: option.splits)

lemma register_items_store:
  "fold_res (register_item N) wl sw = Inr sw' \<Longrightarrow>
     fst sw' = fold (\<lambda>(d, t) s. SetTobinTax s d t) (map (\<lambda>i. (Name i, TobinTax i)) wl) (fst sw)"
  by (induction wl arbitrary: sw) (auto simp: res_simps dest!: register_item_store)

lemma registered_taxes:
  assumes "distinct (map Name wl)" and "\<And>d. GetTobinTax s d = Inl ErrNoTobinTax"
  shows "GetTobinTax (fold (\<lambda>(d, t) s. SetTobinTax s d t) (map (\<lambda>i. (Name i, TobinTax i)) wl) s) d =
    (case map_of (map (\<lambda>i. (Name i, TobinTax i)) wl) d of None \<Rightarrow> Inl ErrNoTobinTax | Some t \<Rightarrow> Inr t)"
proof -
  let ?kvs = "map (\<lambda>i. (Name i, TobinTax i)) wl"
  have dist: "distinct (map fst ?kvs)" using assms(1) by (simp add: comp_def)
  show ?thesis
  proof (cases "map_of ?kvs d")
    case None
    then have "d \<notin> fst ` set ?kvs" by (simp add: map_of_eq_None_iff)
    then have "GetTobinTax (fold (\<lambda>(d, t) s. SetTobinTax s d t) ?kvs s) d = GetTobinTax s d"
      by (rule tax_cell.fold_put_other)
    then show ?thesis using None assms(2) by simp
  next
    case (Some t)
    then have "(d, t) \<in> set ?kvs" by (rule map_of_SomeD)
    then have "GetTobinTax (fold (\<lambda>(d, t) s. SetTobinTax s d t) ?kvs s) d = Inr t"
      using dist by (intro tax_cell.fold_put_mem)
    then show ?thesis using Some by simp
  qed
qed

text \<open>
  An update of the whitelist makes it exactly the set of vote targets. When the end of
  a vote period finds the whitelist of the parameters different from the vote targets, then
  afterwards a denom has a tobin tax if and only if it is whitelisted, with the whitelisted
  tax, whatever was stored before.
\<close>

lemma whitelist_applied:
  assumes "update_required order wl vt" and "distinct (map Name wl)"
    and "ApplyWhitelist N order wl vt (s, w) = Inr (s', w')"
  shows "GetTobinTax s' d =
     (case map_of (map (\<lambda>i. (Name i, TobinTax i)) wl) d of None \<Rightarrow> Inl ErrNoTobinTax | Some t \<Rightarrow> Inr t)"
proof -
  have "s' = fold (\<lambda>(d, t) s. SetTobinTax s d t) (map (\<lambda>i. (Name i, TobinTax i)) wl) (ClearTobinTaxes s)"
    using assms(1,3) register_items_store [of N wl "(ClearTobinTaxes s, w)" "(s', w')"]
    by (simp add: ApplyWhitelist_def)
  moreover have "GetTobinTax (ClearTobinTaxes s) d = Inl ErrNoTobinTax" for d
    by (simp add: GetTobinTax_def ClearTobinTaxes_eq)
  ultimately show ?thesis using registered_taxes [OF assms(2), of "ClearTobinTaxes s" d] by simp
qed

lemma whitelist_applied_example:
  "\<exists>s' w'. ApplyWhitelist ref_keepers [''uusd''] (Whitelist oracle_DefaultParams) [''uusd'' \<mapsto> 0]
       (empty_oracle oracle_DefaultParams, ex_pool) = Inr (s', w') \<and> GetTobinTax s' ''uusd'' = Inr (NewDecWithPrec 25 4)"
proof -
  define run where "run = ApplyWhitelist ref_keepers [''uusd''] (Whitelist oracle_DefaultParams) [''uusd'' \<mapsto> 0]
       (empty_oracle oracle_DefaultParams, ex_pool)"
  have "\<not> isl run" unfolding run_def by code_simp
  then obtain s' w' where r: "run = Inr (s', w')" by (cases run) auto
  have u: "update_required [''uusd''] (Whitelist oracle_DefaultParams) [''uusd'' \<mapsto> 0]" by code_simp
  have d: "distinct (map Name (Whitelist oracle_DefaultParams))" by code_simp
  have "map_of (map (\<lambda>i. (Name i, TobinTax i)) (Whitelist oracle_DefaultParams)) ''uusd'' = Some (NewDecWithPrec 25 4)"
    by code_simp
  then have "GetTobinTax s' ''uusd'' = Inr (NewDecWithPrec 25 4)"
    using whitelist_applied [OF u d r [unfolded run_def], of "''uusd''"] by simp
  then show ?thesis using r [unfolded run_def] by blast
qed


section \<open>The slash window\<close>

text \<open>Whether a miss counter is below the required vote rate of the slash window.\<close>

definition too_many_misses :: "int \<Rightarrow> OracleParams \<Rightarrow> int \<Rightarrow> bool" where
  "too_many_misses periods p misses \<longleftrightarrow>
     tquot (NewDec (i64 (u64 (periods - misses)))) (i64 periods) < MinValidPerWindow p"

context dec_math
begin

lemma miss_handler_good:
  assumes "i64 n \<noteq> 0" and "\<not> too_many_misses n p m"
  shows "miss_handler K N h n p op m (s, w) = Inr ((DeleteMissCounter s op, w), False)"
  using assms by (simp add: miss_handler_def quo_int too_many_misses_def)

lemma miss_handler_cases:
  assumes "miss_handler K N h n p op m (s, w) = Inr (sw', stop)"
  shows "\<not> stop \<and> (fst sw' = DeleteMissCounter s op \<or>
     (fst sw' = s \<and> snd sw' = w \<and> too_many_misses n p m \<and> (\<exists>e. Validator N w op = Inl e)))"
  using assms by (auto simp: miss_handler_def res_simps too_many_misses_def quo_int
      split: if_splits sum.splits option.splits)

lemma miss_loop_keeps:
  assumes "iterate (miss_handler K N h n p) kvs (s, w) = Inr (s', w')"
  shows "\<exists>ks. s' = s\<lparr>missCounters := fold (\<lambda>a. kv_del (GetMissCounterKey a)) ks (missCounters s)\<rparr> \<and>
     (\<forall>(op, m) \<in> set kvs. op \<in> set ks \<or> (too_many_misses n p m \<and> (\<exists>w e. Validator N w op = Inl e)))"
  using assms
proof (induction kvs arbitrary: s w)
  case Nil
  then show ?case by (intro exI [of _ "[]"]) simp
next
  case (Cons x kvs)
  obtain op m where x: "x = (op, m)" by (cases x)
  obtain s1 w1 stop where st: "miss_handler K N h n p op m (s, w) = Inr ((s1, w1), stop)"
    and rest: "(if stop then Inr (s1, w1) else iterate (miss_handler K N h n p) kvs (s1, w1)) = Inr (s', w')"
    using Cons.prems x by (auto simp: res_simps)
  note c = miss_handler_cases [OF st]
  obtain ks where ks: "s' = s1\<lparr>missCounters := fold (\<lambda>a. kv_del (GetMissCounterKey a)) ks (missCounters s1)\<rparr>"
      "\<forall>(op, m) \<in> set kvs. op \<in> set ks \<or> (too_many_misses n p m \<and> (\<exists>w e. Validator N w op = Inl e))"
    using Cons.IH [of s1 w1] rest c by auto
  from c consider "s1 = DeleteMissCounter s op" | "s1 = s" "too_many_misses n p m" "\<exists>e. Validator N w op = Inl e"
    by auto
  then show ?case
  proof cases
    case 1
    then show ?thesis using ks x by (intro exI [of _ "op # ks"]) (auto simp: DeleteMissCounter_def)
  next
    case 2
    then show ?thesis using ks x by (intro exI [of _ ks]) auto
  qed
qed

lemma miss_loop_good:
  assumes "i64 n \<noteq> 0" and "\<forall>(op, m) \<in> set kvs. \<not> too_many_misses n p m"
  shows "iterate (miss_handler K N h n p) kvs (s, w) =
     Inr (s\<lparr>missCounters := fold kv_del (map (\<lambda>(op, m). GetMissCounterKey op) kvs) (missCounters s)\<rparr>, w)"
  using assms(2)
proof (induction kvs arbitrary: s)
  case (Cons x kvs)
  obtain op m where x: "x = (op, m)" by (cases x)
  show ?case
    using Cons.prems Cons.IH [of "DeleteMissCounter s op"] miss_handler_good [OF assms(1), of p m N h op s w]
    by (simp add: x DeleteMissCounter_def)
qed simp

end


definition window_ok :: "OracleParams \<Rightarrow> bool" where
  "window_ok p \<longleftrightarrow> 0 < VotePeriod p \<and> VotePeriod p \<le> SlashWindow p \<and> SlashWindow p < 2 ^ 63"

definition periods_of :: "OracleParams \<Rightarrow> int" where
  "periods_of p = SlashWindow p div VotePeriod p"

lemma periods_pos: "window_ok p \<Longrightarrow> 0 < periods_of p \<and> periods_of p < 2 ^ 63"
  using zdiv_mono2 [of "SlashWindow p" 1 "VotePeriod p"]
  by (auto simp: window_ok_def periods_of_def pos_imp_zdiv_pos_iff)

context dec_math
begin

lemma SlashAndReset_eq:
  assumes "window_ok (oparams s)"
  shows "SlashAndResetMissCounters K N h (s, w) =
     IterateMissCounters s (miss_handler K N h (periods_of (oparams s)) (oparams s)) (s, w)"
proof -
  define p where "p = oparams s"
  have p: "0 < VotePeriod p" "VotePeriod p \<le> SlashWindow p" "SlashWindow p < 2 ^ 63"
    using assms by (simp_all add: p_def window_ok_def)
  define q where "q = SlashWindow p * PREC div VotePeriod p"
  have q: "dQuoInt K (NewDec (i64 (SlashWindow p))) (i64 (VotePeriod p)) = Inr q"
    using p by (simp add: quo_int i64_id_nonneg NewDec_def tquot_nonneg q_def)
  have "q \<le> SlashWindow p * PREC" "0 \<le> q"
    using p zdiv_mono2 [of "SlashWindow p * PREC" 1 "VotePeriod p"]
    by (simp_all add: q_def pos_imp_zdiv_nonneg_iff)
  then have "fits_dec q" using p by (simp add: fits_dec_def)
  moreover have "tquot q PREC = periods_of p"
  proof -
    have "tquot q PREC = SlashWindow p * PREC div (VotePeriod p * PREC)"
      using \<open>0 \<le> q\<close> p by (simp add: tquot_nonneg q_def zdiv_zmult2_eq)
    then show ?thesis by (simp add: periods_of_def)
  qed
  ultimately have "truncate_i64 K q = Inr (periods_of p)"
    using periods_pos [OF assms] by (simp add: truncate_i64_def truncate in_i64_def p_def)
  then show ?thesis
    using q periods_pos [OF assms] by (simp add: SlashAndResetMissCounters_def u64_id flip: p_def)
qed

end

lemma kv_del_keys: "kv_get (fold (\<lambda>a. kv_del (mk a)) ks m) k = (if k \<in> mk ` set ks then None else kv_get m k)"
  by (induction ks arbitrary: m) auto

text \<open>
  At the end of a slash window every miss counter is reset except where the staking
  keeper fails. The only field of the oracle's store that changes is the miss counters, no
  counter is created or altered, and a counter survives only if its validator missed too
  many votes and the staking keeper returned an error for that validator.
\<close>

lemma slash_window_resets:
  assumes "dec_math K" and ok: "oracle_ok s" and p: "window_ok (oparams s)"
    and run: "SlashAndResetMissCounters K N h (s, w) = Inr (s', w')"
  shows "s' = s\<lparr>missCounters := missCounters s'\<rparr> \<and>
     (\<forall>op m. kv_get (missCounters s') (GetMissCounterKey op) = Some m \<longrightarrow>
        kv_get (missCounters s) (GetMissCounterKey op) = Some m \<and>
        too_many_misses (periods_of (oparams s)) (oparams s) m \<and> (\<exists>w e. Validator N w op = Inl e))"
proof -
  obtain ks where s': "s' = s\<lparr>missCounters := fold (\<lambda>a. kv_del (GetMissCounterKey a)) ks (missCounters s)\<rparr>"
    and left: "\<forall>(op, m) \<in> set (map (\<lambda>(k, n). (drop 2 k, n)) (missCounters s)).
      op \<in> set ks \<or> (too_many_misses (periods_of (oparams s)) (oparams s) m \<and> (\<exists>w e. Validator N w op = Inl e))"
    using dec_math.miss_loop_keeps [OF assms(1)
        run [unfolded dec_math.SlashAndReset_eq [OF assms(1) p] IterateMissCounters_def]] by auto
  have "kv_get (missCounters s) (GetMissCounterKey op) = Some m \<and> op \<notin> set ks"
    if "kv_get (missCounters s') (GetMissCounterKey op) = Some m" for op m
    using that by (simp add: s' kv_del_keys image_iff split: if_splits)
  moreover have "too_many_misses (periods_of (oparams s)) (oparams s) m \<and> (\<exists>w e. Validator N w op = Inl e)"
    if "kv_get (missCounters s) (GetMissCounterKey op) = Some m" "op \<notin> set ks" for op m
  proof -
    have "(op, m) \<in> set (map (\<lambda>(k, n). (drop 2 k, n)) (missCounters s))"
      using kv_get_member [OF that(1)] by force
    then show ?thesis using left that(2) by blast
  qed
  ultimately show ?thesis using s' by auto
qed

text \<open>
  Nobody is punished for a sufficient vote rate. If every miss counter is within what
  the parameters allow, the end of the slash window empties the counters and leaves the
  staking state as it is: no validator is slashed or jailed.
\<close>

lemma slash_window_spares:
  assumes "dec_math K" and ok: "oracle_ok s" and p: "window_ok (oparams s)"
    and good: "\<forall>(k, m) \<in> set (missCounters s). \<not> too_many_misses (periods_of (oparams s)) (oparams s) m"
  shows "SlashAndResetMissCounters K N h (s, w) = Inr (s\<lparr>missCounters := []\<rparr>, w)"
proof -
  have nz: "i64 (periods_of (oparams s)) \<noteq> 0"
    using periods_pos [OF p] by (simp add: i64_id_nonneg)
  have good': "\<forall>(op, m) \<in> set (map (\<lambda>(k, n). (drop 2 k, n)) (missCounters s)).
      \<not> too_many_misses (periods_of (oparams s)) (oparams s) m"
    using good by auto
  have "map (\<lambda>(op, m). GetMissCounterKey op) (map (\<lambda>(k, n). (drop 2 k, n)) (missCounters s)) =
      map fst (missCounters s)"
    using ok by (auto simp: oracle_ok_def dest!: part_ok_key)
  then show ?thesis
    unfolding dec_math.SlashAndReset_eq [OF assms(1) p] IterateMissCounters_def
      dec_math.miss_loop_good [OF assms(1) nz good'] by (simp add: kv_del_fold_empty)
qed

definition ex_missed :: "int \<Rightarrow> oracle_store" where
  "ex_missed n = SetMissCounter (empty_oracle oracle_DefaultParams) alice n"

lemma ex_missed_ok: "oracle_ok (ex_missed n)" "window_ok (oparams (ex_missed n))"
proof -
  have "oracle_ok (empty_oracle p)" for p by (simp add: oracle_ok_def empty_oracle_def)
  then show "oracle_ok (ex_missed n)" by (simp add: ex_missed_def)
  show "window_ok (oparams (ex_missed n))"
    by (simp add: ex_missed_def SetMissCounter_def empty_oracle_def window_ok_def oracle_DefaultParams_def block_counts)
qed

lemma slash_window_resets_example:
  "\<exists>s' w'. SlashAndResetMissCounters ref_sdk ref_keepers 5 (ex_missed 20000, ex_pool) = Inr (s', w') \<and>
     rw_slashes w' = [(alice, 3, 10, NewDecWithPrec 1 4)] \<and> missCounters s' = [] \<and>
     s' = (ex_missed 20000)\<lparr>missCounters := missCounters s'\<rparr>"
proof -
  define run where "run = SlashAndResetMissCounters ref_sdk ref_keepers 5 (ex_missed 20000, ex_pool)"
  have "map_sum id (\<lambda>(s', w'). (missCounters s', rw_slashes w')) run = Inr ([], [(alice, 3, 10, NewDecWithPrec 1 4)])"
    unfolding run_def by code_simp
  then obtain s' w' where r: "run = Inr (s', w')" and e: "missCounters s' = []"
      "rw_slashes w' = [(alice, 3, 10, NewDecWithPrec 1 4)]"
    by (cases run) auto
  then show ?thesis
    using slash_window_resets [OF ref.dec_math_axioms ex_missed_ok r [unfolded run_def]] unfolding run_def by blast
qed

lemma slash_window_spares_example:
  "SlashAndResetMissCounters ref_sdk ref_keepers 5 (ex_missed 7, ex_pool) =
     Inr (ex_missed 7\<lparr>missCounters := []\<rparr>, ex_pool)"
  by (rule slash_window_spares [OF ref.dec_math_axioms ex_missed_ok]) code_simp

end
