(* ===== verification/Oracle_Queries.thy ===== *)
theory Oracle_Queries
  imports Oracle_Keeper
begin

text \<open>
  The query server of the oracle (\<open>src/x/oracle/keeper/querier.go\<close>) over the store of
  \<open>Oracle_Keeper\<close>. A request is an option, nil being \<open>None\<close>; the gRPC status codes are errors by
  name. The queries about one entry and those that list all entries agree.
\<close>

definition query_ExchangeRate :: "oracle_store \<Rightarrow> string option \<Rightarrow> dec result" where
  "query_ExchangeRate s req =
     (case req of
        None \<Rightarrow> Inl (Sdk ''InvalidArgument'')
      | Some denom \<Rightarrow>
          rbind (fail_if (length denom = 0) (Sdk ''InvalidArgument'')) (\<lambda>_. GetDoExchangeRate s denom))"

definition query_ExchangeRates :: "sdk \<Rightarrow> oracle_store \<Rightarrow> deccoin list result" where
  "query_ExchangeRates K s =
     IterateDoExchangeRates s (\<lambda>denom rate acc. rbind (NewDecCoinFromDec K denom rate) (\<lambda>c. Inr (acc @ [c], False))) []"

definition query_TobinTax :: "oracle_store \<Rightarrow> string option \<Rightarrow> dec result" where
  "query_TobinTax s req =
     (case req of
        None \<Rightarrow> Inl (Sdk ''InvalidArgument'')
      | Some denom \<Rightarrow>
          rbind (fail_if (length denom = 0) (Sdk ''InvalidArgument'')) (\<lambda>_. GetTobinTax s denom))"

definition query_TobinTaxes :: "oracle_store \<Rightarrow> DenomEntry list result" where
  "query_TobinTaxes s =
     IterateTobinTaxes s (\<lambda>denom rate acc. Inr (acc @ [\<lparr>Name = denom, TobinTax = rate\<rparr>], False)) []"

definition query_Actives :: "oracle_store \<Rightarrow> string list result" where
  "query_Actives s = IterateDoExchangeRates s (\<lambda>denom rate acc. Inr (acc @ [denom], False)) []"

definition query_VoteTargets :: "oracle_store \<Rightarrow> string list result" where
  "query_VoteTargets s = GetVoteTargets s"

definition operator_of :: "sdk \<Rightarrow> string option \<Rightarrow> address result" where
  "operator_of K req =
     (case req of
        None \<Rightarrow> Inl (Sdk ''InvalidArgument'')
      | Some validatorAddr \<Rightarrow> wrap_err (Sdk ''InvalidArgument'') (ValFromBech32 K validatorAddr))"

definition query_FeederDelegation :: "sdk \<Rightarrow> oracle_store \<Rightarrow> string option \<Rightarrow> string result" where
  "query_FeederDelegation K s req =
     rbind (operator_of K req) (\<lambda>valAddr. Inr (AccString K (GetFeederDelegation s valAddr)))"

definition query_MissCounter :: "sdk \<Rightarrow> oracle_store \<Rightarrow> string option \<Rightarrow> int result" where
  "query_MissCounter K s req = rbind (operator_of K req) (\<lambda>valAddr. Inr (GetMissCounter s valAddr))"

definition query_AggregatePrevote :: "sdk \<Rightarrow> oracle_store \<Rightarrow> string option \<Rightarrow> AggregateDoRatePrevote result" where
  "query_AggregatePrevote K s req = rbind (operator_of K req) (\<lambda>valAddr. GetAggregateDoRatePrevote s valAddr)"

definition query_AggregatePrevotes :: "oracle_store \<Rightarrow> AggregateDoRatePrevote list result" where
  "query_AggregatePrevotes s =
     IterateAggregateDoRatePrevotes s (\<lambda>_ prevote acc. Inr (acc @ [prevote], False)) []"

definition query_AggregateVote :: "sdk \<Rightarrow> oracle_store \<Rightarrow> string option \<Rightarrow> AggregateDoRateVote result" where
  "query_AggregateVote K s req = rbind (operator_of K req) (\<lambda>valAddr. GetAggregateDoRateVote s valAddr)"

definition query_AggregateVotes :: "oracle_store \<Rightarrow> AggregateDoRateVote list result" where
  "query_AggregateVotes s = IterateAggregateDoRateVotes s (\<lambda>_ vote acc. Inr (acc @ [vote], False)) []"


section \<open>What the lists hold\<close>

lemma lists_eq:
  "query_Actives s = Inr (map (\<lambda>(k, r). drop 1 k) (rates s))"
  "query_VoteTargets s = Inr (map (\<lambda>(k, t). ExtractDenomFromTobinTaxKey k) (tobinTaxes s))"
  "query_TobinTaxes s = Inr (map (\<lambda>(k, t). \<lparr>Name = ExtractDenomFromTobinTaxKey k, TobinTax = t\<rparr>) (tobinTaxes s))"
  "query_AggregatePrevotes s = Inr (map snd (prevotes s))"
  "query_AggregateVotes s = Inr (map snd (votes s))"
  by (simp_all add: query_Actives_def query_VoteTargets_def query_TobinTaxes_def query_AggregatePrevotes_def
      query_AggregateVotes_def GetVoteTargets_def oracle_iterators iterate_pure fold_append_map comp_def case_prod_unfold)

text \<open>A denom other than Do is active exactly when it has a rate, and it is listed once.\<close>

lemma actives_have_rates:
  assumes "oracle_ok s" and "d \<noteq> MicroDoDenom" and "d \<noteq> []"
  shows "\<exists>ds. query_Actives s = Inr ds \<and> distinct ds \<and> (d \<in> set ds \<longleftrightarrow> (\<exists>r. query_ExchangeRate s (Some d) = Inr r))"
proof -
  have p: "part_ok GetExchangeRateKey (rates s)" using assms(1) by (simp add: oracle_ok_def)
  have k: "k = GetExchangeRateKey (drop 1 k)" if "(k, r) \<in> set (rates s)" for k r
    using part_ok_key [OF p that] by (auto simp: GetExchangeRateKey_def)
  have "kv_ok (rates s)" using p by (simp add: part_ok_def)
  then have dist: "distinct (map fst (rates s))" by (rule kv_ok_distinct)
  have "inj_on (drop 1) (fst ` set (rates s))" using k by (auto intro!: inj_onI) metis
  then have "distinct (map (drop 1) (map fst (rates s)))" using dist by (simp add: distinct_map comp_inj_on)
  moreover have "d \<in> set (map (drop 1) (map fst (rates s))) \<longleftrightarrow> (\<exists>r. kv_get (rates s) (GetExchangeRateKey d) = Some r)"
    using k kv_get_iff [OF \<open>kv_ok (rates s)\<close>] by (force simp: GetExchangeRateKey_def)
  ultimately show ?thesis
    using assms(2,3)
    by (auto simp: lists_eq query_ExchangeRate_def GetDoExchangeRate_def fail_if_def comp_def case_prod_unfold split: option.splits)
qed

text \<open>A query sees what was last stored.\<close>

lemma query_after_set:
  "d \<noteq> [] \<Longrightarrow> d \<noteq> MicroDoDenom \<Longrightarrow> query_ExchangeRate (SetDoExchangeRate s d r) (Some d) = Inr r"
  "d \<noteq> [] \<Longrightarrow> query_TobinTax (SetTobinTax s d t) (Some d) = Inr t"
  "operator_of K req = Inr v \<Longrightarrow> query_FeederDelegation K (SetFeederDelegation s v f) req = Inr (AccString K f)"
  "operator_of K req = Inr v \<Longrightarrow> query_MissCounter K (SetMissCounter s v n) req = Inr n"
  by (simp_all add: query_ExchangeRate_def query_TobinTax_def query_FeederDelegation_def query_MissCounter_def fail_if_def
      rate_cell.get_put tax_cell.get_put feeder_cell.get_put miss_cell.get_put)

end
