(* ===== verification/Market.thy ===== *)
theory Market
  imports Oracle_Keeper
begin

text \<open>
  \<open>src/x/market\<close>: the swap module. Its store holds one decimal, the gap between the Do pool
  and the base pool; prices and tobin taxes come from the oracle through the interface
  \<open>OracleKeeper\<close>, modelled by the record \<open>price_source\<close> and specified by the locale
  \<open>oracle_keeper\<close>, which is interpreted on the oracle's own store.
\<close>


section \<open>The oracle as the market sees it (expected\_keepers.go)\<close>

record price_source =
  srcRate :: "string \<Rightarrow> dec result"
  srcTax :: "string \<Rightarrow> dec result"

definition oracle_view :: "oracle_store \<Rightarrow> price_source" where
  "oracle_view os = \<lparr>srcRate = GetDoExchangeRate os, srcTax = GetTobinTax os\<rparr>"

abbreviation ErrRecursiveSwap :: error where "ErrRecursiveSwap \<equiv> Registered ''market'' 2"
abbreviation ErrNoEffectivePrice :: error where "ErrNoEffectivePrice \<equiv> Registered ''market'' 3"
abbreviation ErrZeroSwapCoin :: error where "ErrZeroSwapCoin \<equiv> Registered ''market'' 4"


section \<open>Parameters and state\<close>

record MarketParams =
  BasePool :: dec
  PoolRecoveryPeriod :: int
  MinStabilitySpread :: dec

definition market_DefaultParams :: MarketParams where
  "market_DefaultParams = \<lparr>BasePool = NewDec (1000000 * MicroUnit), PoolRecoveryPeriod = BlocksPerDay,
     MinStabilitySpread = NewDecWithPrec 2 2\<rparr>"

definition market_Params_Validate :: "MarketParams \<Rightarrow> unit result" where
  "market_Params_Validate p =
     rbind (fail_if (BasePool p < 0) (Text ''market base pool should be positive or zero'')) (\<lambda>_.
     rbind (fail_if (PoolRecoveryPeriod p = 0) (Text ''pool recovery period should be positive'')) (\<lambda>_.
     fail_if (MinStabilitySpread p < 0 \<or> OneDec < MinStabilitySpread p)
       (Text ''market minimum stability spread should be a value between [0,1]'')))"

definition validateBasePool :: "dec \<Rightarrow> unit result" where
  "validateBasePool v = fail_if (v < 0) (Text ''market base pool must be positive or zero'')"

definition validatePoolRecoveryPeriod :: "int \<Rightarrow> unit result" where
  "validatePoolRecoveryPeriod v = fail_if (v = 0) (Text ''pool recovery period must be positive'')"

definition validateMinStabilitySpread :: "dec \<Rightarrow> unit result" where
  "validateMinStabilitySpread v =
     rbind (fail_if (v < 0) (Text ''min spread must be positive or zero'')) (\<lambda>_.
     fail_if (OneDec < v) (Text ''min spread is too large''))"

text \<open>The stored delta is absent until it is first written; equal values have equal encodings.\<close>

record market_store =
  poolDelta :: "dec option"
  mparams :: MarketParams

definition GetDoPoolDelta :: "market_store \<Rightarrow> dec" where
  "GetDoPoolDelta s = (case poolDelta s of None \<Rightarrow> 0 | Some d \<Rightarrow> d)"

definition SetDoPoolDelta :: "int \<Rightarrow> market_store \<Rightarrow> dec \<Rightarrow> market_store" where
  "SetDoPoolDelta height s delta =
     (if height \<ge> ReplayWriteOptimizationHeight \<and> poolDelta s = Some delta then s
      else s\<lparr>poolDelta := Some delta\<rparr>)"

definition ReplenishPools :: "sdk \<Rightarrow> int \<Rightarrow> market_store \<Rightarrow> market_store result" where
  "ReplenishPools K height s =
     (let d = GetDoPoolDelta s; poolRecoveryPeriod = i64 (PoolRecoveryPeriod (mparams s))
      in rbind (dQuoInt K d poolRecoveryPeriod) (\<lambda>poolRegressionAmt.
         rbind (dSub K d poolRegressionAmt) (\<lambda>d'.
         Inr (SetDoPoolDelta height s d'))))"

definition market_EndBlocker :: "sdk \<Rightarrow> int \<Rightarrow> market_store \<Rightarrow> market_store result" where
  "market_EndBlocker K height s = ReplenishPools K height s"


section \<open>Swaps (swap.go)\<close>

definition ComputeInternalSwap :: "sdk \<Rightarrow> price_source \<Rightarrow> deccoin \<Rightarrow> string \<Rightarrow> deccoin result" where
  "ComputeInternalSwap K Q offerCoin askDenom =
     (if DDenom offerCoin = askDenom then Inr offerCoin
      else rbind (wrap_err ErrNoEffectivePrice (srcRate Q (DDenom offerCoin))) (\<lambda>offerRate.
           rbind (wrap_err ErrNoEffectivePrice (srcRate Q askDenom)) (\<lambda>askRate.
           rbind (dMul K (DAmount offerCoin) askRate) (\<lambda>x.
           rbind (dQuo K x offerRate) (\<lambda>retAmount.
           if retAmount \<le> 0 then Inl (Sdk ''ErrInvalidCoins'')
           else NewDecCoinFromDec K askDenom retAmount)))))"

definition tobin_spread :: "price_source \<Rightarrow> string \<Rightarrow> string \<Rightarrow> dec result" where
  "tobin_spread Q offerDenom askDenom =
     rbind (srcTax Q offerDenom) (\<lambda>offerTobinTax.
     rbind (srcTax Q askDenom) (\<lambda>askTobinTax.
     Inr (if offerTobinTax < askTobinTax then askTobinTax else offerTobinTax)))"

definition pool_spread :: "sdk \<Rightarrow> market_store \<Rightarrow> bool \<Rightarrow> dec \<Rightarrow> dec result" where
  "pool_spread K s offerIsDo baseOfferAmount =
     rbind (dMul K (BasePool (mparams s)) (BasePool (mparams s))) (\<lambda>cp.
     rbind (dAdd K (BasePool (mparams s)) (GetDoPoolDelta s)) (\<lambda>doPool.
     rbind (dQuo K cp doPool) (\<lambda>baseAssetPool.
     let (offerPool, askPool) = (if \<not> offerIsDo then (doPool, baseAssetPool) else (baseAssetPool, doPool))
     in rbind (dAdd K offerPool baseOfferAmount) (\<lambda>x.
        rbind (dQuo K cp x) (\<lambda>y.
        rbind (dSub K askPool y) (\<lambda>askBaseAmount.
        rbind (dSub K baseOfferAmount askBaseAmount) (\<lambda>z.
        rbind (dQuo K z baseOfferAmount) (\<lambda>spread.
        Inr (if spread < MinStabilitySpread (mparams s) then MinStabilitySpread (mparams s) else spread)))))))))"

definition ComputeSwap ::
    "sdk \<Rightarrow> price_source \<Rightarrow> market_store \<Rightarrow> coin \<Rightarrow> string \<Rightarrow> (deccoin \<times> dec) result" where
  "ComputeSwap K Q s offerCoin askDenom =
     (if Denom offerCoin = askDenom then Inl ErrRecursiveSwap
      else rbind (NewDecCoinFromCoin K offerCoin) (\<lambda>offerDec.
           rbind (ComputeInternalSwap K Q offerDec MicroDoDenom) (\<lambda>baseOfferDecCoin.
           rbind (ComputeInternalSwap K Q baseOfferDecCoin askDenom) (\<lambda>retDecCoin.
           if Denom offerCoin \<noteq> MicroDoDenom \<and> askDenom \<noteq> MicroDoDenom
           then rbind (tobin_spread Q (Denom offerCoin) askDenom) (\<lambda>spread. Inr (retDecCoin, spread))
           else rbind (pool_spread K s (Denom offerCoin = MicroDoDenom) (DAmount baseOfferDecCoin)) (\<lambda>spread.
                Inr (retDecCoin, spread))))))"

definition ApplySwapToPool ::
    "sdk \<Rightarrow> price_source \<Rightarrow> int \<Rightarrow> market_store \<Rightarrow> coin \<Rightarrow> deccoin \<Rightarrow> market_store result" where
  "ApplySwapToPool K Q height s offerCoin askCoin =
     (if Denom offerCoin \<noteq> MicroDoDenom \<and> DDenom askCoin \<noteq> MicroDoDenom then Inr s
      else rbind (if Denom offerCoin \<noteq> MicroDoDenom \<and> DDenom askCoin = MicroDoDenom
                  then rbind (NewDecCoinFromCoin K offerCoin) (\<lambda>offerDec.
                       rbind (ComputeInternalSwap K Q offerDec MicroDoDenom) (\<lambda>offerBaseCoin.
                       dAdd K (GetDoPoolDelta s) (DAmount offerBaseCoin)))
                  else Inr (GetDoPoolDelta s)) (\<lambda>d1.
           rbind (if Denom offerCoin = MicroDoDenom \<and> DDenom askCoin \<noteq> MicroDoDenom
                  then rbind (ComputeInternalSwap K Q askCoin MicroDoDenom) (\<lambda>askBaseCoin.
                       dSub K d1 (DAmount askBaseCoin))
                  else Inr d1) (\<lambda>d2.
           Inr (SetDoPoolDelta height s d2))))"

definition simulateSwap :: "sdk \<Rightarrow> price_source \<Rightarrow> market_store \<Rightarrow> coin \<Rightarrow> string \<Rightarrow> coin result" where
  "simulateSwap K Q s offerCoin askDenom =
     (if askDenom = Denom offerCoin then Inl ErrRecursiveSwap
      else if 100 < BitLen (Amount offerCoin) then Inl (Sdk ''ErrInvalidCoins'')
      else rbind (wrap_err (Sdk ''ErrPanic'') (ComputeSwap K Q s offerCoin askDenom)) (\<lambda>(swapCoin, spread).
           rbind (if 0 < spread
                  then rbind (dMul K spread (DAmount swapCoin)) (\<lambda>swapFeeAmt.
                       if 0 < swapFeeAmt
                       then rbind (NewDecCoinFromDec K (DDenom swapCoin) swapFeeAmt) (\<lambda>swapFee.
                            DecCoinSub K swapCoin swapFee)
                       else Inr swapCoin)
                  else Inr swapCoin) (\<lambda>swapCoin'.
           rbind (DecCoinTruncate K swapCoin') (\<lambda>(retCoin, _). Inr retCoin))))"


section \<open>Messages (msg\_server.go, msgs.go)\<close>

definition swap_fee :: "sdk \<Rightarrow> deccoin \<Rightarrow> dec \<Rightarrow> deccoin result" where
  "swap_fee K swapDecCoin spread =
     (if 0 < spread
      then rbind (dMul K spread (DAmount swapDecCoin)) (\<lambda>amt. NewDecCoinFromDec K (DDenom swapDecCoin) amt)
      else NewDecCoinFromCoin K \<lparr>Denom = DDenom swapDecCoin, Amount = 0\<rparr>)"

definition handleSwapRequest ::
    "sdk \<Rightarrow> 'w keepers \<Rightarrow> price_source \<Rightarrow> int \<Rightarrow> address \<Rightarrow> address \<Rightarrow> coin \<Rightarrow> string \<Rightarrow>
     market_store \<times> 'w \<Rightarrow> ((coin \<times> coin) \<times> market_store \<times> 'w) result" where
  "handleSwapRequest K N Q height trader receiver offerCoin askDenom sw =
     (let (s, w) = sw
      in rbind (ComputeSwap K Q s offerCoin askDenom) (\<lambda>(swapDecCoin0, spread).
         rbind (swap_fee K swapDecCoin0 spread) (\<lambda>feeDecCoin0.
         rbind (dSub K (DAmount swapDecCoin0) (DAmount feeDecCoin0)) (\<lambda>amt.
         let swapDecCoin = swapDecCoin0\<lparr>DAmount := amt\<rparr>
         in rbind (ApplySwapToPool K Q height s offerCoin swapDecCoin) (\<lambda>s1.
            rbind (NewCoins K [offerCoin]) (\<lambda>offerCoins.
            rbind (SendCoinsFromAccountToModule N w trader ''market'' offerCoins) (\<lambda>w1.
            rbind (BurnCoins N w1 ''market'' offerCoins) (\<lambda>w2.
            rbind (DecCoinTruncate K swapDecCoin) (\<lambda>(swapCoin, decimalCoin).
            if \<not> 0 < Amount swapCoin then Inl ErrZeroSwapCoin
            else rbind (DecCoinAdd K feeDecCoin0 decimalCoin) (\<lambda>feeDecCoin.
                 rbind (DecCoinTruncate K feeDecCoin) (\<lambda>(feeCoin, _).
                 rbind (CoinAdd K swapCoin feeCoin) (\<lambda>total.
                 rbind (NewCoins K [total]) (\<lambda>mintCoins.
                 rbind (MintCoins N w2 ''market'' mintCoins) (\<lambda>w3.
                 rbind (NewCoins K [swapCoin]) (\<lambda>swapCoins.
                 rbind (SendCoinsFromModuleToAccount N w3 ''market'' receiver swapCoins) (\<lambda>w4.
                 rbind (if 0 < Amount feeCoin
                        then rbind (NewCoins K [feeCoin]) (\<lambda>feeCoins.
                             SendCoinsFromModuleToModule N w4 ''market'' ''oracle'' feeCoins)
                        else Inr w4) (\<lambda>w5.
                 Inr ((swapCoin, feeCoin), s1, w5))))))))))))))))))"

record MsgSwap =
  Trader :: string
  OfferCoin :: coin
  AskDenom :: string

record MsgSwapSend =
  FromAddress :: string
  ToAddress :: string
  SendOfferCoin :: coin
  SendAskDenom :: string

definition Swap_msg ::
    "sdk \<Rightarrow> 'w keepers \<Rightarrow> price_source \<Rightarrow> int \<Rightarrow> MsgSwap \<Rightarrow> market_store \<times> 'w \<Rightarrow>
     ((coin \<times> coin) \<times> market_store \<times> 'w) result" where
  "Swap_msg K N Q height msg sw =
     rbind (AccFromBech32 K (Trader msg)) (\<lambda>addr.
     handleSwapRequest K N Q height addr addr (OfferCoin msg) (AskDenom msg) sw)"

definition SwapSend_msg ::
    "sdk \<Rightarrow> 'w keepers \<Rightarrow> price_source \<Rightarrow> int \<Rightarrow> MsgSwapSend \<Rightarrow> market_store \<times> 'w \<Rightarrow>
     ((coin \<times> coin) \<times> market_store \<times> 'w) result" where
  "SwapSend_msg K N Q height msg sw =
     rbind (AccFromBech32 K (FromAddress msg)) (\<lambda>fromAddr.
     rbind (AccFromBech32 K (ToAddress msg)) (\<lambda>toAddr.
     handleSwapRequest K N Q height fromAddr toAddr (SendOfferCoin msg) (SendAskDenom msg) sw))"

definition offer_ok :: "coin \<Rightarrow> string \<Rightarrow> unit result" where
  "offer_ok offer ask =
     rbind (fail_if (Amount offer \<le> 0 \<or> 100 < BitLen (Amount offer)) (Sdk ''ErrInvalidCoins'')) (\<lambda>_.
     fail_if (Denom offer = ask) ErrRecursiveSwap)"

definition swap_ValidateBasic :: "sdk \<Rightarrow> MsgSwap \<Rightarrow> unit result" where
  "swap_ValidateBasic K msg =
     rbind (wrap_err (Sdk ''ErrInvalidAddress'') (AccFromBech32 K (Trader msg))) (\<lambda>_.
     offer_ok (OfferCoin msg) (AskDenom msg))"

definition swapsend_ValidateBasic :: "sdk \<Rightarrow> MsgSwapSend \<Rightarrow> unit result" where
  "swapsend_ValidateBasic K msg =
     rbind (wrap_err (Sdk ''ErrInvalidAddress'') (AccFromBech32 K (FromAddress msg))) (\<lambda>_.
     rbind (wrap_err (Sdk ''ErrInvalidAddress'') (AccFromBech32 K (ToAddress msg))) (\<lambda>_.
     offer_ok (SendOfferCoin msg) (SendAskDenom msg)))"

definition swap_GetSigners :: "sdk \<Rightarrow> MsgSwap \<Rightarrow> address list result" where
  "swap_GetSigners K msg = rbind (must (AccFromBech32 K (Trader msg))) (\<lambda>trader. Inr [trader])"

definition swapsend_GetSigners :: "sdk \<Rightarrow> MsgSwapSend \<Rightarrow> address list result" where
  "swapsend_GetSigners K msg = rbind (must (AccFromBech32 K (FromAddress msg))) (\<lambda>from. Inr [from])"


section \<open>Queries and genesis\<close>

text \<open>\<open>parseCoin\<close> stands for \<open>sdk.ParseCoinNormalized\<close>; the gRPC status codes are errors by name.\<close>

definition market_query_Swap ::
    "sdk \<Rightarrow> (string \<Rightarrow> coin result) \<Rightarrow> price_source \<Rightarrow> market_store \<Rightarrow> string \<Rightarrow> string \<Rightarrow> coin result" where
  "market_query_Swap K parseCoin Q s offerStr askDenom =
     rbind (fail_if (\<not> ValidateDenom K askDenom) (Sdk ''InvalidArgument'')) (\<lambda>_.
     rbind (wrap_err (Sdk ''InvalidArgument'') (parseCoin offerStr)) (\<lambda>offerCoin.
     wrap_err (Sdk ''Internal'') (simulateSwap K Q s offerCoin askDenom)))"

record MarketGenesis =
  gDoPoolDelta :: dec
  gMarketParams :: MarketParams

definition market_DefaultGenesisState :: MarketGenesis where
  "market_DefaultGenesisState = \<lparr>gDoPoolDelta = 0, gMarketParams = market_DefaultParams\<rparr>"

definition market_ValidateGenesis :: "MarketGenesis \<Rightarrow> unit result" where
  "market_ValidateGenesis data = market_Params_Validate (gMarketParams data)"

definition market_InitGenesis :: "'w keepers \<Rightarrow> int \<Rightarrow> market_store \<Rightarrow> MarketGenesis \<Rightarrow> market_store result" where
  "market_InitGenesis N height s data =
     rbind (fail_if (GetModuleAddress N ''market'' = None) Panic) (\<lambda>_.
     Inr (SetDoPoolDelta height (s\<lparr>mparams := gMarketParams data\<rparr>) (gDoPoolDelta data)))"

definition market_ExportGenesis :: "market_store \<Rightarrow> MarketGenesis" where
  "market_ExportGenesis s = \<lparr>gDoPoolDelta = GetDoPoolDelta s, gMarketParams = mparams s\<rparr>"



section \<open>The oracle's contract\<close>

text \<open>
  What the market relies on in the oracle: the price of the base denom is one. The oracle's
  own store provides it, whatever rates it holds.
\<close>

locale oracle_keeper =
  fixes Q :: price_source
  assumes base_rate: "srcRate Q MicroDoDenom = Inr OneDec"

interpretation view: oracle_keeper "oracle_view os" for os
  by unfold_locales (simp add: oracle_view_def GetDoExchangeRate_def)


section \<open>The pool delta\<close>

lemma SetDoPoolDelta_eq: "SetDoPoolDelta h s d = s\<lparr>poolDelta := Some d\<rparr>"
  by (auto simp: SetDoPoolDelta_def intro: market_store.equality)

lemma GetDoPoolDelta_Set [simp]: "GetDoPoolDelta (SetDoPoolDelta h s d) = d"
  by (simp add: SetDoPoolDelta_eq GetDoPoolDelta_def)

lemma mparams_Set [simp]: "mparams (SetDoPoolDelta h s d) = mparams s"
  by (simp add: SetDoPoolDelta_eq)

text \<open>One block of replenishing, on the delta alone.\<close>

definition replenish :: "int \<Rightarrow> dec \<Rightarrow> dec" where
  "replenish P d = d - tquot d P"

lemma replenish_nonneg: "0 \<le> d \<Longrightarrow> 0 < P \<Longrightarrow> replenish P d = d - d div P"
  by (simp add: replenish_def tquot_nonneg)

lemma replenish_minus: "replenish P (- d) = - replenish P d"
  by (simp add: replenish_def tquot_minus)

lemma replenish_bounds:
  assumes "0 \<le> d" "0 < P"
  shows "0 \<le> replenish P d" "replenish P d \<le> d" "P \<le> d \<Longrightarrow> replenish P d < d" "d < P \<Longrightarrow> replenish P d = d"
proof -
  have "d div P \<le> d" "0 \<le> d div P"
    using assms zdiv_mono2 [of d 1 P] by (simp_all add: pos_imp_zdiv_nonneg_iff)
  then show "0 \<le> replenish P d" "replenish P d \<le> d" using assms by (simp_all add: replenish_nonneg)
  show "replenish P d < d" if "P \<le> d"
    using that assms pos_imp_zdiv_pos_iff [of P d] by (simp add: replenish_nonneg)
  show "replenish P d = d" if "d < P" using that assms by (simp add: replenish_nonneg)
qed

lemma replenish_abs:
  assumes "0 < P"
  shows "\<bar>replenish P d\<bar> \<le> \<bar>d\<bar>" "P \<le> \<bar>d\<bar> \<Longrightarrow> \<bar>replenish P d\<bar> < \<bar>d\<bar>" "\<bar>d\<bar> < P \<Longrightarrow> replenish P d = d"
  using replenish_bounds [of "\<bar>d\<bar>" P] assms replenish_minus [of P d] by (auto simp: abs_if split: if_splits)

lemma replenish_settles:
  assumes "0 < P"
  shows "\<exists>n. \<bar>(replenish P ^^ n) d\<bar> < P"
proof (induction "nat \<bar>d\<bar>" arbitrary: d rule: less_induct)
  case less
  show ?case
  proof (cases "\<bar>d\<bar> < P")
    case True
    then show ?thesis by (intro exI [of _ 0]) simp
  next
    case False
    then have "\<bar>replenish P d\<bar> < \<bar>d\<bar>" using replenish_abs(2) [OF assms] by simp
    then have "nat \<bar>replenish P d\<bar> < nat \<bar>d\<bar>" by simp
    then obtain n where "\<bar>(replenish P ^^ n) (replenish P d)\<bar> < P" using less by blast
    then show ?thesis by (intro exI [of _ "Suc n"]) (simp add: funpow_swap1)
  qed
qed

context dec_math
begin

lemma ReplenishPools_eq:
  assumes "0 < PoolRecoveryPeriod (mparams s)" "PoolRecoveryPeriod (mparams s) < 2 ^ 63" "fits_dec (GetDoPoolDelta s)"
  shows "ReplenishPools K h s = Inr (s\<lparr>poolDelta := Some (replenish (PoolRecoveryPeriod (mparams s)) (GetDoPoolDelta s))\<rparr>)"
proof -
  define P where "P = PoolRecoveryPeriod (mparams s)"
  have "fits_dec (replenish P (GetDoPoolDelta s))"
    using replenish_abs(1) [of P "GetDoPoolDelta s"] assms by (simp add: fits_dec_def P_def)
  then show ?thesis
    using assms by (simp add: ReplenishPools_def quo_int i64_id_nonneg sub SetDoPoolDelta_eq replenish_def P_def Let_def)
qed

end

primrec market_blocks :: "sdk \<Rightarrow> int \<Rightarrow> nat \<Rightarrow> market_store \<Rightarrow> market_store result" where
  "market_blocks K h 0 s = Inr s"
| "market_blocks K h (Suc n) s = rbind (market_EndBlocker K h s) (market_blocks K (h + 1) n)"

lemma market_blocks_eq:
  assumes "dec_math K" and "0 < PoolRecoveryPeriod (mparams s)" "PoolRecoveryPeriod (mparams s) < 2 ^ 63"
    and "fits_dec (GetDoPoolDelta s)"
  shows "\<exists>s'. market_blocks K h n s = Inr s' \<and> mparams s' = mparams s \<and>
     GetDoPoolDelta s' = (replenish (PoolRecoveryPeriod (mparams s)) ^^ n) (GetDoPoolDelta s)"
  using assms(2-4)
proof (induction n arbitrary: h s)
  case (Suc n)
  let ?P = "PoolRecoveryPeriod (mparams s)"
  define s1 where "s1 = s\<lparr>poolDelta := Some (replenish ?P (GetDoPoolDelta s))\<rparr>"
  have run: "market_EndBlocker K h s = Inr s1"
    unfolding market_EndBlocker_def s1_def by (rule dec_math.ReplenishPools_eq [OF assms(1) Suc.prems])
  have d: "GetDoPoolDelta s1 = replenish ?P (GetDoPoolDelta s)" and m: "mparams s1 = mparams s"
    by (simp_all add: s1_def GetDoPoolDelta_def)
  have "fits_dec (GetDoPoolDelta s1)"
    using replenish_abs(1) [of ?P "GetDoPoolDelta s"] Suc.prems by (simp add: d fits_dec_def)
  then obtain s' where "market_blocks K (h + 1) n s1 = Inr s' \<and> mparams s' = mparams s1 \<and>
      GetDoPoolDelta s' = (replenish (PoolRecoveryPeriod (mparams s1)) ^^ n) (GetDoPoolDelta s1)"
    using Suc.IH [of s1 "h + 1"] Suc.prems m by auto
  then show ?case by (simp add: run m d funpow_swap1)
qed simp

text \<open>
  C19: the pools return to the base pool. With a positive recovery period below \<open>2^63\<close> the end-blocker
  always succeeds, and for every starting gap there is a number of blocks after which the
  gap is smaller than the recovery period (in units of the last decimal place), where it
  stays: the next block changes nothing any more.
\<close>

theorem pools_replenish:
  assumes "dec_math K" and "0 < PoolRecoveryPeriod (mparams s)" "PoolRecoveryPeriod (mparams s) < 2 ^ 63"
    and "fits_dec (GetDoPoolDelta s)"
  shows "\<exists>n s'. market_blocks K h n s = Inr s' \<and> \<bar>GetDoPoolDelta s'\<bar> < PoolRecoveryPeriod (mparams s) \<and>
     (\<exists>s''. market_EndBlocker K (h + int n) s' = Inr s'' \<and> GetDoPoolDelta s'' = GetDoPoolDelta s')"
proof -
  let ?P = "PoolRecoveryPeriod (mparams s)"
  obtain n where n: "\<bar>(replenish ?P ^^ n) (GetDoPoolDelta s)\<bar> < ?P" using replenish_settles assms(2) by blast
  obtain s' where s': "market_blocks K h n s = Inr s'" "mparams s' = mparams s"
      "GetDoPoolDelta s' = (replenish ?P ^^ n) (GetDoPoolDelta s)"
    using market_blocks_eq [OF assms, of h n] by blast
  have "fits_dec (GetDoPoolDelta s')" using n s'(3) assms(3) by (simp add: fits_dec_def)
  then have "market_EndBlocker K (h + int n) s' = Inr (s'\<lparr>poolDelta := Some (replenish ?P (GetDoPoolDelta s'))\<rparr>)"
    using dec_math.ReplenishPools_eq [OF assms(1), of s'] assms(2,3) s'(2) by (simp add: market_EndBlocker_def)
  moreover have "replenish ?P (GetDoPoolDelta s') = GetDoPoolDelta s'"
    using replenish_abs(3) [OF assms(2)] n s'(3) by simp
  moreover have "GetDoPoolDelta (s'\<lparr>poolDelta := Some d\<rparr>) = d" for d by (simp add: GetDoPoolDelta_def)
  ultimately have "\<exists>s''. market_EndBlocker K (h + int n) s' = Inr s'' \<and> GetDoPoolDelta s'' = GetDoPoolDelta s'"
    by simp
  moreover have "\<bar>GetDoPoolDelta s'\<bar> < ?P" using n s'(3) by simp
  ultimately show ?thesis using s'(1) by blast
qed

theorem pools_replenish_witness:
  "\<exists>n s'. market_blocks ref_sdk 5 n \<lparr>poolDelta = Some (NewDec 77), mparams = market_DefaultParams\<rparr> = Inr s' \<and>
     \<bar>GetDoPoolDelta s'\<bar> < 86400 \<and>
     (\<exists>s''. market_EndBlocker ref_sdk (5 + int n) s' = Inr s'' \<and> GetDoPoolDelta s'' = GetDoPoolDelta s')"
  using pools_replenish [OF ref.dec_math_axioms, of "\<lparr>poolDelta = Some (NewDec 77), mparams = market_DefaultParams\<rparr>" 5]
  by (simp add: market_DefaultParams_def block_counts GetDoPoolDelta_def NewDec_def fits_dec_def)



section \<open>Swaps\<close>

context coin_math
begin

lemma internal_swap_denom: "ComputeInternalSwap K Q c ask = Inr r \<Longrightarrow> DDenom r = ask"
  by (auto simp: ComputeInternalSwap_def res_simps new_dec_coin split: if_splits)

lemma internal_swap_pos: "ComputeInternalSwap K Q c ask = Inr r \<Longrightarrow> DDenom c \<noteq> ask \<Longrightarrow> 0 < DAmount r"
  by (auto simp: ComputeInternalSwap_def res_simps new_dec_coin split: if_splits)

lemma ComputeSwap_denom: "ComputeSwap K Q s offer ask = Inr (r, sp) \<Longrightarrow> DDenom r = ask \<and> Denom offer \<noteq> ask"
  by (auto simp: ComputeSwap_def res_simps internal_swap_denom split: if_splits)

lemma swap_fee_parts: "swap_fee K c sp = Inr f \<Longrightarrow> DDenom f = DDenom c \<and> 0 \<le> DAmount f"
  by (auto simp: swap_fee_def res_simps new_dec_coin dec_of_coin split: if_splits)

lemma new_coins_amount: "NewCoins K [c] = Inr cs \<Longrightarrow> AmountOf cs d = (if d = Denom c then Amount c else 0)"
  by (auto simp: new_coins_one split: if_splits)

text \<open>The two parts of what is paid out are the integral part of the swapped value.\<close>

lemma payout_split:
  assumes "DecCoinTruncate K (ret\<lparr>DAmount := DAmount ret - DAmount fee0\<rparr>) = Inr (sc, dc)"
    and "DecCoinAdd K fee0 dc = Inr f" and "DecCoinTruncate K f = Inr (fc, ch)"
    and "DDenom fee0 = DDenom ret"
  shows "Amount sc + Amount fc = DAmount ret div PREC \<and> Denom sc = DDenom ret \<and> Denom fc = DDenom ret \<and>
     0 \<le> Amount sc \<and> 0 \<le> Amount fc"
proof -
  have sc: "Denom sc = DDenom ret" "Amount sc * PREC + DAmount dc = DAmount ret - DAmount fee0" "0 \<le> Amount sc"
    using truncate_whole [OF assms(1)] by simp_all
  have f: "DAmount f = DAmount fee0 + DAmount dc" "DDenom f = DDenom ret"
    using assms(2,4) by (auto simp: dec_coin_add split: if_splits)
  have fc: "Denom fc = DDenom ret" "Amount fc * PREC + DAmount ch = DAmount f" "0 \<le> DAmount ch" "DAmount ch < PREC" "0 \<le> Amount fc"
    using truncate_whole [OF assms(3)] f(2) by simp_all
  have "DAmount ret = (Amount sc + Amount fc) * PREC + DAmount ch"
    using sc(2) fc(2) f(1) by (simp add: distrib_right)
  then have "DAmount ret div PREC = Amount sc + Amount fc"
    using fc(3,4) div_mult_self3 [of PREC "Amount sc + Amount fc" "DAmount ch"] by (simp add: mult.commute)
  then show ?thesis using sc fc by simp
qed

end

lemma moved_bal: "moved N w w' a b cs \<Longrightarrow>
   bal N w' x d = bal N w x d - (if x = a then AmountOf cs d else 0) + (if x = b then AmountOf cs d else 0)"
  by (simp add: moved_def)

lemma moved_supply: "moved N w w' a b cs \<Longrightarrow> total_supply N w' d = total_supply N w d"
  by (simp add: moved_def)

text \<open>The successful runs of \<open>handleSwapRequest\<close>, step by step.\<close>

lemma handle_swap_steps:
  assumes "handleSwapRequest K N Q h t r offer ask (s, w) = Inr ((sc, fc), s', w')"
  obtains ret sp fee0 amt oc w1 w2 dc f ch tot mc w3 scs w4 where
    "ComputeSwap K Q s offer ask = Inr (ret, sp)" "swap_fee K ret sp = Inr fee0"
    "dSub K (DAmount ret) (DAmount fee0) = Inr amt"
    "ApplySwapToPool K Q h s offer (ret\<lparr>DAmount := amt\<rparr>) = Inr s'"
    "NewCoins K [offer] = Inr oc" "SendCoinsFromAccountToModule N w t ''market'' oc = Inr w1"
    "BurnCoins N w1 ''market'' oc = Inr w2"
    "DecCoinTruncate K (ret\<lparr>DAmount := amt\<rparr>) = Inr (sc, dc)" "0 < Amount sc"
    "DecCoinAdd K fee0 dc = Inr f" "DecCoinTruncate K f = Inr (fc, ch)" "CoinAdd K sc fc = Inr tot"
    "NewCoins K [tot] = Inr mc" "MintCoins N w2 ''market'' mc = Inr w3" "NewCoins K [sc] = Inr scs"
    "SendCoinsFromModuleToAccount N w3 ''market'' r scs = Inr w4"
    "(if 0 < Amount fc then rbind (NewCoins K [fc]) (\<lambda>fcs. SendCoinsFromModuleToModule N w4 ''market'' ''oracle'' fcs)
      else Inr w4) = Inr w'"
  using assms unfolding handleSwapRequest_def
  by (auto simp: rbind_eq_Inr Let_def split: prod.splits if_splits)

lemma fee_paid:
  assumes laws: "coin_math K" "bank N"
    and acc: "GetModuleAddress N ''market'' = Some mk" "GetModuleAddress N ''oracle'' = Some oc"
    and "0 \<le> Amount fc"
    and "(if 0 < Amount fc then rbind (NewCoins K [fc])
        (\<lambda>fcs. SendCoinsFromModuleToModule N w ''market'' ''oracle'' fcs) else Inr w) = Inr w'"
  shows "bal N w' x d = bal N w x d - (if x = mk \<and> d = Denom fc then Amount fc else 0)
      + (if x = oc \<and> d = Denom fc then Amount fc else 0)"
    and "total_supply N w' d = total_supply N w d"
proof -
  have "(0 < Amount fc \<and> (\<exists>fcs. NewCoins K [fc] = Inr fcs \<and> moved N w w' mk oc fcs)) \<or> (Amount fc = 0 \<and> w' = w)"
    using assms(5,6) bank.module_to_module [OF laws(2)] acc by (fastforce simp: rbind_eq_Inr split: if_splits)
  then show "bal N w' x d = bal N w x d - (if x = mk \<and> d = Denom fc then Amount fc else 0)
      + (if x = oc \<and> d = Denom fc then Amount fc else 0)" and "total_supply N w' d = total_supply N w d"
    using coin_math.new_coins_amount [OF laws(1)] by (auto simp: moved_bal moved_supply)
qed

text \<open>
  C4: a swap conserves value. A successful swap burns exactly the offered coins of the
  trader and mints the integral part of their value at the oracle's price, of which the
  receiver gets the swapped coins and the oracle's reward pool the fee. Nobody else's
  balance changes, the market account keeps nothing, and the supplies change by exactly the
  burnt and the minted amounts. The specifications of the two modules say that the fee is burned
  and not part of the oracle's reward pool; the code sends it there.
\<close>

theorem swap_conserves_value:
  assumes laws: "coin_math K" "bank N"
    and acc: "GetModuleAddress N ''market'' = Some mk" "GetModuleAddress N ''oracle'' = Some oc"
    and run: "handleSwapRequest K N Q h t r offer ask (s, w) = Inr ((sc, fc), s', w')"
  shows "(\<exists>ret sp. ComputeSwap K Q s offer ask = Inr (ret, sp) \<and> Amount sc + Amount fc = DAmount ret div PREC) \<and>
     0 < Amount sc \<and> 0 \<le> Amount fc \<and>
     (\<forall>x d. bal N w' x d = bal N w x d - (if x = t \<and> d = Denom offer then Amount offer else 0)
        + (if x = r \<and> d = ask then Amount sc else 0) + (if x = oc \<and> d = ask then Amount fc else 0)) \<and>
     (\<forall>d. total_supply N w' d = total_supply N w d - (if d = Denom offer then Amount offer else 0)
        + (if d = ask then Amount sc + Amount fc else 0))"
proof -
  from run obtain ret sp fee0 amt ocs w1 w2 dc f ch tot mc w3 scs w4 where
    st: "ComputeSwap K Q s offer ask = Inr (ret, sp)" "swap_fee K ret sp = Inr fee0"
      "dSub K (DAmount ret) (DAmount fee0) = Inr amt"
      "DecCoinTruncate K (ret\<lparr>DAmount := amt\<rparr>) = Inr (sc, dc)" "0 < Amount sc"
      "DecCoinAdd K fee0 dc = Inr f" "DecCoinTruncate K f = Inr (fc, ch)" "CoinAdd K sc fc = Inr tot"
    and nc: "NewCoins K [offer] = Inr ocs" "NewCoins K [tot] = Inr mc" "NewCoins K [sc] = Inr scs"
    and bk: "SendCoinsFromAccountToModule N w t ''market'' ocs = Inr w1" "BurnCoins N w1 ''market'' ocs = Inr w2"
      "MintCoins N w2 ''market'' mc = Inr w3" "SendCoinsFromModuleToAccount N w3 ''market'' r scs = Inr w4"
    and last: "(if 0 < Amount fc then rbind (NewCoins K [fc])
        (\<lambda>fcs. SendCoinsFromModuleToModule N w4 ''market'' ''oracle'' fcs) else Inr w4) = Inr w'"
    by (rule handle_swap_steps)
  have amt: "amt = DAmount ret - DAmount fee0" using dec_math.sub_Inr [OF coin_math.axioms(1) [OF laws(1)] st(3)] .
  have ask: "DDenom ret = ask" using coin_math.ComputeSwap_denom [OF laws(1) st(1)] by simp
  have pay: "Amount sc + Amount fc = DAmount ret div PREC" "Denom sc = ask" "Denom fc = ask" "0 \<le> Amount fc"
    using coin_math.payout_split [OF laws(1) st(4) [unfolded amt] st(6,7)] coin_math.swap_fee_parts [OF laws(1) st(2)] ask
    by simp_all
  have tot: "Denom tot = ask" "Amount tot = Amount sc + Amount fc"
    using coin_math.coin_add [OF laws(1)] st(8) pay by (auto split: if_splits)
  have am: "AmountOf ocs d = (if d = Denom offer then Amount offer else 0)"
      "AmountOf mc d = (if d = ask then Amount sc + Amount fc else 0)"
      "AmountOf scs d = (if d = ask then Amount sc else 0)" for d
    using coin_math.new_coins_amount [OF laws(1) nc(1), of d] coin_math.new_coins_amount [OF laws(1) nc(2), of d]
      coin_math.new_coins_amount [OF laws(1) nc(3), of d] tot pay by auto
  have m1: "moved N w w1 t mk ocs" using bank.account_to_module [OF laws(2) bk(1)] acc by simp
  have m2: "bal N w2 x d = bal N w1 x d - (if x = mk then AmountOf ocs d else 0)"
      "total_supply N w2 d = total_supply N w1 d - AmountOf ocs d" for x d
    using bank.burn [OF laws(2) bk(2)] acc by auto
  have m3: "bal N w3 x d = bal N w2 x d + (if x = mk then AmountOf mc d else 0)"
      "total_supply N w3 d = total_supply N w2 d + AmountOf mc d" for x d
    using bank.mint [OF laws(2) bk(3)] acc by auto
  have m4: "moved N w3 w4 mk r scs" using bank.module_to_account [OF laws(2) bk(4)] acc by simp
  note m5 = fee_paid [OF laws acc pay(4) last, unfolded pay(3)]
  have "bal N w' x d = bal N w x d - (if x = t \<and> d = Denom offer then Amount offer else 0)
        + (if x = r \<and> d = ask then Amount sc else 0) + (if x = oc \<and> d = ask then Amount fc else 0)" for x d
    unfolding m5 moved_bal [OF m4] m3 m2 moved_bal [OF m1] am by simp
  moreover have "total_supply N w' d = total_supply N w d - (if d = Denom offer then Amount offer else 0)
        + (if d = ask then Amount sc + Amount fc else 0)" for d
    unfolding m5 moved_supply [OF m4] m3 m2 moved_supply [OF m1] am by simp
  ultimately show ?thesis using st(1,5) pay by auto
qed


definition ex_market :: market_store where
  "ex_market = \<lparr>poolDelta = None, mparams = market_DefaultParams\<rparr>"

definition ex_prices :: price_source where
  "ex_prices = oracle_view (SetDoExchangeRate ex_oracle ''uusd'' 2500000000000000000)"

definition ex_offer :: coin where
  "ex_offer = \<lparr>Denom = ''udo'', Amount = 1000003\<rparr>"

definition ex_traders :: ref_world where
  "ex_traders = ex_world [(alice, ''udo'', 5000000)] []"

lemma ex_swap_run:
  "\<exists>s' w'. handleSwapRequest ref_sdk ref_keepers ex_prices 7 alice bob ex_offer ''uusd'' (ex_market, ex_traders) =
     Inr ((\<lparr>Denom = ''uusd'', Amount = 2450007\<rparr>, \<lparr>Denom = ''uusd'', Amount = 50000\<rparr>), s', w')"
proof -
  define run where "run = handleSwapRequest ref_sdk ref_keepers ex_prices 7 alice bob ex_offer ''uusd'' (ex_market, ex_traders)"
  have "map_sum id fst run = Inr (\<lparr>Denom = ''uusd'', Amount = 2450007\<rparr>, \<lparr>Denom = ''uusd'', Amount = 50000\<rparr>)"
    unfolding run_def by code_simp
  then show ?thesis unfolding run_def [symmetric] by (cases run) (auto simp: prod_eq_iff)
qed

theorem swap_conserves_value_witness:
  "\<exists>s' w'. handleSwapRequest ref_sdk ref_keepers ex_prices 7 alice bob ex_offer ''uusd'' (ex_market, ex_traders) =
       Inr ((\<lparr>Denom = ''uusd'', Amount = 2450007\<rparr>, \<lparr>Denom = ''uusd'', Amount = 50000\<rparr>), s', w') \<and>
     total_supply ref_keepers w' ''uusd'' = 2500007 \<and> bal ref_keepers w' alice ''udo'' = 3999997 \<and>
     bal ref_keepers w' bob ''uusd'' = 2450007"
proof -
  obtain s' w' where run: "handleSwapRequest ref_sdk ref_keepers ex_prices 7 alice bob ex_offer ''uusd'' (ex_market, ex_traders) =
     Inr ((\<lparr>Denom = ''uusd'', Amount = 2450007\<rparr>, \<lparr>Denom = ''uusd'', Amount = 50000\<rparr>), s', w')"
    using ex_swap_run by blast
  note c = swap_conserves_value [OF ref.coin_math_axioms ref.bank_axioms ref_module_addr ref_module_addr run]
  have "alice \<noteq> bob" "bob \<noteq> module_addr ''oracle''"
    by (simp_all add: alice_def bob_def module_addr_def ref_module_def)
  moreover have "bal ref_keepers ex_traders x d = (if x = alice \<and> d = ''udo'' then 5000000 else 0)"
      "total_supply ref_keepers ex_traders ''uusd'' = 0" for x d
    by (simp_all add: ref_bal ref_supply ex_traders_def ex_world_def)
  ultimately have "total_supply ref_keepers w' ''uusd'' = 2500007 \<and> bal ref_keepers w' alice ''udo'' = 3999997 \<and>
     bal ref_keepers w' bob ''uusd'' = 2450007"
    using c by (simp add: ex_offer_def)
  then show ?thesis using run by blast
qed

text \<open>
  The simulated swap of the query is the real one. Whenever a swap of an amount of at
  most 100 bits succeeds, the simulation on the same state returns exactly the coins that
  the receiver gets.
\<close>

lemma simulate_agrees:
  assumes laws: "coin_math K" and bits: "BitLen (Amount offer) \<le> 100"
    and run: "handleSwapRequest K N Q h t r offer ask (s, w) = Inr ((sc, fc), s', w')"
  shows "simulateSwap K Q s offer ask = Inr sc"
proof -
  from run obtain ret sp fee0 amt dc where
    st: "ComputeSwap K Q s offer ask = Inr (ret, sp)" "swap_fee K ret sp = Inr fee0"
      "dSub K (DAmount ret) (DAmount fee0) = Inr amt" "DecCoinTruncate K (ret\<lparr>DAmount := amt\<rparr>) = Inr (sc, dc)"
    by (rule handle_swap_steps) blast
  have amt: "amt = DAmount ret - DAmount fee0" using dec_math.sub_Inr [OF coin_math.axioms(1) [OF laws] st(3)] .
  have ne: "Denom offer \<noteq> ask" using coin_math.ComputeSwap_denom [OF laws st(1)] by simp
  have fee: "DDenom fee0 = DDenom ret" "0 \<le> DAmount fee0" using coin_math.swap_fee_parts [OF laws st(2)] by simp_all
  have le: "DAmount fee0 \<le> DAmount ret"
    using st(4) coin_math.dec_coin_truncate [OF laws] by (simp add: amt split: if_splits)
  have none: "ret\<lparr>DAmount := DAmount ret - DAmount fee0\<rparr> = ret" if "DAmount fee0 = 0" using that by simp
  have "(if 0 < sp then rbind (dMul K sp (DAmount ret)) (\<lambda>x. if 0 < x then rbind (NewDecCoinFromDec K (DDenom ret) x)
        (\<lambda>f. DecCoinSub K ret f) else Inr ret) else Inr ret) = Inr (ret\<lparr>DAmount := amt\<rparr>)"
  proof (cases "0 < sp")
    case True
    then obtain x where x: "dMul K sp (DAmount ret) = Inr x" "NewDecCoinFromDec K (DDenom ret) x = Inr fee0"
      using st(2) by (auto simp: swap_fee_def res_simps)
    then have "DAmount fee0 = x" using coin_math.new_dec_coin [OF laws] by (auto split: if_splits)
    then show ?thesis
      using True x fee le none coin_math.dec_coin_sub [OF laws, of ret fee0] by (auto simp: amt)
  next
    case False
    then have "DAmount fee0 = 0"
      using st(2) coin_math.dec_of_coin [OF laws] by (auto simp: swap_fee_def split: if_splits)
    then show ?thesis using False none by (simp add: amt)
  qed
  then show ?thesis using st(1,4) ne bits by (simp add: simulateSwap_def)
qed

lemma simulate_agrees_example:
  "simulateSwap ref_sdk ex_prices ex_market ex_offer ''uusd'' = Inr \<lparr>Denom = ''uusd'', Amount = 2450007\<rparr>"
proof -
  obtain s' w' where run: "handleSwapRequest ref_sdk ref_keepers ex_prices 7 alice bob ex_offer ''uusd'' (ex_market, ex_traders) =
     Inr ((\<lparr>Denom = ''uusd'', Amount = 2450007\<rparr>, \<lparr>Denom = ''uusd'', Amount = 50000\<rparr>), s', w')"
    using ex_swap_run by blast
  have "BitLen (Amount ex_offer) \<le> 100" by code_simp
  from simulate_agrees [OF ref.coin_math_axioms this run] show ?thesis .
qed

lemma pool_spread_min: "pool_spread K s b x = Inr sp \<Longrightarrow> MinStabilitySpread (mparams s) \<le> sp"
proof -
  have last: "(if z < m then m else z) = r \<Longrightarrow> m \<le> r" for z m r :: dec by (simp split: if_splits)
  assume "pool_spread K s b x = Inr sp"
  then show ?thesis
    unfolding pool_spread_def Let_def rbind_eq_Inr case_prod_beta sum.inject
    by (elim exE conjE) (rule last)
qed

lemma tobin_spread_max:
  "tobin_spread Q d d' = Inr sp \<Longrightarrow> \<exists>t t'. srcTax Q d = Inr t \<and> srcTax Q d' = Inr t' \<and> sp = max t t'"
  by (fastforce simp: tobin_spread_def rbind_eq_Inr max_def)

text \<open>
  Every swap pays at least the configured spread. When Do is on one side the spread is
  at least the minimum stability spread; between two other denoms it is the larger one of
  the two tobin taxes and the pool does not matter.
\<close>

lemma spread_at_least_minimum:
  assumes "ComputeSwap K Q s offer ask = Inr (ret, sp)"
  shows "if Denom offer = MicroDoDenom \<or> ask = MicroDoDenom then MinStabilitySpread (mparams s) \<le> sp
     else \<exists>t t'. srcTax Q (Denom offer) = Inr t \<and> srcTax Q ask = Inr t' \<and> sp = max t t'"
proof (cases "Denom offer = MicroDoDenom \<or> ask = MicroDoDenom")
  case True
  then obtain b x where "pool_spread K s b x = Inr sp"
    using assms by (auto simp: ComputeSwap_def rbind_eq_Inr split: if_splits)
  then show ?thesis using True pool_spread_min by simp
next
  case False
  then have "tobin_spread Q (Denom offer) ask = Inr sp"
    using assms by (auto simp: ComputeSwap_def rbind_eq_Inr split: if_splits)
  then show ?thesis using False tobin_spread_max by simp
qed

text \<open>
  A swap moves the pool in the right direction. Offering another denom for Do increases
  the pool gap by the value of the offer in Do, offering Do decreases it by the value of what
  is paid out, and a swap between two other denoms leaves the pool alone.
\<close>

lemma swap_moves_pool:
  assumes laws: "coin_math K" and run: "ApplySwapToPool K Q h s offer askCoin = Inr s'"
  shows "mparams s' = mparams s \<and>
    (if Denom offer \<noteq> MicroDoDenom \<and> DDenom askCoin \<noteq> MicroDoDenom then s' = s
     else if Denom offer \<noteq> MicroDoDenom then GetDoPoolDelta s < GetDoPoolDelta s'
     else if DDenom askCoin \<noteq> MicroDoDenom then GetDoPoolDelta s' < GetDoPoolDelta s
     else GetDoPoolDelta s' = GetDoPoolDelta s)"
proof -
  have add: "r = a + b" if "dAdd K a b = Inr r" for a b r
    using dec_math.add_Inr [OF coin_math.axioms(1) [OF laws] that] .
  have sub: "r = a - b" if "dSub K a b = Inr r" for a b r
    using dec_math.sub_Inr [OF coin_math.axioms(1) [OF laws] that] .
  have pos: "0 < DAmount r" if "ComputeInternalSwap K Q c d = Inr r" "DDenom c \<noteq> d" for c d r
    using coin_math.internal_swap_pos [OF laws that] .
  have den: "DDenom c = Denom offer" if "NewDecCoinFromCoin K offer = Inr c" for c
    using that coin_math.dec_of_coin [OF laws] by (auto split: if_splits)
  show ?thesis using run
    by (auto simp: ApplySwapToPool_def res_simps split: if_splits dest!: add sub pos den)
qed

lemma swap_moves_pool_example:
  "\<exists>s'. ApplySwapToPool ref_sdk ex_prices 7 ex_market ex_offer \<lparr>DDenom = ''uusd'', DAmount = 5 * PREC\<rparr> = Inr s' \<and>
     GetDoPoolDelta s' < GetDoPoolDelta ex_market"
proof -
  define run where "run = ApplySwapToPool ref_sdk ex_prices 7 ex_market ex_offer \<lparr>DDenom = ''uusd'', DAmount = 5 * PREC\<rparr>"
  have "\<not> isl run" unfolding run_def by code_simp
  then obtain s' where r: "run = Inr s'" by (cases run) auto
  have "Denom ex_offer = MicroDoDenom" "''uusd'' \<noteq> MicroDoDenom" by (simp_all add: ex_offer_def MicroDoDenom_def)
  then show ?thesis using swap_moves_pool [OF ref.coin_math_axioms r [unfolded run_def]] r [unfolded run_def] by auto
qed

end
