(* ===== verification/Treasury.thy ===== *)
theory Treasury
  imports Market
begin

text \<open>
  \<open>src/x/treasury\<close>: tax rate, reward weight, tax caps, epoch indicators and the list of
  addresses exempt from the burn tax. The store is the record \<open>treasury_store\<close>; prices come
  from the market's \<open>ComputeInternalSwap\<close> over the oracle's store, whose whitelist the module
  also reads, and the supplies from the bank. The end-blocker runs on the module's store and
  the world of the SDK keepers.
\<close>


section \<open>Keys (types/keys.go)\<close>

definition le64 :: "int \<Rightarrow> bytes" where
  "le64 x = map (\<lambda>i. char_of (nat (x div 256 ^ i mod 256))) [0..<8]"

definition GetTaxCapKey :: "string \<Rightarrow> bytes" where
  "GetTaxCapKey denom = CHR 0x03 # denom"

definition GetSubkeyByEpoch :: "bytes \<Rightarrow> int \<Rightarrow> bytes" where
  "GetSubkeyByEpoch pre epoch = pre @ le64 (u64 epoch)"

definition GetTRKey :: "int \<Rightarrow> bytes" where "GetTRKey epoch = GetSubkeyByEpoch [CHR 0x06] epoch"
definition GetSRKey :: "int \<Rightarrow> bytes" where "GetSRKey epoch = GetSubkeyByEpoch [CHR 0x07] epoch"
definition GetTSLKey :: "int \<Rightarrow> bytes" where "GetTSLKey epoch = GetSubkeyByEpoch [CHR 0x08] epoch"

definition exemption_key :: "string \<Rightarrow> bytes" where
  "exemption_key addr = CHR 0x20 # addr"


section \<open>Parameters (types/params.go, types/constraint.go)\<close>

record PolicyConstraints =
  RateMin :: dec
  RateMax :: dec
  PolicyCap :: coin
  ChangeRateMax :: dec

record TreasuryParams =
  TaxPolicy :: PolicyConstraints
  RewardPolicy :: PolicyConstraints
  SeigniorageBurdenTarget :: dec
  MiningIncrement :: dec
  WindowShort :: int
  WindowLong :: int
  WindowProbation :: int
  BurnTaxSplit :: dec
  MinInitialDepositRatio :: dec
  OracleSplit :: dec

definition DefaultTaxPolicy :: PolicyConstraints where
  "DefaultTaxPolicy = \<lparr>RateMin = NewDecWithPrec 5 4, RateMax = NewDecWithPrec 1 2,
     PolicyCap = \<lparr>Denom = MicroDoDenom, Amount = MicroUnit\<rparr>, ChangeRateMax = NewDecWithPrec 25 5\<rparr>"

definition DefaultRewardPolicy :: PolicyConstraints where
  "DefaultRewardPolicy = \<lparr>RateMin = NewDecWithPrec 5 2, RateMax = NewDecWithPrec 50 2,
     PolicyCap = \<lparr>Denom = MicroDoDenom, Amount = 0\<rparr>, ChangeRateMax = NewDecWithPrec 25 3\<rparr>"

definition DefaultTaxRate :: dec where "DefaultTaxRate = NewDecWithPrec 1 3"
definition DefaultRewardWeight :: dec where "DefaultRewardWeight = NewDecWithPrec 5 2"
definition DefaultBurnTaxSplit :: dec where "DefaultBurnTaxSplit = NewDecWithPrec 1 1"
definition DefaultMinInitialDepositRatio :: dec where "DefaultMinInitialDepositRatio = 0"

definition treasury_DefaultParams :: TreasuryParams where
  "treasury_DefaultParams = \<lparr>TaxPolicy = DefaultTaxPolicy, RewardPolicy = DefaultRewardPolicy,
     SeigniorageBurdenTarget = NewDecWithPrec 67 2, MiningIncrement = NewDecWithPrec 107 2,
     WindowShort = 4, WindowLong = 52, WindowProbation = 12, BurnTaxSplit = DefaultBurnTaxSplit,
     MinInitialDepositRatio = DefaultMinInitialDepositRatio, OracleSplit = OneDec\<rparr>"

definition treasury_Params_Validate :: "sdk \<Rightarrow> TreasuryParams \<Rightarrow> unit result" where
  "treasury_Params_Validate K p =
     rbind (fail_if (RateMax (TaxPolicy p) < RateMin (TaxPolicy p)) (Text ''TaxPolicy.RateMax'')) (\<lambda>_.
     rbind (fail_if (RateMin (TaxPolicy p) < 0) (Text ''TaxPolicy.RateMin'')) (\<lambda>_.
     rbind (fail_if (\<not> CoinIsValid K (PolicyCap (TaxPolicy p))) (Text ''TaxPolicy.Cap'')) (\<lambda>_.
     rbind (fail_if (ChangeRateMax (TaxPolicy p) < 0) (Text ''TaxPolicy.ChangeRateMax'')) (\<lambda>_.
     rbind (fail_if (RateMax (RewardPolicy p) < RateMin (RewardPolicy p)) (Text ''RewardPolicy.RateMax'')) (\<lambda>_.
     rbind (fail_if (RateMin (RewardPolicy p) < 0) (Text ''RewardPolicy.RateMin'')) (\<lambda>_.
     rbind (fail_if (ChangeRateMax (RewardPolicy p) < 0) (Text ''RewardPolicy.ChangeRateMax'')) (\<lambda>_.
     rbind (fail_if (SeigniorageBurdenTarget p < 0) (Text ''SeigniorageBurdenTarget'')) (\<lambda>_.
     rbind (fail_if (MiningIncrement p < 0) (Text ''MiningIncrement'')) (\<lambda>_.
     rbind (fail_if (WindowLong p \<le> WindowShort p) (Text ''WindowLong'')) (\<lambda>_.
     rbind (fail_if (OracleSplit p < 0) (Text ''OracleSplit'')) (\<lambda>_.
     fail_if (OneDec < OracleSplit p) (Text ''OracleSplit''))))))))))))"

definition validateTaxPolicy :: "sdk \<Rightarrow> PolicyConstraints \<Rightarrow> unit result" where
  "validateTaxPolicy K v =
     rbind (fail_if (RateMin v < 0) (Text ''rate min'')) (\<lambda>_.
     rbind (fail_if (RateMax v < RateMin v) (Text ''rate max'')) (\<lambda>_.
     rbind (fail_if (\<not> CoinIsValid K (PolicyCap v)) (Text ''cap'')) (\<lambda>_.
     fail_if (ChangeRateMax v < 0) (Text ''max change rate''))))"

definition validateRewardPolicy :: "PolicyConstraints \<Rightarrow> unit result" where
  "validateRewardPolicy v =
     rbind (fail_if (RateMin v < 0) (Text ''rate min'')) (\<lambda>_.
     rbind (fail_if (RateMax v < RateMin v) (Text ''rate max'')) (\<lambda>_.
     fail_if (ChangeRateMax v < 0) (Text ''max change rate'')))"

definition validateSeigniorageBurdenTarget :: "dec \<Rightarrow> unit result" where
  "validateSeigniorageBurdenTarget v = fail_if (v < 0) (Text ''seigniorage burden target must be positive'')"

definition validateMiningIncrement :: "dec \<Rightarrow> unit result" where
  "validateMiningIncrement v = fail_if (v < 0) (Text ''mining increment must be positive'')"

definition validateBurnTaxSplit :: "dec \<Rightarrow> unit result" where
  "validateBurnTaxSplit v = fail_if (v < 0) (Text ''burn tax split must be positive'')"

definition validateMinInitialDepositRatio :: "dec \<Rightarrow> unit result" where
  "validateMinInitialDepositRatio v =
     rbind (fail_if (v < 0) (Text ''min initial deposit ratio must be positive'')) (\<lambda>_.
     fail_if (OneDec < v) (Text ''min initial deposit ratio must less than or equal 1.0''))"

definition validateOraceSplit :: "dec \<Rightarrow> unit result" where
  "validateOraceSplit v =
     rbind (fail_if (v < 0) (Text ''oracle split must be positive'')) (\<lambda>_.
     fail_if (OneDec < v) (Text ''oracle split must be less than or equal to 1.0''))"

definition Clamp :: "sdk \<Rightarrow> PolicyConstraints \<Rightarrow> dec \<Rightarrow> dec \<Rightarrow> dec result" where
  "Clamp K pc prevRate newRate =
     rbind (dSub K newRate prevRate) (\<lambda>delta.
     rbind (if prevRate < newRate
            then if ChangeRateMax pc < delta then dAdd K prevRate (ChangeRateMax pc) else Inr newRate
            else if ChangeRateMax pc < \<bar>delta\<bar> then dSub K prevRate (ChangeRateMax pc) else Inr newRate) (\<lambda>r.
     Inr (if r < RateMin pc then RateMin pc else if RateMax pc < r then RateMax pc else r)))"


section \<open>The store (keeper/keeper.go)\<close>

record treasury_store =
  storedTaxRate :: "dec option"
  storedRewardWeight :: "dec option"
  storedTaxCaps :: "int kv"
  storedTaxProceeds :: "coin list option"
  storedIssuance :: "coin list option"
  storedTRs :: "dec kv"
  storedSRs :: "dec kv"
  storedTSLs :: "int kv"
  exemptions :: "unit kv"
  tparams :: TreasuryParams

definition GetTaxRate :: "treasury_store \<Rightarrow> dec" where
  "GetTaxRate s = (case storedTaxRate s of None \<Rightarrow> DefaultTaxRate | Some r \<Rightarrow> r)"

definition SetTaxRate :: "treasury_store \<Rightarrow> dec \<Rightarrow> treasury_store" where
  "SetTaxRate s taxRate = s\<lparr>storedTaxRate := Some taxRate\<rparr>"

definition GetRewardWeight :: "treasury_store \<Rightarrow> dec" where
  "GetRewardWeight s = (case storedRewardWeight s of None \<Rightarrow> DefaultRewardWeight | Some r \<Rightarrow> r)"

definition SetRewardWeight :: "treasury_store \<Rightarrow> dec \<Rightarrow> treasury_store" where
  "SetRewardWeight s rewardWeight = s\<lparr>storedRewardWeight := Some rewardWeight\<rparr>"

definition SetTaxCap :: "treasury_store \<Rightarrow> string \<Rightarrow> int \<Rightarrow> treasury_store" where
  "SetTaxCap s denom cap = s\<lparr>storedTaxCaps := kv_set (GetTaxCapKey denom) cap (storedTaxCaps s)\<rparr>"

definition GetTaxCap :: "treasury_store \<Rightarrow> string \<Rightarrow> int" where
  "GetTaxCap s denom = (case kv_get (storedTaxCaps s) (GetTaxCapKey denom) of
     None \<Rightarrow> Amount (PolicyCap (TaxPolicy (tparams s))) | Some cap \<Rightarrow> cap)"

definition IterateTaxCap :: "treasury_store \<Rightarrow> (string \<Rightarrow> int \<Rightarrow> 'a \<Rightarrow> ('a \<times> bool) result) \<Rightarrow> 'a \<Rightarrow> 'a result" where
  "IterateTaxCap s handler = iterate (\<lambda>k. handler (tl k)) (storedTaxCaps s)"

definition SetEpochTaxProceeds :: "treasury_store \<Rightarrow> coin list \<Rightarrow> treasury_store" where
  "SetEpochTaxProceeds s taxProceeds = s\<lparr>storedTaxProceeds := Some taxProceeds\<rparr>"

definition PeekEpochTaxProceeds :: "treasury_store \<Rightarrow> coin list" where
  "PeekEpochTaxProceeds s = (case storedTaxProceeds s of None \<Rightarrow> [] | Some cs \<Rightarrow> cs)"

definition coins_IsZero :: "coin list \<Rightarrow> bool" where
  "coins_IsZero cs \<longleftrightarrow> list_all (\<lambda>c. Amount c = 0) cs"

definition RecordEpochTaxProceeds :: "sdk \<Rightarrow> treasury_store \<Rightarrow> coin list \<Rightarrow> treasury_store result" where
  "RecordEpochTaxProceeds K s delta =
     (if coins_IsZero delta then Inr s
      else rbind (CoinsAdd K (PeekEpochTaxProceeds s) delta) (\<lambda>proceeds.
           Inr (SetEpochTaxProceeds s proceeds)))"

definition SetEpochInitialIssuance :: "treasury_store \<Rightarrow> coin list \<Rightarrow> treasury_store" where
  "SetEpochInitialIssuance s issuance = s\<lparr>storedIssuance := Some issuance\<rparr>"

definition GetEpochInitialIssuance :: "treasury_store \<Rightarrow> coin list" where
  "GetEpochInitialIssuance s = (case storedIssuance s of None \<Rightarrow> [] | Some cs \<Rightarrow> cs)"

definition RecordEpochInitialIssuance ::
    "sdk \<Rightarrow> 'w keepers \<Rightarrow> oracle_store \<Rightarrow> 'w \<Rightarrow> treasury_store \<Rightarrow> treasury_store" where
  "RecordEpochInitialIssuance K N os w s =
     (let totalSupply = GetSupply N w MicroDoDenom # map (\<lambda>item. GetSupply N w (Name item)) (Whitelist (oparams os))
      in SetEpochInitialIssuance s (CoinsSort K totalSupply))"

definition PeekEpochSeigniorage :: "sdk \<Rightarrow> 'w keepers \<Rightarrow> 'w \<Rightarrow> treasury_store \<Rightarrow> int result" where
  "PeekEpochSeigniorage K N w s =
     rbind (iSub K (CoinsAmountOf K (GetEpochInitialIssuance s) MicroDoDenom) (Amount (GetSupply N w MicroDoDenom)))
       (\<lambda>epochSeigniorage. Inr (if epochSeigniorage < 0 then 0 else epochSeigniorage))"

definition GetTR :: "treasury_store \<Rightarrow> int \<Rightarrow> dec" where
  "GetTR s epoch = (case kv_get (storedTRs s) (GetTRKey epoch) of None \<Rightarrow> 0 | Some x \<Rightarrow> x)"

definition SetTR :: "treasury_store \<Rightarrow> int \<Rightarrow> dec \<Rightarrow> treasury_store" where
  "SetTR s epoch tr = s\<lparr>storedTRs := kv_set (GetTRKey epoch) tr (storedTRs s)\<rparr>"

definition ClearTRs :: "treasury_store \<Rightarrow> treasury_store" where
  "ClearTRs s = fold (\<lambda>(k, _) s. s\<lparr>storedTRs := kv_del k (storedTRs s)\<rparr>) (storedTRs s) s"

definition GetSR :: "treasury_store \<Rightarrow> int \<Rightarrow> dec" where
  "GetSR s epoch = (case kv_get (storedSRs s) (GetSRKey epoch) of None \<Rightarrow> 0 | Some x \<Rightarrow> x)"

definition SetSR :: "treasury_store \<Rightarrow> int \<Rightarrow> dec \<Rightarrow> treasury_store" where
  "SetSR s epoch sr = s\<lparr>storedSRs := kv_set (GetSRKey epoch) sr (storedSRs s)\<rparr>"

definition ClearSRs :: "treasury_store \<Rightarrow> treasury_store" where
  "ClearSRs s = fold (\<lambda>(k, _) s. s\<lparr>storedSRs := kv_del k (storedSRs s)\<rparr>) (storedSRs s) s"

definition GetTSL :: "treasury_store \<Rightarrow> int \<Rightarrow> int" where
  "GetTSL s epoch = (case kv_get (storedTSLs s) (GetTSLKey epoch) of None \<Rightarrow> 0 | Some x \<Rightarrow> x)"

definition SetTSL :: "treasury_store \<Rightarrow> int \<Rightarrow> int \<Rightarrow> treasury_store" where
  "SetTSL s epoch tsl = s\<lparr>storedTSLs := kv_set (GetTSLKey epoch) tsl (storedTSLs s)\<rparr>"

definition ClearTSLs :: "treasury_store \<Rightarrow> treasury_store" where
  "ClearTSLs s = fold (\<lambda>(k, _) s. s\<lparr>storedTSLs := kv_del k (storedTSLs s)\<rparr>) (storedTSLs s) s"

definition AddBurnTaxExemptionAddress :: "sdk \<Rightarrow> treasury_store \<Rightarrow> string \<Rightarrow> treasury_store result" where
  "AddBurnTaxExemptionAddress K s addr =
     rbind (must (AccFromBech32 K addr)) (\<lambda>_.
     Inr (s\<lparr>exemptions := kv_set (exemption_key addr) () (exemptions s)\<rparr>))"

definition RemoveBurnTaxExemptionAddress :: "sdk \<Rightarrow> treasury_store \<Rightarrow> string \<Rightarrow> treasury_store result" where
  "RemoveBurnTaxExemptionAddress K s addr =
     rbind (must (AccFromBech32 K addr)) (\<lambda>_.
     rbind (fail_if (kv_get (exemptions s) (exemption_key addr) = None) (Registered ''treasury'' 1)) (\<lambda>_.
     Inr (s\<lparr>exemptions := kv_del (exemption_key addr) (exemptions s)\<rparr>)))"


text \<open>
  \<open>SetParams\<close> runs the validator of every parameter and panics when one fails; the setters of
  single parameters run the validator of that parameter.
\<close>

definition treasury_ParamSetPairs :: "sdk \<Rightarrow> TreasuryParams \<Rightarrow> unit result" where
  "treasury_ParamSetPairs K p =
     rbind (validateTaxPolicy K (TaxPolicy p)) (\<lambda>_.
     rbind (validateRewardPolicy (RewardPolicy p)) (\<lambda>_.
     rbind (validateSeigniorageBurdenTarget (SeigniorageBurdenTarget p)) (\<lambda>_.
     rbind (validateMiningIncrement (MiningIncrement p)) (\<lambda>_.
     rbind (validateBurnTaxSplit (BurnTaxSplit p)) (\<lambda>_.
     rbind (validateMinInitialDepositRatio (MinInitialDepositRatio p)) (\<lambda>_.
     validateOraceSplit (OracleSplit p)))))))"

definition treasury_SetParams :: "sdk \<Rightarrow> treasury_store \<Rightarrow> TreasuryParams \<Rightarrow> treasury_store result" where
  "treasury_SetParams K s p = rbind (must (treasury_ParamSetPairs K p)) (\<lambda>_. Inr (s\<lparr>tparams := p\<rparr>))"

definition SetBurnSplitRate :: "treasury_store \<Rightarrow> dec \<Rightarrow> treasury_store result" where
  "SetBurnSplitRate s x = rbind (must (validateBurnTaxSplit x)) (\<lambda>_.
     Inr (s\<lparr>tparams := (tparams s)\<lparr>BurnTaxSplit := x\<rparr>\<rparr>))"

definition SetMinInitialDepositRatio :: "treasury_store \<Rightarrow> dec \<Rightarrow> treasury_store result" where
  "SetMinInitialDepositRatio s x = rbind (must (validateMinInitialDepositRatio x)) (\<lambda>_.
     Inr (s\<lparr>tparams := (tparams s)\<lparr>MinInitialDepositRatio := x\<rparr>\<rparr>))"

definition SetOracleSplitRate :: "treasury_store \<Rightarrow> dec \<Rightarrow> treasury_store result" where
  "SetOracleSplitRate s x = rbind (must (validateOraceSplit x)) (\<lambda>_.
     Inr (s\<lparr>tparams := (tparams s)\<lparr>OracleSplit := x\<rparr>\<rparr>))"


section \<open>Proposals (types/gov.go, keeper/gov.go, proposal\_handler.go)\<close>

record ExemptionProposal =
  Title :: string
  ProposalDescription :: string
  Addresses :: "string list"

datatype treasury_content =
    AddBurnTaxExemptionAddressProposal ExemptionProposal
  | RemoveBurnTaxExemptionAddressProposal ExemptionProposal
  | OtherContent

definition exemption_ValidateBasic :: "sdk \<Rightarrow> ExemptionProposal \<Rightarrow> unit result" where
  "exemption_ValidateBasic K p =
     rbind (ValidateAbstract K (Title p) (ProposalDescription p)) (\<lambda>_.
     fold_res (\<lambda>addr _. rbind (wrap_err (Sdk ''ErrInvalidAddress'') (AccFromBech32 K addr)) (\<lambda>_. Inr ()))
       (Addresses p) ())"

definition HandleAddBurnTaxExemptionAddressProposal ::
    "sdk \<Rightarrow> treasury_store \<Rightarrow> ExemptionProposal \<Rightarrow> treasury_store result" where
  "HandleAddBurnTaxExemptionAddressProposal K s p =
     fold_res (\<lambda>addr s. AddBurnTaxExemptionAddress K s addr) (Addresses p) s"

definition HandleRemoveBurnTaxExemptionAddressProposal ::
    "sdk \<Rightarrow> treasury_store \<Rightarrow> ExemptionProposal \<Rightarrow> treasury_store result" where
  "HandleRemoveBurnTaxExemptionAddressProposal K s p =
     fold_res (\<lambda>addr s. RemoveBurnTaxExemptionAddress K s addr) (Addresses p) s"

fun treasury_ProposalHandler :: "sdk \<Rightarrow> treasury_store \<Rightarrow> treasury_content \<Rightarrow> treasury_store result" where
  "treasury_ProposalHandler K s (AddBurnTaxExemptionAddressProposal p) = HandleAddBurnTaxExemptionAddressProposal K s p"
| "treasury_ProposalHandler K s (RemoveBurnTaxExemptionAddressProposal p) = HandleRemoveBurnTaxExemptionAddressProposal K s p"
| "treasury_ProposalHandler K s OtherContent = Inl (Sdk ''ErrUnknownRequest'')"


section \<open>Indicators (keeper/indicator.go)\<close>

definition GetEpoch :: "int \<Rightarrow> int" where
  "GetEpoch height = tquot height BlocksPerWeek"

text \<open>A swap that has no price is skipped; a panic is not caught.\<close>

definition try_swap :: "sdk \<Rightarrow> price_source \<Rightarrow> deccoin \<Rightarrow> string \<Rightarrow> deccoin option result" where
  "try_swap K Q c denom = (case ComputeInternalSwap K Q c denom of
     Inl e \<Rightarrow> if e = Panic then Inl Panic else Inr None
   | Inr c' \<Rightarrow> Inr (Some c'))"

definition alignCoins :: "sdk \<Rightarrow> price_source \<Rightarrow> deccoin list \<Rightarrow> string \<Rightarrow> dec result" where
  "alignCoins K Q coins denom =
     fold_res (\<lambda>coinReward alignedAmt.
       if DDenom coinReward \<noteq> denom
       then rbind (try_swap K Q coinReward denom) (\<lambda>r.
            case r of None \<Rightarrow> Inr alignedAmt
                    | Some swappedReward \<Rightarrow> dAdd K alignedAmt (DAmount swappedReward))
       else dAdd K alignedAmt (DAmount coinReward)) coins 0"

definition UpdateIndicators ::
    "sdk \<Rightarrow> 'w keepers \<Rightarrow> oracle_store \<Rightarrow> int \<Rightarrow> 'w \<Rightarrow> treasury_store \<Rightarrow> treasury_store result" where
  "UpdateIndicators K N os height w s =
     (let epoch = GetEpoch height; Q = oracle_view os
      in rbind (case TotalBondedTokens N w of
                  Inl e \<Rightarrow> if e = Panic then Inl Panic else Inr 0
                | Inr t \<Rightarrow> Inr t) (\<lambda>totalStakedDo.
         let s1 = SetTSL s epoch totalStakedDo
         in rbind (NewDecCoinsFromCoins K (PeekEpochTaxProceeds s1)) (\<lambda>taxRewards.
            rbind (alignCoins K Q taxRewards MicroDoDenom) (\<lambda>TR.
            let s2 = SetEpochTaxProceeds (SetTR s1 epoch TR) []
            in rbind (PeekEpochSeigniorage K N w s2) (\<lambda>seigniorage.
               rbind (dMulInt K (GetRewardWeight s2) seigniorage) (\<lambda>seigniorageRewardsAmt.
               rbind (NewDecCoinFromDec K MicroDoDenom seigniorageRewardsAmt) (\<lambda>c.
               rbind (alignCoins K Q [c] MicroDoDenom) (\<lambda>SR.
               Inr (SetSR s2 epoch SR)))))))))"

definition TRL :: "sdk \<Rightarrow> treasury_store \<Rightarrow> int \<Rightarrow> dec result" where
  "TRL K s epoch =
     (let tr = GetTR s epoch; tsl = GetTSL s epoch
      in if tr = 0 \<or> tsl = 0 then Inr 0 else dQuoInt K tr tsl)"

definition SR :: "treasury_store \<Rightarrow> int \<Rightarrow> dec result" where
  "SR s epoch = Inr (GetSR s epoch)"

definition MR :: "sdk \<Rightarrow> treasury_store \<Rightarrow> int \<Rightarrow> dec result" where
  "MR K s epoch = dAdd K (GetTR s epoch) (GetSR s epoch)"

text \<open>
  The loop of both sums, \<open>for i = curEpoch; i >= 0 && i > bound; i--\<close>: it returns the last
  value of \<open>i\<close> and the sum.
\<close>

function epoch_loop :: "sdk \<Rightarrow> (int \<Rightarrow> dec result) \<Rightarrow> int \<Rightarrow> int \<Rightarrow> dec \<Rightarrow> (int \<times> dec) result" where
  "epoch_loop K indicator bound i acc =
     (if 0 \<le> i \<and> bound < i
      then rbind (indicator i) (\<lambda>val.
           rbind (dAdd K acc val) (\<lambda>acc'.
           epoch_loop K indicator bound (i - 1) acc'))
      else Inr (i, acc))"
  by pat_completeness auto
termination
  by (relation "measure (\<lambda>(_, _, _, i, _). nat (i + 1))") auto

declare epoch_loop.simps [simp del]

definition sumIndicator :: "sdk \<Rightarrow> int \<Rightarrow> int \<Rightarrow> (int \<Rightarrow> dec result) \<Rightarrow> dec result" where
  "sumIndicator K height epochs indicator =
     (let curEpoch = GetEpoch height
      in rbind (epoch_loop K indicator (i64 (curEpoch - epochs)) curEpoch 0) (\<lambda>(_, sum). Inr sum))"

definition rollingAverageIndicator :: "sdk \<Rightarrow> int \<Rightarrow> int \<Rightarrow> (int \<Rightarrow> dec result) \<Rightarrow> dec result" where
  "rollingAverageIndicator K height epochs indicator =
     (let curEpoch = GetEpoch height
      in rbind (epoch_loop K indicator (i64 (curEpoch - epochs)) curEpoch 0) (\<lambda>(i, sum).
         if curEpoch - i = 0 then Inr sum else dQuoInt K sum (curEpoch - i)))"


section \<open>Policies (keeper/policy.go)\<close>

definition UpdateTaxCap :: "sdk \<Rightarrow> oracle_store \<Rightarrow> treasury_store \<Rightarrow> (coin list \<times> treasury_store) result" where
  "UpdateTaxCap K os s =
     rbind (NewDecCoinFromCoin K (PolicyCap (TaxPolicy (tparams s)))) (\<lambda>taxPolicyCap.
     fold_res (\<lambda>item (newCaps, s).
       if Name item = DDenom taxPolicyCap then Inr (newCaps, s)
       else rbind (try_swap K (oracle_view os) taxPolicyCap (Name item)) (\<lambda>r.
            case r of None \<Rightarrow> Inr (newCaps, s)
                    | Some newDecCap \<Rightarrow>
                        rbind (DecCoinTruncate K newDecCap) (\<lambda>(newCap, _).
                        Inr (newCaps @ [newCap], SetTaxCap s (Denom newCap) (Amount newCap)))))
       (Whitelist (oparams os)) ([], s))"

definition UpdateTaxPolicy :: "sdk \<Rightarrow> int \<Rightarrow> treasury_store \<Rightarrow> (dec \<times> treasury_store) result" where
  "UpdateTaxPolicy K height s =
     (let params = tparams s; oldTaxRate = GetTaxRate s; inc = MiningIncrement params
      in rbind (rollingAverageIndicator K height (i64 (WindowLong params)) (TRL K s)) (\<lambda>tlYear.
         rbind (rollingAverageIndicator K height (i64 (WindowShort params)) (TRL K s)) (\<lambda>tlMonth.
         rbind (if tlMonth = 0 then Inr (RateMax (TaxPolicy params))
                else rbind (dMul K tlYear inc) (\<lambda>x.
                     rbind (dMul K oldTaxRate x) (\<lambda>y.
                     dQuo K y tlMonth))) (\<lambda>r.
         rbind (Clamp K (TaxPolicy params) oldTaxRate r) (\<lambda>newTaxRate.
         Inr (newTaxRate, SetTaxRate s newTaxRate))))))"

definition UpdateRewardPolicy :: "sdk \<Rightarrow> int \<Rightarrow> treasury_store \<Rightarrow> (dec \<times> treasury_store) result" where
  "UpdateRewardPolicy K height s =
     (let params = tparams s; oldWeight = GetRewardWeight s; sbTarget = SeigniorageBurdenTarget params
      in rbind (sumIndicator K height (i64 (WindowShort params)) (SR s)) (\<lambda>seigniorageSum.
         rbind (sumIndicator K height (i64 (WindowShort params)) (MR K s)) (\<lambda>totalSum.
         rbind (if totalSum = 0 \<or> seigniorageSum = 0 then Inr (RateMax (RewardPolicy params))
                else rbind (dQuo K seigniorageSum totalSum) (\<lambda>sb.
                     rbind (dQuo K sbTarget sb) (\<lambda>x.
                     dMul K oldWeight x))) (\<lambda>r.
         rbind (Clamp K (RewardPolicy params) oldWeight r) (\<lambda>newRewardWeight.
         Inr (newRewardWeight, SetRewardWeight s newRewardWeight))))))"


section \<open>Seigniorage and the burn account\<close>

definition SettleSeigniorage ::
    "sdk \<Rightarrow> 'w keepers \<Rightarrow> string \<Rightarrow> treasury_store \<Rightarrow> 'w \<Rightarrow> 'w result" where
  "SettleSeigniorage K N distributionModuleName s w =
     rbind (PeekEpochSeigniorage K N w s) (\<lambda>seigniorageDoAmt.
     if seigniorageDoAmt \<le> 0 then Inr w
     else rbind (NewDecCoin K MicroDoDenom seigniorageDoAmt) (\<lambda>seigniorageDecCoin.
          rbind (DecCoinTruncate K seigniorageDecCoin) (\<lambda>(seigniorageCoin, _).
          rbind (NewCoins K [seigniorageCoin]) (\<lambda>seigniorageCoins.
          rbind (if CoinsIsValid K seigniorageCoins
                 then must (MintCoins N w ''treasury'' seigniorageCoins) else Inr w) (\<lambda>w1.
          rbind (dMulInt K (GetRewardWeight s) (Amount seigniorageCoin)) (\<lambda>b.
          rbind (dTruncateInt K b) (\<lambda>burnAmt.
          rbind (NewCoin K MicroDoDenom burnAmt) (\<lambda>burnCoin.
          rbind (NewCoins K [burnCoin]) (\<lambda>burnCoins.
          rbind (if CoinsIsValid K burnCoins
                 then must (BurnCoins N w1 ''treasury'' burnCoins) else Inr w1) (\<lambda>w2.
          rbind (iSub K (Amount seigniorageCoin) burnAmt) (\<lambda>leftAmt.
          rbind (NewCoin K MicroDoDenom leftAmt) (\<lambda>leftCoin.
          rbind (NewCoins K [leftCoin]) (\<lambda>leftCoins.
          if CoinsIsValid K leftCoins
          then rbind (must (SendCoinsFromModuleToModule N w2 ''treasury'' distributionModuleName leftCoins)) (\<lambda>w3.
               rbind (must (CommunityPool N w3)) (\<lambda>pool.
               rbind (NewDecCoinsFromCoins K leftCoins) (\<lambda>leftDec.
               rbind (DecCoinsAdd K pool leftDec) (\<lambda>pool'.
               Inr (SetCommunityPool N w3 pool')))))
          else Inr w2)))))))))))))"

definition BurnCoinsFromBurnAccount :: "'w keepers \<Rightarrow> 'w \<Rightarrow> 'w result" where
  "BurnCoinsFromBurnAccount N w =
     (let burnAddress = (case GetModuleAddress N ''burn'' of None \<Rightarrow> [] | Some a \<Rightarrow> a);
          coins = GetAllBalances N w burnAddress
      in if coins_IsZero coins then Inr w else must (BurnCoins N w ''burn'' coins))"


section \<open>The end-blocker (abci.go)\<close>

text \<open>The deferred recording of the issuance runs on both ways out of an epoch's last block.\<close>

definition treasury_EndBlocker ::
    "sdk \<Rightarrow> 'w keepers \<Rightarrow> oracle_store \<Rightarrow> int \<Rightarrow> treasury_store \<times> 'w \<Rightarrow> (treasury_store \<times> 'w) result" where
  "treasury_EndBlocker K N os height sw =
     (let (s, w) = sw
      in rbind (BurnCoinsFromBurnAccount N w) (\<lambda>w1.
         rbind (IsPeriodLastBlock height BlocksPerWeek) (\<lambda>last.
         if \<not> last then Inr (s, w1)
         else rbind (UpdateIndicators K N os height w1 s) (\<lambda>s1.
              if height < i64 (u64 (BlocksPerWeek * WindowProbation (tparams s1)))
              then Inr (RecordEpochInitialIssuance K N os w1 s1, w1)
              else rbind (UpdateTaxPolicy K height s1) (\<lambda>(taxRate, s2).
                   rbind (UpdateRewardPolicy K height s2) (\<lambda>(rewardWeight, s3).
                   rbind (UpdateTaxCap K os s3) (\<lambda>(taxCap, s4).
                   Inr (RecordEpochInitialIssuance K N os w1 s4, w1))))))))"


section \<open>Genesis (genesis.go, types/genesis.go) and migrations\<close>

record EpochState =
  Epoch :: int
  TaxReward :: dec
  SeigniorageReward :: dec
  TotalStakedDo :: int

record TreasuryGenesis =
  tgParams :: TreasuryParams
  tgTaxRate :: dec
  tgRewardWeight :: dec
  tgTaxCaps :: "(string \<times> int) list"
  tgTaxProceeds :: "coin list"
  tgEpochInitialIssuance :: "coin list"
  tgEpochStates :: "EpochState list"

definition treasury_DefaultGenesisState :: TreasuryGenesis where
  "treasury_DefaultGenesisState = \<lparr>tgParams = treasury_DefaultParams, tgTaxRate = DefaultTaxRate,
     tgRewardWeight = DefaultRewardWeight, tgTaxCaps = [], tgTaxProceeds = [],
     tgEpochInitialIssuance = [], tgEpochStates = []\<rparr>"

definition treasury_ValidateGenesis :: "sdk \<Rightarrow> TreasuryGenesis \<Rightarrow> unit result" where
  "treasury_ValidateGenesis K g =
     rbind (fail_if (tgTaxRate g < RateMin (TaxPolicy (tgParams g)) \<or> RateMax (TaxPolicy (tgParams g)) < tgTaxRate g)
              (Text ''tax_rate'')) (\<lambda>_.
     rbind (fail_if (tgRewardWeight g < RateMin (RewardPolicy (tgParams g)) \<or>
                     RateMax (RewardPolicy (tgParams g)) < tgRewardWeight g)
              (Text ''reward_weight'')) (\<lambda>_.
     treasury_Params_Validate K (tgParams g)))"

definition treasury_InitGenesis ::
    "sdk \<Rightarrow> 'w keepers \<Rightarrow> oracle_store \<Rightarrow> 'w \<Rightarrow> treasury_store \<Rightarrow> TreasuryGenesis \<Rightarrow> treasury_store result" where
  "treasury_InitGenesis K N os w s g =
     rbind (treasury_SetParams K s (tgParams g)) (\<lambda>s.
     let s = SetEpochTaxProceeds (SetRewardWeight (SetTaxRate s (tgTaxRate g)) (tgRewardWeight g)) (tgTaxProceeds g);
         s = (if coins_IsZero (tgEpochInitialIssuance g) then RecordEpochInitialIssuance K N os w s
              else SetEpochInitialIssuance s (tgEpochInitialIssuance g));
         s = fold (\<lambda>(denom, cap) s. SetTaxCap s denom cap) (tgTaxCaps g) s;
         s = fold (\<lambda>e s. SetTSL (SetSR (SetTR s (i64 (Epoch e)) (TaxReward e)) (i64 (Epoch e)) (SeigniorageReward e))
                (i64 (Epoch e)) (TotalStakedDo e)) (tgEpochStates g) s
     in rbind (fail_if (GetModuleAddress N ''treasury'' = None) Panic) (\<lambda>_.
        rbind (fail_if (GetModuleAddress N ''burn'' = None) Panic) (\<lambda>_.
        Inr s)))"

definition exported_epochs :: "int \<Rightarrow> int list result" where
  "exported_epochs height =
     rbind (IsPeriodLastBlock height BlocksPerWeek) (\<lambda>last.
     Inr [0 .. (if last then GetEpoch height else GetEpoch height - 1)])"

definition epoch_state :: "treasury_store \<Rightarrow> int \<Rightarrow> EpochState" where
  "epoch_state s e = \<lparr>Epoch = e, TaxReward = GetTR s e, SeigniorageReward = GetSR s e, TotalStakedDo = GetTSL s e\<rparr>"

definition treasury_ExportGenesis :: "int \<Rightarrow> treasury_store \<Rightarrow> TreasuryGenesis result" where
  "treasury_ExportGenesis height s =
     rbind (IterateTaxCap s (\<lambda>denom taxCap acc. Inr (acc @ [(denom, taxCap)], False)) []) (\<lambda>taxCaps.
     rbind (exported_epochs height) (\<lambda>epochs.
     Inr \<lparr>tgParams = tparams s, tgTaxRate = GetTaxRate s, tgRewardWeight = GetRewardWeight s,
          tgTaxCaps = taxCaps, tgTaxProceeds = PeekEpochTaxProceeds s,
          tgEpochInitialIssuance = GetEpochInitialIssuance s,
          tgEpochStates = map (epoch_state s) epochs\<rparr>))"

text \<open>The list of exempt addresses that the first migration adds is data of the code.\<close>

definition Migrate1to2 :: "sdk \<Rightarrow> string list \<Rightarrow> treasury_store \<Rightarrow> treasury_store result" where
  "Migrate1to2 K burnTaxExcemptionAddressList s =
     rbind (SetBurnSplitRate s DefaultBurnTaxSplit) (\<lambda>s.
     fold_res (\<lambda>addr s. AddBurnTaxExemptionAddress K s addr) burnTaxExcemptionAddressList s)"

definition Migrate2to3 :: "treasury_store \<Rightarrow> treasury_store result" where
  "Migrate2to3 s = SetMinInitialDepositRatio s DefaultMinInitialDepositRatio"



section \<open>Queries (keeper/querier.go)\<close>

definition query_TaxCap :: "sdk \<Rightarrow> treasury_store \<Rightarrow> string option \<Rightarrow> int result" where
  "query_TaxCap K s req =
     (case req of
        None \<Rightarrow> Inl (Sdk ''InvalidArgument'')
      | Some denom \<Rightarrow>
          rbind (fail_if (\<not> ValidateDenom K denom) (Sdk ''InvalidArgument'')) (\<lambda>_.
          Inr (GetTaxCap s denom)))"

definition query_TaxCaps :: "treasury_store \<Rightarrow> (string \<times> int) list result" where
  "query_TaxCaps s = IterateTaxCap s (\<lambda>denom taxCap acc. Inr (acc @ [(denom, taxCap)], False)) []"

text \<open>
  The minimum through \<open>float64\<close> is exact: an epoch is below \<open>2 ^ 53\<close>, and a window that
  \<open>float64\<close> rounds is above every epoch.
\<close>

definition query_Indicators ::
    "sdk \<Rightarrow> 'w keepers \<Rightarrow> oracle_store \<Rightarrow> int \<Rightarrow> 'w \<Rightarrow> treasury_store \<Rightarrow> (dec \<times> dec) result" where
  "query_Indicators K N os height w s =
     rbind (case TotalBondedTokens N w of
              Inl e \<Rightarrow> if e = Panic then Inl Panic else Inr 0
            | Inr t \<Rightarrow> Inr t) (\<lambda>TSL.
     rbind (NewDecCoinsFromCoins K (PeekEpochTaxProceeds s)) (\<lambda>taxRewards.
     rbind (alignCoins K (oracle_view os) taxRewards MicroDoDenom) (\<lambda>TR.
     let epoch = GetEpoch height
     in if epoch = 0
        then rbind (dQuoInt K TR TSL) (\<lambda>q. Inr (q, q))
        else let params = tparams s; previous = height - BlocksPerWeek;
                 wl = u64 (WindowLong params - 1); ws = u64 (WindowShort params - 1);
                 yearEpochs = min wl epoch; monthEpochs = min ws epoch
             in rbind (rollingAverageIndicator K previous (i64 wl) (TRL K s)) (\<lambda>trlYear.
                rbind (rollingAverageIndicator K previous (i64 ws) (TRL K s)) (\<lambda>trlMonth.
                rbind (dQuoInt K TR TSL) (\<lambda>q.
                rbind (dMulInt K trlYear yearEpochs) (\<lambda>y1.
                rbind (dAdd K y1 q) (\<lambda>y2.
                rbind (dQuoInt K y2 (yearEpochs + 1)) (\<lambda>y3.
                rbind (dMulInt K trlMonth monthEpochs) (\<lambda>m1.
                rbind (dAdd K m1 q) (\<lambda>m2.
                rbind (dQuoInt K m2 (monthEpochs + 1)) (\<lambda>m3.
                Inr (y3, m3)))))))))))))"


section \<open>Lookups after writes\<close>

lemma le64_digits: "le64 x = le64 y \<Longrightarrow> i < 8 \<Longrightarrow> x div 256 ^ i mod 256 = y div 256 ^ i mod 256"
proof -
  assume "le64 x = le64 y" and "i < 8"
  then have "char_of (nat (x div 256 ^ i mod 256)) = (char_of (nat (y div 256 ^ i mod 256)) :: char)"
    by (auto simp: le64_def)
  then have "(of_char (char_of (nat (x div 256 ^ i mod 256)) :: char) :: nat) =
      of_char (char_of (nat (y div 256 ^ i mod 256)) :: char)" by simp
  moreover have "nat (z mod 256) mod 256 = nat (z mod 256)" for z :: int
    by (metis mod_mod_trivial nat_mod_distrib nat_numeral pos_mod_sign zero_le_numeral zero_less_numeral)
  ultimately have "nat (x div 256 ^ i mod 256) = nat (y div 256 ^ i mod 256)" by simp
  then show ?thesis by (simp add: nat_eq_iff)
qed

lemma le64_mod: "le64 x = le64 y \<Longrightarrow> n \<le> 8 \<Longrightarrow> x mod 256 ^ n = y mod 256 ^ n"
proof (induction n)
  case (Suc n)
  have "z mod 256 ^ Suc n = 256 ^ n * (z div 256 ^ n mod 256) + z mod 256 ^ n" for z :: int
    using zmod_zmult2_eq [of 256 z "256 ^ n"] by (simp add: mult.commute)
  then show ?case using Suc le64_digits [of x y n] by simp
qed simp

lemma le64_inject: "le64 (u64 x) = le64 (u64 y) \<longleftrightarrow> u64 x = u64 y"
  using le64_mod [of "u64 x" "u64 y" 8] by (auto simp: u64_def)

lemma treasury_keys [simp, key_simps]:
  "GetTaxCapKey d = GetTaxCapKey d' \<longleftrightarrow> d = d'"
  "exemption_key d = exemption_key d' \<longleftrightarrow> d = d'"
  "GetTRKey e = GetTRKey e' \<longleftrightarrow> u64 e = u64 e'"
  "GetSRKey e = GetSRKey e' \<longleftrightarrow> u64 e = u64 e'"
  "GetTSLKey e = GetTSLKey e' \<longleftrightarrow> u64 e = u64 e'"
  by (simp_all add: GetTaxCapKey_def exemption_key_def GetTRKey_def GetSRKey_def GetTSLKey_def
      GetSubkeyByEpoch_def le64_inject)

interpretation tax_caps: keyed_cell GetTaxCap SetTaxCap "\<lambda>_ cap. cap"
  by unfold_locales (simp_all add: GetTaxCap_def SetTaxCap_def split: option.split)

lemma GetTR_SetTR: "GetTR (SetTR s e v) e' = (if u64 e' = u64 e then v else GetTR s e')"
  by (simp add: GetTR_def SetTR_def)

lemma GetSR_SetSR: "GetSR (SetSR s e v) e' = (if u64 e' = u64 e then v else GetSR s e')"
  by (simp add: GetSR_def SetSR_def)

lemma GetTSL_SetTSL: "GetTSL (SetTSL s e v) e' = (if u64 e' = u64 e then v else GetTSL s e')"
  by (simp add: GetTSL_def SetTSL_def)

text \<open>Every setter leaves the other cells alone.\<close>

lemma treasury_frame [simp]:
  "tparams (SetTaxRate s r) = tparams s" "tparams (SetRewardWeight s r) = tparams s"
  "tparams (SetTaxCap s d c) = tparams s" "tparams (SetEpochTaxProceeds s cs) = tparams s"
  "tparams (SetEpochInitialIssuance s cs) = tparams s" "tparams (SetTR s e v) = tparams s"
  "tparams (SetSR s e v) = tparams s" "tparams (SetTSL s e n) = tparams s"
  "GetTaxRate (SetTaxRate s r) = r" "GetTaxRate (SetRewardWeight s r) = GetTaxRate s"
  "GetTaxRate (SetTaxCap s d c) = GetTaxRate s" "GetTaxRate (SetEpochTaxProceeds s cs) = GetTaxRate s"
  "GetTaxRate (SetEpochInitialIssuance s cs) = GetTaxRate s" "GetTaxRate (SetTR s e v) = GetTaxRate s"
  "GetTaxRate (SetSR s e v) = GetTaxRate s" "GetTaxRate (SetTSL s e n) = GetTaxRate s"
  "GetRewardWeight (SetRewardWeight s r) = r" "GetRewardWeight (SetTaxRate s r) = GetRewardWeight s"
  "GetRewardWeight (SetTaxCap s d c) = GetRewardWeight s"
  "GetRewardWeight (SetEpochTaxProceeds s cs) = GetRewardWeight s"
  "GetRewardWeight (SetEpochInitialIssuance s cs) = GetRewardWeight s"
  "GetRewardWeight (SetTR s e v) = GetRewardWeight s"
  "GetRewardWeight (SetSR s e v) = GetRewardWeight s" "GetRewardWeight (SetTSL s e n) = GetRewardWeight s"
  by (simp_all add: SetTaxRate_def SetRewardWeight_def SetTaxCap_def SetEpochTaxProceeds_def
      SetEpochInitialIssuance_def SetTR_def SetSR_def SetTSL_def GetTaxRate_def GetRewardWeight_def)


section \<open>Policies move within their constraints\<close>

definition policy_ok :: "PolicyConstraints \<Rightarrow> bool" where
  "policy_ok pc \<longleftrightarrow> 0 \<le> RateMin pc \<and> RateMin pc \<le> RateMax pc \<and> 0 \<le> ChangeRateMax pc"

definition rate_step :: "PolicyConstraints \<Rightarrow> dec \<Rightarrow> dec \<Rightarrow> bool" where
  "rate_step pc old new \<longleftrightarrow> RateMin pc \<le> new \<and> new \<le> RateMax pc \<and>
     (RateMin pc \<le> old \<and> old \<le> RateMax pc \<longrightarrow> \<bar>new - old\<bar> \<le> ChangeRateMax pc)"

lemma validated_policies:
  "treasury_Params_Validate K p = Inr () \<Longrightarrow> policy_ok (TaxPolicy p) \<and> policy_ok (RewardPolicy p)"
  by (auto simp: treasury_Params_Validate_def policy_ok_def res_simps)

context dec_math begin

lemma clamp_spec:
  assumes "Clamp K pc old new = Inr r" and "policy_ok pc"
  shows "r = max (RateMin pc) (min (RateMax pc) (max (old - ChangeRateMax pc) (min (old + ChangeRateMax pc) new)))"
  using assms by (auto simp: Clamp_def policy_ok_def rbind_eq_Inr split: if_splits dest!: sub_Inr add_Inr)

lemma clamp_step:
  assumes "Clamp K pc old new = Inr r" and ok: "policy_ok pc"
  shows "rate_step pc old r"
  unfolding rate_step_def clamp_spec [OF assms] using ok [unfolded policy_ok_def]
  by (intro conjI impI; linarith)

lemma tax_policy_step:
  assumes "UpdateTaxPolicy K h s = Inr (r, s')" and "policy_ok (TaxPolicy (tparams s))"
  shows "rate_step (TaxPolicy (tparams s)) (GetTaxRate s) r \<and> s' = SetTaxRate s r"
  using assms clamp_step by (auto simp: UpdateTaxPolicy_def Let_def rbind_eq_Inr)

lemma reward_policy_step:
  assumes "UpdateRewardPolicy K h s = Inr (r, s')" and "policy_ok (RewardPolicy (tparams s))"
  shows "rate_step (RewardPolicy (tparams s)) (GetRewardWeight s) r \<and> s' = SetRewardWeight s r"
  using assms clamp_step by (auto simp: UpdateRewardPolicy_def Let_def rbind_eq_Inr)

end

lemma tax_caps_frame:
  assumes "UpdateTaxCap K os s = Inr (caps, s')"
  shows "tparams s' = tparams s \<and> GetTaxRate s' = GetTaxRate s \<and> GetRewardWeight s' = GetRewardWeight s"
proof -
  from assms obtain c where "fold_res (\<lambda>item (newCaps, s).
       if Name item = DDenom c then Inr (newCaps, s)
       else rbind (try_swap K (oracle_view os) c (Name item)) (\<lambda>r.
            case r of None \<Rightarrow> Inr (newCaps, s)
                    | Some newDecCap \<Rightarrow>
                        rbind (DecCoinTruncate K newDecCap) (\<lambda>(newCap, _).
                        Inr (newCaps @ [newCap], SetTaxCap s (Denom newCap) (Amount newCap)))))
       (Whitelist (oparams os)) ([], s) = Inr (caps, s')"
    by (auto simp: UpdateTaxCap_def rbind_eq_Inr)
  from fold_res_invariant [where P = "\<lambda>(_, t). tparams t = tparams s \<and> GetTaxRate t = GetTaxRate s \<and>
      GetRewardWeight t = GetRewardWeight s", OF this] show ?thesis
    by (fastforce simp: rbind_eq_Inr split: if_splits option.splits prod.splits)
qed

lemma indicators_frame:
  assumes "UpdateIndicators K N os h w s = Inr s'"
  shows "tparams s' = tparams s \<and> GetTaxRate s' = GetTaxRate s \<and> GetRewardWeight s' = GetRewardWeight s"
  using assms by (auto simp: UpdateIndicators_def Let_def rbind_eq_Inr)

lemma issuance_frame [simp]:
  "tparams (RecordEpochInitialIssuance K N os w s) = tparams s"
  "GetTaxRate (RecordEpochInitialIssuance K N os w s) = GetTaxRate s"
  "GetRewardWeight (RecordEpochInitialIssuance K N os w s) = GetRewardWeight s"
  by (simp_all add: RecordEpochInitialIssuance_def Let_def)


definition policy_update_due :: "int \<Rightarrow> treasury_store \<Rightarrow> bool" where
  "policy_update_due h s \<longleftrightarrow> IsPeriodLastBlock h BlocksPerWeek = Inr True \<and>
     i64 (u64 (BlocksPerWeek * WindowProbation (tparams s))) \<le> h"

lemma end_block_cases:
  assumes "treasury_EndBlocker K N os h (s, w) = Inr (s', w')"
  obtains (idle) "\<not> policy_update_due h s" "tparams s' = tparams s" "GetTaxRate s' = GetTaxRate s"
      "GetRewardWeight s' = GetRewardWeight s"
    | (update) s1 r s2 r' s3 caps s4 where "policy_update_due h s" "UpdateIndicators K N os h w' s = Inr s1"
      "UpdateTaxPolicy K h s1 = Inr (r, s2)" "UpdateRewardPolicy K h s2 = Inr (r', s3)"
      "UpdateTaxCap K os s3 = Inr (caps, s4)" "s' = RecordEpochInitialIssuance K N os w' s4"
proof -
  from assms obtain w1 b where b: "IsPeriodLastBlock h BlocksPerWeek = Inr b" and rest: "(if \<not> b then Inr (s, w1)
         else rbind (UpdateIndicators K N os h w1 s) (\<lambda>s1.
              if h < i64 (u64 (BlocksPerWeek * WindowProbation (tparams s1)))
              then Inr (RecordEpochInitialIssuance K N os w1 s1, w1)
              else rbind (UpdateTaxPolicy K h s1) (\<lambda>(taxRate, s2).
                   rbind (UpdateRewardPolicy K h s2) (\<lambda>(rewardWeight, s3).
                   rbind (UpdateTaxCap K os s3) (\<lambda>(taxCap, s4).
                   Inr (RecordEpochInitialIssuance K N os w1 s4, w1)))))) = Inr (s', w')"
    by (auto simp: treasury_EndBlocker_def rbind_eq_Inr)
  show thesis
  proof (cases b)
    case False
    then show thesis using rest b by (intro idle) (simp_all add: policy_update_due_def)
  next
    case True
    then obtain s1 where s1: "UpdateIndicators K N os h w1 s = Inr s1" using rest by (auto simp: rbind_eq_Inr)
    note f = indicators_frame [OF s1]
    show thesis
    proof (cases "h < i64 (u64 (BlocksPerWeek * WindowProbation (tparams s1)))")
      case less: True
      then show thesis using rest s1 True f b by (intro idle) (auto simp: policy_update_due_def)
    next
      case ge: False
      then obtain r s2 r' s3 caps s4 where "UpdateTaxPolicy K h s1 = Inr (r, s2)"
          "UpdateRewardPolicy K h s2 = Inr (r', s3)" "UpdateTaxCap K os s3 = Inr (caps, s4)"
          "s' = RecordEpochInitialIssuance K N os w' s4" and w: "w1 = w'"
        using rest s1 True by (auto simp: rbind_eq_Inr)
      moreover have "policy_update_due h s" using ge True f b by (simp add: policy_update_due_def)
      ultimately show thesis using update s1 unfolding w by blast
    qed
  qed
qed

text \<open>
  C31: the tax rate and the reward weight move within their policies. With validated
  parameters, an end-block that closes an epoch after the probation leaves both inside
  \<open>[RateMin, RateMax]\<close>, and a rate that was inside before moves by at most \<open>ChangeRateMax\<close>;
  every other end-block leaves both unchanged. The parameters never change. A rate that was outside
  its range jumps into it at once: \<open>Clamp\<close> limits the change first and the range last, the opposite
  of the listing in \<open>treasury/spec/03_end_block.md\<close>, where such a rate would stay outside.
\<close>

theorem policies_bounded:
  assumes laws: "dec_math K" and valid: "treasury_Params_Validate K (tparams s) = Inr ()"
    and run: "treasury_EndBlocker K N os h (s, w) = Inr (s', w')"
  shows "tparams s' = tparams s \<and>
    (if policy_update_due h s
     then rate_step (TaxPolicy (tparams s)) (GetTaxRate s) (GetTaxRate s') \<and>
          rate_step (RewardPolicy (tparams s)) (GetRewardWeight s) (GetRewardWeight s')
     else GetTaxRate s' = GetTaxRate s \<and> GetRewardWeight s' = GetRewardWeight s)"
  using run
proof (cases rule: end_block_cases)
  case idle
  then show ?thesis by simp
next
  case (update s1 r s2 r' s3 caps s4)
  note ok = validated_policies [OF valid]
  note f1 = indicators_frame [OF update(2)]
  have 2: "rate_step (TaxPolicy (tparams s)) (GetTaxRate s) r" "s2 = SetTaxRate s1 r"
    using dec_math.tax_policy_step [OF laws update(3)] f1 ok by simp_all
  have 3: "rate_step (RewardPolicy (tparams s)) (GetRewardWeight s) r'" "s3 = SetRewardWeight s2 r'"
    using dec_math.reward_policy_step [OF laws update(4)] 2(2) f1 ok by simp_all
  show ?thesis using tax_caps_frame [OF update(5)] 2 3 f1 update(1,6) by simp
qed

definition empty_treasury :: "TreasuryParams \<Rightarrow> treasury_store" where
  "empty_treasury p = \<lparr>storedTaxRate = None, storedRewardWeight = None, storedTaxCaps = [],
     storedTaxProceeds = None, storedIssuance = None, storedTRs = [], storedSRs = [], storedTSLs = [],
     exemptions = [], tparams = p\<rparr>"

definition ex_treasury :: treasury_store where
  "ex_treasury = SetEpochTaxProceeds (SetEpochInitialIssuance (empty_treasury treasury_DefaultParams)
     [\<lparr>Denom = ''udo'', Amount = 7000000\<rparr>]) [\<lparr>Denom = ''udo'', Amount = 30000\<rparr>]"

definition ex_week13 :: int where
  "ex_week13 = 13 * 604800 - 1"

theorem policies_bounded_witness:
  "\<exists>s' w'. treasury_EndBlocker ref_sdk ref_keepers ex_oracle ex_week13
       (ex_treasury, ex_world [(alice, ''udo'', 5000000)] [(alice, 10)]) = Inr (s', w') \<and>
     rate_step DefaultTaxPolicy (GetTaxRate ex_treasury) (GetTaxRate s') \<and>
     rate_step DefaultRewardPolicy (GetRewardWeight ex_treasury) (GetRewardWeight s')"
proof -
  define run where "run = treasury_EndBlocker ref_sdk ref_keepers ex_oracle ex_week13
       (ex_treasury, ex_world [(alice, ''udo'', 5000000)] [(alice, 10)])"
  have "\<not> isl run" unfolding run_def by code_simp
  then obtain s' w' where r: "run = Inr (s', w')" by (cases run) auto
  have "treasury_Params_Validate ref_sdk (tparams ex_treasury) = Inr ()" by code_simp
  note b = policies_bounded [OF ref.dec_math_axioms this r [unfolded run_def]]
  have "policy_update_due ex_week13 ex_treasury" by code_simp
  moreover have "TaxPolicy (tparams ex_treasury) = DefaultTaxPolicy" "RewardPolicy (tparams ex_treasury) = DefaultRewardPolicy"
    by (simp_all add: ex_treasury_def empty_treasury_def treasury_DefaultParams_def)
  ultimately show ?thesis using b r [unfolded run_def] by auto
qed


section \<open>Rolling averages\<close>

context dec_math begin

lemma epoch_loop_sum:
  assumes "epoch_loop K ind bound i acc = Inr (j, tot)" and "-1 \<le> bound" and "bound \<le> i"
  shows "j = bound \<and> (\<exists>f. (\<forall>k \<in> {bound + 1..i}. ind k = Inr (f k)) \<and> tot = acc + (\<Sum>k \<in> {bound + 1..i}. f k))"
  using assms
proof (induction "nat (i - bound)" arbitrary: i acc)
  case 0
  then have "i = bound" by simp
  then show ?case using "0.prems" by (subst (asm) epoch_loop.simps) simp
next
  case (Suc n)
  then have lt: "bound < i" "0 \<le> i" by linarith+
  then obtain v where v: "ind i = Inr v" and r: "epoch_loop K ind bound (i - 1) (acc + v) = Inr (j, tot)"
    using Suc.prems(1) by (subst (asm) epoch_loop.simps) (auto simp: rbind_eq_Inr dest!: add_Inr)
  have "n = nat (i - 1 - bound)" using Suc.hyps(2) by linarith
  from Suc.hyps(1) [OF this r Suc.prems(2)] lt obtain f where
    f: "j = bound" "\<forall>k \<in> {bound + 1..i - 1}. ind k = Inr (f k)"
      "tot = acc + v + (\<Sum>k \<in> {bound + 1..i - 1}. f k)" by auto
  have split: "{bound + 1..i} = insert i {bound + 1..i - 1}" using lt by auto
  have eq: "(\<Sum>k \<in> {bound + 1..i - 1}. (f(i := v)) k) = (\<Sum>k \<in> {bound + 1..i - 1}. f k)"
    by (rule sum.cong) auto
  show ?case unfolding split using f v eq by (intro conjI exI [of _ "f(i := v)"]) auto
qed

lemma epoch_loop_start:
  assumes "bound < -1" and "0 \<le> i"
  shows "epoch_loop K ind bound i acc = epoch_loop K ind (-1) i acc"
  using assms(2)
proof (induction "nat (i + 1)" arbitrary: i acc)
  case (Suc n)
  show ?case
  proof (cases "i = 0")
    case True
    have "epoch_loop K ind b (-1) = (\<lambda>a. Inr (-1, a))" for b by (rule ext, subst epoch_loop.simps) simp
    then show ?thesis using assms(1) True
      by (subst (1 2) epoch_loop.simps) simp
  next
    case False
    then have "epoch_loop K ind bound (i - 1) = epoch_loop K ind (-1) (i - 1)"
      using Suc by (intro ext Suc.hyps(1)) auto
    then show ?thesis using assms(1) Suc.prems by (subst (1 2) epoch_loop.simps) simp
  qed
qed simp

end

text \<open>
  The rolling average is the average. Over a window of \<open>n\<close> epochs that ends at epoch
  \<open>e\<close> it adds the indicator of the last \<open>min n (e + 1)\<close> epochs, each exactly once, and
  divides by their number, truncating; it succeeds only if each of these indicators does.
\<close>

lemma rolling_average_correct:
  assumes laws: "dec_math K" and run: "rollingAverageIndicator K h n ind = Inr avg"
    and h: "0 \<le> h" "h < 2 ^ 63" and n: "0 < n" "n < 2 ^ 63"
  shows "\<exists>f. (\<forall>k \<in> {GetEpoch h + 1 - min n (GetEpoch h + 1)..GetEpoch h}. ind k = Inr (f k)) \<and>
     avg = tquot (\<Sum>k \<in> {GetEpoch h + 1 - min n (GetEpoch h + 1)..GetEpoch h}. f k) (min n (GetEpoch h + 1))"
proof -
  define e m where "e = GetEpoch h" and "m = min n (e + 1)"
  have e: "0 \<le> e" "e < 2 ^ 63" using h tquot_le [of h BlocksPerWeek]
    by (auto simp: e_def GetEpoch_def block_counts intro: tquot_nonneg_ge)
  then have b: "i64 (e - n) = e - n" using n by (intro i64_id) (simp add: in_i64_def)
  from run obtain i t where l: "epoch_loop K ind (e - n) e 0 = Inr (i, t)"
    and avg: "(if e - i = 0 then Inr t else dQuoInt K t (e - i)) = Inr avg"
    by (auto simp: rollingAverageIndicator_def Let_def rbind_eq_Inr b simp flip: e_def)
  have l': "epoch_loop K ind (e - m) e 0 = Inr (i, t)"
  proof (cases "e - n < -1")
    case True
    then show ?thesis using l dec_math.epoch_loop_start [OF laws True e(1)] by (simp add: m_def)
  qed (use l in \<open>simp add: m_def\<close>)
  have "0 < m" "e - m \<le> e" "-1 \<le> e - m" using n e by (auto simp: m_def)
  from dec_math.epoch_loop_sum [OF laws l' this(3,2)] obtain f where
    "i = e - m" "\<forall>k \<in> {e + 1 - m..e}. ind k = Inr (f k)" "t = (\<Sum>k \<in> {e + 1 - m..e}. f k)"
    by (auto simp: algebra_simps)
  moreover have "avg = tquot t m" using avg \<open>i = e - m\<close> \<open>0 < m\<close> dec_math.quo_int_Inr [OF laws] by simp
  ultimately show ?thesis unfolding e_def [symmetric] m_def [symmetric] by auto
qed


lemma rolling_average_correct_example:
  "\<exists>f. (\<forall>k \<in> {GetEpoch 700000 + 1 - min 4 (GetEpoch 700000 + 1)..GetEpoch 700000}.
        TRL ref_sdk (SetTSL (SetTR (empty_treasury treasury_DefaultParams) 1 (9 * PREC)) 1 2) k = Inr (f k)) \<and>
     2250000000000000000 = tquot (\<Sum>k \<in> {GetEpoch 700000 + 1 - min 4 (GetEpoch 700000 + 1)..GetEpoch 700000}. f k)
        (min 4 (GetEpoch 700000 + 1))"
  by (rule rolling_average_correct [OF ref.dec_math_axioms]) (code_simp | simp)+



section \<open>Burning and seigniorage\<close>

lemma end_block_world: "treasury_EndBlocker K N os h (s, w) = Inr (s', w') \<Longrightarrow> BurnCoinsFromBurnAccount N w = Inr w'"
  by (auto simp: treasury_EndBlocker_def rbind_eq_Inr split: if_splits)

text \<open>
  Every end-block empties the burn account. What the account held leaves the supply,
  denom by denom, and no other balance changes. The hypothesis on \<open>GetAllBalances\<close> is that
  it lists what the account holds.
\<close>

lemma burn_account_emptied:
  assumes bank: "bank N" and b: "GetModuleAddress N ''burn'' = Some b"
    and listed: "\<forall>d. AmountOf (GetAllBalances N w b) d = bal N w b d"
    and run: "treasury_EndBlocker K N os h (s, w) = Inr (s', w')"
  shows "(\<forall>x d. bal N w' x d = (if x = b then 0 else bal N w x d)) \<and>
     (\<forall>d. total_supply N w' d = total_supply N w d - bal N w b d)"
proof (cases "coins_IsZero (GetAllBalances N w b)")
  case True
  have "AmountOf cs d = 0" if "coins_IsZero cs" for cs d
    using that by (induction cs) (auto simp: coins_IsZero_def)
  with True listed have "bal N w b d = 0" for d by metis
  moreover have "w' = w" using end_block_world [OF run] b True by (simp add: BurnCoinsFromBurnAccount_def)
  ultimately show ?thesis by simp
next
  case False
  then have "BurnCoins N w ''burn'' (GetAllBalances N w b) = Inr w'"
    using end_block_world [OF run] b by (simp add: BurnCoinsFromBurnAccount_def)
  from bank.burn [OF bank this] b listed show ?thesis by auto
qed

lemma burn_account_emptied_example:
  "\<exists>s' w'. treasury_EndBlocker ref_sdk ref_keepers ex_oracle 5
       (ex_treasury, ex_world [(alice, ''udo'', 50), (module_addr ''burn'', ''udo'', 7)] []) = Inr (s', w') \<and>
     bal ref_keepers w' (module_addr ''burn'') ''udo'' = 0 \<and> bal ref_keepers w' alice ''udo'' = 50 \<and>
     total_supply ref_keepers w' ''udo'' = 50"
proof -
  define w where "w = ex_world [(alice, ''udo'', 50), (module_addr ''burn'', ''udo'', 7)] []"
  define run where "run = treasury_EndBlocker ref_sdk ref_keepers ex_oracle 5 (ex_treasury, w)"
  have "\<not> isl run" unfolding run_def w_def by code_simp
  then obtain s' w' where r: "run = Inr (s', w')" by (cases run) auto
  have ne: "alice \<noteq> module_addr ''burn''" by (simp add: alice_def module_addr_def ref_module_def)
  then have "\<forall>d. AmountOf (GetAllBalances ref_keepers w (module_addr ''burn'')) d = bal ref_keepers w (module_addr ''burn'') d"
    by (auto simp: w_def ex_world_def ref_bal)
  from burn_account_emptied [OF ref.bank_axioms ref_module_addr this r [unfolded run_def]] ne
  have "bal ref_keepers w' (module_addr ''burn'') ''udo'' = 0 \<and> bal ref_keepers w' alice ''udo'' = 50 \<and>
     total_supply ref_keepers w' ''udo'' = 50"
    by (auto simp: w_def ex_world_def ref_bal ref_supply)
  then show ?thesis using r unfolding run_def w_def by blast
qed

lemma settle_steps:
  assumes "SettleSeigniorage K N dm s w = Inr w'" and "PeekEpochSeigniorage K N w s = Inr g" and "0 < g"
    and "coin_lists K"
  obtains dc c r mc w1 b0 b bc bcs w2 l lc lcs w3 pool ld pool' where
    "NewDecCoin K MicroDoDenom g = Inr dc" "DecCoinTruncate K dc = Inr (c, r)" "NewCoins K [c] = Inr mc"
    "MintCoins N w ''treasury'' mc = Inr w1" "dMulInt K (GetRewardWeight s) (Amount c) = Inr b0"
    "dTruncateInt K b0 = Inr b" "NewCoin K MicroDoDenom b = Inr bc" "NewCoins K [bc] = Inr bcs"
    "BurnCoins N w1 ''treasury'' bcs = Inr w2" "iSub K (Amount c) b = Inr l" "NewCoin K MicroDoDenom l = Inr lc"
    "NewCoins K [lc] = Inr lcs" "SendCoinsFromModuleToModule N w2 ''treasury'' dm lcs = Inr w3"
    "CommunityPool N w3 = Inr pool" "NewDecCoinsFromCoins K lcs = Inr ld" "DecCoinsAdd K pool ld = Inr pool'"
    "w' = SetCommunityPool N w3 pool'"
proof -
  note valid = coin_lists.new_coins_valid [OF assms(4)]
  from assms(1,3) obtain dc c r mc w1 b0 b bc bcs w2 l lc lcs where
    st: "NewDecCoin K MicroDoDenom g = Inr dc" "DecCoinTruncate K dc = Inr (c, r)"
    and mc: "NewCoins K [c] = Inr mc"
    and w1: "(if CoinsIsValid K mc then must (MintCoins N w ''treasury'' mc) else Inr w) = Inr w1"
    and b: "dMulInt K (GetRewardWeight s) (Amount c) = Inr b0" "dTruncateInt K b0 = Inr b"
      "NewCoin K MicroDoDenom b = Inr bc"
    and bcs: "NewCoins K [bc] = Inr bcs"
    and w2: "(if CoinsIsValid K bcs then must (BurnCoins N w1 ''treasury'' bcs) else Inr w1) = Inr w2"
    and l: "iSub K (Amount c) b = Inr l" "NewCoin K MicroDoDenom l = Inr lc"
    and lcs: "NewCoins K [lc] = Inr lcs"
    and last: "(if CoinsIsValid K lcs
          then rbind (must (SendCoinsFromModuleToModule N w2 ''treasury'' dm lcs)) (\<lambda>w3.
               rbind (must (CommunityPool N w3)) (\<lambda>pool.
               rbind (NewDecCoinsFromCoins K lcs) (\<lambda>leftDec.
               rbind (DecCoinsAdd K pool leftDec) (\<lambda>pool'.
               Inr (SetCommunityPool N w3 pool')))))
          else Inr w2) = Inr w'"
    unfolding SettleSeigniorage_def assms(2) rbind_simps by (auto simp: rbind_eq_Inr)
  from last valid [OF lcs] obtain w3 pool ld pool' where
    "SendCoinsFromModuleToModule N w2 ''treasury'' dm lcs = Inr w3" "CommunityPool N w3 = Inr pool"
    "NewDecCoinsFromCoins K lcs = Inr ld" "DecCoinsAdd K pool ld = Inr pool'" "w' = SetCommunityPool N w3 pool'"
    by (auto simp: rbind_eq_Inr)
  moreover have "MintCoins N w ''treasury'' mc = Inr w1" "BurnCoins N w1 ''treasury'' bcs = Inr w2"
    using w1 w2 valid [OF mc] valid [OF bcs] by simp_all
  ultimately show thesis using that st mc b bcs l lcs by blast
qed

lemma new_coins_facts:
  assumes "coin_math K" and "NewCoins K [c] = Inr r"
  shows "coins_ok r \<and> AmountOf r d = (if d = Denom c then Amount c else 0)"
  using assms(2) coin_math.new_coins_one [OF assms(1), of c] by (auto simp: coins_ok_def split: if_splits)

lemma lists_laws:
  assumes "coin_lists K"
  shows "dec_coins_math K" and "coin_math K" and "dec_math K"
proof -
  show "dec_coins_math K" using coin_lists.axioms(1) [OF assms] .
  then show "coin_math K" by (rule dec_coins_math.axioms(1))
  then show "dec_math K" by (rule coin_math.axioms(1))
qed

text \<open>The coins of a settlement: what is minted, burnt and left over.\<close>

lemma settle_amounts:
  assumes laws: "coin_lists K" and weight: "0 \<le> wt" "wt \<le> OneDec" and g0: "0 \<le> g"
    and st: "NewDecCoin K MicroDoDenom g = Inr dc" "DecCoinTruncate K dc = Inr (c, r)"
      "dMulInt K wt (Amount c) = Inr b0" "dTruncateInt K b0 = Inr b" "NewCoin K MicroDoDenom b = Inr bc"
      "iSub K (Amount c) b = Inr l" "NewCoin K MicroDoDenom l = Inr lc"
  shows "c = \<lparr>Denom = MicroDoDenom, Amount = g\<rparr>" and "b = wt * g div PREC" and "0 \<le> b" and "b \<le> g"
    and "bc = \<lparr>Denom = MicroDoDenom, Amount = b\<rparr>" and "lc = \<lparr>Denom = MicroDoDenom, Amount = g - b\<rparr>"
proof -
  note cm = lists_laws(2) [OF laws] and dm = lists_laws(3) [OF laws]
  show c: "c = \<lparr>Denom = MicroDoDenom, Amount = g\<rparr>"
    using st(1,2) coin_lists.new_dec_coin_int [OF laws] coin_math.dec_coin_truncate [OF cm] by (auto split: if_splits)
  have b0: "b0 = wt * g" "fits_dec b0" using st(3) dec_math.mul_int [OF dm] by (auto simp: c split: if_splits)
  show burnt: "b = wt * g div PREC"
    using st(4) dec_math.truncate [OF dm b0(2)] weight g0 by (simp add: b0(1) tquot_nonneg)
  show "0 \<le> b" and "b \<le> g"
    using weight g0 mult_right_mono [OF weight(2) g0] zdiv_mono1 [of "wt * g" "PREC * g" PREC]
    by (auto simp: burnt pos_imp_zdiv_nonneg_iff)
  have "l = g - b" using st(6) dec_math.int_sub [OF dm] by (simp add: c split: if_splits)
  then show "bc = \<lparr>Denom = MicroDoDenom, Amount = b\<rparr>" and "lc = \<lparr>Denom = MicroDoDenom, Amount = g - b\<rparr>"
    using st(5,7) coin_math.new_coin [OF cm] by (auto split: if_splits)
qed

lemma pool_credited:
  assumes laws: "coin_lists K" and "coins_ok cs" and "dec_coins_ok pool"
    and "NewDecCoinsFromCoins K cs = Inr ds" and "DecCoinsAdd K pool ds = Inr pool'"
  shows "DecAmountOf pool' d = DecAmountOf pool d + AmountOf cs d * PREC"
proof -
  have ds: "dec_coins_ok ds" "DecAmountOf ds d = AmountOf cs d * PREC"
    using coin_lists.dec_coins_of [OF laws assms(4)] assms(2) by blast+
  then have "\<forall>e \<in> set ds. 0 \<le> DAmount e" by (auto simp: dec_coins_ok_def less_imp_le)
  then show ?thesis using dec_coins_math.dec_coins_add [OF lists_laws(1) [OF laws] assms(5)] assms(3) ds(2) by simp
qed

text \<open>
  C32: settling the seigniorage creates what it distributes. With \<open>g\<close> the drop of the Do supply
  since the start of the epoch and a reward weight between 0 and 1, the supply grows by
  \<open>g\<close> less the burnt share, the share is the weight of \<open>g\<close> rounded down, the rest goes to the
  distribution module and the community pool is credited with exactly the coins the module
  received; nothing stays with the treasury. This is what \<open>SettleSeigniorage\<close> does when it is called:
  the specification \<open>03_end_block.md\<close> and the comment in \<open>abci.go\<close> give the weighted share to the
  oracle module, the code burns it, and the end-blocker's call is commented out.
\<close>

theorem seigniorage_conserved:
  assumes laws: "coin_lists K" "bank N" "fee_pool N"
    and acc: "GetModuleAddress N ''treasury'' = Some tr" "GetModuleAddress N dm = Some di"
    and weight: "0 \<le> GetRewardWeight s" "GetRewardWeight s \<le> OneDec"
    and pool: "CommunityPool N w = Inr pool" "dec_coins_ok pool"
    and run: "SettleSeigniorage K N dm s w = Inr w'"
  shows "\<exists>g burnt pool'. PeekEpochSeigniorage K N w s = Inr g \<and> 0 \<le> g \<and> burnt = GetRewardWeight s * g div PREC \<and>
     0 \<le> burnt \<and> burnt \<le> g \<and> CommunityPool N w' = Inr pool' \<and>
     (\<forall>d. DecAmountOf pool' d = DecAmountOf pool d + (if d = MicroDoDenom then (g - burnt) * PREC else 0)) \<and>
     (\<forall>x d. bal N w' x d = bal N w x d + (if x = di \<and> d = MicroDoDenom then g - burnt else 0)) \<and>
     (\<forall>d. total_supply N w' d = total_supply N w d + (if d = MicroDoDenom then g - burnt else 0))"
proof -
  obtain g where g: "PeekEpochSeigniorage K N w s = Inr g"
    using run by (auto simp: SettleSeigniorage_def rbind_eq_Inr)
  then have g0: "0 \<le> g" by (auto simp: PeekEpochSeigniorage_def rbind_eq_Inr)
  note cm = lists_laws(2) [OF laws(1)]
  show ?thesis
  proof (cases "g = 0")
    case True
    then have "w' = w" using run g by (simp add: SettleSeigniorage_def)
    then show ?thesis using g pool True by auto
  next
    case False
    with g0 have gpos: "0 < g" by simp
    from run g gpos laws(1) obtain dc c r mc w1 b0 b bc bcs w2 l lc lcs w3 pl ld pool' where
      st: "NewDecCoin K MicroDoDenom g = Inr dc" "DecCoinTruncate K dc = Inr (c, r)" "NewCoins K [c] = Inr mc"
        "MintCoins N w ''treasury'' mc = Inr w1" "dMulInt K (GetRewardWeight s) (Amount c) = Inr b0"
        "dTruncateInt K b0 = Inr b" "NewCoin K MicroDoDenom b = Inr bc" "NewCoins K [bc] = Inr bcs"
        "BurnCoins N w1 ''treasury'' bcs = Inr w2" "iSub K (Amount c) b = Inr l" "NewCoin K MicroDoDenom l = Inr lc"
        "NewCoins K [lc] = Inr lcs" "SendCoinsFromModuleToModule N w2 ''treasury'' dm lcs = Inr w3"
        "CommunityPool N w3 = Inr pl" "NewDecCoinsFromCoins K lcs = Inr ld" "DecCoinsAdd K pl ld = Inr pool'"
        "w' = SetCommunityPool N w3 pool'"
      by (rule settle_steps)
    note amounts = settle_amounts [OF laws(1) weight g0 st(1,2,5,6,7,10,11)]
    note c = amounts(1) and burnt = amounts(2) and bnd = amounts(3,4) and coins = amounts(5,6)
    note am = new_coins_facts [OF cm st(3)] new_coins_facts [OF cm st(8)] new_coins_facts [OF cm st(12)]
    have m: "bal N w1 x d = bal N w x d + (if x = tr then AmountOf mc d else 0)"
        "total_supply N w1 d = total_supply N w d + AmountOf mc d" for x d
      using bank.mint [OF laws(2) st(4)] acc by auto
    have n: "bal N w2 x d = bal N w1 x d - (if x = tr then AmountOf bcs d else 0)"
        "total_supply N w2 d = total_supply N w1 d - AmountOf bcs d" for x d
      using bank.burn [OF laws(2) st(9)] acc by auto
    have mv: "moved N w2 w3 tr di lcs" using bank.module_to_module [OF laws(2) st(13)] acc by simp
    have p: "pl = pool" using st(14) pool fee_pool.mint_pool [OF laws(3) st(4)] fee_pool.burn_pool [OF laws(3) st(9)]
        fee_pool.send_pool [OF laws(3) st(13)] by simp
    have po: "DecAmountOf pool' d = DecAmountOf pool d + AmountOf lcs d * PREC" for d
      using pool_credited [OF laws(1) _ pool(2) st(15)] am(3) st(16) p by blast
    have "CommunityPool N w' = Inr pool'" using st(17) fee_pool.pool_set [OF laws(3)] by simp
    moreover have "bal N w' x d = bal N w x d + (if x = di \<and> d = MicroDoDenom then g - b else 0)" for x d
      unfolding st(17) fee_pool.pool_bal [OF laws(3)] moved_bal [OF mv] n m using am by (simp add: c coins)
    moreover have "total_supply N w' d = total_supply N w d + (if d = MicroDoDenom then g - b else 0)" for d
      unfolding st(17) fee_pool.pool_supply [OF laws(3)] moved_supply [OF mv] n m using am by (simp add: c coins)
    ultimately show ?thesis using g g0 burnt bnd po am(3) coins by (intro exI [of _ g] exI [of _ b] exI [of _ pool']) auto
  qed
qed

theorem seigniorage_conserved_witness:
  "\<exists>w'. SettleSeigniorage ref_sdk ref_keepers ''distribution'' ex_treasury (ex_world [(alice, ''udo'', 5000000)] []) = Inr w' \<and>
     total_supply ref_keepers w' ''udo'' = 6900000 \<and> bal ref_keepers w' (module_addr ''distribution'') ''udo'' = 1900000"
proof -
  define w where "w = ex_world [(alice, ''udo'', 5000000)] []"
  define run where "run = SettleSeigniorage ref_sdk ref_keepers ''distribution'' ex_treasury w"
  have "\<not> isl run" unfolding run_def w_def by code_simp
  then obtain w' where r: "run = Inr w'" by (cases run) auto
  have g: "PeekEpochSeigniorage ref_sdk ref_keepers w ex_treasury = Inr 2000000"
    unfolding w_def by code_simp
  have wt: "GetRewardWeight ex_treasury = 50000000000000000" by code_simp
  have ne: "alice \<noteq> module_addr ''distribution''" by (simp add: alice_def module_addr_def ref_module_def)
  have "CommunityPool ref_keepers w = Inr []" "dec_coins_ok []" by (simp_all add: w_def ex_world_def dec_coins_ok_def)
  from seigniorage_conserved [OF ref.coin_lists_axioms ref.bank_axioms ref.fee_pool_axioms ref_module_addr ref_module_addr
      _ _ this r [unfolded run_def]] wt g ne
  have "total_supply ref_keepers w' ''udo'' = 6900000 \<and> bal ref_keepers w' (module_addr ''distribution'') ''udo'' = 1900000"
    by (auto simp: w_def ex_world_def ref_bal ref_supply MicroDoDenom_def)
  then show ?thesis using r unfolding run_def w_def by blast
qed



section \<open>Genesis\<close>

lemma exported_caps:
  "IterateTaxCap s (\<lambda>denom cap acc. Inr (acc @ [(denom, cap)], False)) [] =
     Inr (map (\<lambda>(k, cap). (tl k, cap)) (storedTaxCaps s))"
proof -
  have "fold (\<lambda>(k, v) acc. acc @ [(tl k, v)]) m acc = acc @ map (\<lambda>(k, v). (tl k, v)) m" for m :: "int kv" and acc
    by (induction m arbitrary: acc) auto
  then show ?thesis by (simp add: IterateTaxCap_def iterate_pure)
qed

lemma init_caps:
  assumes "part_ok GetTaxCapKey m" and "storedTaxCaps s = []"
  shows "fold (\<lambda>(d, c) s. SetTaxCap s d c) (map (\<lambda>(k, c). (tl k, c)) m) s = s\<lparr>storedTaxCaps := m\<rparr>"
proof -
  have "fold (\<lambda>(d, c) s. SetTaxCap s d c) (map (\<lambda>(k, c). (tl k, c)) m) s =
      fold (\<lambda>(k, v). storedTaxCaps_update (\<lambda>m. kv_set k v m)) m s"
    using assms(1) part_ok_key [OF assms(1)]
    by (auto simp: fold_map SetTaxCap_def GetTaxCapKey_def intro!: fold_cong ext)
      (metis (no_types, lifting) list.sel(3) treasury_store.fold_congs(3))
  also have "\<dots> = s\<lparr>storedTaxCaps := m\<rparr>"
    by (rule rebuild_field [where upd = storedTaxCaps_update and fld = storedTaxCaps])
      (use assms in \<open>auto simp: part_ok_def intro: treasury_store.fold_congs\<close>)
  finally show ?thesis .
qed


lemma epoch_frames [simp]:
  "GetTR (SetSR s e v) k = GetTR s k" "GetTR (SetTSL s e n) k = GetTR s k"
  "GetSR (SetTR s e v) k = GetSR s k" "GetSR (SetTSL s e n) k = GetSR s k"
  "GetTSL (SetTR s e v) k = GetTSL s k" "GetTSL (SetSR s e v) k = GetTSL s k"
  by (simp_all add: GetTR_def GetSR_def GetTSL_def SetTR_def SetSR_def SetTSL_def)

definition put_epoch :: "EpochState \<Rightarrow> treasury_store \<Rightarrow> treasury_store" where
  "put_epoch e s = SetTSL (SetSR (SetTR s (i64 (Epoch e)) (TaxReward e)) (i64 (Epoch e)) (SeigniorageReward e))
     (i64 (Epoch e)) (TotalStakedDo e)"

lemma put_epochs_frame:
  "tparams (fold put_epoch es t) = tparams t \<and> GetTaxRate (fold put_epoch es t) = GetTaxRate t \<and>
   GetRewardWeight (fold put_epoch es t) = GetRewardWeight t \<and> storedTaxCaps (fold put_epoch es t) = storedTaxCaps t \<and>
   PeekEpochTaxProceeds (fold put_epoch es t) = PeekEpochTaxProceeds t \<and>
   GetEpochInitialIssuance (fold put_epoch es t) = GetEpochInitialIssuance t \<and> exemptions (fold put_epoch es t) = exemptions t"
proof (induction es arbitrary: t)
  case (Cons e es)
  show ?case using Cons.IH [of "put_epoch e t"]
    by (simp add: put_epoch_def SetTSL_def SetSR_def SetTR_def PeekEpochTaxProceeds_def GetEpochInitialIssuance_def
        GetTaxRate_def GetRewardWeight_def)
qed simp

lemma put_epochs_get:
  assumes "\<forall>k \<in> set ks. 0 \<le> k \<and> k < 2 ^ 63" and "0 \<le> e" and "e < 2 ^ 63"
  shows "GetTR (fold put_epoch (map (epoch_state s) ks) t) e = (if e \<in> set ks then GetTR s e else GetTR t e) \<and>
    GetSR (fold put_epoch (map (epoch_state s) ks) t) e = (if e \<in> set ks then GetSR s e else GetSR t e) \<and>
    GetTSL (fold put_epoch (map (epoch_state s) ks) t) e = (if e \<in> set ks then GetTSL s e else GetTSL t e)"
  using assms(1)
proof (induction ks arbitrary: t)
  case (Cons k ks)
  then have k: "0 \<le> k" "k < 2 ^ 63" by auto
  then have eq: "i64 k = k" "u64 e = u64 k \<longleftrightarrow> e = k" using assms(2,3) by (simp_all add: i64_id_nonneg u64_id)
  have "GetTR (put_epoch (epoch_state s k) t) e = (if e = k then GetTR s e else GetTR t e)"
      "GetSR (put_epoch (epoch_state s k) t) e = (if e = k then GetSR s e else GetSR t e)"
      "GetTSL (put_epoch (epoch_state s k) t) e = (if e = k then GetTSL s e else GetTSL t e)"
    by (simp_all add: put_epoch_def epoch_state_def eq GetTR_SetTR GetSR_SetSR GetTSL_SetTSL)
  then show ?case using Cons by auto
qed simp

lemma GetEpoch_range: "0 \<le> h \<Longrightarrow> h < 2 ^ 63 \<Longrightarrow> 0 \<le> GetEpoch h \<and> GetEpoch h < 2 ^ 63"
  using tquot_le [of h BlocksPerWeek] tquot_nonneg_ge [of h BlocksPerWeek]
  by (simp add: GetEpoch_def block_counts)

text \<open>
  C33: a genesis round trip keeps the treasury, except for the burn tax exemptions. Importing an
  exported state brings back the parameters, both rates, the tax caps, the epoch's proceeds and
  initial issuance, and the indicators of every finished epoch; but the exemption list is empty
  afterwards, whatever it was, because it is not part of the genesis state.
\<close>

theorem treasury_genesis_round_trip:
  assumes params: "treasury_ParamSetPairs K (tparams s) = Inr ()" and caps: "part_ok GetTaxCapKey (storedTaxCaps s)"
    and acc: "GetModuleAddress N ''treasury'' \<noteq> None" "GetModuleAddress N ''burn'' \<noteq> None"
    and issued: "\<not> coins_IsZero (GetEpochInitialIssuance s)" and h: "0 \<le> h" "h < 2 ^ 63"
  shows "\<exists>s'. rbind (treasury_ExportGenesis h s) (treasury_InitGenesis K N os w (empty_treasury p)) = Inr s' \<and>
     tparams s' = tparams s \<and> GetTaxRate s' = GetTaxRate s \<and> GetRewardWeight s' = GetRewardWeight s \<and>
     storedTaxCaps s' = storedTaxCaps s \<and> PeekEpochTaxProceeds s' = PeekEpochTaxProceeds s \<and>
     GetEpochInitialIssuance s' = GetEpochInitialIssuance s \<and> exemptions s' = [] \<and>
     (\<forall>e. 0 \<le> e \<and> e < GetEpoch h \<longrightarrow> GetTR s' e = GetTR s e \<and> GetSR s' e = GetSR s e \<and> GetTSL s' e = GetTSL s e)"
proof -
  obtain ks where ks: "exported_epochs h = Inr ks" "\<forall>k \<in> set ks. 0 \<le> k \<and> k < 2 ^ 63" "\<forall>e. 0 \<le> e \<and> e < GetEpoch h \<longrightarrow> e \<in> set ks"
    using GetEpoch_range [OF h] by (auto simp: exported_epochs_def IsPeriodLastBlock_def block_counts rbind_def)
  define t where "t = SetEpochInitialIssuance (SetEpochTaxProceeds (SetRewardWeight (SetTaxRate
      ((empty_treasury p)\<lparr>tparams := tparams s\<rparr>) (GetTaxRate s)) (GetRewardWeight s)) (PeekEpochTaxProceeds s))
      (GetEpochInitialIssuance s)"
  have t: "storedTaxCaps t = []" "tparams t = tparams s" "GetTaxRate t = GetTaxRate s" "GetRewardWeight t = GetRewardWeight s"
      "PeekEpochTaxProceeds t = PeekEpochTaxProceeds s" "GetEpochInitialIssuance t = GetEpochInitialIssuance s" "exemptions t = []"
    by (simp_all add: t_def empty_treasury_def SetEpochInitialIssuance_def SetEpochTaxProceeds_def SetRewardWeight_def
        SetTaxRate_def PeekEpochTaxProceeds_def GetEpochInitialIssuance_def GetTaxRate_def GetRewardWeight_def)
  define s' where "s' = fold put_epoch (map (epoch_state s) ks) (t\<lparr>storedTaxCaps := storedTaxCaps s\<rparr>)"
  have "rbind (treasury_ExportGenesis h s) (treasury_InitGenesis K N os w (empty_treasury p)) = Inr s'"
    using params acc issued
    by (auto simp: treasury_ExportGenesis_def treasury_InitGenesis_def treasury_SetParams_def exported_caps ks(1) Let_def
        s'_def put_epoch_def [abs_def] init_caps [OF caps] t_def [symmetric] t)
  moreover have "tparams s' = tparams s \<and> GetTaxRate s' = GetTaxRate s \<and> GetRewardWeight s' = GetRewardWeight s \<and>
     storedTaxCaps s' = storedTaxCaps s \<and> PeekEpochTaxProceeds s' = PeekEpochTaxProceeds s \<and>
     GetEpochInitialIssuance s' = GetEpochInitialIssuance s \<and> exemptions s' = []"
    using put_epochs_frame [of "map (epoch_state s) ks" "t\<lparr>storedTaxCaps := storedTaxCaps s\<rparr>"] t
    by (simp add: s'_def PeekEpochTaxProceeds_def GetEpochInitialIssuance_def GetTaxRate_def GetRewardWeight_def)
  moreover have "GetTR s' e = GetTR s e \<and> GetSR s' e = GetSR s e \<and> GetTSL s' e = GetTSL s e" if "0 \<le> e" "e < GetEpoch h" for e
    using put_epochs_get [OF ks(2), of e s] ks(3) that GetEpoch_range [OF h] by (simp add: s'_def)
  ultimately show ?thesis by blast
qed

theorem treasury_genesis_round_trip_witness:
  "\<exists>s'. rbind (treasury_ExportGenesis ex_week13 (ex_treasury\<lparr>exemptions := [(exemption_key ''do1a'', ())]\<rparr>))
       (treasury_InitGenesis ref_sdk ref_keepers ex_oracle (ex_world [] []) (empty_treasury treasury_DefaultParams)) = Inr s' \<and>
     PeekEpochTaxProceeds s' = [\<lparr>Denom = ''udo'', Amount = 30000\<rparr>] \<and> exemptions s' = []"
proof -
  let ?s = "ex_treasury\<lparr>exemptions := [(exemption_key ''do1a'', ())]\<rparr>"
  have "treasury_ParamSetPairs ref_sdk (tparams ?s) = Inr ()" by code_simp
  moreover have "part_ok GetTaxCapKey (storedTaxCaps ?s)"
    by (simp add: ex_treasury_def empty_treasury_def SetEpochTaxProceeds_def SetEpochInitialIssuance_def)
  moreover have "GetModuleAddress ref_keepers ''treasury'' \<noteq> None" "GetModuleAddress ref_keepers ''burn'' \<noteq> None"
    by (simp_all add: ref_module_def)
  moreover have "\<not> coins_IsZero (GetEpochInitialIssuance ?s)" by code_simp
  moreover have "0 \<le> ex_week13" "ex_week13 < 2 ^ 63" by (simp_all add: ex_week13_def)
  moreover have "PeekEpochTaxProceeds ?s = [\<lparr>Denom = ''udo'', Amount = 30000\<rparr>]" by code_simp
  ultimately show ?thesis
    using treasury_genesis_round_trip [of ref_sdk ?s ref_keepers ex_week13 ex_oracle "ex_world [] []" treasury_DefaultParams] by auto
qed

text \<open>
  C34: the reward policy can halt the chain. Take an end-block that closes an epoch after the
  probation, where the seigniorage and the total rewards summed over the short window are both not
  zero but their quotient, the seigniorage burden, rounds to zero at 18 decimals. The check for no
  revenues passes, the burden target is divided by the burden, and the update of the reward weight
  panics, and with it the end-blocker. That happens only when the seigniorage is less than
  \<open>10^-18\<close> of the rewards.
\<close>

theorem reward_policy_division_by_zero:
  assumes "dec_math K" and "policy_update_due h s" and "BurnCoinsFromBurnAccount N w = Inr w1"
    and "UpdateIndicators K N os h w1 s = Inr s1" and "UpdateTaxPolicy K h s1 = Inr (t, s2)"
    and "sumIndicator K h (i64 (WindowShort (tparams s2))) (SR s2) = Inr sg" "sg \<noteq> 0"
    and "sumIndicator K h (i64 (WindowShort (tparams s2))) (MR K s2) = Inr tot" "tot \<noteq> 0"
    and "dQuo K sg tot = Inr 0"
  shows "\<bar>sg\<bar> * PREC < \<bar>tot\<bar> \<and> UpdateRewardPolicy K h s2 = Inl Panic \<and> treasury_EndBlocker K N os h (s, w) = Inl Panic"
proof -
  have "UpdateRewardPolicy K h s2 = Inl Panic"
    using assms(6-10) dec_math.quo_zero [OF assms(1)] by (simp add: UpdateRewardPolicy_def Let_def)
  moreover from this have "treasury_EndBlocker K N os h (s, w) = Inl Panic"
    using assms(2-5) indicators_frame [OF assms(4)] by (simp add: treasury_EndBlocker_def policy_update_due_def)
  moreover have "\<bar>sg\<bar> * PREC < \<bar>tot\<bar>"
    using dec_math.quo_near [OF assms(1,9,10)] by (simp add: abs_mult)
  ultimately show ?thesis by blast
qed

text \<open>One unit of seigniorage beside taxes of two hundred thousand million Do, with default parameters.\<close>

definition ex_burden :: treasury_store where
  "ex_burden = SetEpochTaxProceeds ex_treasury [\<lparr>Denom = ''udo'', Amount = 200000000000000000\<rparr>]"

definition ex_burden_world :: ref_world where
  "ex_burden_world = ex_world [(alice, ''udo'', 6999999)] [(alice, 10)]"

definition burden_sums :: "(dec \<times> dec) result" where
  "burden_sums =
     rbind (BurnCoinsFromBurnAccount ref_keepers ex_burden_world) (\<lambda>w1.
     rbind (UpdateIndicators ref_sdk ref_keepers ex_oracle ex_week13 w1 ex_burden) (\<lambda>s1.
     rbind (UpdateTaxPolicy ref_sdk ex_week13 s1) (\<lambda>(t, s2).
     rbind (sumIndicator ref_sdk ex_week13 (i64 (WindowShort (tparams s2))) (SR s2)) (\<lambda>sg.
     rbind (sumIndicator ref_sdk ex_week13 (i64 (WindowShort (tparams s2))) (MR ref_sdk s2)) (\<lambda>tot.
     Inr (sg, tot))))))"

theorem reward_policy_division_by_zero_witness:
  "treasury_Params_Validate ref_sdk (tparams ex_burden) = Inr () \<and>
   treasury_EndBlocker ref_sdk ref_keepers ex_oracle ex_week13 (ex_burden, ex_burden_world) = Inl Panic"
proof
  show "treasury_Params_Validate ref_sdk (tparams ex_burden) = Inr ()" by code_simp
  have "case burden_sums of Inl e \<Rightarrow> False | Inr (sg, tot) \<Rightarrow> sg \<noteq> 0 \<and> tot \<noteq> 0 \<and> dQuo ref_sdk sg tot = Inr 0" by code_simp
  then obtain sg tot where "burden_sums = Inr (sg, tot)" and sums: "sg \<noteq> 0" "tot \<noteq> 0" "dQuo ref_sdk sg tot = Inr 0"
    by (auto split: sum.splits)
  then obtain w1 s1 t s2 where run: "BurnCoinsFromBurnAccount ref_keepers ex_burden_world = Inr w1"
      "UpdateIndicators ref_sdk ref_keepers ex_oracle ex_week13 w1 ex_burden = Inr s1" "UpdateTaxPolicy ref_sdk ex_week13 s1 = Inr (t, s2)"
      "sumIndicator ref_sdk ex_week13 (i64 (WindowShort (tparams s2))) (SR s2) = Inr sg"
      "sumIndicator ref_sdk ex_week13 (i64 (WindowShort (tparams s2))) (MR ref_sdk s2) = Inr tot"
    unfolding burden_sums_def by (auto simp: rbind_eq_Inr)
  have "policy_update_due ex_week13 ex_burden" by code_simp
  from reward_policy_division_by_zero [OF ref.dec_math_axioms this run(1-4) sums(1) run(5) sums(2,3)]
  show "treasury_EndBlocker ref_sdk ref_keepers ex_oracle ex_week13 (ex_burden, ex_burden_world) = Inl Panic" by blast
qed

end
