(* ===== verification/Vesting.thy ===== *)
theory Vesting
  imports Core_Types
begin

text \<open>
  \<open>src/x/vesting\<close>: lazy graded vesting accounts. A denom vests along a list of schedules, each
  of which releases its ratio linearly between its start and its end. The base vesting account
  is SDK code: its operations are the record \<open>base_vesting\<close>, an argument of the account's
  operations.
\<close>


section \<open>Schedules (schedule.go)\<close>

record Schedule =
  StartTime :: int
  EndTime :: int
  Ratio :: dec

record VestingSchedule =
  vsDenom :: string
  Schedules :: "Schedule list"

definition schedule_Validate :: "Schedule \<Rightarrow> unit result" where
  "schedule_Validate s =
     rbind (fail_if (StartTime s < 0) (Text ''vesting start-time cannot be negative'')) (\<lambda>_.
     rbind (fail_if (EndTime s < StartTime s) (Text ''vesting start-time cannot be before end-time'')) (\<lambda>_.
     fail_if (Ratio s \<le> 0) (Text ''vesting ratio cannot be smaller than or equal with zero'')))"

definition schedule_ratio :: "sdk \<Rightarrow> int \<Rightarrow> Schedule \<Rightarrow> dec \<Rightarrow> dec result" where
  "schedule_ratio K blockTime s sumRatio =
     (if blockTime < StartTime s then Inr sumRatio
      else rbind (if blockTime < EndTime s
                  then rbind (dMulInt K (Ratio s) (i64 (blockTime - StartTime s))) (\<lambda>r.
                       dQuoInt K r (i64 (EndTime s - StartTime s)))
                  else Inr (Ratio s)) (\<lambda>ratio.
           dAdd K sumRatio ratio))"

definition GetVestedRatio :: "sdk \<Rightarrow> VestingSchedule \<Rightarrow> int \<Rightarrow> dec result" where
  "GetVestedRatio K vs blockTime = fold_res (schedule_ratio K blockTime) (Schedules vs) 0"

definition RoundInt64 :: "sdk \<Rightarrow> dec \<Rightarrow> int result" where
  "RoundInt64 K x = rbind (dRoundInt K x) (\<lambda>n. if in_i64 n then Inr n else Inl Panic)"

definition vesting_schedule_Validate :: "sdk \<Rightarrow> VestingSchedule \<Rightarrow> unit result" where
  "vesting_schedule_Validate K vs =
     rbind (fold_res (\<lambda>s sumRatio. rbind (schedule_Validate s) (\<lambda>_. dAdd K sumRatio (Ratio s)))
              (Schedules vs) 0) (\<lambda>sumRatio.
     rbind (dMulInt K sumRatio 1000000000) (\<lambda>x.
     rbind (RoundInt64 K x) (\<lambda>n.
     rbind (dQuoInt K (NewDec n) 1000000000) (\<lambda>r.
     fail_if (r \<noteq> OneDec) (Text ''vesting total ratio must be one'')))))"


section \<open>Accounts (vesting\_account.go)\<close>

record BaseVestingAccount =
  OriginalVesting :: "coin list"
  DelegatedFree :: "coin list"
  DelegatedVesting :: "coin list"
  BaseEndTime :: int

record LazyGradedVestingAccount =
  BaseAccount :: BaseVestingAccount
  VestingSchedules :: "VestingSchedule list"

record base_vesting =
  LockedCoinsFromVesting :: "BaseVestingAccount \<Rightarrow> coin list \<Rightarrow> coin list result"
  BaseTrackDelegation :: "BaseVestingAccount \<Rightarrow> coin list \<Rightarrow> coin list \<Rightarrow> coin list \<Rightarrow> BaseVestingAccount result"
  BaseValidate :: "BaseVestingAccount \<Rightarrow> unit result"

definition NewLazyGradedVestingAccount :: "coin list \<Rightarrow> VestingSchedule list \<Rightarrow> LazyGradedVestingAccount" where
  "NewLazyGradedVestingAccount originalVesting schedules =
     \<lparr>BaseAccount = \<lparr>OriginalVesting = originalVesting, DelegatedFree = [], DelegatedVesting = [], BaseEndTime = 0\<rparr>,
      VestingSchedules = schedules\<rparr>"

definition GetVestingSchedule :: "LazyGradedVestingAccount \<Rightarrow> string \<Rightarrow> VestingSchedule option" where
  "GetVestingSchedule a denom = find (\<lambda>vs. vsDenom vs = denom) (VestingSchedules a)"

definition vest_coin :: "sdk \<Rightarrow> LazyGradedVestingAccount \<Rightarrow> int \<Rightarrow> coin \<Rightarrow> coin list \<Rightarrow> coin list result" where
  "vest_coin K a blockTime ovc vestedCoins =
     (case GetVestingSchedule a (Denom ovc) of
        Some vs \<Rightarrow>
          rbind (GetVestedRatio K vs blockTime) (\<lambda>vestedRatio.
          rbind (dMul K (NewDec (Amount ovc)) vestedRatio) (\<lambda>x.
          rbind (dRoundInt K x) (\<lambda>vestedAmt.
          if vestedAmt = 0 then Inr vestedCoins
          else rbind (NewCoin K (Denom ovc) vestedAmt) (\<lambda>c. Inr (vestedCoins @ [c])))))
      | None \<Rightarrow> rbind (NewCoin K (Denom ovc) (Amount ovc)) (\<lambda>c. Inr (vestedCoins @ [c])))"

definition GetVestedCoins :: "sdk \<Rightarrow> LazyGradedVestingAccount \<Rightarrow> int \<Rightarrow> coin list result" where
  "GetVestedCoins K a blockTime = fold_res (vest_coin K a blockTime) (OriginalVesting (BaseAccount a)) []"

definition GetVestingCoins :: "sdk \<Rightarrow> LazyGradedVestingAccount \<Rightarrow> int \<Rightarrow> coin list result" where
  "GetVestingCoins K a blockTime =
     rbind (GetVestedCoins K a blockTime) (\<lambda>vested. CoinsSub K (OriginalVesting (BaseAccount a)) vested)"

definition LockedCoins :: "sdk \<Rightarrow> base_vesting \<Rightarrow> LazyGradedVestingAccount \<Rightarrow> int \<Rightarrow> coin list result" where
  "LockedCoins K B a blockTime =
     rbind (GetVestingCoins K a blockTime) (\<lambda>vesting. LockedCoinsFromVesting B (BaseAccount a) vesting)"

definition TrackDelegation ::
    "sdk \<Rightarrow> base_vesting \<Rightarrow> LazyGradedVestingAccount \<Rightarrow> int \<Rightarrow> coin list \<Rightarrow> coin list \<Rightarrow> LazyGradedVestingAccount result" where
  "TrackDelegation K B a blockTime balance amount =
     rbind (GetVestingCoins K a blockTime) (\<lambda>vesting.
     rbind (BaseTrackDelegation B (BaseAccount a) balance vesting amount) (\<lambda>b.
     Inr (a\<lparr>BaseAccount := b\<rparr>)))"

definition account_Validate :: "sdk \<Rightarrow> base_vesting \<Rightarrow> LazyGradedVestingAccount \<Rightarrow> unit result" where
  "account_Validate K B a =
     rbind (fold_res (\<lambda>vs seen.
              rbind (fail_if (vsDenom vs \<in> set seen) (Text ''cannot have multiple vesting schedules'')) (\<lambda>_.
              rbind (vesting_schedule_Validate K vs) (\<lambda>_.
              Inr (vsDenom vs # seen)))) (VestingSchedules a) []) (\<lambda>_.
     BaseValidate B (BaseAccount a))"


section \<open>Ratios over time\<close>

definition schedule_ok :: "Schedule \<Rightarrow> bool" where
  "schedule_ok s \<longleftrightarrow> 0 \<le> StartTime s \<and> StartTime s \<le> EndTime s \<and> 0 < Ratio s \<and> EndTime s < 2 ^ 63"

text \<open>What one schedule has released: a clipped line, rounded down.\<close>

definition released :: "int \<Rightarrow> Schedule \<Rightarrow> dec" where
  "released t s = (if t < StartTime s then 0
     else if t < EndTime s then Ratio s * (t - StartTime s) div (EndTime s - StartTime s)
     else Ratio s)"

lemma released_mono: "schedule_ok s \<Longrightarrow> t \<le> t' \<Longrightarrow> released t s \<le> released t' s"
proof -
  assume ok: "schedule_ok s" and le: "t \<le> t'"
  let ?q = "\<lambda>t. Ratio s * (t - StartTime s) div (EndTime s - StartTime s)"
  have q0: "0 \<le> ?q u" if "StartTime s \<le> u" "u < EndTime s" for u
    using ok that by (simp add: pos_imp_zdiv_nonneg_iff schedule_ok_def)
  have qm: "?q t \<le> ?q t'" if "t' < EndTime s" "StartTime s \<le> t"
    using ok le that by (intro zdiv_mono1 mult_left_mono) (auto simp: schedule_ok_def)
  have qr: "?q u \<le> Ratio s" if "StartTime s \<le> u" "u < EndTime s" for u
  proof -
    have "Ratio s * (u - StartTime s) \<le> Ratio s * (EndTime s - StartTime s)"
      using ok that by (intro mult_left_mono) (auto simp: schedule_ok_def)
    from zdiv_mono1 [OF this, of "EndTime s - StartTime s"] that show ?thesis by simp
  qed
  show ?thesis using ok le q0 [of t'] qm qr [of t]
    by (auto simp: released_def schedule_ok_def)
qed

lemma released_bounds:
  assumes "schedule_ok s"
  shows "0 \<le> released t s" and "released t s \<le> Ratio s"
  using released_mono [OF assms, of "min t (StartTime s - 1)" t] released_mono [OF assms, of t "max t (EndTime s)"] assms
  by (auto simp: released_def schedule_ok_def min_def max_def split: if_splits)

context dec_math begin

lemma schedule_ratio_released:
  assumes "schedule_ratio K t s a = Inr b" and ok: "schedule_ok s"
  shows "b = a + released t s"
proof (cases "StartTime s \<le> t \<and> t < EndTime s")
  case True
  then have "i64 (t - StartTime s) = t - StartTime s" "i64 (EndTime s - StartTime s) = EndTime s - StartTime s"
    using ok by (auto simp: schedule_ok_def intro!: i64_id_nonneg)
  with assms(1) True obtain r where "dAdd K a (tquot (Ratio s * (t - StartTime s)) (EndTime s - StartTime s)) = Inr b"
    by (auto simp: schedule_ratio_def rbind_eq_Inr dest!: mul_int_Inr quo_int_Inr)
  moreover have "0 \<le> Ratio s * (t - StartTime s)" using True ok by (auto simp: schedule_ok_def)
  ultimately show ?thesis using True by (auto simp: released_def tquot_nonneg dest!: add_Inr)
qed (use assms in \<open>auto simp: schedule_ratio_def released_def dest!: add_Inr\<close>)

lemma vested_ratio_released:
  assumes "GetVestedRatio K vs t = Inr r" and "\<forall>s \<in> set (Schedules vs). schedule_ok s"
  shows "r = sum_list (map (released t) (Schedules vs))"
proof -
  have "fold_res (schedule_ratio K t) ss a = Inr r \<Longrightarrow> \<forall>s \<in> set ss. schedule_ok s \<Longrightarrow>
      r = a + sum_list (map (released t) ss)" for ss a
    by (induction ss arbitrary: a) (fastforce simp: rbind_eq_Inr add.assoc dest!: schedule_ratio_released)+
  from this [of "Schedules vs" 0] show ?thesis using assms by (simp add: GetVestedRatio_def)
qed

end

lemma validated_schedules:
  assumes "vesting_schedule_Validate K vs = Inr ()" and "\<forall>s \<in> set (Schedules vs). EndTime s < 2 ^ 63"
  shows "\<forall>s \<in> set (Schedules vs). schedule_ok s"
proof -
  have "fold_res (\<lambda>s sumRatio. rbind (schedule_Validate s) (\<lambda>_. dAdd K sumRatio (Ratio s))) ss a = Inr r \<Longrightarrow>
      \<forall>s \<in> set ss. 0 \<le> StartTime s \<and> StartTime s \<le> EndTime s \<and> 0 < Ratio s" for ss a r
    by (induction ss arbitrary: a) (auto simp: rbind_eq_Inr schedule_Validate_def)
  then show ?thesis using assms by (fastforce simp: vesting_schedule_Validate_def rbind_eq_Inr schedule_ok_def)
qed


text \<open>
  C29: vesting never goes back. For a validated schedule the vested ratio is never negative, never
  decreases with time, never exceeds the sum of the schedules' ratios and equals it once every
  schedule has ended.
\<close>

theorem vested_ratio_monotone:
  assumes laws: "dec_math K" and valid: "vesting_schedule_Validate K vs = Inr ()"
    and times: "\<forall>s \<in> set (Schedules vs). EndTime s < 2 ^ 63"
    and run: "GetVestedRatio K vs t = Inr r" "GetVestedRatio K vs t' = Inr r'" and le: "t \<le> t'"
  shows "0 \<le> r \<and> r \<le> r' \<and> r' \<le> sum_list (map Ratio (Schedules vs)) \<and>
     ((\<forall>s \<in> set (Schedules vs). EndTime s \<le> t') \<longrightarrow> r' = sum_list (map Ratio (Schedules vs)))"
proof -
  note ok = validated_schedules [OF valid times]
  have r: "r = sum_list (map (released t) (Schedules vs))" "r' = sum_list (map (released t') (Schedules vs))"
    using dec_math.vested_ratio_released [OF laws] run ok by blast+
  have "0 \<le> r" unfolding r by (intro sum_list_nonneg) (use ok released_bounds in auto)
  moreover have "r \<le> r'" unfolding r by (intro sum_list_mono) (use ok le released_mono in auto)
  moreover have "r' \<le> sum_list (map Ratio (Schedules vs))"
    unfolding r by (intro sum_list_mono) (use ok released_bounds in auto)
  moreover have "r' = sum_list (map Ratio (Schedules vs))" if "\<forall>s \<in> set (Schedules vs). EndTime s \<le> t'"
  proof -
    have "map (released t') (Schedules vs) = map Ratio (Schedules vs)"
      using that ok by (auto simp: released_def schedule_ok_def)
    then show ?thesis unfolding r by (rule arg_cong)
  qed
  ultimately show ?thesis by simp
qed

definition ex_schedule :: VestingSchedule where
  "ex_schedule = \<lparr>vsDenom = ''udo'', Schedules =
     [\<lparr>StartTime = 100, EndTime = 200, Ratio = 400000000000000000\<rparr>,
      \<lparr>StartTime = 150, EndTime = 450, Ratio = 600000000000000000\<rparr>]\<rparr>"

theorem vested_ratio_monotone_witness:
  "GetVestedRatio ref_sdk ex_schedule 150 = Inr 200000000000000000 \<and>
   200000000000000000 \<le> (1000000000000000000 :: int) \<and>
   1000000000000000000 = sum_list (map Ratio (Schedules ex_schedule))"
proof -
  have valid: "vesting_schedule_Validate ref_sdk ex_schedule = Inr ()" by code_simp
  have times: "\<forall>s \<in> set (Schedules ex_schedule). EndTime s < 2 ^ 63" by code_simp
  have r: "GetVestedRatio ref_sdk ex_schedule 150 = Inr 200000000000000000" by code_simp
  have r': "GetVestedRatio ref_sdk ex_schedule 500 = Inr 1000000000000000000" by code_simp
  have "\<forall>s \<in> set (Schedules ex_schedule). EndTime s \<le> 500" by code_simp
  then show ?thesis using r vested_ratio_monotone [OF ref.dec_math_axioms valid times r r'] by simp
qed


section \<open>Vested and vesting coins\<close>

definition vested_right :: "sdk \<Rightarrow> LazyGradedVestingAccount \<Rightarrow> int \<Rightarrow> coin \<Rightarrow> int \<Rightarrow> bool" where
  "vested_right K a t c n \<longleftrightarrow> (case GetVestingSchedule a (Denom c) of
     None \<Rightarrow> n = Amount c
   | Some vs \<Rightarrow> \<exists>r. GetVestedRatio K vs t = Inr r \<and> 2 * \<bar>n * PREC - Amount c * r\<bar> \<le> PREC)"

context coin_math begin

lemma mul_whole: "dMul K (NewDec n) r = Inr x \<Longrightarrow> x = n * r"
proof -
  assume "dMul K (NewDec n) r = Inr x"
  then have "2 * \<bar>x * PREC - n * r * PREC\<bar> \<le> PREC" using mul_near [of "NewDec n" r x] by (simp add: NewDec_def mult_ac)
  then have "\<bar>x * PREC - n * r * PREC\<bar> < \<bar>PREC\<bar>" by simp
  then show "x = n * r" by (rule near_multiple_unique)
qed

lemma vest_coin_step:
  assumes "vest_coin K a t c acc = Inr v" and "Denom c \<notin> Denom ` set acc"
  shows "vested_right K a t c (AmountOf v (Denom c)) \<and> Denom ` set v \<subseteq> insert (Denom c) (Denom ` set acc) \<and>
    (\<forall>d. d \<noteq> Denom c \<longrightarrow> AmountOf v d = AmountOf acc d)"
proof -
  have zero: "AmountOf acc (Denom c) = 0" using assms(2) by (induction acc) auto
  show ?thesis
  proof (cases "GetVestingSchedule a (Denom c)")
    case None
    then show ?thesis using assms(1) zero new_coin
      by (auto simp: vest_coin_def vested_right_def rbind_eq_Inr split: if_splits)
  next
    case (Some vs)
    then obtain r n where r: "GetVestedRatio K vs t = Inr r" and n: "dRoundInt K (Amount c * r) = Inr n"
      and v: "(if n = 0 then Inr acc else rbind (NewCoin K (Denom c) n) (\<lambda>c. Inr (acc @ [c]))) = Inr v"
      using assms(1) by (auto simp: vest_coin_def rbind_eq_Inr dest!: mul_whole)
    then show ?thesis using Some zero new_coin round_near [OF n]
      by (auto simp: vested_right_def rbind_eq_Inr split: if_splits)
  qed
qed

lemma disjoint_extend: "U \<subseteq> insert x B \<Longrightarrow> x \<notin> A \<Longrightarrow> A \<inter> B = {} \<Longrightarrow> A \<inter> U = {}"
  by blast

lemma vested_coins_right:
  assumes "fold_res (vest_coin K a t) cs acc = Inr v" and "distinct (map Denom cs)"
    and "Denom ` set cs \<inter> Denom ` set acc = {}"
  shows "(\<forall>c \<in> set cs. vested_right K a t c (AmountOf v (Denom c))) \<and>
    (\<forall>d. d \<notin> Denom ` set cs \<longrightarrow> AmountOf v d = AmountOf acc d)"
  using assms
proof (induction cs arbitrary: acc)
  case (Cons c cs)
  then obtain u where u: "vest_coin K a t c acc = Inr u" and rest: "fold_res (vest_coin K a t) cs u = Inr v"
    by (auto simp: rbind_eq_Inr)
  have "Denom c \<notin> Denom ` set acc" using Cons.prems(3) by auto
  note st = vest_coin_step [OF u this]
  have "Denom ` set cs \<inter> Denom ` set u = {}"
  proof (rule disjoint_extend)
    show "Denom ` set u \<subseteq> insert (Denom c) (Denom ` set acc)" using st by blast
    show "Denom c \<notin> Denom ` set cs" using Cons.prems(2) by simp
    show "Denom ` set cs \<inter> Denom ` set acc = {}" using Cons.prems(3) by simp
  qed
  note IH = Cons.IH [OF rest _ this]
  show ?case using IH st Cons.prems(2) by auto
qed simp

end

text \<open>
  Vested and vesting coins split the original vesting. Every denom without a schedule is
  vested in full, every denom with one to the nearest unit of its amount times the vested
  ratio, and what is still vesting is exactly the rest, never negative.
\<close>

lemma vesting_splits_original:
  assumes laws: "coin_math K" and ok: "coins_ok (OriginalVesting (BaseAccount a))"
    and run: "GetVestingCoins K a t = Inr vesting"
  shows "\<exists>vested. GetVestedCoins K a t = Inr vested \<and>
     (\<forall>c \<in> set (OriginalVesting (BaseAccount a)). vested_right K a t c (AmountOf vested (Denom c))) \<and>
     (\<forall>d. AmountOf vesting d = AmountOf (OriginalVesting (BaseAccount a)) d - AmountOf vested d \<and> 0 \<le> AmountOf vesting d)"
proof -
  from run obtain v where v: "GetVestedCoins K a t = Inr v"
    and sub: "CoinsSub K (OriginalVesting (BaseAccount a)) v = Inr vesting"
    by (auto simp: GetVestingCoins_def rbind_eq_Inr)
  have "distinct (map Denom (OriginalVesting (BaseAccount a)))"
    using ok by (simp add: coins_ok_def strict_sorted_iff)
  from coin_math.vested_coins_right [OF laws v [unfolded GetVestedCoins_def] this]
  have "\<forall>c \<in> set (OriginalVesting (BaseAccount a)). vested_right K a t c (AmountOf v (Denom c))" by simp
  moreover have "AmountOf v d \<le> AmountOf (OriginalVesting (BaseAccount a)) d" for d
    using coin_math.coins_sub_neg [OF laws, of _ d v] sub by (metis Inr_not_Inl not_le)
  ultimately show ?thesis using v coin_math.coins_sub [OF laws sub] by auto
qed

definition ex_vesting_account :: LazyGradedVestingAccount where
  "ex_vesting_account = NewLazyGradedVestingAccount [\<lparr>Denom = ''udo'', Amount = 1000\<rparr>, \<lparr>Denom = ''uusd'', Amount = 7\<rparr>] [ex_schedule]"

lemma vesting_splits_original_example:
  "\<exists>vested. GetVestedCoins ref_sdk ex_vesting_account 150 = Inr vested \<and>
     AmountOf [\<lparr>Denom = ''udo'', Amount = 800\<rparr>] ''udo'' =
       AmountOf (OriginalVesting (BaseAccount ex_vesting_account)) ''udo'' - AmountOf vested ''udo''"
proof -
  have "coins_ok (OriginalVesting (BaseAccount ex_vesting_account))"
    by (simp add: coins_ok_def ex_vesting_account_def NewLazyGradedVestingAccount_def)
  moreover have "GetVestingCoins ref_sdk ex_vesting_account 150 = Inr [\<lparr>Denom = ''udo'', Amount = 800\<rparr>]" by code_simp
  ultimately show ?thesis using vesting_splits_original [OF ref.coin_math_axioms] by blast
qed

definition ex_over_schedule :: VestingSchedule where
  "ex_over_schedule = \<lparr>vsDenom = ''udo'', Schedules =
     [\<lparr>StartTime = 100, EndTime = 200, Ratio = 1000000000400000000\<rparr>]\<rparr>"

definition ex_over_account :: LazyGradedVestingAccount where
  "ex_over_account = NewLazyGradedVestingAccount [\<lparr>Denom = ''udo'', Amount = 10000000000\<rparr>] [ex_over_schedule]"

lemma over_vesting: "GetVestingCoins ref_sdk ex_over_account 300 = Inl Panic"
  by code_simp

text \<open>
  A valid vesting account can lock itself. The check of a schedule rounds the sum of its
  ratios to nine decimals, so ratios that add up to 1.0000000004 pass; once the schedule has
  ended an account of ten thousand Do has vested more than it holds, the subtraction panics, and
  with it every computation of the locked coins.
\<close>

lemma valid_account_locks_itself:
  "vesting_schedule_Validate ref_sdk ex_over_schedule = Inr () \<and> coins_ok (OriginalVesting (BaseAccount ex_over_account)) \<and>
   (\<forall>B. account_Validate ref_sdk B ex_over_account = BaseValidate B (BaseAccount ex_over_account)) \<and>
   (\<forall>B. LockedCoins ref_sdk B ex_over_account 300 = Inl Panic)"
proof (intro conjI allI)
  show v: "vesting_schedule_Validate ref_sdk ex_over_schedule = Inr ()" by code_simp
  show "coins_ok (OriginalVesting (BaseAccount ex_over_account))"
    by (simp add: coins_ok_def ex_over_account_def NewLazyGradedVestingAccount_def)
  show "account_Validate ref_sdk B ex_over_account = BaseValidate B (BaseAccount ex_over_account)" for B
    by (simp add: account_Validate_def ex_over_account_def NewLazyGradedVestingAccount_def v)
  show "LockedCoins ref_sdk B ex_over_account 300 = Inl Panic" for B
    by (simp add: LockedCoins_def over_vesting)
qed

end
