(* ===== verification/Dyncomm.thy ===== *)
theory Dyncomm
  imports Core_Types
begin

text \<open>
  \<open>src/x/dyncomm\<close>: minimum commission rates that grow with a validator's voting power. The store
  keeps a minimum and a target rate per validator; an epoch's end recomputes the minima and
  raises the commissions below them, the ante handler refuses edits below the minimum, and the
  post handler records the rate a validator asked for.
\<close>


section \<open>Parameters (types/params.go)\<close>

record DyncommParams =
  MaxZero :: dec
  SlopeBase :: dec
  SlopeVpImpact :: dec
  DynCap :: dec

definition dyncomm_DefaultParams :: DyncommParams where
  "dyncomm_DefaultParams = \<lparr>MaxZero = NewDecWithPrec 5 1, SlopeBase = NewDecWithPrec 2 0,
     SlopeVpImpact = NewDecWithPrec 10 0, DynCap = NewDecWithPrec 2 1\<rparr>"

definition dyncomm_Params_Validate :: "DyncommParams \<Rightarrow> unit result" where
  "dyncomm_Params_Validate p =
     rbind (fail_if (SlopeBase p < 0) (Text ''slope base must be positive or zero'')) (\<lambda>_.
     rbind (fail_if (\<not> 0 < SlopeVpImpact p) (Text ''slope vp impact should be positive'')) (\<lambda>_.
     rbind (fail_if (DynCap p < 0) (Text ''cap shall be 0 or positive'')) (\<lambda>_.
     rbind (fail_if (OneDec < DynCap p) (Text ''cap shall be less than 1.0'')) (\<lambda>_.
     rbind (fail_if (MaxZero p < 0) (Text ''max zero shall be 0 or positive'')) (\<lambda>_.
     fail_if (OneDec < MaxZero p) (Text ''max zero shall be less than 1.0''))))))"

definition validateMaxZero :: "dec \<Rightarrow> unit result" where
  "validateMaxZero v =
     rbind (fail_if (v < 0) (Text ''max zero shall be 0 or positive'')) (\<lambda>_.
     fail_if (OneDec < v) (Text ''max zero shall be less than 1.0''))"

definition validateSlopeBase :: "dec \<Rightarrow> unit result" where
  "validateSlopeBase v = fail_if (v < 0) (Text ''slope base must be positive or Zero'')"

definition validateSlopeVpImpact :: "dec \<Rightarrow> unit result" where
  "validateSlopeVpImpact v = fail_if (\<not> 0 < v) (Text ''slope vp impact must be positive'')"

definition validateCap :: "dec \<Rightarrow> unit result" where
  "validateCap v =
     rbind (fail_if (v < 0) (Text ''cap shall be 0 or positive'')) (\<lambda>_.
     fail_if (OneDec < v) (Text ''cap shall be less than 1.0''))"

definition dyncomm_ParamSetPairs :: "DyncommParams \<Rightarrow> unit result" where
  "dyncomm_ParamSetPairs p =
     rbind (validateMaxZero (MaxZero p)) (\<lambda>_.
     rbind (validateSlopeBase (SlopeBase p)) (\<lambda>_.
     rbind (validateSlopeVpImpact (SlopeVpImpact p)) (\<lambda>_.
     validateCap (DynCap p))))"


section \<open>The store (keeper/dyncomm.go)\<close>

record ValidatorCommissionRate =
  ValidatorAddress :: string
  MinRate :: dec
  TargetRate :: dec

record dyncomm_store =
  commissionRates :: "ValidatorCommissionRate kv"
  dparams :: DyncommParams

definition GetMinCommissionRatesKey :: "string \<Rightarrow> bytes" where
  "GetMinCommissionRatesKey addr = CHR 0x01 # addr"

definition GetDynCommissionRate :: "dyncomm_store \<Rightarrow> string \<Rightarrow> dec" where
  "GetDynCommissionRate s v = (case kv_get (commissionRates s) (GetMinCommissionRatesKey v) of
     None \<Rightarrow> 0 | Some e \<Rightarrow> MinRate e)"

definition GetTargetCommissionRate :: "dyncomm_store \<Rightarrow> string \<Rightarrow> dec" where
  "GetTargetCommissionRate s v = (case kv_get (commissionRates s) (GetMinCommissionRatesKey v) of
     None \<Rightarrow> 0 | Some e \<Rightarrow> TargetRate e)"

definition SetDynCommissionRate :: "dyncomm_store \<Rightarrow> string \<Rightarrow> dec \<Rightarrow> dyncomm_store" where
  "SetDynCommissionRate s v rate =
     (let targetRate = (case kv_get (commissionRates s) (GetMinCommissionRatesKey v) of
            None \<Rightarrow> 0 | Some e \<Rightarrow> TargetRate e)
      in s\<lparr>commissionRates := kv_set (GetMinCommissionRatesKey v)
             \<lparr>ValidatorAddress = v, MinRate = rate, TargetRate = targetRate\<rparr> (commissionRates s)\<rparr>)"

definition SetTargetCommissionRate :: "dyncomm_store \<Rightarrow> string \<Rightarrow> dec \<Rightarrow> dyncomm_store" where
  "SetTargetCommissionRate s v rate =
     (let minRate = (case kv_get (commissionRates s) (GetMinCommissionRatesKey v) of
            None \<Rightarrow> 0 | Some e \<Rightarrow> MinRate e)
      in s\<lparr>commissionRates := kv_set (GetMinCommissionRatesKey v)
             \<lparr>ValidatorAddress = v, MinRate = minRate, TargetRate = rate\<rparr> (commissionRates s)\<rparr>)"

definition IterateDynCommissionRates ::
    "dyncomm_store \<Rightarrow> (ValidatorCommissionRate \<Rightarrow> 'a \<Rightarrow> ('a \<times> bool) result) \<Rightarrow> 'a \<Rightarrow> 'a result" where
  "IterateDynCommissionRates s cb = iterate (\<lambda>_. cb) (commissionRates s)"


section \<open>Minimum rates\<close>

definition Int64 :: "int \<Rightarrow> int result" where
  "Int64 n = (if in_i64 n then Inr n else Inl Panic)"

definition CalculateVotingPower :: "sdk \<Rightarrow> 'w keepers \<Rightarrow> 'w \<Rightarrow> validator \<Rightarrow> dec result" where
  "CalculateVotingPower K N w v =
     (case GetLastTotalPower N w of
        Inl e \<Rightarrow> if e = Panic then Inl Panic else Inr 0
      | Inr totalPower \<Rightarrow>
          rbind (TokensToConsensusPower K (Tokens v) (PowerReduction N w)) (\<lambda>validatorPower.
          rbind (Int64 totalPower) (\<lambda>tot.
          rbind (dQuoInt K (NewDec validatorPower) tot) (\<lambda>q.
          dMulInt K q 100))))"

definition CalculateDynCommission :: "sdk \<Rightarrow> 'w keepers \<Rightarrow> 'w \<Rightarrow> dyncomm_store \<Rightarrow> validator \<Rightarrow> dec result" where
  "CalculateDynCommission K N w s v =
     rbind (dMulInt K (DynCap (dparams s)) 100) (\<lambda>D.
     rbind (CalculateVotingPower K N w v) (\<lambda>x.
     rbind (dSub K x (MaxZero (dparams s))) (\<lambda>factorA.
     rbind (dQuo K x (SlopeVpImpact (dparams s))) (\<lambda>quotient.
     rbind (dAdd K quotient (SlopeBase (dparams s))) (\<lambda>factorB.
     case MinCommissionRate N w of
       Inl e \<Rightarrow> if e = Panic then Inl Panic else Inr 0
     | Inr minComm0 \<Rightarrow>
         rbind (dMulInt K minComm0 100) (\<lambda>minComm.
         rbind (dMul K factorA factorB) (\<lambda>y0.
         let y1 = (if D < y0 then D else y0);
             y = (if y1 < minComm then minComm else y1)
         in dQuoInt K y 100)))))))"

definition UpdateValidatorMinRates ::
    "sdk \<Rightarrow> 'w keepers \<Rightarrow> validator \<Rightarrow> dyncomm_store \<times> 'w \<Rightarrow> (dyncomm_store \<times> 'w) result" where
  "UpdateValidatorMinRates K N v sw =
     (let (s, w) = sw
      in rbind (CalculateDynCommission K N w s v) (\<lambda>minRate.
         let targetRate = GetTargetCommissionRate s (OperatorAddress v);
             newRate = (if targetRate < minRate then minRate else targetRate);
             newMaxRate = (if MaxRate v < minRate then minRate else MaxRate v)
         in Inr (SetDynCommissionRate s (OperatorAddress v) minRate,
                 SetValidator N w (v\<lparr>CommissionRate := newRate, MaxRate := newMaxRate\<rparr>))))"

text \<open>The iteration hands out the validators as they are stored when it starts.\<close>

definition UpdateAllBondedValidatorRates ::
    "sdk \<Rightarrow> 'w keepers \<Rightarrow> dyncomm_store \<times> 'w \<Rightarrow> (dyncomm_store \<times> 'w) result" where
  "UpdateAllBondedValidatorRates K N sw =
     fold_res (\<lambda>v sw. if \<not> IsBonded v then Inr sw else UpdateValidatorMinRates K N v sw)
       (AllValidators N (snd sw)) sw"

definition dyncomm_EndBlocker ::
    "sdk \<Rightarrow> 'w keepers \<Rightarrow> int \<Rightarrow> dyncomm_store \<times> 'w \<Rightarrow> (dyncomm_store \<times> 'w) result" where
  "dyncomm_EndBlocker K N height sw =
     rbind (IsPeriodLastBlock height BlocksPerWeek) (\<lambda>last.
     if \<not> last then Inr sw else UpdateAllBondedValidatorRates K N sw)"


section \<open>Messages (ante/ante.go, post/post.go)\<close>

text \<open>
  The messages the two handlers tell apart. \<open>MsgExec\<close> carries the result of unpacking the
  nested messages, \<open>MsgRecvPacket\<close> the result of decoding the packet (\<open>None\<close> when it is not an
  interchain-account packet), whether it is to be executed, and the result of unpacking it.
\<close>

datatype tx_msg =
    MsgEditValidator string "dec option"
  | MsgCreateValidator string dec
  | MsgExec "tx_msg list option"
  | MsgRecvPacket "(bool \<times> tx_msg list option) option"
  | OtherMsg

abbreviation ErrUnauthorized :: error where "ErrUnauthorized \<equiv> Sdk ''ErrUnauthorized''"

definition ante_ProcessEditValidator :: "dyncomm_store \<Rightarrow> string \<Rightarrow> dec option \<Rightarrow> unit result" where
  "ante_ProcessEditValidator s operator rate =
     (case rate of
        None \<Rightarrow> Inr ()
      | Some newIntendedRate \<Rightarrow>
          fail_if (newIntendedRate < GetDynCommissionRate s operator) (Text ''commission must be at least the minimum''))"

text \<open>
  \<open>stale\<close> is the variable \<open>err\<close> of the loop: a packet that does not decode leaves it set, and a
  following \<open>MsgExec\<close> that does not unpack is then refused.
\<close>

fun ante_Filter :: "dyncomm_store \<Rightarrow> bool \<Rightarrow> tx_msg list \<Rightarrow> unit result" where
  "ante_Filter s stale [] = Inr ()"
| "ante_Filter s stale (MsgEditValidator v r # ms) =
     rbind (wrap_err ErrUnauthorized (ante_ProcessEditValidator s v r)) (\<lambda>_. ante_Filter s False ms)"
| "ante_Filter s stale (MsgExec None # ms) =
     rbind (fail_if stale ErrUnauthorized) (\<lambda>_. ante_Filter s False ms)"
| "ante_Filter s stale (MsgExec (Some inner) # ms) =
     rbind (wrap_err ErrUnauthorized (ante_Filter s False inner)) (\<lambda>_. ante_Filter s False ms)"
| "ante_Filter s stale (MsgRecvPacket None # ms) = ante_Filter s True ms"
| "ante_Filter s stale (MsgRecvPacket (Some (execute, inner)) # ms) =
     (if \<not> execute then ante_Filter s False ms
      else case inner of
             None \<Rightarrow> ante_Filter s False ms
           | Some msgs \<Rightarrow>
               rbind (wrap_err ErrUnauthorized (ante_Filter s False msgs)) (\<lambda>_. ante_Filter s False ms))"
| "ante_Filter s stale (MsgCreateValidator v r # ms) = ante_Filter s stale ms"
| "ante_Filter s stale (OtherMsg # ms) = ante_Filter s stale ms"

definition ante_FilterMsgsAndProcessMsgs :: "dyncomm_store \<Rightarrow> tx_msg list \<Rightarrow> unit result" where
  "ante_FilterMsgsAndProcessMsgs s msgs = ante_Filter s False msgs"

fun post_process :: "tx_msg \<Rightarrow> dyncomm_store \<Rightarrow> dyncomm_store" where
  "post_process (MsgEditValidator v (Some newIntendedRate)) s = SetTargetCommissionRate s v newIntendedRate"
| "post_process (MsgCreateValidator v newIntendedRate) s = SetTargetCommissionRate s v newIntendedRate"
| "post_process _ s = s"

definition PostHandle :: "bool \<Rightarrow> bool \<Rightarrow> tx_msg list \<Rightarrow> dyncomm_store \<Rightarrow> dyncomm_store" where
  "PostHandle simulate isCheckTx msgs s = (if simulate \<or> isCheckTx then s else fold post_process msgs s)"


section \<open>Genesis (genesis.go)\<close>

record DyncommGenesis =
  dgParams :: DyncommParams
  dgRates :: "ValidatorCommissionRate list"

definition dyncomm_DefaultGenesisState :: DyncommGenesis where
  "dyncomm_DefaultGenesisState = \<lparr>dgParams = dyncomm_DefaultParams, dgRates = []\<rparr>"

definition dyncomm_InitGenesis ::
    "sdk \<Rightarrow> 'w keepers \<Rightarrow> DyncommGenesis \<Rightarrow> dyncomm_store \<times> 'w \<Rightarrow> (dyncomm_store \<times> 'w) result" where
  "dyncomm_InitGenesis K N g sw =
     (let (s, w) = sw
      in rbind (must (dyncomm_ParamSetPairs (dgParams g))) (\<lambda>_.
         let s1 = s\<lparr>dparams := dgParams g\<rparr>;
             s2 = fold (\<lambda>v s. SetTargetCommissionRate s (OperatorAddress v) (CommissionRate v)) (AllValidators N w) s1
         in UpdateAllBondedValidatorRates K N (s2, w)))"

definition dyncomm_ExportGenesis :: "dyncomm_store \<Rightarrow> DyncommGenesis result" where
  "dyncomm_ExportGenesis s =
     rbind (IterateDynCommissionRates s (\<lambda>rate acc. Inr (acc @ [rate], False)) []) (\<lambda>rates.
     Inr \<lparr>dgParams = dparams s, dgRates = rates\<rparr>)"

definition query_Rate :: "dyncomm_store \<Rightarrow> string \<Rightarrow> dec \<times> dec" where
  "query_Rate s v = (GetDynCommissionRate s v, GetTargetCommissionRate s v)"



section \<open>Edits below the minimum are refused\<close>

text \<open>The commission edits a transaction would execute, nested ones included.\<close>

fun edits :: "tx_msg list \<Rightarrow> (string \<times> dec) list" where
  "edits [] = []"
| "edits (MsgEditValidator v (Some r) # ms) = (v, r) # edits ms"
| "edits (MsgExec (Some inner) # ms) = edits inner @ edits ms"
| "edits (MsgRecvPacket (Some (True, Some inner)) # ms) = edits inner @ edits ms"
| "edits (m # ms) = edits ms"

fun unpacked :: "tx_msg list \<Rightarrow> bool" where
  "unpacked [] = True"
| "unpacked (MsgExec None # ms) = False"
| "unpacked (MsgExec (Some inner) # ms) = (unpacked inner \<and> unpacked ms)"
| "unpacked (MsgRecvPacket (Some (True, Some inner)) # ms) = (unpacked inner \<and> unpacked ms)"
| "unpacked (m # ms) = unpacked ms"

lemma ante_edit_iff:
  "ante_ProcessEditValidator s v r = Inr () \<longleftrightarrow> (case r of None \<Rightarrow> True | Some x \<Rightarrow> GetDynCommissionRate s v \<le> x)"
  by (auto simp: ante_ProcessEditValidator_def split: option.splits)

lemma ante_accepts_edits:
  "ante_Filter s stale ms = Inr () \<Longrightarrow> (v, r) \<in> set (edits ms) \<Longrightarrow> GetDynCommissionRate s v \<le> r"
  by (induction s stale ms rule: ante_Filter.induct)
    (auto simp: res_simps ante_edit_iff split: option.splits if_splits bool.splits)

lemma ante_accepts:
  "unpacked ms \<Longrightarrow> \<forall>(v, r) \<in> set (edits ms). GetDynCommissionRate s v \<le> r \<Longrightarrow> ante_Filter s stale ms = Inr ()"
proof (induction s stale ms rule: ante_Filter.induct)
  case (2 s stale v r ms)
  then show ?case using ante_edit_iff [of s v r] by (cases r) simp_all
next
  case (6 s stale ex inner ms)
  then show ?case by (cases ex; cases inner) simp_all
qed auto

text \<open>A text that names a validator is the one the chain writes or the same in capitals.\<close>

lemma edit_text:
  assumes "bech32 K" and "ante_Filter s stale ms = Inr ()" and "(v, r) \<in> set (edits ms)" and "ValFromBech32 K v = Inr a"
  shows "GetDynCommissionRate s (ValString K a) \<le> r \<or> v = map upper (ValString K a)"
  using ante_accepts_edits [OF assms(2,3)] bech32.val_write [OF assms(1,4)] by (auto simp: bech32_form_def)

text \<open>
  C27: commission edits below the minimum are refused, as far as the minimum is found. A transaction
  passes the ante handler only if every commission edit in it, however deeply nested in
  authorisations or in interchain-account packets that decode as protobuf, asks for at least the
  rate stored under the text that names the validator: an edit whose text reads as the address of a
  validator is at least that validator's minimum unless the text is the capital form of the address.
  A transaction whose authorisations all unpack is refused for no other reason; in particular an
  edit in capitals passes with any rate from 0, the store having no minimum under that text.
\<close>

theorem edits_respect_minimum:
  assumes "bech32 K"
  shows "(ante_FilterMsgsAndProcessMsgs s msgs = Inr () \<longrightarrow>
      (\<forall>(v, r) \<in> set (edits msgs). GetDynCommissionRate s v \<le> r \<and>
         (\<forall>a. ValFromBech32 K v = Inr a \<longrightarrow> GetDynCommissionRate s (ValString K a) \<le> r \<or> v = map upper (ValString K a)))) \<and>
   (unpacked msgs \<and> (\<forall>(v, r) \<in> set (edits msgs). GetDynCommissionRate s v \<le> r) \<longrightarrow>
      ante_FilterMsgsAndProcessMsgs s msgs = Inr ()) \<and>
   (GetDynCommissionRate s (map upper (ValString K a)) = 0 \<and> 0 \<le> r \<longrightarrow>
      ante_FilterMsgsAndProcessMsgs s [MsgEditValidator (map upper (ValString K a)) (Some r)] = Inr ())"
proof (intro conjI impI)
  assume "ante_FilterMsgsAndProcessMsgs s msgs = Inr ()"
  then have run: "ante_Filter s False msgs = Inr ()" by (simp add: ante_FilterMsgsAndProcessMsgs_def)
  show "\<forall>(v, r) \<in> set (edits msgs). GetDynCommissionRate s v \<le> r \<and>
      (\<forall>a. ValFromBech32 K v = Inr a \<longrightarrow> GetDynCommissionRate s (ValString K a) \<le> r \<or> v = map upper (ValString K a))"
    using ante_accepts_edits [OF run] edit_text [OF assms run] by blast
next
  assume "unpacked msgs \<and> (\<forall>(v, r) \<in> set (edits msgs). GetDynCommissionRate s v \<le> r)"
  then show "ante_FilterMsgsAndProcessMsgs s msgs = Inr ()"
    using ante_accepts [of msgs s False] by (simp add: ante_FilterMsgsAndProcessMsgs_def)
qed (simp add: ante_FilterMsgsAndProcessMsgs_def ante_ProcessEditValidator_def)

definition ex_dyncomm :: dyncomm_store where
  "ex_dyncomm = SetDynCommissionRate \<lparr>commissionRates = [], dparams = dyncomm_DefaultParams\<rparr> (''dovaloper1'' @ alice) 50000000000000000"

definition ex_nested :: "tx_msg list" where
  "ex_nested = [OtherMsg, MsgExec (Some [MsgEditValidator (''dovaloper1'' @ alice) (Some 60000000000000000)])]"

theorem edits_respect_minimum_witness:
  "ante_FilterMsgsAndProcessMsgs ex_dyncomm ex_nested = Inr () \<and>
   list_all (\<lambda>(v, r). GetDynCommissionRate ex_dyncomm v \<le> r) (edits ex_nested) \<and>
   ante_FilterMsgsAndProcessMsgs ex_dyncomm [MsgEditValidator (''dovaloper1'' @ alice) (Some 0)] \<noteq> Inr () \<and>
   ante_FilterMsgsAndProcessMsgs ex_dyncomm [MsgEditValidator (map upper (ValString ref_sdk alice)) (Some 0)] = Inr ()"
proof -
  note laws = edits_respect_minimum [OF ref.bech32_axioms]
  have "ante_FilterMsgsAndProcessMsgs ex_dyncomm ex_nested = Inr ()" by code_simp
  moreover have "list_all (\<lambda>(v, r). GetDynCommissionRate ex_dyncomm v \<le> r) (edits ex_nested)"
    using conjunct1 [OF laws [of ex_dyncomm ex_nested]] calculation unfolding list_all_iff by fast
  moreover have "ante_FilterMsgsAndProcessMsgs ex_dyncomm [MsgEditValidator (''dovaloper1'' @ alice) (Some 0)] \<noteq> Inr ()" by code_simp
  moreover have "GetDynCommissionRate ex_dyncomm (map upper (ValString ref_sdk alice)) = 0" by code_simp
  then have "ante_FilterMsgsAndProcessMsgs ex_dyncomm [MsgEditValidator (map upper (ValString ref_sdk alice)) (Some 0)] = Inr ()"
    using laws [of ex_dyncomm "[]" alice 0] by blast
  ultimately show ?thesis by blast
qed


section \<open>The minimum is between the configured bounds\<close>

context dec_math begin

lemma dyn_commission_range:
  assumes run: "CalculateDynCommission K N w s v = Inr y" and m: "MinCommissionRate N w = Inr m" "0 \<le> m"
  shows "m \<le> y \<and> y \<le> max m (DynCap (dparams s))"
proof -
  from run m(1) obtain D mc y0 where D: "dMulInt K (DynCap (dparams s)) 100 = Inr D"
    and mc: "dMulInt K m 100 = Inr mc"
    and y: "(let y1 = if D < y0 then D else y0; y = if y1 < mc then mc else y1 in dQuoInt K y 100) = Inr y"
    by (auto simp: CalculateDynCommission_def rbind_eq_Inr)
  have v: "D = DynCap (dparams s) * 100" "mc = m * 100" using mul_int_Inr D mc by blast+
  define z where "z = max mc (min D y0)"
  have "dQuoInt K z 100 = Inr y" using y by (simp add: z_def max_def min_def Let_def split: if_splits)
  then have yz: "y = tquot z 100" using quo_int_Inr by blast
  have z: "m * 100 \<le> z" "z \<le> max m (DynCap (dparams s)) * 100" by (auto simp: z_def v)
  then have "y = z div 100" unfolding yz using m(2) by (intro tquot_nonneg) auto
  then show ?thesis using z by auto
qed

end


section \<open>The end of an epoch\<close>

lemma min_rate_key [simp, key_simps]: "GetMinCommissionRatesKey a = GetMinCommissionRatesKey b \<longleftrightarrow> a = b"
  by (simp add: GetMinCommissionRatesKey_def)

interpretation min_rates: keyed_cell GetDynCommissionRate SetDynCommissionRate "\<lambda>_ r. r"
  by unfold_locales (simp_all add: GetDynCommissionRate_def SetDynCommissionRate_def Let_def)

interpretation target_rates: keyed_cell GetTargetCommissionRate SetTargetCommissionRate "\<lambda>_ r. r"
  by unfold_locales (simp_all add: GetTargetCommissionRate_def SetTargetCommissionRate_def Let_def)

lemma dyncomm_frame [simp]:
  "GetTargetCommissionRate (SetDynCommissionRate s v r) u = GetTargetCommissionRate s u"
  "GetDynCommissionRate (SetTargetCommissionRate s v r) u = GetDynCommissionRate s u"
  "dparams (SetDynCommissionRate s v r) = dparams s" "dparams (SetTargetCommissionRate s v r) = dparams s"
  by (auto simp: GetTargetCommissionRate_def SetDynCommissionRate_def GetDynCommissionRate_def
      SetTargetCommissionRate_def Let_def split: option.splits)

definition raised :: "dyncomm_store \<Rightarrow> dec \<Rightarrow> validator \<Rightarrow> validator" where
  "raised s m v = v\<lparr>CommissionRate := max (GetTargetCommissionRate s (OperatorAddress v)) m, MaxRate := max (MaxRate v) m\<rparr>"

lemma update_validator_result:
  assumes "UpdateValidatorMinRates K N v (s, w) = Inr (s', w')"
  shows "\<exists>m. CalculateDynCommission K N w s v = Inr m \<and> s' = SetDynCommissionRate s (OperatorAddress v) m \<and>
    w' = SetValidator N w (raised s m v)"
  using assms by (auto simp: UpdateValidatorMinRates_def Let_def rbind_eq_Inr raised_def max_def)

lemma raised_operator [simp]: "OperatorAddress (raised s m v) = OperatorAddress v"
  by (simp add: raised_def)

context validator_set begin

lemma dyn_commission_kept:
  assumes "dparams s' = dparams s"
  shows "CalculateDynCommission K N (SetValidator N w u) s' v = CalculateDynCommission K N w s v"
  unfolding CalculateDynCommission_def CalculateVotingPower_def power_kept reduction_kept min_rate_kept assms ..

lemma update_all_result:
  assumes "fold_res (\<lambda>v sw. if \<not> IsBonded v then Inr sw else UpdateValidatorMinRates K N v sw) vs (s, w) = Inr (s', w')"
    and "distinct (map OperatorAddress vs)" and "set vs \<subseteq> set (AllValidators N w)"
  shows "(\<forall>u. OperatorAddress u \<notin> OperatorAddress ` set vs \<longrightarrow> u \<in> set (AllValidators N w) \<longrightarrow> u \<in> set (AllValidators N w')) \<and>
    (\<forall>a. a \<notin> OperatorAddress ` set vs \<longrightarrow> GetDynCommissionRate s' a = GetDynCommissionRate s a) \<and>
    (\<forall>a. GetTargetCommissionRate s' a = GetTargetCommissionRate s a) \<and>
    (\<forall>u \<in> set vs. if IsBonded u
       then \<exists>m. CalculateDynCommission K N w s u = Inr m \<and> raised s m u \<in> set (AllValidators N w') \<and>
              GetDynCommissionRate s' (OperatorAddress u) = m
       else u \<in> set (AllValidators N w'))"
  using assms
proof (induction vs arbitrary: s w)
  case (Cons v vs)
  let ?rest = "fold_res (\<lambda>v sw. if \<not> IsBonded v then Inr sw else UpdateValidatorMinRates K N v sw) vs"
  have ops: "OperatorAddress v \<notin> OperatorAddress ` set vs" "distinct (map OperatorAddress vs)" using Cons.prems(2) by auto
  have opsn: "x \<in> set vs \<Longrightarrow> OperatorAddress x \<noteq> OperatorAddress v" for x using ops(1) by (metis imageI)
  have v: "v \<in> set (AllValidators N w)" "set vs \<subseteq> set (AllValidators N w)" using Cons.prems(3) by auto
  show ?case
  proof (cases "IsBonded v")
    case False
    then have "?rest (s, w) = Inr (s', w')" using Cons.prems(1) by simp
    from Cons.IH [OF this ops(2) v(2)] show ?thesis using False v ops(1) by auto
  next
    case True
    then obtain s1 w1 where one: "UpdateValidatorMinRates K N v (s, w) = Inr (s1, w1)" and r: "?rest (s1, w1) = Inr (s', w')"
      using Cons.prems(1) by (auto simp: rbind_eq_Inr)
    from update_validator_result [OF one] obtain m where m: "CalculateDynCommission K N w s v = Inr m"
      "s1 = SetDynCommissionRate s (OperatorAddress v) m" "w1 = SetValidator N w (raised s m v)" by blast
    have vals: "set (AllValidators N w1) = insert (raised s m v) {u \<in> set (AllValidators N w). OperatorAddress u \<noteq> OperatorAddress v}"
      unfolding m(3) using set_validator [OF v(1), of "raised s m v"] by simp
    have "set vs \<subseteq> set (AllValidators N w1)" unfolding vals using v(2) opsn by auto
    note IH = Cons.IH [OF r ops(2) this]
    have same: "raised s1 n u = raised s n u" for n u by (simp add: raised_def m(2))
    have kept: "CalculateDynCommission K N w1 s1 u = CalculateDynCommission K N w s u" for u
      unfolding m(3) by (rule dyn_commission_kept) (simp add: m(2))
    have "raised s m v \<in> set (AllValidators N w')"
      using conjunct1 [OF IH, rule_format, of "raised s m v"] ops(1) vals by simp
    moreover have "GetDynCommissionRate s' (OperatorAddress v) = m" using IH ops(1) by (simp add: m(2) min_rates.get_put)
    moreover note IH [unfolded same kept]
    ultimately show ?thesis using True m(1) vals by (simp add: m(2) min_rates.get_put)
  qed
qed simp

text \<open>One bonded validator over the end of an epoch.\<close>

lemma epoch_bonded:
  assumes "IsPeriodLastBlock h BlocksPerWeek = Inr True" and "dyncomm_EndBlocker K N h (s, w) = Inr (s', w')"
    and "distinct (map OperatorAddress (AllValidators N w))" and "u \<in> set (AllValidators N w)" "IsBonded u"
  shows "\<exists>n. CalculateDynCommission K N w s u = Inr n \<and> GetDynCommissionRate s' (OperatorAddress u) = n \<and>
    raised s n u \<in> set (AllValidators N w')"
proof -
  have "fold_res (\<lambda>v sw. if \<not> IsBonded v then Inr sw else UpdateValidatorMinRates K N v sw)
       (AllValidators N w) (s, w) = Inr (s', w')"
    using assms(1,2) by (simp add: dyncomm_EndBlocker_def UpdateAllBondedValidatorRates_def)
  from update_all_result [OF this assms(3) subset_refl] assms(4,5) show ?thesis by auto
qed

end

text \<open>
  C28: the end of an epoch enforces the minimum. Every bonded validator gets a new minimum between
  the chain's minimum commission and the larger of it and the cap; it is stored, the
  validator's commission becomes the larger of its target and the minimum, its maximum rate is
  raised if needed, and its target is unchanged. Validators that are not bonded stay as they are.
\<close>

theorem epoch_enforces_minimum:
  assumes laws: "dec_math K" "validator_set N" and last: "IsPeriodLastBlock h BlocksPerWeek = Inr True"
    and vals: "distinct (map OperatorAddress (AllValidators N w))" and m: "MinCommissionRate N w = Inr floor" "0 \<le> floor"
    and run: "dyncomm_EndBlocker K N h (s, w) = Inr (s', w')"
  shows "\<forall>u \<in> set (AllValidators N w). GetTargetCommissionRate s' (OperatorAddress u) = GetTargetCommissionRate s (OperatorAddress u) \<and>
     (if IsBonded u
      then \<exists>n. floor \<le> n \<and> n \<le> max floor (DynCap (dparams s)) \<and> GetDynCommissionRate s' (OperatorAddress u) = n \<and>
             (\<exists>u' \<in> set (AllValidators N w'). OperatorAddress u' = OperatorAddress u \<and>
                CommissionRate u' = max (GetTargetCommissionRate s (OperatorAddress u)) n \<and> MaxRate u' = max (MaxRate u) n)
      else u \<in> set (AllValidators N w'))"
proof -
  have "fold_res (\<lambda>v sw. if \<not> IsBonded v then Inr sw else UpdateValidatorMinRates K N v sw)
       (AllValidators N w) (s, w) = Inr (s', w')"
    using run last by (simp add: dyncomm_EndBlocker_def UpdateAllBondedValidatorRates_def)
  note r = validator_set.update_all_result [OF laws(2) this vals subset_refl]
  show ?thesis
  proof (intro ballI conjI)
    fix u assume u: "u \<in> set (AllValidators N w)"
    show "GetTargetCommissionRate s' (OperatorAddress u) = GetTargetCommissionRate s (OperatorAddress u)" using r by blast
    show "if IsBonded u
      then \<exists>n. floor \<le> n \<and> n \<le> max floor (DynCap (dparams s)) \<and> GetDynCommissionRate s' (OperatorAddress u) = n \<and>
             (\<exists>u' \<in> set (AllValidators N w'). OperatorAddress u' = OperatorAddress u \<and>
                CommissionRate u' = max (GetTargetCommissionRate s (OperatorAddress u)) n \<and> MaxRate u' = max (MaxRate u) n)
      else u \<in> set (AllValidators N w')"
    proof (cases "IsBonded u")
      case True
      have "if IsBonded u
        then \<exists>m. CalculateDynCommission K N w s u = Inr m \<and> raised s m u \<in> set (AllValidators N w') \<and>
              GetDynCommissionRate s' (OperatorAddress u) = m
        else u \<in> set (AllValidators N w')" using r u by blast
      then obtain n where n: "CalculateDynCommission K N w s u = Inr n" "raised s n u \<in> set (AllValidators N w')"
        "GetDynCommissionRate s' (OperatorAddress u) = n" using True by auto
      have "CommissionRate (raised s n u) = max (GetTargetCommissionRate s (OperatorAddress u)) n"
        "MaxRate (raised s n u) = max (MaxRate u) n" by (simp_all add: raised_def)
      then have "\<exists>u' \<in> set (AllValidators N w'). OperatorAddress u' = OperatorAddress u \<and>
          CommissionRate u' = max (GetTargetCommissionRate s (OperatorAddress u)) n \<and> MaxRate u' = max (MaxRate u) n"
        using n(2) by (intro bexI [of _ "raised s n u"]) simp_all
      then show ?thesis using dec_math.dyn_commission_range [OF laws(1) n(1) m] n(3) True by auto
    next
      case False
      then show ?thesis using r u by auto
    qed
  qed
qed


theorem epoch_enforces_minimum_witness:
  "\<exists>s' w'. dyncomm_EndBlocker ref_sdk ref_keepers 604799 (ex_dyncomm, ex_world [] [(alice, 30), (bob, 70)]) = Inr (s', w') \<and>
     (\<exists>u' \<in> set (AllValidators ref_keepers w'). OperatorAddress u' = ''dovaloper1'' @ bob \<and>
        CommissionRate u' = GetDynCommissionRate s' (''dovaloper1'' @ bob))"
proof -
  define w where "w = ex_world [] [(alice, 30), (bob, 70)]"
  define run where "run = dyncomm_EndBlocker ref_sdk ref_keepers 604799 (ex_dyncomm, w)"
  have "\<not> isl run" unfolding run_def w_def by code_simp
  then obtain s' w' where r: "run = Inr (s', w')" by (cases run) auto
  have last: "IsPeriodLastBlock 604799 BlocksPerWeek = Inr True" by code_simp
  have d: "distinct (map OperatorAddress (AllValidators ref_keepers w))" unfolding w_def by code_simp
  have m: "MinCommissionRate ref_keepers w = Inr 50000000000000000" by simp
  have u: "ex_validator bob 70 \<in> set (AllValidators ref_keepers w)" by (simp add: w_def ex_world_def)
  have "IsBonded (ex_validator bob 70)" "OperatorAddress (ex_validator bob 70) = ''dovaloper1'' @ bob"
    "GetTargetCommissionRate ex_dyncomm (''dovaloper1'' @ bob) = 0" by (simp add: ex_validator_def | code_simp)+
  with bspec [OF epoch_enforces_minimum [OF ref.dec_math_axioms ref.validator_set_axioms last d m _ r [unfolded run_def]] u]
  have "\<exists>n. 50000000000000000 \<le> n \<and> GetDynCommissionRate s' (''dovaloper1'' @ bob) = n \<and>
      (\<exists>u' \<in> set (AllValidators ref_keepers w'). OperatorAddress u' = ''dovaloper1'' @ bob \<and> CommissionRate u' = max 0 n)"
    by auto
  then show ?thesis using r unfolding run_def w_def by auto
qed

text \<open>
  C35: a commission change made through an authorisation does not last. The ante handler looks into
  \<open>MsgExec\<close>, the post handler does not. Take any bonded validator whose commission has been set to a
  rate that the ante handler accepts, by an edit nested in an authorisation: the end of the epoch
  sets the commission to the larger of the new minimum and the target recorded before the edit,
  whatever rate was asked for; after the same edit sent directly, to the larger of the minimum and
  the rate asked for.
\<close>

theorem nested_edit_reverted:
  assumes laws: "validator_set N" and last: "IsPeriodLastBlock h BlocksPerWeek = Inr True"
    and u: "u \<in> set (AllValidators N w)" "IsBonded u"
    and accepted: "GetDynCommissionRate s (OperatorAddress u) \<le> r"
    and e: "e = MsgEditValidator (OperatorAddress u) (Some r)"
    and w1: "w1 = SetValidator N w (u\<lparr>CommissionRate := r\<rparr>)" "distinct (map OperatorAddress (AllValidators N w1))"
    and nested: "dyncomm_EndBlocker K N h (PostHandle False False [MsgExec (Some [e])] s, w1) = Inr (s2, w2)"
    and direct: "dyncomm_EndBlocker K N h (PostHandle False False [e] s, w1) = Inr (s3, w3)"
  shows "ante_FilterMsgsAndProcessMsgs s [MsgExec (Some [e])] = Inr () \<and>
     (\<exists>n. GetDynCommissionRate s2 (OperatorAddress u) = n \<and> GetDynCommissionRate s3 (OperatorAddress u) = n \<and>
        (\<exists>u' \<in> set (AllValidators N w2). OperatorAddress u' = OperatorAddress u \<and>
           CommissionRate u' = max (GetTargetCommissionRate s (OperatorAddress u)) n) \<and>
        (\<exists>u' \<in> set (AllValidators N w3). OperatorAddress u' = OperatorAddress u \<and> CommissionRate u' = max r n))"
proof -
  let ?u = "u\<lparr>CommissionRate := r\<rparr>" and ?s3 = "SetTargetCommissionRate s (OperatorAddress u) r"
  have post: "PostHandle False False [MsgExec (Some [e])] s = s" "PostHandle False False [e] s = ?s3"
    by (simp_all add: PostHandle_def e)
  have "?u \<in> set (AllValidators N w1)" unfolding w1(1) using validator_set.set_validator [OF laws u(1), of ?u] by simp
  note epoch = validator_set.epoch_bonded [OF laws last _ w1(2) this]
  from epoch [OF nested [unfolded post]] u(2) obtain n where n: "CalculateDynCommission K N w1 s ?u = Inr n"
    "GetDynCommissionRate s2 (OperatorAddress u) = n" "raised s n ?u \<in> set (AllValidators N w2)" by auto
  from epoch [OF direct [unfolded post]] u(2) obtain n' where n': "CalculateDynCommission K N w1 ?s3 ?u = Inr n'"
    "GetDynCommissionRate s3 (OperatorAddress u) = n'" "raised ?s3 n' ?u \<in> set (AllValidators N w3)" by auto
  have "CalculateDynCommission K N w1 ?s3 ?u = CalculateDynCommission K N w1 s ?u" by (simp add: CalculateDynCommission_def)
  then have same: "n' = n" using n(1) n'(1) by simp
  have "ante_FilterMsgsAndProcessMsgs s [MsgExec (Some [e])] = Inr ()"
    using accepted by (simp add: ante_FilterMsgsAndProcessMsgs_def ante_ProcessEditValidator_def e)
  moreover have "\<exists>u' \<in> set (AllValidators N w2). OperatorAddress u' = OperatorAddress u \<and>
      CommissionRate u' = max (GetTargetCommissionRate s (OperatorAddress u)) n"
    by (rule bexI [OF _ n(3)]) (simp add: raised_def)
  moreover have "\<exists>u' \<in> set (AllValidators N w3). OperatorAddress u' = OperatorAddress u \<and> CommissionRate u' = max r n"
    by (rule bexI [OF _ n'(3)]) (simp add: raised_def same target_rates.get_put)
  ultimately show ?thesis using n(2) n'(2) same by blast
qed

definition ex_target :: dyncomm_store where
  "ex_target = SetTargetCommissionRate \<lparr>commissionRates = [], dparams = dyncomm_DefaultParams\<rparr> (''dovaloper1'' @ alice) 60000000000000000"

definition ex_edit :: tx_msg where
  "ex_edit = MsgEditValidator (''dovaloper1'' @ alice) (Some 300000000000000000)"

text \<open>The validator \<open>alice\<close> after its commission of 6 percent was raised to 30 percent.\<close>

definition ex_raised :: ref_world where
  "ex_raised = SetValidator ref_keepers (ex_world [] [(alice, 1), (bob, 999)])
     ((ex_validator alice 1)\<lparr>CommissionRate := 300000000000000000\<rparr>)"

definition rates_after_epoch :: "tx_msg list \<Rightarrow> dec list result" where
  "rates_after_epoch msgs =
     map_sum id (\<lambda>(s, w). map CommissionRate (AllValidators ref_keepers w))
       (dyncomm_EndBlocker ref_sdk ref_keepers 604799 (PostHandle False False msgs ex_target, ex_raised))"

theorem nested_edit_reverted_witness:
  "rates_after_epoch [ex_edit] = Inr [300000000000000000, 200000000000000000] \<and>
   rates_after_epoch [MsgExec (Some [ex_edit])] = Inr [60000000000000000, 200000000000000000] \<and>
   ante_FilterMsgsAndProcessMsgs ex_target [MsgExec (Some [ex_edit])] = Inr ()"
proof -
  have rates: "rates_after_epoch [ex_edit] = Inr [300000000000000000, 200000000000000000]"
    "rates_after_epoch [MsgExec (Some [ex_edit])] = Inr [60000000000000000, 200000000000000000]" by code_simp+
  then obtain s2 w2 s3 w3 where
    runs: "dyncomm_EndBlocker ref_sdk ref_keepers 604799 (PostHandle False False [MsgExec (Some [ex_edit])] ex_target, ex_raised) = Inr (s2, w2)"
      "dyncomm_EndBlocker ref_sdk ref_keepers 604799 (PostHandle False False [ex_edit] ex_target, ex_raised) = Inr (s3, w3)"
    unfolding rates_after_epoch_def
    by (cases "dyncomm_EndBlocker ref_sdk ref_keepers 604799 (PostHandle False False [MsgExec (Some [ex_edit])] ex_target, ex_raised)";
        cases "dyncomm_EndBlocker ref_sdk ref_keepers 604799 (PostHandle False False [ex_edit] ex_target, ex_raised)") auto
  have op: "OperatorAddress (ex_validator alice 1) = ''dovaloper1'' @ alice" "IsBonded (ex_validator alice 1)"
    by (simp_all add: ex_validator_def)
  have in_world: "ex_validator alice 1 \<in> set (AllValidators ref_keepers (ex_world [] [(alice, 1), (bob, 999)]))" by (simp add: ex_world_def)
  have last: "IsPeriodLastBlock 604799 BlocksPerWeek = Inr True" by code_simp
  have d: "distinct (map OperatorAddress (AllValidators ref_keepers ex_raised))" by code_simp
  have acc: "GetDynCommissionRate ex_target (''dovaloper1'' @ alice) \<le> 300000000000000000" by code_simp
  show ?thesis
    using rates nested_edit_reverted [OF ref.validator_set_axioms last in_world op(2) acc [folded op(1)] _ ex_raised_def d runs]
    by (simp add: ex_edit_def op(1))
qed

end
