(* ===== verification/Dodx_Staking.thy ===== *)
theory Dodx_Staking
  imports Core_Types Go_Lib
begin

text \<open>
  \<open>src/x/dodxstaking\<close>: DODx locked for governance. The store holds one positive amount per
  staker, the total and a flag; the staked coins sit in the module account. The lemmas show
  that the total is the sum of the stakes, that the two messages implement a plain ledger, and
  that the module account stays solvent along every run.
\<close>


section \<open>Sums over a partition\<close>

definition kv_sum :: "int kv \<Rightarrow> int" where
  "kv_sum m = sum_list (map snd m)"

definition kv_amt :: "int kv \<Rightarrow> bytes \<Rightarrow> int" where
  "kv_amt m k = (case kv_get m k of None \<Rightarrow> 0 | Some x \<Rightarrow> x)"

lemma kv_sum_set: "kv_ok m \<Longrightarrow> kv_sum (kv_set k v m) = kv_sum m - kv_amt m k + v"
proof (induction k v m rule: kv_set.induct)
  case (2 k v k' v' m)
  then have ok: "kv_ok m" and above: "\<forall>x \<in> fst ` set m. k' < x" by (auto simp: kv_ok_def)
  have absent: "kv_get m k = None" if "k < k' \<or> k = k'"
    using that above by (intro kv_get_None [OF ok]) (auto dest: order.strict_trans)
  show ?case using "2.IH" ok absent by (auto simp: kv_sum_def kv_amt_def kv_get_def)
qed (simp add: kv_sum_def kv_amt_def)

lemma kv_sum_del: "kv_ok m \<Longrightarrow> kv_sum (kv_del k m) = kv_sum m - kv_amt m k"
proof (induction m)
  case (Cons p m)
  then have ok: "kv_ok m" and above: "\<forall>x \<in> fst ` set m. fst p < x" by (auto simp: kv_ok_def)
  then have "kv_get m (fst p) = None" by (intro kv_get_None [OF ok]) auto
  then show ?case using Cons.IH ok by (auto simp: kv_sum_def kv_amt_def kv_get_def kv_del_def)
qed (simp add: kv_sum_def kv_amt_def kv_del_def)

lemma kv_amt_set [simp]: "kv_amt (kv_set k v m) k' = (if k' = k then v else kv_amt m k')"
  by (simp add: kv_amt_def)

lemma kv_amt_del [simp]: "kv_amt (kv_del k m) k' = (if k' = k then 0 else kv_amt m k')"
  by (simp add: kv_amt_def)

lemma kv_sum_nonneg: "\<forall>(k, v) \<in> set m. 0 \<le> v \<Longrightarrow> 0 \<le> kv_sum m"
  by (induction m) (auto simp: kv_sum_def)

lemma kv_amt_le_sum: "kv_ok m \<Longrightarrow> \<forall>(k, v) \<in> set m. 0 \<le> v \<Longrightarrow> kv_amt m k \<le> kv_sum m"
  using kv_sum_nonneg [of "kv_del k m"] kv_sum_del [of m k] by (auto simp: kv_del_def)


section \<open>The store (keeper/keeper.go)\<close>

abbreviation ErrInvalidAmount :: error where "ErrInvalidAmount \<equiv> Registered ''dodxstaking'' 2"
abbreviation ErrInsufficientStake :: error where "ErrInsufficientStake \<equiv> Registered ''dodxstaking'' 3"
abbreviation ErrInvalidStakeDenom :: error where "ErrInvalidStakeDenom \<equiv> Registered ''dodxstaking'' 4"
abbreviation ErrDuplicateStake :: error where "ErrDuplicateStake \<equiv> Registered ''dodxstaking'' 5"

record dodx_store =
  stakes :: "int kv"
  totalStaked :: "int option"
  governanceFlag :: bool

definition stakeKey :: "address \<Rightarrow> bytes" where
  "stakeKey addr = CHR 0x01 # addr"

definition GetStakeAmount :: "dodx_store \<Rightarrow> address \<Rightarrow> int" where
  "GetStakeAmount s addr = (case kv_get (stakes s) (stakeKey addr) of None \<Rightarrow> 0 | Some n \<Rightarrow> n)"

definition GetStake :: "sdk \<Rightarrow> dodx_store \<Rightarrow> address \<Rightarrow> coin result" where
  "GetStake K s addr = NewCoin K MicroDODxDenom (GetStakeAmount s addr)"

definition SetStakeAmount :: "dodx_store \<Rightarrow> address \<Rightarrow> int \<Rightarrow> dodx_store" where
  "SetStakeAmount s addr amount =
     (if amount = 0 then s\<lparr>stakes := kv_del (stakeKey addr) (stakes s)\<rparr>
      else s\<lparr>stakes := kv_set (stakeKey addr) amount (stakes s)\<rparr>)"

definition GetTotalStakedAmount :: "dodx_store \<Rightarrow> int" where
  "GetTotalStakedAmount s = (case totalStaked s of None \<Rightarrow> 0 | Some n \<Rightarrow> n)"

definition GetTotalStaked :: "sdk \<Rightarrow> dodx_store \<Rightarrow> coin result" where
  "GetTotalStaked K s = NewCoin K MicroDODxDenom (GetTotalStakedAmount s)"

definition SetTotalStakedAmount :: "dodx_store \<Rightarrow> int \<Rightarrow> dodx_store" where
  "SetTotalStakedAmount s amount =
     (if amount = 0 then s\<lparr>totalStaked := None\<rparr> else s\<lparr>totalStaked := Some amount\<rparr>)"

definition AddStake :: "sdk \<Rightarrow> dodx_store \<Rightarrow> address \<Rightarrow> int \<Rightarrow> dodx_store result" where
  "AddStake K s addr amount =
     rbind (iAdd K (GetStakeAmount s addr) amount) (\<lambda>n.
     let s1 = SetStakeAmount s addr n
     in rbind (iAdd K (GetTotalStakedAmount s1) amount) (\<lambda>t.
        Inr (SetTotalStakedAmount s1 t)))"

definition RemoveStake :: "sdk \<Rightarrow> dodx_store \<Rightarrow> address \<Rightarrow> int \<Rightarrow> dodx_store result" where
  "RemoveStake K s addr amount =
     (let current = GetStakeAmount s addr
      in if current < amount then Inl ErrInsufficientStake
         else rbind (iSub K current amount) (\<lambda>n.
              let s1 = SetStakeAmount s addr n
              in rbind (iSub K (GetTotalStakedAmount s1) amount) (\<lambda>t.
                 Inr (SetTotalStakedAmount s1 t))))"

definition IterateStakes :: "dodx_store \<Rightarrow> (address \<Rightarrow> int \<Rightarrow> 'a \<Rightarrow> ('a \<times> bool) result) \<Rightarrow> 'a \<Rightarrow> 'a result" where
  "IterateStakes s handler = iterate (\<lambda>k. handler (drop 1 k)) (stakes s)"

definition SetGovernanceEnabled :: "dodx_store \<Rightarrow> bool \<Rightarrow> dodx_store" where
  "SetGovernanceEnabled s enabled = s\<lparr>governanceFlag := enabled\<rparr>"

definition GovernanceEnabled :: "dodx_store \<Rightarrow> bool" where
  "GovernanceEnabled s = governanceFlag s"


section \<open>Messages (keeper/msg\_server.go, types/msgs.go)\<close>

record MsgStake =
  Staker :: string
  StakeCoin :: coin

definition validateStakeMsg :: "sdk \<Rightarrow> string \<Rightarrow> coin \<Rightarrow> unit result" where
  "validateStakeMsg K staker amount =
     rbind (wrap_err (Sdk ''ErrInvalidAddress'') (AccFromBech32 K staker)) (\<lambda>_.
     rbind (fail_if (Denom amount \<noteq> MicroDODxDenom) ErrInvalidStakeDenom) (\<lambda>_.
     fail_if (\<not> CoinIsValid K amount \<or> Amount amount \<le> 0 \<or> 100 < BitLen (Amount amount)) ErrInvalidAmount))"

definition stake_GetSigners :: "sdk \<Rightarrow> MsgStake \<Rightarrow> address list result" where
  "stake_GetSigners K msg = rbind (must (AccFromBech32 K (Staker msg))) (\<lambda>a. Inr [a])"

definition Stake_msg ::
    "sdk \<Rightarrow> 'w keepers \<Rightarrow> MsgStake \<Rightarrow> dodx_store \<times> 'w \<Rightarrow> (dodx_store \<times> 'w) result" where
  "Stake_msg K N msg sw =
     (let (s, w) = sw
      in rbind (validateStakeMsg K (Staker msg) (StakeCoin msg)) (\<lambda>_.
         rbind (AccFromBech32 K (Staker msg)) (\<lambda>staker.
         rbind (NewCoins K [StakeCoin msg]) (\<lambda>cs.
         rbind (SendCoinsFromAccountToModule N w staker ''dodxstaking'' cs) (\<lambda>w1.
         rbind (AddStake K s staker (Amount (StakeCoin msg))) (\<lambda>s1.
         Inr (s1, w1)))))))"

definition Unstake_msg ::
    "sdk \<Rightarrow> 'w keepers \<Rightarrow> MsgStake \<Rightarrow> dodx_store \<times> 'w \<Rightarrow> (dodx_store \<times> 'w) result" where
  "Unstake_msg K N msg sw =
     (let (s, w) = sw
      in rbind (validateStakeMsg K (Staker msg) (StakeCoin msg)) (\<lambda>_.
         rbind (AccFromBech32 K (Staker msg)) (\<lambda>staker.
         rbind (RemoveStake K s staker (Amount (StakeCoin msg))) (\<lambda>s1.
         rbind (NewCoins K [StakeCoin msg]) (\<lambda>cs.
         rbind (SendCoinsFromModuleToAccount N w ''dodxstaking'' staker cs) (\<lambda>w1.
         Inr (s1, w1)))))))"

definition query_Stake :: "sdk \<Rightarrow> dodx_store \<Rightarrow> string option \<Rightarrow> coin result" where
  "query_Stake K s req =
     (case req of
        None \<Rightarrow> Inl (Sdk ''InvalidArgument'')
      | Some addrStr \<Rightarrow> rbind (wrap_err (Sdk ''InvalidArgument'') (AccFromBech32 K addrStr)) (\<lambda>addr. GetStake K s addr))"


section \<open>Genesis (genesis.go, types/genesis.go)\<close>

record DodxGenesis =
  gStakes :: "(string \<times> coin) list"
  gGovernanceEnabled :: bool

definition dodx_DefaultGenesisState :: DodxGenesis where
  "dodx_DefaultGenesisState = \<lparr>gStakes = [], gGovernanceEnabled = False\<rparr>"

definition dodx_ValidateGenesis :: "sdk \<Rightarrow> DodxGenesis \<Rightarrow> unit result" where
  "dodx_ValidateGenesis K g =
     rbind (fold_res (\<lambda>(addrStr, amount) seen.
              rbind (AccFromBech32 K addrStr) (\<lambda>addr.
              rbind (fail_if (AccString K addr \<in> set seen) ErrDuplicateStake) (\<lambda>_.
              rbind (fail_if (Denom amount \<noteq> MicroDODxDenom) ErrInvalidStakeDenom) (\<lambda>_.
              rbind (fail_if (\<not> CoinIsValid K amount \<or> \<not> 0 < Amount amount) ErrInvalidAmount) (\<lambda>_.
              Inr (AccString K addr # seen)))))) (gStakes g) []) (\<lambda>_. Inr ())"

definition init_stake :: "sdk \<Rightarrow> string \<times> coin \<Rightarrow> dodx_store \<Rightarrow> dodx_store result" where
  "init_stake K = (\<lambda>(addrStr, amount) s.
     rbind (must (AccFromBech32 K addrStr)) (\<lambda>addr.
     let s1 = SetStakeAmount s addr (Amount amount)
     in rbind (iAdd K (GetTotalStakedAmount s1) (Amount amount)) (\<lambda>t.
        Inr (SetTotalStakedAmount s1 t))))"

definition dodx_InitGenesis :: "sdk \<Rightarrow> dodx_store \<Rightarrow> DodxGenesis \<Rightarrow> dodx_store result" where
  "dodx_InitGenesis K s g =
     rbind (fold_res (init_stake K) (gStakes g) s) (\<lambda>s.
     Inr (SetGovernanceEnabled s (gGovernanceEnabled g)))"

definition dodx_ExportGenesis :: "sdk \<Rightarrow> dodx_store \<Rightarrow> DodxGenesis result" where
  "dodx_ExportGenesis K s =
     rbind (IterateStakes s (\<lambda>addr amount acc.
              rbind (NewCoin K MicroDODxDenom amount) (\<lambda>c.
              Inr (acc @ [(AccString K addr, c)], False))) []) (\<lambda>gs.
     Inr \<lparr>gStakes = gs, gGovernanceEnabled = GovernanceEnabled s\<rparr>)"


section \<open>The invariant\<close>

definition dodx_ok :: "dodx_store \<Rightarrow> bool" where
  "dodx_ok s \<longleftrightarrow> kv_ok (stakes s) \<and> entries stakeKey (\<lambda>a n. addr_ok a \<and> 0 < n) (stakes s) \<and>
     GetTotalStakedAmount s = kv_sum (stakes s) \<and> totalStaked s \<noteq> Some 0"

lemma stakeKey_inject [simp, key_simps]: "stakeKey a = stakeKey b \<longleftrightarrow> a = b"
  by (simp add: stakeKey_def)

interpretation stake_cell: keyed_cell GetStakeAmount SetStakeAmount "\<lambda>_ n. n"
  by unfold_locales (simp_all add: GetStakeAmount_def SetStakeAmount_def)

lemma GetStakeAmount_kv: "GetStakeAmount s a = kv_amt (stakes s) (stakeKey a)"
  by (simp add: GetStakeAmount_def kv_amt_def)

lemma total_frame [simp]:
  "GetTotalStakedAmount (SetTotalStakedAmount s t) = t"
  "GetTotalStakedAmount (SetStakeAmount s a n) = GetTotalStakedAmount s"
  "stakes (SetTotalStakedAmount s t) = stakes s"
  "GetStakeAmount (SetTotalStakedAmount s t) a = GetStakeAmount s a"
  "GovernanceEnabled (SetTotalStakedAmount s t) = GovernanceEnabled s"
  "GovernanceEnabled (SetStakeAmount s a n) = GovernanceEnabled s"
  by (simp_all add: GetTotalStakedAmount_def SetTotalStakedAmount_def SetStakeAmount_def GetStakeAmount_def
      GovernanceEnabled_def)

lemma set_stake_sum:
  "kv_ok (stakes s) \<Longrightarrow> kv_sum (stakes (SetStakeAmount s a n)) = kv_sum (stakes s) - GetStakeAmount s a + n"
  by (simp add: SetStakeAmount_def GetStakeAmount_kv kv_sum_set kv_sum_del)

lemma stake_nonneg: "dodx_ok s \<Longrightarrow> 0 \<le> GetStakeAmount s a"
proof -
  assume "dodx_ok s"
  then have "kv_get (stakes s) (stakeKey a) = Some n \<Longrightarrow> 0 \<le> n" for n
    by (auto simp: dodx_ok_def kv_get_iff elim!: entriesE)
  then show ?thesis by (auto simp: GetStakeAmount_def split: option.splits)
qed

lemma set_stake_ok:
  assumes "dodx_ok s" and "addr_ok a" and "0 \<le> n" and "t = GetTotalStakedAmount s - GetStakeAmount s a + n"
  shows "dodx_ok (SetTotalStakedAmount (SetStakeAmount s a n) t)"
proof -
  have "totalStaked (SetTotalStakedAmount u t) \<noteq> Some 0" for u by (simp add: SetTotalStakedAmount_def)
  then show ?thesis using assms set_stake_sum [of s a n] by (auto simp: dodx_ok_def SetStakeAmount_def)
qed

lemma stakes_covered:
  assumes "dodx_ok s"
  shows "GetStakeAmount s a \<le> GetTotalStakedAmount s"
proof -
  have "\<forall>(k, v) \<in> set (stakes s). 0 \<le> v" using assms by (auto simp: dodx_ok_def elim!: entriesE)
  then show ?thesis using assms kv_amt_le_sum [of "stakes s" "stakeKey a"]
    by (simp add: dodx_ok_def GetStakeAmount_kv)
qed



section \<open>The ledger the messages implement\<close>

text \<open>
  The abstract contract: a stake per account, their total and the coins in the vault. Staking
  moves coins into the vault, unstaking moves at most one's own stake out of it.
\<close>

record ledger =
  lStake :: "address \<Rightarrow> int"
  lTotal :: int
  lVault :: int

datatype ledger_op = Deposit address int | Withdraw address int

fun ledger_step :: "ledger_op \<Rightarrow> ledger \<Rightarrow> ledger option" where
  "ledger_step (Deposit a n) l =
     (if 0 < n then Some \<lparr>lStake = (lStake l)(a := lStake l a + n), lTotal = lTotal l + n, lVault = lVault l + n\<rparr> else None)"
| "ledger_step (Withdraw a n) l =
     (if 0 < n \<and> n \<le> lStake l a
      then Some \<lparr>lStake = (lStake l)(a := lStake l a - n), lTotal = lTotal l - n, lVault = lVault l - n\<rparr> else None)"

definition ledger_of :: "'w keepers \<Rightarrow> address \<Rightarrow> dodx_store \<times> 'w \<Rightarrow> ledger" where
  "ledger_of N vault sw = (let (s, w) = sw in
     \<lparr>lStake = GetStakeAmount s, lTotal = GetTotalStakedAmount s, lVault = bal N w vault MicroDODxDenom\<rparr>)"

lemma validated_stake:
  assumes "validateStakeMsg K a c = Inr ()"
  shows "Denom c = MicroDODxDenom \<and> 0 < Amount c"
  using assms by (auto simp: validateStakeMsg_def rbind_eq_Inr)

lemma add_stake_result:
  assumes "dec_math K" and "AddStake K s a n = Inr s'"
  shows "s' = SetTotalStakedAmount (SetStakeAmount s a (GetStakeAmount s a + n)) (GetTotalStakedAmount s + n)"
  using assms(2) dec_math.int_add [OF assms(1)]
  by (auto simp: AddStake_def Let_def rbind_eq_Inr split: if_splits)

lemma remove_stake_result:
  assumes "dec_math K" and "RemoveStake K s a n = Inr s'"
  shows "n \<le> GetStakeAmount s a \<and>
    s' = SetTotalStakedAmount (SetStakeAmount s a (GetStakeAmount s a - n)) (GetTotalStakedAmount s - n)"
  using assms(2) dec_math.int_sub [OF assms(1)]
  by (auto simp: RemoveStake_def Let_def rbind_eq_Inr split: if_splits)

lemma ledger_of_set:
  "ledger_of N v (SetTotalStakedAmount (SetStakeAmount s a n) t, w) =
     \<lparr>lStake = (GetStakeAmount s)(a := n), lTotal = t, lVault = bal N w v MicroDODxDenom\<rparr>"
  by (simp add: ledger_of_def fun_eq_iff stake_cell.get_put)

lemma one_coin_amount:
  assumes "coin_math K" and "NewCoins K [c] = Inr cs"
  shows "AmountOf cs d = (if d = Denom c then Amount c else 0)"
  using assms(2) coin_math.new_coins_one [OF assms(1), of c] by (auto split: if_splits)

lemma stake_simulates:
  assumes laws: "coin_math K" "bank N" and v: "GetModuleAddress N ''dodxstaking'' = Some v"
    and run: "Stake_msg K N msg (s, w) = Inr (s', w')" and a: "AccFromBech32 K (Staker msg) = Inr a" "a \<noteq> v"
  shows "ledger_step (Deposit a (Amount (StakeCoin msg))) (ledger_of N v (s, w)) = Some (ledger_of N v (s', w'))"
proof -
  from run a obtain cs where val: "validateStakeMsg K (Staker msg) (StakeCoin msg) = Inr ()"
    and cs: "NewCoins K [StakeCoin msg] = Inr cs" and snd: "SendCoinsFromAccountToModule N w a ''dodxstaking'' cs = Inr w'"
    and add: "AddStake K s a (Amount (StakeCoin msg)) = Inr s'"
    by (auto simp: Stake_msg_def rbind_eq_Inr)
  note c = validated_stake [OF val]
  have "moved N w w' a v cs" using bank.account_to_module [OF laws(2) snd] v by simp
  then have "bal N w' v MicroDODxDenom = bal N w v MicroDODxDenom + Amount (StakeCoin msg)"
    using a(2) one_coin_amount [OF laws(1) cs] c by (simp add: moved_def)
  then show ?thesis
    unfolding add_stake_result [OF coin_math.axioms(1) [OF laws(1)] add] ledger_of_set
    using c by (simp add: ledger_of_def)
qed

lemma unstake_simulates:
  assumes laws: "coin_math K" "bank N" and v: "GetModuleAddress N ''dodxstaking'' = Some v"
    and run: "Unstake_msg K N msg (s, w) = Inr (s', w')" and a: "AccFromBech32 K (Staker msg) = Inr a" "a \<noteq> v"
  shows "ledger_step (Withdraw a (Amount (StakeCoin msg))) (ledger_of N v (s, w)) = Some (ledger_of N v (s', w'))"
proof -
  from run a obtain cs where val: "validateStakeMsg K (Staker msg) (StakeCoin msg) = Inr ()"
    and cs: "NewCoins K [StakeCoin msg] = Inr cs" and snd: "SendCoinsFromModuleToAccount N w ''dodxstaking'' a cs = Inr w'"
    and rem: "RemoveStake K s a (Amount (StakeCoin msg)) = Inr s'"
    by (auto simp: Unstake_msg_def rbind_eq_Inr)
  note c = validated_stake [OF val]
  have "moved N w w' v a cs" using bank.module_to_account [OF laws(2) snd] v by simp
  then have "bal N w' v MicroDODxDenom = bal N w v MicroDODxDenom - Amount (StakeCoin msg)"
    using a(2) one_coin_amount [OF laws(1) cs] c by (simp add: moved_def)
  moreover note r = remove_stake_result [OF coin_math.axioms(1) [OF laws(1)] rem]
  ultimately show ?thesis
    unfolding conjunct2 [OF r] ledger_of_set using c conjunct1 [OF r] by (simp add: ledger_of_def)
qed

lemma unstake_refused:
  assumes "validateStakeMsg K (Staker msg) (StakeCoin msg) = Inr ()" and "AccFromBech32 K (Staker msg) = Inr a"
    and "ledger_step (Withdraw a (Amount (StakeCoin msg))) (ledger_of N v (s, w)) = None"
  shows "Unstake_msg K N msg (s, w) = Inl ErrInsufficientStake"
  using assms validated_stake [OF assms(1)]
  by (auto simp: Unstake_msg_def RemoveStake_def ledger_of_def split: if_splits)

text \<open>
  C23: the messages refine the ledger. A stake or unstake message that succeeds takes exactly the
  step of the abstract ledger for its signer and amount, on the stakes, on the total and on the
  vault; and an unstake that the ledger refuses fails with the error for an insufficient stake.
  The signer is not the module account itself, which has no key.
\<close>

theorem messages_refine_ledger:
  assumes laws: "coin_math K" "bank N" and v: "GetModuleAddress N ''dodxstaking'' = Some v"
    and a: "AccFromBech32 K (Staker msg) = Inr a" "a \<noteq> v"
  shows "(\<forall>s' w'. Stake_msg K N msg (s, w) = Inr (s', w') \<longrightarrow>
        ledger_step (Deposit a (Amount (StakeCoin msg))) (ledger_of N v (s, w)) = Some (ledger_of N v (s', w'))) \<and>
     (\<forall>s' w'. Unstake_msg K N msg (s, w) = Inr (s', w') \<longrightarrow>
        ledger_step (Withdraw a (Amount (StakeCoin msg))) (ledger_of N v (s, w)) = Some (ledger_of N v (s', w'))) \<and>
     (validateStakeMsg K (Staker msg) (StakeCoin msg) = Inr () \<and>
      ledger_step (Withdraw a (Amount (StakeCoin msg))) (ledger_of N v (s, w)) = None \<longrightarrow>
      Unstake_msg K N msg (s, w) = Inl ErrInsufficientStake)"
proof (intro conjI allI impI; (elim conjE)?)
  fix s' w'
  show "Stake_msg K N msg (s, w) = Inr (s', w') \<Longrightarrow>
      ledger_step (Deposit a (Amount (StakeCoin msg))) (ledger_of N v (s, w)) = Some (ledger_of N v (s', w'))"
    by (rule stake_simulates [OF laws v _ a])
  show "Unstake_msg K N msg (s, w) = Inr (s', w') \<Longrightarrow>
      ledger_step (Withdraw a (Amount (StakeCoin msg))) (ledger_of N v (s, w)) = Some (ledger_of N v (s', w'))"
    by (rule unstake_simulates [OF laws v _ a])
qed (rule unstake_refused [OF _ a(1)])

definition ex_dodx :: dodx_store where
  "ex_dodx = \<lparr>stakes = [], totalStaked = None, governanceFlag = False\<rparr>"

definition ex_stake :: MsgStake where
  "ex_stake = \<lparr>Staker = ''do1'' @ alice, StakeCoin = \<lparr>Denom = ''udodx'', Amount = 40\<rparr>\<rparr>"

theorem messages_refine_ledger_witness:
  "\<exists>s' w'. Stake_msg ref_sdk ref_keepers ex_stake (ex_dodx, ex_world [(alice, ''udodx'', 100)] []) = Inr (s', w') \<and>
     lVault (ledger_of ref_keepers (module_addr ''dodxstaking'') (s', w')) = 40 \<and> GetStakeAmount s' alice = 40"
proof -
  define run where "run = Stake_msg ref_sdk ref_keepers ex_stake (ex_dodx, ex_world [(alice, ''udodx'', 100)] [])"
  have "\<not> isl run" unfolding run_def by code_simp
  then obtain s' w' where r: "run = Inr (s', w')" by (cases run) auto
  have a: "AccFromBech32 ref_sdk (Staker ex_stake) = Inr alice" by code_simp
  have ne: "alice \<noteq> module_addr ''dodxstaking''" by (simp add: alice_def module_addr_def ref_module_def)
  have "ledger_step (Deposit alice (Amount (StakeCoin ex_stake)))
      (ledger_of ref_keepers (module_addr ''dodxstaking'') (ex_dodx, ex_world [(alice, ''udodx'', 100)] [])) =
      Some (ledger_of ref_keepers (module_addr ''dodxstaking'') (s', w'))"
    using messages_refine_ledger [OF ref.coin_math_axioms ref.bank_axioms ref_module_addr a ne] r [unfolded run_def] by blast
  then have l: "ledger_of ref_keepers (module_addr ''dodxstaking'') (s', w') = the (ledger_step (Deposit alice (Amount (StakeCoin ex_stake)))
      (ledger_of ref_keepers (module_addr ''dodxstaking'') (ex_dodx, ex_world [(alice, ''udodx'', 100)] [])))" by simp
  have "lVault (ledger_of ref_keepers (module_addr ''dodxstaking'') (s', w')) = 40"
      "lStake (ledger_of ref_keepers (module_addr ''dodxstaking'') (s', w')) alice = 40"
    unfolding l by code_simp+
  then show ?thesis using r [unfolded run_def] by (auto simp: ledger_of_def)
qed



section \<open>Solvency\<close>

text \<open>
  Runs of the module: messages of accounts other than the module account, in any order, between
  which the rest of the chain may do anything that does not take DODx out of the vault.
\<close>

inductive dodx_step :: "sdk \<Rightarrow> 'w keepers \<Rightarrow> address \<Rightarrow> dodx_store \<times> 'w \<Rightarrow> dodx_store \<times> 'w \<Rightarrow> bool"
  for K N v where
  stake: "AccFromBech32 K (Staker msg) \<noteq> Inr v \<Longrightarrow> Stake_msg K N msg (s, w) = Inr (s', w') \<Longrightarrow>
    dodx_step K N v (s, w) (s', w')"
| unstake: "AccFromBech32 K (Staker msg) \<noteq> Inr v \<Longrightarrow> Unstake_msg K N msg (s, w) = Inr (s', w') \<Longrightarrow>
    dodx_step K N v (s, w) (s', w')"
| elsewhere: "bal N w v MicroDODxDenom \<le> bal N w' v MicroDODxDenom \<Longrightarrow> dodx_step K N v (s, w) (s, w')"

definition dodx_solvent :: "'w keepers \<Rightarrow> address \<Rightarrow> dodx_store \<times> 'w \<Rightarrow> bool" where
  "dodx_solvent N v sw \<longleftrightarrow> dodx_ok (fst sw) \<and> GetTotalStakedAmount (fst sw) \<le> bal N (snd sw) v MicroDODxDenom"

lemma stake_keeps_ok:
  assumes laws: "coin_math K" "bech32 K" and ok: "dodx_ok s" and run: "Stake_msg K N msg (s, w) = Inr (s', w')"
  shows "dodx_ok s'"
proof -
  from run obtain a where a: "AccFromBech32 K (Staker msg) = Inr a"
    and val: "validateStakeMsg K (Staker msg) (StakeCoin msg) = Inr ()"
    and add: "AddStake K s a (Amount (StakeCoin msg)) = Inr s'"
    by (auto simp: Stake_msg_def rbind_eq_Inr)
  show ?thesis unfolding add_stake_result [OF coin_math.axioms(1) [OF laws(1)] add]
    by (rule set_stake_ok [OF ok])
      (use bech32.acc_write [OF laws(2) a] stake_nonneg [OF ok, of a] validated_stake [OF val] in auto)
qed

lemma unstake_keeps_ok:
  assumes laws: "coin_math K" "bech32 K" and ok: "dodx_ok s" and run: "Unstake_msg K N msg (s, w) = Inr (s', w')"
  shows "dodx_ok s'"
proof -
  from run obtain a where a: "AccFromBech32 K (Staker msg) = Inr a"
    and rem: "RemoveStake K s a (Amount (StakeCoin msg)) = Inr s'"
    by (auto simp: Unstake_msg_def rbind_eq_Inr)
  note r = remove_stake_result [OF coin_math.axioms(1) [OF laws(1)] rem]
  show ?thesis unfolding conjunct2 [OF r]
    by (rule set_stake_ok [OF ok]) (use bech32.acc_write [OF laws(2) a] conjunct1 [OF r] in auto)
qed

lemma ledger_gap:
  "ledger_step p l = Some l' \<Longrightarrow> lVault l' - lTotal l' = lVault l - lTotal l"
  by (cases p) (auto split: if_splits)

lemma dodx_step_solvent:
  assumes laws: "coin_math K" "bech32 K" "bank N" and v: "GetModuleAddress N ''dodxstaking'' = Some v"
    and step: "dodx_step K N v sw sw'" and inv: "dodx_solvent N v sw"
  shows "dodx_solvent N v sw'"
  using step inv
proof cases
  case (stake msg s w s' w')
  then obtain a where a: "AccFromBech32 K (Staker msg) = Inr a" "a \<noteq> v"
    by (auto simp: Stake_msg_def rbind_eq_Inr)
  from ledger_gap [OF stake_simulates [OF laws(1,3) v stake(4) a]] stake_keeps_ok [OF laws(1,2) _ stake(4)] inv stake(1,2)
  show ?thesis by (auto simp: dodx_solvent_def ledger_of_def)
next
  case (unstake msg s w s' w')
  then obtain a where a: "AccFromBech32 K (Staker msg) = Inr a" "a \<noteq> v"
    by (auto simp: Unstake_msg_def rbind_eq_Inr)
  from ledger_gap [OF unstake_simulates [OF laws(1,3) v unstake(4) a]] unstake_keeps_ok [OF laws(1,2) _ unstake(4)] inv unstake(1,2)
  show ?thesis by (auto simp: dodx_solvent_def ledger_of_def)
qed (auto simp: dodx_solvent_def)

text \<open>
  C24: the staking vault is solvent. Along every run from a well-formed solvent state the total is
  the sum of the stakes, every stake is positive, and the vault holds at least the total; so what
  any one account has staked is always covered. The rest of the chain may change anything between
  two messages but takes no DODx out of the vault.
\<close>

theorem dodx_runs_solvent:
  assumes laws: "coin_math K" "bech32 K" "bank N" and v: "GetModuleAddress N ''dodxstaking'' = Some v"
    and start: "dodx_solvent N v sw" and run: "(dodx_step K N v)\<^sup>*\<^sup>* sw (s, w)"
  shows "dodx_ok s \<and> GetTotalStakedAmount s \<le> bal N w v MicroDODxDenom \<and>
     GetStakeAmount s a \<le> bal N w v MicroDODxDenom"
proof -
  from run have "dodx_solvent N v (s, w)"
    by (induction "(s, w)" arbitrary: s w rule: rtranclp_induct)
      (use start dodx_step_solvent [OF laws v] in \<open>auto intro: dodx_step_solvent [OF laws v]\<close>)
  then show ?thesis using stakes_covered [of s a] by (auto simp: dodx_solvent_def)
qed


theorem dodx_runs_solvent_witness:
  "\<exists>s w. (dodx_step ref_sdk ref_keepers (module_addr ''dodxstaking''))\<^sup>*\<^sup>*
       (ex_dodx, ex_world [(alice, ''udodx'', 100)] []) (s, w) \<and>
     GetStakeAmount s alice \<le> bal ref_keepers w (module_addr ''dodxstaking'') MicroDODxDenom"
proof -
  let ?v = "module_addr ''dodxstaking''" and ?sw = "(ex_dodx, ex_world [(alice, ''udodx'', 100)] [])"
  define run where "run = Stake_msg ref_sdk ref_keepers ex_stake ?sw"
  have "\<not> isl run" unfolding run_def by code_simp
  then obtain s w where r: "run = Inr (s, w)" by (cases run) auto
  have ne: "alice \<noteq> ?v" by (simp add: alice_def module_addr_def ref_module_def)
  moreover have a: "AccFromBech32 ref_sdk (Staker ex_stake) = Inr alice" by code_simp
  ultimately have "AccFromBech32 ref_sdk (Staker ex_stake) \<noteq> Inr ?v" by auto
  from dodx_step.stake [OF this r [unfolded run_def]]
  have steps: "(dodx_step ref_sdk ref_keepers ?v)\<^sup>*\<^sup>* ?sw (s, w)" by (rule r_into_rtranclp)
  have "dodx_solvent ref_keepers ?v ?sw"
    using ne by (simp add: dodx_solvent_def dodx_ok_def ex_dodx_def kv_sum_def GetTotalStakedAmount_def ref_bal ex_world_def)
  from dodx_runs_solvent [OF ref.coin_math_axioms ref.bech32_axioms ref.bank_axioms ref_module_addr this steps] steps
  show ?thesis by blast
qed


section \<open>Genesis\<close>

lemma exported_stakes:
  assumes "coin_math K" and "ValidateDenom K MicroDODxDenom" and "\<forall>(k, n) \<in> set m. 0 < n"
  shows "iterate (\<lambda>k amount acc. rbind (NewCoin K MicroDODxDenom amount) (\<lambda>c. Inr (acc @ [(AccString K (drop 1 k), c)], False))) m acc =
    Inr (acc @ map (\<lambda>(k, n). (AccString K (drop 1 k), \<lparr>Denom = MicroDODxDenom, Amount = n\<rparr>)) m)"
  using assms(3) by (induction m arbitrary: acc) (auto simp: coin_math.new_coin [OF assms(1)] assms(2))

lemma init_stakes:
  assumes laws: "dec_math K" "bech32 K" and "entries stakeKey (\<lambda>a n. addr_ok a \<and> 0 < n) m"
    and "0 \<le> GetTotalStakedAmount s" and "fits_int (GetTotalStakedAmount s + kv_sum m)"
  shows "\<exists>s'. fold_res (init_stake K) (map (\<lambda>(k, n). (AccString K (drop 1 k), \<lparr>Denom = MicroDODxDenom, Amount = n\<rparr>)) m) s = Inr s' \<and>
     stakes s' = fold (\<lambda>(k, n) m. kv_set k n m) m (stakes s) \<and> governanceFlag s' = governanceFlag s \<and>
     GetTotalStakedAmount s' = GetTotalStakedAmount s + kv_sum m \<and> (m \<noteq> [] \<longrightarrow> totalStaked s' \<noteq> Some 0) \<and> (m = [] \<longrightarrow> s' = s)"
  using assms(3-)
proof (induction m arbitrary: s)
  case (Cons p m)
  obtain k n where p: "p = (k, n)" by (cases p)
  from Cons.prems(1) obtain a where a: "k = stakeKey a" "addr_ok a" "0 < n" by (auto simp: p entries_def)
  have sub: "entries stakeKey (\<lambda>a n. addr_ok a \<and> 0 < n) m" using Cons.prems(1) by (auto simp: entries_def)
  have pos: "0 \<le> kv_sum m" by (rule kv_sum_nonneg) (use sub in \<open>auto simp: entries_def\<close>)
  have sum: "kv_sum ((k, n) # m) = n + kv_sum m" by (simp add: kv_sum_def)
  define s1 where "s1 = SetTotalStakedAmount (SetStakeAmount s a n) (GetTotalStakedAmount s + n)"
  have "fits_int (GetTotalStakedAmount s + n)" using Cons.prems(2,3) a(3) pos by (auto simp: fits_int_def p sum)
  then have one: "init_stake K (AccString K (drop 1 k), \<lparr>Denom = MicroDODxDenom, Amount = n\<rparr>) s = Inr s1"
    using a dec_math.int_add [OF laws(1)] bech32.acc_read [OF laws(2) a(2)]
    by (simp add: init_stake_def s1_def stakeKey_def Let_def)
  have s1: "stakes s1 = kv_set k n (stakes s)" "governanceFlag s1 = governanceFlag s" "totalStaked s1 \<noteq> Some 0"
      "GetTotalStakedAmount s1 = GetTotalStakedAmount s + n"
    using a by (auto simp: s1_def SetStakeAmount_def SetTotalStakedAmount_def GetTotalStakedAmount_def)
  have "0 \<le> GetTotalStakedAmount s1" "fits_int (GetTotalStakedAmount s1 + kv_sum m)"
    using Cons.prems(2,3) a(3) s1(4) by (simp_all add: p sum add.assoc)
  from Cons.IH [OF sub this] one s1 show ?case by (auto simp: p sum)
qed (simp add: kv_sum_def)

text \<open>
  Exporting and importing the staking state is the identity: stakes, total and the governance
  flag come back exactly, from every well-formed state whose total fits an integer of the SDK.
\<close>

lemma dodx_genesis_round_trip:
  assumes laws: "coin_math K" "bech32 K" and denom: "ValidateDenom K MicroDODxDenom"
    and ok: "dodx_ok s" and fits: "fits_int (GetTotalStakedAmount s)"
  shows "rbind (dodx_ExportGenesis K s) (dodx_InitGenesis K ex_dodx) = Inr s"
proof -
  note p = ok [unfolded dodx_ok_def]
  have pos: "\<forall>(k, n) \<in> set (stakes s). 0 < n" using p by (auto simp: entries_def)
  have ex0: "GetTotalStakedAmount ex_dodx = 0" "stakes ex_dodx = []" "totalStaked ex_dodx = None"
    by (simp_all add: ex_dodx_def GetTotalStakedAmount_def)
  have "0 \<le> GetTotalStakedAmount ex_dodx" "fits_int (GetTotalStakedAmount ex_dodx + kv_sum (stakes s))"
    using fits p ex0 by simp_all
  from init_stakes [OF coin_math.axioms(1) [OF laws(1)] laws(2) _ this] p obtain s' where
    s': "fold_res (init_stake K) (map (\<lambda>(k, n). (AccString K (drop 1 k), \<lparr>Denom = MicroDODxDenom, Amount = n\<rparr>)) (stakes s)) ex_dodx = Inr s'"
      "stakes s' = fold (\<lambda>(k, n) m. kv_set k n m) (stakes s) []" "GetTotalStakedAmount s' = GetTotalStakedAmount s"
      "stakes s \<noteq> [] \<longrightarrow> totalStaked s' \<noteq> Some 0" "stakes s = [] \<longrightarrow> s' = ex_dodx"
    using ex0 by auto
  have "totalStaked s' = totalStaked s"
    using s'(3-5) p ex0 by (cases "totalStaked s'"; cases "totalStaked s") (auto simp: GetTotalStakedAmount_def)
  moreover have "stakes s' = stakes s" using s'(2) kv_rebuild [of "stakes s"] p by simp
  moreover have "dodx_ExportGenesis K s = Inr \<lparr>gStakes = map (\<lambda>(k, n). (AccString K (drop 1 k), \<lparr>Denom = MicroDODxDenom, Amount = n\<rparr>)) (stakes s),
      gGovernanceEnabled = governanceFlag s\<rparr>"
    using exported_stakes [OF laws(1) denom pos, of "[]"]
    by (simp add: dodx_ExportGenesis_def IterateStakes_def GovernanceEnabled_def)
  ultimately show ?thesis using s'(1)
    by (simp add: dodx_InitGenesis_def SetGovernanceEnabled_def)
qed

lemma dodx_genesis_round_trip_example:
  "rbind (dodx_ExportGenesis ref_sdk \<lparr>stakes = [(stakeKey alice, 5)], totalStaked = Some 5, governanceFlag = True\<rparr>)
     (dodx_InitGenesis ref_sdk ex_dodx) = Inr \<lparr>stakes = [(stakeKey alice, 5)], totalStaked = Some 5, governanceFlag = True\<rparr>"
proof (rule dodx_genesis_round_trip [OF ref.coin_math_axioms ref.bech32_axioms])
  show "ValidateDenom ref_sdk MicroDODxDenom" by code_simp
  have "addr_ok alice" by (simp add: addr_ok_def alice_def)
  then show "dodx_ok \<lparr>stakes = [(stakeKey alice, 5)], totalStaked = Some 5, governanceFlag = True\<rparr>"
    by (auto simp: dodx_ok_def kv_ok_def entries_def kv_sum_def GetTotalStakedAmount_def)
  show "fits_int (GetTotalStakedAmount \<lparr>stakes = [(stakeKey alice, 5)], totalStaked = Some 5, governanceFlag = True\<rparr>)"
    by (simp add: GetTotalStakedAmount_def fits_int_def)
qed

end
