(* ===== verification/Gov_Tally.thy ===== *)
theory Gov_Tally
  imports Dodx_Staking
begin

text \<open>
  \<open>src/app/keepers/gov_tally.go\<close>: how governance votes are counted. Before the fork height the
  standard count with validators voting for their delegators; after it the community count,
  which leaves validators out and caps every voter; and once DODx governance is enabled the
  count by staked DODx. The votes and the address codecs are the gov and auth modules' and come
  as the record \<open>'w gov\<close>. The map of validators is walked in an order the language leaves open,
  which is an argument of the definition.
\<close>


section \<open>Votes and results\<close>

type_synonym vote_option = int
type_synonym results = "vote_option \<rightharpoonup> dec"

abbreviation OptionYes :: vote_option where "OptionYes \<equiv> 1"
abbreviation OptionAbstain :: vote_option where "OptionAbstain \<equiv> 2"
abbreviation OptionNo :: vote_option where "OptionNo \<equiv> 3"
abbreviation OptionNoWithVeto :: vote_option where "OptionNoWithVeto \<equiv> 4"

record Vote =
  Voter :: string
  Options :: "(vote_option \<times> string) list"

record ValidatorGovInfo =
  BondedTokens :: int
  DelegatorShares :: dec
  DelegatorDeductions :: dec
  ValidatorVote :: "(vote_option \<times> string) list"

record 'w gov =
  Votes :: "'w \<Rightarrow> int \<Rightarrow> (address \<times> Vote) list"
  RemoveVote :: "'w \<Rightarrow> int \<Rightarrow> address \<Rightarrow> 'w result"
  StringToBytes :: "string \<Rightarrow> address result"
  BytesToString :: "address \<Rightarrow> string result"

definition emptyCommunityTallyResults :: results where
  "emptyCommunityTallyResults = [OptionYes \<mapsto> 0, OptionAbstain \<mapsto> 0, OptionNo \<mapsto> 0, OptionNoWithVeto \<mapsto> 0]"

definition doCommunityGovernanceActive :: "int \<Rightarrow> bool" where
  "doCommunityGovernanceActive height \<longleftrightarrow> DoCommunityGovernanceHeight > 0 \<and> height \<ge> DoCommunityGovernanceHeight"

definition capCommunityVoterPower :: "dec \<Rightarrow> dec \<Rightarrow> dec" where
  "capCommunityVoterPower votingPower cap = (if cap = 0 \<or> votingPower \<le> cap then votingPower else cap)"

text \<open>
  One option of a vote: a weight that does not parse and an option that is not in the results
  are nil decimals, on which the arithmetic panics.
\<close>

definition add_option :: "sdk \<Rightarrow> dec \<Rightarrow> vote_option \<times> string \<Rightarrow> results \<Rightarrow> results result" where
  "add_option K votingPower opt results =
     rbind (must (DecFromStr K (snd opt))) (\<lambda>weight.
     case results (fst opt) of
       None \<Rightarrow> Inl Panic
     | Some old \<Rightarrow>
         rbind (dMul K votingPower weight) (\<lambda>p.
         rbind (dAdd K old p) (\<lambda>new. Inr (results(fst opt \<mapsto> new)))))"

definition delegation_power :: "sdk \<Rightarrow> dec \<Rightarrow> ValidatorGovInfo \<Rightarrow> dec result" where
  "delegation_power K shares val =
     rbind (dMulInt K shares (BondedTokens val)) (\<lambda>x. dQuo K x (DelegatorShares val))"

definition remove_votes :: "'w gov \<Rightarrow> int \<Rightarrow> address list \<Rightarrow> 'w \<Rightarrow> 'w result" where
  "remove_votes G proposal voters w =
     fold_res (\<lambda>a w. wrap_err (Text ''error while removing vote'') (RemoveVote G w proposal a)) voters w"


section \<open>The community count\<close>

record tally_state =
  tResults :: results
  tPower :: dec
  tRemove :: "address list"

definition voter_power :: "sdk \<Rightarrow> (string \<rightharpoonup> ValidatorGovInfo) \<Rightarrow> (string \<times> dec) list \<Rightarrow> dec result" where
  "voter_power K validators delegations =
     fold_res (\<lambda>(valAddrStr, shares) acc.
       case validators valAddrStr of
         None \<Rightarrow> Inr acc
       | Some val \<Rightarrow> rbind (delegation_power K shares val) (\<lambda>p. dAdd K acc p)) delegations 0"

definition community_vote ::
    "sdk \<Rightarrow> 'w keepers \<Rightarrow> 'w gov \<Rightarrow> 'w \<Rightarrow> (string \<rightharpoonup> ValidatorGovInfo) \<Rightarrow> dec \<Rightarrow> address \<times> Vote \<Rightarrow> tally_state \<Rightarrow> tally_state result" where
  "community_vote K N G w validators cap kv st =
     rbind (StringToBytes G (Voter (snd kv))) (\<lambda>voter.
     rbind (BytesToString G voter) (\<lambda>valAddrStr.
     if validators valAddrStr \<noteq> None then Inr (st\<lparr>tRemove := tRemove st @ [fst kv]\<rparr>)
     else rbind (Delegations N w voter) (\<lambda>delegations.
          rbind (voter_power K validators delegations) (\<lambda>voterVotingPower.
          let votingPower = capCommunityVoterPower voterVotingPower cap
          in rbind (fold_res (add_option K votingPower) (Options (snd kv)) (tResults st)) (\<lambda>results.
             rbind (dAdd K (tPower st) votingPower) (\<lambda>totalVotingPower.
             Inr \<lparr>tResults = results, tPower = totalVotingPower, tRemove = tRemove st @ [fst kv]\<rparr>))))))"

definition empty_tally :: tally_state where
  "empty_tally = \<lparr>tResults = emptyCommunityTallyResults, tPower = 0, tRemove = []\<rparr>"

definition community_tally ::
    "sdk \<Rightarrow> 'w keepers \<Rightarrow> 'w gov \<Rightarrow> int \<Rightarrow> (string \<rightharpoonup> ValidatorGovInfo) \<Rightarrow> 'w \<Rightarrow> ((dec \<times> results) \<times> 'w) result" where
  "community_tally K N G proposal validators w =
     rbind (TotalBondedTokens N w) (\<lambda>totalBonded.
     rbind (dMulInt K (NewDec totalBonded) 25) (\<lambda>x.
     rbind (dQuoInt K x 1000) (\<lambda>voterPowerCap.
     rbind (wrap_err (Text ''error while iterating delegations'')
              (fold_res (community_vote K N G w validators voterPowerCap) (Votes G w proposal) empty_tally)) (\<lambda>st.
     rbind (remove_votes G proposal (tRemove st) w) (\<lambda>w1.
     Inr ((tPower st, tResults st), w1))))))"


section \<open>The count by staked DODx\<close>

definition dodx_vote :: "sdk \<Rightarrow> 'w gov \<Rightarrow> dodx_store \<Rightarrow> address \<times> Vote \<Rightarrow> tally_state \<Rightarrow> tally_state result" where
  "dodx_vote K G ds kv st =
     rbind (StringToBytes G (Voter (snd kv))) (\<lambda>voter.
     let votingPower = NewDec (GetStakeAmount ds voter)
     in rbind (fold_res (add_option K votingPower) (Options (snd kv)) (tResults st)) (\<lambda>results.
        rbind (dAdd K (tPower st) votingPower) (\<lambda>totalVotingPower.
        Inr \<lparr>tResults = results, tPower = totalVotingPower, tRemove = tRemove st @ [fst kv]\<rparr>)))"

definition dodxStakedTallyFn ::
    "sdk \<Rightarrow> 'w gov \<Rightarrow> dodx_store \<Rightarrow> int \<Rightarrow> 'w \<Rightarrow> ((dec \<times> results) \<times> 'w) result" where
  "dodxStakedTallyFn K G ds proposal w =
     rbind (wrap_err (Text ''error while iterating DODx governance votes'')
              (fold_res (dodx_vote K G ds) (Votes G w proposal) empty_tally)) (\<lambda>st.
     rbind (remove_votes G proposal (tRemove st) w) (\<lambda>w1.
     Inr ((tPower st, tResults st), w1)))"


section \<open>The standard count\<close>

record default_state =
  dResults :: results
  dPower :: dec
  dRemove :: "address list"
  dValidators :: "string \<rightharpoonup> ValidatorGovInfo"

definition default_delegation ::
    "sdk \<Rightarrow> (vote_option \<times> string) list \<Rightarrow> string \<times> dec \<Rightarrow> default_state \<Rightarrow> default_state result" where
  "default_delegation K options d st =
     (case dValidators st (fst d) of
        None \<Rightarrow> Inr st
      | Some val \<Rightarrow>
          rbind (dAdd K (DelegatorDeductions val) (snd d)) (\<lambda>ded.
          let val' = val\<lparr>DelegatorDeductions := ded\<rparr>
          in rbind (delegation_power K (snd d) val') (\<lambda>votingPower.
             rbind (fold_res (add_option K votingPower) options (dResults st)) (\<lambda>results.
             rbind (dAdd K (dPower st) votingPower) (\<lambda>totalVotingPower.
             Inr (st\<lparr>dValidators := (dValidators st)(fst d \<mapsto> val'), dResults := results,
                     dPower := totalVotingPower\<rparr>))))))"

definition default_vote ::
    "sdk \<Rightarrow> 'w keepers \<Rightarrow> 'w gov \<Rightarrow> 'w \<Rightarrow> address \<times> Vote \<Rightarrow> default_state \<Rightarrow> default_state result" where
  "default_vote K N G w kv st =
     rbind (StringToBytes G (Voter (snd kv))) (\<lambda>voter.
     rbind (BytesToString G voter) (\<lambda>valAddrStr.
     let st1 = (case dValidators st valAddrStr of
                  None \<Rightarrow> st
                | Some val \<Rightarrow> st\<lparr>dValidators := (dValidators st)(valAddrStr \<mapsto> val\<lparr>ValidatorVote := Options (snd kv)\<rparr>)\<rparr>)
     in rbind (Delegations N w voter) (\<lambda>delegations.
        rbind (fold_res (default_delegation K (Options (snd kv))) delegations st1) (\<lambda>st2.
        Inr (st2\<lparr>dRemove := dRemove st2 @ [fst kv]\<rparr>)))))"

definition tally_validator :: "sdk \<Rightarrow> ValidatorGovInfo \<Rightarrow> results \<times> dec \<Rightarrow> (results \<times> dec) result" where
  "tally_validator K val rt =
     (if ValidatorVote val = [] then Inr rt
      else rbind (dSub K (DelegatorShares val) (DelegatorDeductions val)) (\<lambda>sharesAfterDeductions.
           rbind (delegation_power K sharesAfterDeductions val) (\<lambda>votingPower.
           rbind (fold_res (add_option K votingPower) (ValidatorVote val) (fst rt)) (\<lambda>results.
           rbind (dAdd K (snd rt) votingPower) (\<lambda>totalVotingPower.
           Inr (results, totalVotingPower))))))"

definition tally_validators ::
    "sdk \<Rightarrow> string list \<Rightarrow> (string \<rightharpoonup> ValidatorGovInfo) \<Rightarrow> results \<times> dec \<Rightarrow> (results \<times> dec) result" where
  "tally_validators K order validators rt =
     fold_res (\<lambda>a. tally_validator K (the (validators a))) (range_keys order validators) rt"

definition default_walk ::
    "sdk \<Rightarrow> 'w keepers \<Rightarrow> 'w gov \<Rightarrow> int \<Rightarrow> (string \<rightharpoonup> ValidatorGovInfo) \<Rightarrow> 'w \<Rightarrow> default_state result" where
  "default_walk K N G proposal validators w =
     wrap_err (Text ''error while iterating delegations'')
       (fold_res (default_vote K N G w) (Votes G w proposal)
         \<lparr>dResults = emptyCommunityTallyResults, dPower = 0, dRemove = [], dValidators = validators\<rparr>)"

definition defaultCommunityTallyFn ::
    "sdk \<Rightarrow> 'w keepers \<Rightarrow> 'w gov \<Rightarrow> string list \<Rightarrow> int \<Rightarrow> (string \<rightharpoonup> ValidatorGovInfo) \<Rightarrow> 'w \<Rightarrow>
     ((dec \<times> results) \<times> 'w) result" where
  "defaultCommunityTallyFn K N G order proposal validators w =
     rbind (default_walk K N G proposal validators w) (\<lambda>st.
     rbind (remove_votes G proposal (dRemove st) w) (\<lambda>w1.
     rbind (tally_validators K order (dValidators st) (dResults st, dPower st)) (\<lambda>(results, totalVotingPower).
     Inr ((totalVotingPower, results), w1))))"

definition DoCommunityTallyFn ::
    "sdk \<Rightarrow> 'w keepers \<Rightarrow> 'w gov \<Rightarrow> dodx_store \<Rightarrow> int \<Rightarrow> string list \<Rightarrow> int \<Rightarrow> (string \<rightharpoonup> ValidatorGovInfo) \<Rightarrow> 'w \<Rightarrow>
     ((dec \<times> results) \<times> 'w) result" where
  "DoCommunityTallyFn K N G ds height order proposal validators w =
     (if \<not> doCommunityGovernanceActive height then defaultCommunityTallyFn K N G order proposal validators w
      else if GovernanceEnabled ds then dodxStakedTallyFn K G ds proposal w
      else community_tally K N G proposal validators w)"



section \<open>What one vote adds\<close>

definition all_options :: "vote_option set" where
  "all_options = {OptionYes, OptionAbstain, OptionNo, OptionNoWithVeto}"

text \<open>The decimals a vote of the given power adds to each option; \<open>None\<close> when it panics.\<close>

fun gain :: "sdk \<Rightarrow> dec \<Rightarrow> (vote_option \<times> string) list \<Rightarrow> (vote_option \<Rightarrow> dec) option" where
  "gain K p [] = Some (\<lambda>_. 0)"
| "gain K p ((opt, weight) # os) =
     (case DecFromStr K weight of
        Inl _ \<Rightarrow> None
      | Inr wt \<Rightarrow>
          if opt \<notin> all_options then None
          else case dMul K p wt of
                 Inl _ \<Rightarrow> None
               | Inr x \<Rightarrow> map_option (\<lambda>g. g(opt := g opt + x)) (gain K p os))"

definition weights_ok :: "sdk \<Rightarrow> (vote_option \<times> string) list \<Rightarrow> bool" where
  "weights_ok K os \<longleftrightarrow> (\<forall>(opt, weight) \<in> set os. \<forall>wt. DecFromStr K weight = Inr wt \<longrightarrow> 0 \<le> wt)"

definition res_ok :: "results \<Rightarrow> bool" where
  "res_ok res \<longleftrightarrow> dom res = all_options \<and> (\<forall>opt x. res opt = Some x \<longrightarrow> 0 \<le> x \<and> fits_dec x)"

definition grow :: "results \<Rightarrow> (vote_option \<Rightarrow> dec) \<Rightarrow> results result" where
  "grow res g = (if \<forall>opt \<in> all_options. fits_dec (the (res opt) + g opt)
     then Inr (\<lambda>opt. map_option (\<lambda>x. x + g opt) (res opt)) else Inl Panic)"

lemma res_ok_empty: "res_ok emptyCommunityTallyResults"
  by (auto simp: res_ok_def emptyCommunityTallyResults_def all_options_def fits_dec_def split: if_splits)

lemma gain_nonneg:
  assumes "dec_math K" and "0 \<le> p"
  shows "gain K p os = Some g \<Longrightarrow> weights_ok K os \<Longrightarrow> 0 \<le> g opt"
proof (induction os arbitrary: g)
  case (Cons q os)
  obtain op wt where q: "q = (op, wt)" by (cases q)
  with Cons.prems(1) obtain y x h where "DecFromStr K wt = Inr y" "dMul K p y = Inr x" "gain K p os = Some h"
    "g = h(op := h op + x)" by (auto split: sum.splits if_splits)
  moreover from this have "0 \<le> x" using Cons.prems(2) assms dec_math.mul_nonneg [OF assms(1)]
    by (auto simp: weights_ok_def q)
  moreover have "weights_ok K os" using Cons.prems(2) by (simp add: weights_ok_def)
  ultimately show ?case using Cons.IH [of h] Cons.IH by auto
qed simp

lemma fits_dec_mono: "0 \<le> x \<Longrightarrow> x \<le> y \<Longrightarrow> fits_dec y \<Longrightarrow> fits_dec x"
  by (simp add: fits_dec_def)

lemma res_okD: "res_ok res \<Longrightarrow> opt \<in> all_options \<Longrightarrow> \<exists>x. res opt = Some x \<and> 0 \<le> x \<and> fits_dec x"
  unfolding res_ok_def by (metis domD)

lemma grow_zero: "res_ok res \<Longrightarrow> grow res (\<lambda>_. 0) = Inr res"
  using res_okD [of res] by (fastforce simp: grow_def option.map_ident)

lemma grow_ok:
  assumes "grow res g = Inr res'" and "res_ok res" and "\<And>opt. 0 \<le> g opt"
  shows "res_ok res'"
proof -
  have r: "res' = (\<lambda>opt. map_option (\<lambda>x. x + g opt) (res opt))" and fit: "\<forall>opt \<in> all_options. fits_dec (the (res opt) + g opt)"
    using assms(1) by (auto simp: grow_def split: if_splits)
  have dom: "dom res = all_options" using assms(2) by (simp add: res_ok_def)
  have "0 \<le> y \<and> fits_dec y" if "res' opt = Some y" for opt y
  proof -
    from that obtain x where x: "res opt = Some x" "y = x + g opt" by (auto simp: r)
    then have "opt \<in> all_options" using dom by blast
    then show ?thesis using x fit assms(3) [of opt] res_okD [OF assms(2), of opt] by auto
  qed
  moreover have "dom res' = all_options" using dom by (simp add: r dom_def)
  ultimately show ?thesis by (simp add: res_ok_def)
qed

lemma add_options_gain:
  assumes laws: "dec_math K" and p: "0 \<le> p"
  shows "weights_ok K os \<Longrightarrow> res_ok res \<Longrightarrow>
    fold_res (add_option K p) os res = (case gain K p os of None \<Rightarrow> Inl Panic | Some g \<Rightarrow> grow res g)"
proof (induction os arbitrary: res)
  case Nil
  then show ?case by (simp add: grow_zero)
next
  case (Cons q os)
  obtain op wt where q: "q = (op, wt)" by (cases q)
  have w: "weights_ok K os" using Cons.prems(1) by (simp add: weights_ok_def)
  show ?case
  proof (cases "DecFromStr K wt")
    case (Inl e)
    then show ?thesis by (simp add: q add_option_def)
  next
    case (Inr y)
    then have y: "0 \<le> y" using Cons.prems(1) by (auto simp: weights_ok_def q)
    show ?thesis
    proof (cases "op \<in> all_options")
      case False
      then have "res op = None" using Cons.prems(2) by (auto simp: res_ok_def)
      then show ?thesis using Inr False by (simp add: q add_option_def)
    next
      case True
      then obtain old where old: "res op = Some old" "0 \<le> old" using res_okD [OF Cons.prems(2)] by blast
      show ?thesis
      proof (cases "dMul K p y")
        case (Inl e)
        then have "e = Panic" using dec_math.mul_panic [OF laws] by blast
        then show ?thesis using Inr True old Inl by (simp add: q add_option_def)
      next
        case x: (Inr x)
        have x0: "0 \<le> x" using dec_math.mul_nonneg [OF laws x p y] .
        show ?thesis
        proof (cases "fits_dec (old + x)")
          case False
          have "gain K p os = Some g \<Longrightarrow> \<not> fits_dec (the (res op) + (g op + x))" for g
            using False fits_dec_mono [of "old + x" "old + (g op + x)"] gain_nonneg [OF laws p _ w, of g op] old x0 by auto
          then have "gain K p os = Some g \<Longrightarrow> grow res (g(op := g op + x)) = Inl Panic" for g
            using True by (auto simp: grow_def)
          then show ?thesis using Inr True old x False dec_math.add [OF laws]
            by (auto simp: q add_option_def split: option.splits)
        next
          case fit: True
          have "res_ok (res(op \<mapsto> old + x))" using Cons.prems(2) True old x0 fit by (auto simp: res_ok_def)
          note IH = Cons.IH [OF w this]
          have "grow (res(op \<mapsto> old + x)) g = grow res (g(op := g op + x))" for g
            using old by (auto simp: grow_def fun_eq_iff add_ac)
          moreover have "add_option K p q res = Inr (res(op \<mapsto> old + x))"
            using Inr old x fit dec_math.add [OF laws] by (simp add: q add_option_def)
          moreover have "gain K p (q # os) = map_option (\<lambda>g. g(op := g op + x)) (gain K p os)"
            using Inr True x by (simp add: q)
          ultimately show ?thesis using IH by (cases "gain K p os") (simp_all del: fun_upd_apply gain.simps)
        qed
      qed
    qed
  qed
qed



section \<open>The standard count does not depend on the order of the validators\<close>

definition val_ok :: "sdk \<Rightarrow> ValidatorGovInfo \<Rightarrow> bool" where
  "val_ok K val \<longleftrightarrow> weights_ok K (ValidatorVote val) \<and> 0 \<le> BondedTokens val \<and> 0 < DelegatorShares val \<and>
     DelegatorDeductions val \<le> DelegatorShares val"

definition rt_ok :: "results \<times> dec \<Rightarrow> bool" where
  "rt_ok rt \<longleftrightarrow> res_ok (fst rt) \<and> 0 \<le> snd rt \<and> fits_dec (snd rt)"

definition own_power :: "sdk \<Rightarrow> ValidatorGovInfo \<Rightarrow> dec result" where
  "own_power K val = rbind (dSub K (DelegatorShares val) (DelegatorDeductions val)) (\<lambda>sh. delegation_power K sh val)"

definition val_gain :: "sdk \<Rightarrow> ValidatorGovInfo \<Rightarrow> ((vote_option \<Rightarrow> dec) \<times> dec) option" where
  "val_gain K val =
     (if ValidatorVote val = [] then Some (\<lambda>_. 0, 0)
      else case own_power K val of
             Inl _ \<Rightarrow> None
           | Inr p \<Rightarrow> map_option (\<lambda>g. (g, p)) (gain K p (ValidatorVote val)))"

definition advance :: "results \<times> dec \<Rightarrow> (vote_option \<Rightarrow> dec) \<times> dec \<Rightarrow> (results \<times> dec) result" where
  "advance rt gp =
     (if (\<forall>opt \<in> all_options. fits_dec (the (fst rt opt) + fst gp opt)) \<and> fits_dec (snd rt + snd gp)
      then Inr (\<lambda>opt. map_option (\<lambda>x. x + fst gp opt) (fst rt opt), snd rt + snd gp) else Inl Panic)"

context dec_math begin

lemma own_power_panic: "own_power K val = Inl e \<Longrightarrow> e = Panic"
  using quo_panic by (auto simp: own_power_def delegation_power_def rbind_eq_Inl sub mul_int split: if_splits)

lemma own_power_nonneg:
  assumes "own_power K val = Inr p" and "val_ok K val"
  shows "0 \<le> p"
proof -
  from assms obtain x where x: "dQuo K ((DelegatorShares val - DelegatorDeductions val) * BondedTokens val) (DelegatorShares val) = Inr p"
    by (auto simp: own_power_def delegation_power_def rbind_eq_Inr dest!: sub_Inr mul_int_Inr)
  show ?thesis by (rule quo_nonneg [OF x]) (use assms(2) in \<open>auto simp: val_ok_def\<close>)
qed

lemma val_gain_nonneg:
  assumes g: "val_gain K val = Some (g, p)" and ok: "val_ok K val"
  shows "0 \<le> p \<and> 0 \<le> g opt"
proof (cases "ValidatorVote val = []")
  case False
  then have p: "own_power K val = Inr p" and gn: "gain K p (ValidatorVote val) = Some g"
    using g by (auto simp: val_gain_def split: sum.splits)
  have "0 \<le> p" by (rule own_power_nonneg [OF p ok])
  moreover from gain_nonneg [OF dec_math_axioms this gn] have "0 \<le> g opt" using ok by (simp add: val_ok_def)
  ultimately show ?thesis by simp
qed (use g in \<open>auto simp: val_gain_def\<close>)

lemma tally_validator_gain:
  assumes "val_ok K val" and ok: "rt_ok rt"
  shows "tally_validator K val rt = (case val_gain K val of None \<Rightarrow> Inl Panic | Some gp \<Rightarrow> advance rt gp)"
proof (cases "ValidatorVote val = []")
  case True
  have "res_ok (fst rt)" and "fits_dec (snd rt)" using ok by (simp_all add: rt_ok_def)
  then have "advance rt (\<lambda>_. 0, 0) = Inr rt"
    using res_okD [of "fst rt"] by (fastforce simp: advance_def option.map_ident prod_eq_iff)
  then show ?thesis using True by (simp add: tally_validator_def val_gain_def)
next
  case False
  show ?thesis
  proof (cases "own_power K val")
    case (Inl e)
    then have "own_power K val = Inl Panic" using own_power_panic by blast
    then show ?thesis using False
      by (auto simp: tally_validator_def val_gain_def own_power_def rbind_eq_Inl simp flip: rbind_assoc)
  next
    case (Inr p)
    have "fold_res (add_option K p) (ValidatorVote val) (fst rt) =
        (case gain K p (ValidatorVote val) of None \<Rightarrow> Inl Panic | Some g \<Rightarrow> grow (fst rt) g)"
      using add_options_gain [OF dec_math_axioms own_power_nonneg [OF Inr assms(1)]] assms by (simp add: val_ok_def rt_ok_def)
    then have "tally_validator K val rt = rbind (case gain K p (ValidatorVote val) of None \<Rightarrow> Inl Panic | Some g \<Rightarrow> grow (fst rt) g)
        (\<lambda>results. rbind (dAdd K (snd rt) p) (\<lambda>t. Inr (results, t)))"
      using False Inr by (auto simp: tally_validator_def own_power_def rbind_eq_Inr)
    then show ?thesis using False Inr
      by (auto simp: val_gain_def advance_def grow_def add split: option.splits)
  qed
qed

end

lemma advance_twice:
  assumes ok: "rt_ok rt" and pos: "\<And>opt. 0 \<le> g opt" "0 \<le> p" "\<And>opt. 0 \<le> h opt" "0 \<le> q"
  shows "rbind (advance rt (g, p)) (\<lambda>rt. advance rt (h, q)) = advance rt (\<lambda>opt. g opt + h opt, p + q)"
proof -
  have some: "\<exists>x. fst rt opt = Some x \<and> 0 \<le> x" if "opt \<in> all_options" for opt
    using res_okD [of "fst rt"] ok that by (auto simp: rt_ok_def)
  have t: "fits_dec (snd rt + p)" if "fits_dec (snd rt + (p + q))"
    by (rule fits_dec_mono [OF _ _ that]) (use ok pos in \<open>auto simp: rt_ok_def\<close>)
  have o: "fits_dec (the (fst rt opt) + g opt)" if "fits_dec (the (fst rt opt) + (g opt + h opt))" "opt \<in> all_options" for opt
    by (rule fits_dec_mono [OF _ _ that(1)]) (use some [OF that(2)] pos(1) [of opt] pos(3) [of opt] in auto)
  have e: "the (map_option (\<lambda>x. x + g opt) (fst rt opt)) + h opt = the (fst rt opt) + (g opt + h opt)"
    if "opt \<in> all_options" for opt using some [OF that] by auto
  show ?thesis
  proof (cases "(\<forall>opt \<in> all_options. fits_dec (the (fst rt opt) + g opt)) \<and> fits_dec (snd rt + p)")
    case True
    then show ?thesis using e
      by (auto simp: advance_def option.map_comp comp_def add.assoc)
  next
    case False
    then show ?thesis using o t by (auto simp: advance_def)
  qed
qed

lemma advance_ok:
  assumes "advance rt (g, p) = Inr rt'" and "rt_ok rt" and "\<And>opt. 0 \<le> g opt" and "0 \<le> p"
  shows "rt_ok rt'"
proof -
  have "grow (fst rt) g = Inr (fst rt')" and "snd rt' = snd rt + p" "fits_dec (snd rt + p)"
    using assms(1) by (auto simp: advance_def grow_def split: if_splits)
  then show ?thesis using grow_ok [of "fst rt" g "fst rt'"] assms(2-4) by (simp add: rt_ok_def)
qed


lemma tally_validators_order:
  assumes laws: "dec_math K" and vals: "\<forall>a val. validators a = Some val \<longrightarrow> val_ok K val" and ok: "rt_ok rt"
    and ord: "dom validators \<subseteq> set order" "dom validators \<subseteq> set order'"
  shows "tally_validators K order validators rt = tally_validators K order' validators rt"
  unfolding tally_validators_def
proof (rule fold_res_order [where P = rt_ok])
  have sets: "set (range_keys order validators) = dom validators" "set (range_keys order' validators) = dom validators"
    using ord by (simp_all add: set_range_keys_cover)
  then show "set (range_keys order' validators) = set (range_keys order validators)" by simp
  have val: "val_ok K (the (validators a))" if "a \<in> set (range_keys order validators)" for a
    using that vals sets by auto
  let ?f = "\<lambda>a. tally_validator K (the (validators a))"
  show "rt_ok t" if a: "a \<in> set (range_keys order validators)" and s: "rt_ok s" and f: "?f a s = Inr t" for a s t
  proof -
    from f obtain g p where gp: "val_gain K (the (validators a)) = Some (g, p)" "advance s (g, p) = Inr t"
      using dec_math.tally_validator_gain [OF laws val [OF a] s] by (auto split: option.splits)
    from dec_math.val_gain_nonneg [OF laws gp(1) val [OF a]] show ?thesis using advance_ok [OF gp(2) s] by blast
  qed
  note keep = this
  show "rbind (?f a s) (?f b) = rbind (?f b s) (?f a)"
    if a: "a \<in> set (range_keys order validators)" and b: "b \<in> set (range_keys order validators)" and s: "rt_ok s" for a b s
  proof -
    have step: "?f c t = (case val_gain K (the (validators c)) of None \<Rightarrow> Inl Panic | Some gp \<Rightarrow> advance t gp)"
      if "c \<in> {a, b}" "rt_ok t" for c t
      using dec_math.tally_validator_gain [OF laws val that(2)] that(1) a b by blast
    have one: "rbind (?f c s) (?f d) = (case (val_gain K (the (validators c)), val_gain K (the (validators d))) of
        (Some (g, p), Some (h, q)) \<Rightarrow> advance s (\<lambda>opt. g opt + h opt, p + q) | _ \<Rightarrow> Inl Panic)"
      if c: "c \<in> {a, b}" and d: "d \<in> {a, b}" for c d
    proof -
      have "rbind (?f c s) (?f d) = rbind (?f c s) (\<lambda>t. case val_gain K (the (validators d)) of None \<Rightarrow> Inl Panic | Some gp \<Rightarrow> advance t gp)"
        using keep [of c s] s c a b by (intro rbind_cong [OF refl] step [OF d]) auto
      also have "\<dots> = (case (val_gain K (the (validators c)), val_gain K (the (validators d))) of
        (Some (g, p), Some (h, q)) \<Rightarrow> advance s (\<lambda>opt. g opt + h opt, p + q) | _ \<Rightarrow> Inl Panic)"
      proof (cases "val_gain K (the (validators c))")
        case None
        then show ?thesis using step [OF c s] by simp
      next
        case (Some gp)
        obtain g p where gp: "gp = (g, p)" by (cases gp)
        show ?thesis
        proof (cases "val_gain K (the (validators d))")
          case None
          then show ?thesis using step [OF c s] Some by (simp add: gp advance_def)
        next
          case Some': (Some hq)
          obtain h q where hq: "hq = (h, q)" by (cases hq)
          have "rbind (advance s (g, p)) (\<lambda>t. advance t (h, q)) = advance s (\<lambda>opt. g opt + h opt, p + q)"
            by (rule advance_twice [OF s])
              (use dec_math.val_gain_nonneg [OF laws Some [unfolded gp] val] dec_math.val_gain_nonneg [OF laws Some' [unfolded hq] val] c d a b in blast)+
          then show ?thesis using step [OF c s] Some Some' by (simp add: gp hq)
        qed
      qed
      finally show ?thesis .
    qed
    show ?thesis using one [of a b] one [of b a] by (auto split: option.splits simp: add.commute)
  qed
qed (use ok in simp_all)


lemma add_options_ok:
  assumes "dec_math K" and "0 \<le> p" and "weights_ok K os" and "res_ok res" and "fold_res (add_option K p) os res = Inr res'"
  shows "res_ok res'"
proof -
  from assms(5) obtain g where "gain K p os = Some g" "grow res g = Inr res'"
    unfolding add_options_gain [OF assms(1-4)] by (auto split: option.splits)
  then show ?thesis using grow_ok assms(4) gain_nonneg [OF assms(1,2) _ assms(3)] by blast
qed

definition start_ok :: "sdk \<Rightarrow> ValidatorGovInfo \<Rightarrow> bool" where
  "start_ok K val \<longleftrightarrow> weights_ok K (ValidatorVote val) \<and> 0 \<le> BondedTokens val \<and> 0 < DelegatorShares val"

definition walk_ok :: "sdk \<Rightarrow> string set \<Rightarrow> default_state \<Rightarrow> bool" where
  "walk_ok K D st \<longleftrightarrow> rt_ok (dResults st, dPower st) \<and> dom (dValidators st) = D \<and>
     (\<forall>a val. dValidators st a = Some val \<longrightarrow> start_ok K val)"

context dec_math begin

lemma delegation_power_nonneg:
  "delegation_power K sh val = Inr p \<Longrightarrow> start_ok K val \<Longrightarrow> 0 \<le> sh \<Longrightarrow> 0 \<le> p"
  by (auto simp: delegation_power_def start_ok_def rbind_eq_Inr dest!: mul_int_Inr intro: quo_nonneg)


lemma default_delegation_ok:
  assumes step: "default_delegation K os d st = Inr st'" and ok: "walk_ok K D st" and w: "weights_ok K os" and sh: "0 \<le> snd d"
  shows "walk_ok K D st'"
proof (cases "dValidators st (fst d)")
  case None
  then show ?thesis using step ok by (simp add: default_delegation_def)
next
  case (Some val)
  then obtain ded p res t where p: "delegation_power K (snd d) (val\<lparr>DelegatorDeductions := ded\<rparr>) = Inr p"
    and res: "fold_res (add_option K p) os (dResults st) = Inr res" and t: "dAdd K (dPower st) p = Inr t"
    and st': "st' = st\<lparr>dValidators := (dValidators st)(fst d \<mapsto> val\<lparr>DelegatorDeductions := ded\<rparr>), dResults := res, dPower := t\<rparr>"
    using step by (auto simp: default_delegation_def Let_def rbind_eq_Inr)
  have val: "start_ok K (val\<lparr>DelegatorDeductions := ded\<rparr>)" using ok Some by (auto simp: walk_ok_def start_ok_def)
  have p0: "0 \<le> p" by (rule delegation_power_nonneg [OF p val sh])
  have "res_ok res" using add_options_ok [OF dec_math_axioms p0 w _ res] ok by (simp add: walk_ok_def rt_ok_def)
  moreover have "0 \<le> t" "fits_dec t" using t ok p0 by (auto simp: add walk_ok_def rt_ok_def split: if_splits)
  ultimately show ?thesis using ok val Some by (auto simp: st' walk_ok_def rt_ok_def)
qed

lemma default_vote_ok:
  assumes step: "default_vote K N G w kv st = Inr st'" and ok: "walk_ok K D st" and opts: "weights_ok K (Options (snd kv))"
    and sh: "\<And>a ds d. Delegations N w a = Inr ds \<Longrightarrow> d \<in> set ds \<Longrightarrow> 0 \<le> snd d"
  shows "walk_ok K D st'"
proof -
  from step obtain voter val ds st2 where ds: "Delegations N w voter = Inr ds"
    and f: "fold_res (default_delegation K (Options (snd kv))) ds (case dValidators st val of None \<Rightarrow> st
        | Some v \<Rightarrow> st\<lparr>dValidators := (dValidators st)(val \<mapsto> v\<lparr>ValidatorVote := Options (snd kv)\<rparr>)\<rparr>) = Inr st2"
    and st': "st' = st2\<lparr>dRemove := dRemove st2 @ [fst kv]\<rparr>"
    by (auto simp: default_vote_def Let_def rbind_eq_Inr)
  have "walk_ok K D (case dValidators st val of None \<Rightarrow> st
        | Some v \<Rightarrow> st\<lparr>dValidators := (dValidators st)(val \<mapsto> v\<lparr>ValidatorVote := Options (snd kv)\<rparr>)\<rparr>)"
    using ok opts by (auto simp: walk_ok_def start_ok_def split: option.splits)
  from fold_res_invariant [where P = "walk_ok K D", OF f this] have "walk_ok K D st2"
    using default_delegation_ok [OF _ _ opts] sh [OF ds] by blast
  then show ?thesis by (simp add: st' walk_ok_def)
qed

end

definition votes_ok :: "sdk \<Rightarrow> 'w keepers \<Rightarrow> 'w gov \<Rightarrow> int \<Rightarrow> (string \<rightharpoonup> ValidatorGovInfo) \<Rightarrow> 'w \<Rightarrow> bool" where
  "votes_ok K N G proposal validators w \<longleftrightarrow>
     (\<forall>kv \<in> set (Votes G w proposal). weights_ok K (Options (snd kv))) \<and>
     (\<forall>a ds d. Delegations N w a = Inr ds \<and> d \<in> set ds \<longrightarrow> 0 \<le> snd d) \<and>
     (\<forall>a val. validators a = Some val \<longrightarrow> start_ok K val) \<and>
     (\<forall>st a val. default_walk K N G proposal validators w = Inr st \<and> dValidators st a = Some val \<longrightarrow>
        DelegatorDeductions val \<le> DelegatorShares val)"

text \<open>
  C25: the standard count is deterministic. The validators are added up while walking a Go map,
  whose order differs from node to node; whatever the two orders, the count gives the same
  result, the same error and the same state. The hypotheses say that weights, shares and
  tokens are not negative and that a validator's voters hold at most its shares.
\<close>

theorem default_tally_deterministic:
  assumes laws: "dec_math K" and ok: "votes_ok K N G proposal validators w"
    and ord: "dom validators \<subseteq> set order" "dom validators \<subseteq> set order'"
  shows "defaultCommunityTallyFn K N G order proposal validators w = defaultCommunityTallyFn K N G order' proposal validators w"
proof (cases "default_walk K N G proposal validators w")
  case (Inl e)
  then show ?thesis by (simp add: defaultCommunityTallyFn_def)
next
  case (Inr st)
  then have f: "fold_res (default_vote K N G w) (Votes G w proposal)
      \<lparr>dResults = emptyCommunityTallyResults, dPower = 0, dRemove = [], dValidators = validators\<rparr> = Inr st"
    by (simp add: default_walk_def)
  have st0: "walk_ok K (dom validators) \<lparr>dResults = emptyCommunityTallyResults, dPower = 0, dRemove = [], dValidators = validators\<rparr>"
    using ok by (auto simp: walk_ok_def rt_ok_def res_ok_empty fits_dec_def votes_ok_def)
  have st: "walk_ok K (dom validators) st"
  proof (rule fold_res_invariant [where P = "walk_ok K (dom validators)", OF f st0])
    fix kv s t
    assume "kv \<in> set (Votes G w proposal)" and s: "walk_ok K (dom validators) s" and v: "default_vote K N G w kv s = Inr t"
    then have "weights_ok K (Options (snd kv))" using ok by (simp add: votes_ok_def)
    moreover have "0 \<le> snd d" if "Delegations N w a = Inr ds" "d \<in> set ds" for a ds d
      using ok that unfolding votes_ok_def by blast
    ultimately show "walk_ok K (dom validators) t" using dec_math.default_vote_ok [OF laws v s] by blast
  qed
  have "\<forall>a val. dValidators st a = Some val \<longrightarrow> val_ok K val"
    using st ok Inr by (auto simp: walk_ok_def start_ok_def val_ok_def votes_ok_def)
  from tally_validators_order [OF laws this, of "(dResults st, dPower st)" order order'] st ord
  show ?thesis by (simp add: defaultCommunityTallyFn_def Inr walk_ok_def)
qed


definition ref_gov :: "(address \<times> Vote) list \<Rightarrow> ref_world gov" where
  "ref_gov votes = \<lparr>Votes = (\<lambda>_ _. votes), RemoveVote = (\<lambda>w _ _. Inr w),
     StringToBytes = strip ''do1'', BytesToString = (\<lambda>a. Inr (''dovaloper1'' @ a))\<rparr>"

definition ex_votes :: "(address \<times> Vote) list" where
  "ex_votes = [(alice, \<lparr>Voter = ''do1'' @ alice, Options = [(OptionYes, ''0.5''), (OptionNo, ''0.5'')]\<rparr>),
     (bob, \<lparr>Voter = ''do1'' @ bob, Options = [(OptionNo, ''1'')]\<rparr>)]"

definition ex_validators :: "string \<rightharpoonup> ValidatorGovInfo" where
  "ex_validators = [''dovaloper1'' @ alice \<mapsto>
       \<lparr>BondedTokens = 300, DelegatorShares = 300 * PREC, DelegatorDeductions = 0, ValidatorVote = []\<rparr>,
     ''dovaloper1'' @ bob \<mapsto>
       \<lparr>BondedTokens = 700, DelegatorShares = 700 * PREC, DelegatorDeductions = 0, ValidatorVote = []\<rparr>]"

definition ex_gov_world :: ref_world where
  "ex_gov_world = (ex_world [] [(alice, 300), (bob, 700)])\<lparr>rw_delegations := (\<lambda>a.
     if a = alice then [(''dovaloper1'' @ bob, 200 * PREC)] else [])\<rparr>"

lemma weights_ref:
  "weights_ok ref_sdk [(opt, ''0.5'')] \<and> weights_ok ref_sdk [(opt, ''1'')]"
proof -
  have "DecFromStr ref_sdk ''0.5'' = Inr 500000000000000000" "DecFromStr ref_sdk ''1'' = Inr 1000000000000000000"
    by code_simp+
  then show ?thesis by (simp add: weights_ok_def)
qed

lemma default_delegation_dom: "default_delegation K os d st = Inr st' \<Longrightarrow> dom (dValidators st') = dom (dValidators st)"
  by (auto simp: default_delegation_def Let_def rbind_eq_Inr split: option.splits if_splits)

lemma default_vote_dom:
  assumes "default_vote K N G w kv st = Inr st'"
  shows "dom (dValidators st') = dom (dValidators st)"
proof -
  from assms obtain val ds st2 where
    f: "fold_res (default_delegation K (Options (snd kv))) ds (case dValidators st val of None \<Rightarrow> st
        | Some v \<Rightarrow> st\<lparr>dValidators := (dValidators st)(val \<mapsto> v\<lparr>ValidatorVote := Options (snd kv)\<rparr>)\<rparr>) = Inr st2"
    and st': "st' = st2\<lparr>dRemove := dRemove st2 @ [fst kv]\<rparr>"
    by (auto simp: default_vote_def Let_def rbind_eq_Inr)
  have "dom (dValidators st2) = dom (dValidators st)"
    by (rule fold_res_invariant [where P = "\<lambda>x. dom (dValidators x) = dom (dValidators st)", OF f])
      (auto simp: default_delegation_dom split: option.splits)
  then show ?thesis by (simp add: st')
qed

lemma default_walk_dom:
  assumes "default_walk K N G proposal validators w = Inr st"
  shows "dom (dValidators st) = dom validators"
  by (rule fold_res_invariant [where P = "\<lambda>x. dom (dValidators x) = dom validators", OF assms [unfolded default_walk_def wrap_err_simps]])
    (auto simp: default_vote_dom)

lemma ex_walk:
  assumes run: "default_walk ref_sdk ref_keepers (ref_gov ex_votes) 1 ex_validators ex_gov_world = Inr st"
    and val: "dValidators st a = Some val"
  shows "DelegatorDeductions val \<le> DelegatorShares val"
proof -
  define r where "r = default_walk ref_sdk ref_keepers (ref_gov ex_votes) 1 ex_validators ex_gov_world"
  have "(case r of Inl _ \<Rightarrow> False | Inr st \<Rightarrow>
      (\<forall>a \<in> set [''dovaloper1'' @ alice, ''dovaloper1'' @ bob]. \<forall>v \<in> set_option (dValidators st a).
         DelegatorDeductions v \<le> DelegatorShares v))"
    unfolding r_def by code_simp
  moreover have "a \<in> {''dovaloper1'' @ alice, ''dovaloper1'' @ bob}"
    using default_walk_dom [OF run] val by (auto simp: ex_validators_def dom_def split: if_splits)
  ultimately show ?thesis using run val by (auto simp: r_def)
qed

theorem default_tally_deterministic_witness:
  "defaultCommunityTallyFn ref_sdk ref_keepers (ref_gov ex_votes) [''dovaloper1'' @ alice, ''dovaloper1'' @ bob] 1 ex_validators ex_gov_world =
   defaultCommunityTallyFn ref_sdk ref_keepers (ref_gov ex_votes) [''dovaloper1'' @ bob, ''dovaloper1'' @ alice] 1 ex_validators ex_gov_world"
proof (rule default_tally_deterministic [OF ref.dec_math_axioms])
  show "votes_ok ref_sdk ref_keepers (ref_gov ex_votes) 1 ex_validators ex_gov_world"
    unfolding votes_ok_def
    using weights_ref ex_walk
    by (auto simp: ref_gov_def ex_votes_def weights_ok_def ex_gov_world_def ex_validators_def start_ok_def split: if_splits)
qed (auto simp: ex_validators_def)



section \<open>The community count is capped\<close>

definition community_power ::
    "sdk \<Rightarrow> 'w keepers \<Rightarrow> 'w gov \<Rightarrow> 'w \<Rightarrow> (string \<rightharpoonup> ValidatorGovInfo) \<Rightarrow> dec \<Rightarrow> address \<times> Vote \<Rightarrow> dec result" where
  "community_power K N G w validators cap kv =
     rbind (StringToBytes G (Voter (snd kv))) (\<lambda>voter.
     rbind (BytesToString G voter) (\<lambda>valAddrStr.
     if validators valAddrStr \<noteq> None then Inr 0
     else rbind (Delegations N w voter) (\<lambda>ds.
          rbind (voter_power K validators ds) (\<lambda>p. Inr (capCommunityVoterPower p cap)))))"

lemma community_vote_power:
  assumes "dec_math K" and "community_vote K N G w validators cap kv st = Inr st'"
  shows "\<exists>p. community_power K N G w validators cap kv = Inr p \<and> tPower st' = tPower st + p"
proof -
  from assms(2) obtain voter val where v: "StringToBytes G (Voter (snd kv)) = Inr voter" "BytesToString G voter = Inr val"
    by (auto simp: community_vote_def rbind_eq_Inr)
  show ?thesis
  proof (cases "validators val")
    case None
    then show ?thesis using assms(2) v dec_math.add_Inr [OF assms(1)]
      by (auto simp: community_vote_def community_power_def Let_def rbind_eq_Inr)
  next
    case (Some info)
    then show ?thesis using assms(2) v by (auto simp: community_vote_def community_power_def)
  qed
qed

lemma community_walk_power:
  assumes "dec_math K" and "fold_res (community_vote K N G w validators cap) kvs st = Inr st'"
  shows "\<exists>ps. map_res (community_power K N G w validators cap) kvs = Inr ps \<and> tPower st' = tPower st + sum_list ps"
  using assms(2)
proof (induction kvs arbitrary: st)
  case (Cons kv kvs)
  then obtain u where u: "community_vote K N G w validators cap kv st = Inr u"
    and r: "fold_res (community_vote K N G w validators cap) kvs u = Inr st'" by (auto simp: rbind_eq_Inr)
  from community_vote_power [OF assms(1) u] Cons.IH [OF r] show ?case by (auto simp: add.assoc)
qed simp

lemma community_power_capped:
  assumes "community_power K N G w validators cap kv = Inr p" and "0 < cap"
  shows "p \<le> cap"
  using assms by (auto simp: community_power_def capCommunityVoterPower_def rbind_eq_Inr split: if_splits)

text \<open>
  C26: the community count is the sum of the capped powers of the voters that are not validators.
  A validator's own vote adds nothing, and when 2.5 percent of the bonded tokens is not zero no
  single voter adds more than that. The statement is about the total power that voted, not about
  how it is divided among the options.
\<close>

theorem community_count_capped:
  assumes laws: "dec_math K" and run: "community_tally K N G proposal validators w = Inr ((tot, res), w')"
    and bonded: "TotalBondedTokens N w = Inr b"
  shows "\<exists>ps. map_res (community_power K N G w validators (tquot (NewDec b * 25) 1000)) (Votes G w proposal) = Inr ps \<and>
     tot = sum_list ps \<and> (0 < tquot (NewDec b * 25) 1000 \<longrightarrow> (\<forall>p \<in> set ps. p \<le> tquot (NewDec b * 25) 1000))"
proof -
  define cap where "cap = tquot (NewDec b * 25) 1000"
  from run bonded obtain x c st where x: "dMulInt K (NewDec b) 25 = Inr x" and c: "dQuoInt K x 1000 = Inr c"
    and st: "fold_res (community_vote K N G w validators c) (Votes G w proposal) empty_tally = Inr st" "tot = tPower st"
    by (auto simp: community_tally_def rbind_eq_Inr)
  have "c = cap"
    using dec_math.mul_int_Inr [OF laws x] dec_math.quo_int_Inr [OF laws c] by (simp add: cap_def)
  note st = st [unfolded this]
  from community_walk_power [OF laws st(1)] obtain ps where
    ps: "map_res (community_power K N G w validators cap) (Votes G w proposal) = Inr ps" "tot = sum_list ps"
    using st(2) by (auto simp: empty_tally_def)
  have "p \<le> cap" if "p \<in> set ps" "0 < cap" for p
  proof -
    from \<open>p \<in> set ps\<close> obtain kv where "community_power K N G w validators cap kv = Inr p"
      using map_res_list_all2 [OF ps(1)] unfolding list_all2_conv_all_nth in_set_conv_nth by metis
    from community_power_capped [OF this \<open>0 < cap\<close>] show ?thesis .
  qed
  then show ?thesis using ps unfolding cap_def by blast
qed

theorem community_count_capped_witness:
  "\<exists>ps. map_res (community_power ref_sdk ref_keepers (ref_gov ex_votes) ex_gov_world
        [''dovaloper1'' @ bob \<mapsto> \<lparr>BondedTokens = 700000000, DelegatorShares = 700 * PREC, DelegatorDeductions = 0, ValidatorVote = []\<rparr>]
        (tquot (NewDec 1000000000 * 25) 1000)) (Votes (ref_gov ex_votes) ex_gov_world 1) = Inr ps \<and>
     25000000000000000000000000 = sum_list ps \<and> list_all (\<lambda>p. p \<le> tquot (NewDec 1000000000 * 25) 1000) ps"
proof -
  define r where "r = community_tally ref_sdk ref_keepers (ref_gov ex_votes) 1
      [''dovaloper1'' @ bob \<mapsto> \<lparr>BondedTokens = 700000000, DelegatorShares = 700 * PREC, DelegatorDeductions = 0, ValidatorVote = []\<rparr>] ex_gov_world"
  have "map_sum id (\<lambda>x. fst (fst x)) r = Inr 25000000000000000000000000" unfolding r_def by code_simp
  then obtain res w' where r: "r = Inr ((25000000000000000000000000, res), w')" by (cases r) auto
  have "TotalBondedTokens ref_keepers ex_gov_world = Inr 1000000000" by code_simp
  moreover have "0 < tquot (NewDec 1000000000 * 25) 1000" by code_simp
  ultimately show ?thesis
    using community_count_capped [OF ref.dec_math_axioms r [unfolded r_def]] unfolding list_all_iff by blast
qed


section \<open>The DODx count is bounded by the stake\<close>

lemma kv_amts_le_sum:
  "kv_ok m \<Longrightarrow> \<forall>(k, v) \<in> set m. 0 \<le> v \<Longrightarrow> distinct ks \<Longrightarrow> sum_list (map (kv_amt m) ks) \<le> kv_sum m"
proof (induction ks arbitrary: m)
  case (Cons k ks)
  have "map (kv_amt (kv_del k m)) ks = map (kv_amt m) ks" using Cons.prems(3) by auto
  moreover have "\<forall>(k, v) \<in> set (kv_del k m). 0 \<le> v" using Cons.prems(2) by (auto simp: kv_del_def)
  ultimately have "sum_list (map (kv_amt m) ks) \<le> kv_sum (kv_del k m)"
    using Cons.IH [of "kv_del k m"] Cons.prems(1,3) by (metis distinct.simps(2) kv_ok_del)
  then show ?case using kv_sum_del [OF Cons.prems(1), of k] by simp
qed (simp add: kv_sum_nonneg)

lemma dodx_walk_power:
  assumes "dec_math K" and "fold_res (dodx_vote K G ds) kvs st = Inr st'" and "\<forall>kv \<in> set kvs. StringToBytes G (Voter (snd kv)) = Inr (fst kv)"
  shows "tPower st' = tPower st + sum_list (map (\<lambda>kv. NewDec (GetStakeAmount ds (fst kv))) kvs)"
  using assms(2,3)
proof (induction kvs arbitrary: st)
  case (Cons kv kvs)
  then obtain u where u: "dodx_vote K G ds kv st = Inr u" and r: "fold_res (dodx_vote K G ds) kvs u = Inr st'"
    by (auto simp: rbind_eq_Inr)
  have "tPower u = tPower st + NewDec (GetStakeAmount ds (fst kv))"
    using u Cons.prems(2) dec_math.add_Inr [OF assms(1)] by (auto simp: dodx_vote_def Let_def rbind_eq_Inr)
  then show ?case using Cons.IH [OF r] Cons.prems(2) by simp
qed simp

text \<open>
  Nobody votes with DODx that is not staked. Over votes stored under their voters' addresses,
  one per voter, the counted power is the sum of the voters' stakes, and on a well-formed
  staking state it is at most the total staked.
\<close>

lemma dodx_count_bounded:
  assumes laws: "dec_math K" and ok: "dodx_ok ds" and run: "dodxStakedTallyFn K G ds proposal w = Inr ((tot, res), w')"
    and keyed: "\<forall>kv \<in> set (Votes G w proposal). StringToBytes G (Voter (snd kv)) = Inr (fst kv)"
    and once: "distinct (map fst (Votes G w proposal))"
  shows "tot = sum_list (map (\<lambda>kv. NewDec (GetStakeAmount ds (fst kv))) (Votes G w proposal)) \<and>
     tot \<le> NewDec (GetTotalStakedAmount ds)"
proof -
  from run obtain st where st: "fold_res (dodx_vote K G ds) (Votes G w proposal) empty_tally = Inr st" "tot = tPower st"
    by (auto simp: dodxStakedTallyFn_def rbind_eq_Inr)
  have tot: "tot = sum_list (map (\<lambda>kv. NewDec (GetStakeAmount ds (fst kv))) (Votes G w proposal))"
    using dodx_walk_power [OF laws st(1) keyed] st(2) by (simp add: empty_tally_def)
  have "\<dots> = NewDec (sum_list (map (kv_amt (stakes ds)) (map (stakeKey \<circ> fst) (Votes G w proposal))))"
    by (induction "Votes G w proposal") (simp_all add: NewDec_def GetStakeAmount_kv comp_def distrib_right flip: sum_list_mult_const)
  also have "\<dots> \<le> NewDec (GetTotalStakedAmount ds)"
  proof -
    have "distinct (map (stakeKey \<circ> fst) (Votes G w proposal))"
      using once by (simp add: distinct_map inj_on_def comp_def)
    then have "sum_list (map (kv_amt (stakes ds)) (map (stakeKey \<circ> fst) (Votes G w proposal))) \<le> kv_sum (stakes ds)"
      using ok by (intro kv_amts_le_sum) (auto simp: dodx_ok_def elim!: entriesE)
    then show ?thesis using ok by (simp add: NewDec_def dodx_ok_def)
  qed
  finally show ?thesis using tot by simp
qed

lemma dodx_count_bounded_example:
  "5000000000000000000 = sum_list (map (\<lambda>kv. NewDec (GetStakeAmount \<lparr>stakes = [(stakeKey alice, 5)], totalStaked = Some 5, governanceFlag = True\<rparr> (fst kv)))
      (Votes (ref_gov ex_votes) ex_gov_world 1)) \<and>
   5000000000000000000 \<le> NewDec (GetTotalStakedAmount \<lparr>stakes = [(stakeKey alice, 5)], totalStaked = Some 5, governanceFlag = True\<rparr>)"
proof -
  let ?ds = "\<lparr>stakes = [(stakeKey alice, 5)], totalStaked = Some 5, governanceFlag = True\<rparr>"
  define r where "r = dodxStakedTallyFn ref_sdk (ref_gov ex_votes) ?ds 1 ex_gov_world"
  have "map_sum id (\<lambda>x. fst (fst x)) r = Inr 5000000000000000000" unfolding r_def by code_simp
  then obtain res w' where r: "r = Inr ((5000000000000000000, res), w')" by (cases r) auto
  have "addr_ok alice" by (simp add: addr_ok_def alice_def)
  then have "dodx_ok ?ds" by (auto simp: dodx_ok_def kv_ok_def entries_def kv_sum_def GetTotalStakedAmount_def)
  from dodx_count_bounded [OF ref.dec_math_axioms this r [unfolded r_def]] show ?thesis
    by (simp add: ref_gov_def ex_votes_def strip_def alice_def bob_def)
qed

end
