(* ===== verification/Mempool.thy ===== *)
theory Mempool
  imports Oracle_Types "HOL-Library.Word"
begin

text \<open>
  The application mempool (\<open>src/app/mempool/mempool_fifo.go\<close>, \<open>src/app/helper/helper.go\<close>): two
  first-in first-out queues, one for oracle transactions, with lookup tables by sender and
  sequence, and the iterator a proposer walks. The concurrent linked list \<open>clist.CList\<close> is a
  package of CometBFT: the record \<open>clist\<close> and the locale \<open>linked_list\<close>. The lock is taken for
  reading by every operation, so two insertions overlap: \<open>pool_step\<close> interleaves them.
\<close>


section \<open>The linked list\<close>

text \<open>
  \<open>'l\<close> is a list, \<open>'e\<close> the address of an element and \<open>'v\<close> the values. \<open>cl_Elements\<close> is the
  walk \<open>for e := l.Front(); e != nil; e = e.Next()\<close>.
\<close>

record ('l, 'e, 'v) clist =
  cl_New :: 'l
  cl_PushBack :: "'l \<Rightarrow> 'v \<Rightarrow> (('e \<times> 'v) \<times> 'l) result"
  cl_Remove :: "'l \<Rightarrow> 'e \<times> 'v \<Rightarrow> 'l result"
  cl_Elements :: "'l \<Rightarrow> ('e \<times> 'v) list"
  cl_Len :: "'l \<Rightarrow> int"

locale linked_list =
  fixes C :: "('l, 'e, 'v) clist"
  assumes new_elements: "cl_Elements C (cl_New C) = []"
    and len: "cl_Len C l = int (length (cl_Elements C l))"
    and push: "cl_PushBack C l v = Inr (e, l') \<Longrightarrow>
       snd e = v \<and> fst e \<notin> fst ` set (cl_Elements C l) \<and> cl_Elements C l' = cl_Elements C l @ [e]"
    and remove: "e \<in> set (cl_Elements C l) \<Longrightarrow>
       \<exists>l'. cl_Remove C l e = Inr l' \<and> cl_Elements C l' = removeAll e (cl_Elements C l)"


section \<open>Transactions\<close>

text \<open>
  A transaction is what the mempool reads of it: the first signers' addresses with their
  sequences (\<open>None\<close> when \<open>GetSignaturesV2\<close> fails) and the messages.
\<close>

datatype pool_msg =
    Prevote_msg MsgAggregateDoRatePrevote
  | Vote_msg MsgAggregateDoRateVote
  | Plain_msg string

record pool_tx =
  tx_sigs :: "(address \<times> 64 word) list option"
  tx_msgs :: "pool_msg list"

type_synonym tx_key = "string \<times> 64 word"

fun is_oracle_msg :: "pool_msg \<Rightarrow> bool" where
  "is_oracle_msg (Prevote_msg _) = True"
| "is_oracle_msg (Vote_msg _) = True"
| "is_oracle_msg (Plain_msg _) = False"

definition IsOracleTx :: "pool_msg list \<Rightarrow> bool" where
  "IsOracleTx msgs \<longleftrightarrow> msgs \<noteq> [] \<and> list_all is_oracle_msg msgs"

definition getTxKey :: "sdk \<Rightarrow> pool_tx \<Rightarrow> tx_key result" where
  "getTxKey K tx =
     (case tx_sigs tx of
        None \<Rightarrow> Inl (Text ''signatures'')
      | Some [] \<Rightarrow> Inl (Text ''tx must have at least one signer'')
      | Some ((pubkeyAddress, nonce) # _) \<Rightarrow> Inr (AccString K pubkeyAddress, nonce))"


section \<open>The pool\<close>

type_synonym 'e element = "'e \<times> pool_tx"

record ('l, 'e) pool =
  txs :: 'l
  txsOracle :: 'l
  txsMap :: "tx_key \<rightharpoonup> 'e element"
  txsMapOracle :: "tx_key \<rightharpoonup> 'e element"
  maxTx :: int

definition DefaultMaxTx :: int where
  "DefaultMaxTx = 5000"

definition FifoMaxTxOpt :: "int \<Rightarrow> ('l, 'e) pool \<Rightarrow> ('l, 'e) pool" where
  "FifoMaxTxOpt n mp = mp\<lparr>maxTx := n\<rparr>"

definition NewFifoMempool :: "('l, 'e, pool_tx) clist \<Rightarrow> (('l, 'e) pool \<Rightarrow> ('l, 'e) pool) list \<Rightarrow> ('l, 'e) pool" where
  "NewFifoMempool C opts =
     fold (\<lambda>opt mp. opt mp) opts
       \<lparr>txs = cl_New C, txsOracle = cl_New C, txsMap = Map.empty, txsMapOracle = Map.empty, maxTx = DefaultMaxTx\<rparr>"

definition CountTx :: "('l, 'e, pool_tx) clist \<Rightarrow> ('l, 'e) pool \<Rightarrow> int" where
  "CountTx C mp = cl_Len C (txs mp) + cl_Len C (txsOracle mp)"

abbreviation ErrMempoolTxMaxCapacity :: error where "ErrMempoolTxMaxCapacity \<equiv> Sdk ''ErrMempoolTxMaxCapacity''"
abbreviation ErrTxNotFound :: error where "ErrTxNotFound \<equiv> Sdk ''ErrTxNotFound''"

text \<open>The two halves of \<open>Insert\<close>: the checks, which say whether to go on, and the push.\<close>

definition insert_check :: "('l, 'e, pool_tx) clist \<Rightarrow> ('l, 'e) pool \<Rightarrow> bool result" where
  "insert_check C mp =
     (let totalTxs = cl_Len C (txs mp) + cl_Len C (txsOracle mp)
      in if maxTx mp \<ge> 0 \<and> totalTxs \<ge> maxTx mp then Inl ErrMempoolTxMaxCapacity
         else Inr (\<not> maxTx mp < 0))"

definition insert_push :: "sdk \<Rightarrow> ('l, 'e, pool_tx) clist \<Rightarrow> ('l, 'e) pool \<Rightarrow> pool_tx \<Rightarrow> ('l, 'e) pool result" where
  "insert_push K C mp tx =
     rbind (getTxKey K tx) (\<lambda>txKey.
     if IsOracleTx (tx_msgs tx)
     then rbind (cl_PushBack C (txsOracle mp) tx) (\<lambda>(e, l).
          Inr (mp\<lparr>txsOracle := l, txsMapOracle := (txsMapOracle mp)(txKey \<mapsto> e)\<rparr>))
     else rbind (cl_PushBack C (txs mp) tx) (\<lambda>(e, l).
          Inr (mp\<lparr>txs := l, txsMap := (txsMap mp)(txKey \<mapsto> e)\<rparr>)))"

definition pool_Insert :: "sdk \<Rightarrow> ('l, 'e, pool_tx) clist \<Rightarrow> ('l, 'e) pool \<Rightarrow> pool_tx \<Rightarrow> ('l, 'e) pool result" where
  "pool_Insert K C mp tx =
     rbind (insert_check C mp) (\<lambda>go. if go then insert_push K C mp tx else Inr mp)"

definition pool_Remove :: "sdk \<Rightarrow> ('l, 'e, pool_tx) clist \<Rightarrow> ('l, 'e) pool \<Rightarrow> pool_tx \<Rightarrow> ('l, 'e) pool result" where
  "pool_Remove K C mp tx =
     rbind (getTxKey K tx) (\<lambda>txKey.
     if IsOracleTx (tx_msgs tx)
     then case txsMapOracle mp txKey of
            Some elem \<Rightarrow>
              rbind (cl_Remove C (txsOracle mp) elem) (\<lambda>l.
              Inr (mp\<lparr>txsOracle := l, txsMapOracle := (txsMapOracle mp)(txKey := None)\<rparr>))
          | None \<Rightarrow> Inl ErrTxNotFound
     else case txsMap mp txKey of
            Some elem \<Rightarrow>
              rbind (cl_Remove C (txs mp) elem) (\<lambda>l.
              Inr (mp\<lparr>txs := l, txsMap := (txsMap mp)(txKey := None)\<rparr>))
          | None \<Rightarrow> Inl ErrTxNotFound)"


section \<open>The iterator\<close>

record 'e fifo_iterator =
  currentTx :: "'e element option"
  listTxKey :: "tx_key list"
  mapTxs :: "tx_key \<rightharpoonup> 'e element"
  mapTxsOracle :: "tx_key \<rightharpoonup> 'e element"

text \<open>\<open>Next\<close> drops keys from the front until one is found in a table.\<close>

fun next_from :: "tx_key list \<Rightarrow> 'e fifo_iterator \<Rightarrow> 'e fifo_iterator option" where
  "next_from [] it = None"
| "next_from (txKey # rest) it =
     (case mapTxsOracle it txKey of
        Some elem \<Rightarrow> Some (it\<lparr>listTxKey := rest, currentTx := Some elem, mapTxsOracle := (mapTxsOracle it)(txKey := None)\<rparr>)
      | None \<Rightarrow>
          (case mapTxs it txKey of
             Some elem \<Rightarrow> Some (it\<lparr>listTxKey := rest, currentTx := Some elem, mapTxs := (mapTxs it)(txKey := None)\<rparr>)
           | None \<Rightarrow> next_from rest (it\<lparr>listTxKey := rest\<rparr>)))"

definition fifo_Next :: "'e fifo_iterator \<Rightarrow> 'e fifo_iterator option" where
  "fifo_Next it = next_from (listTxKey it) it"

definition fifo_Tx :: "'e fifo_iterator \<Rightarrow> pool_tx result" where
  "fifo_Tx it = (case currentTx it of None \<Rightarrow> Inl Panic | Some elem \<Rightarrow> Inr (snd elem))"

definition key_or_empty :: "sdk \<Rightarrow> 'e element \<Rightarrow> tx_key" where
  "key_or_empty K e = (case getTxKey K (snd e) of Inl _ \<Rightarrow> ('''', 0) | Inr k \<Rightarrow> k)"

definition select_table :: "sdk \<Rightarrow> 'e element list \<Rightarrow> tx_key \<rightharpoonup> 'e element" where
  "select_table K es = fold (\<lambda>e m. m(key_or_empty K e \<mapsto> e)) es Map.empty"

definition pool_Select :: "sdk \<Rightarrow> ('l, 'e, pool_tx) clist \<Rightarrow> ('l, 'e) pool \<Rightarrow> 'e fifo_iterator option" where
  "pool_Select K C mp =
     (let oracle = cl_Elements C (txsOracle mp); regular = cl_Elements C (txs mp)
      in fifo_Next \<lparr>currentTx = None,
           listTxKey = map (key_or_empty K) oracle @ map (key_or_empty K) regular,
           mapTxs = select_table K regular,
           mapTxsOracle = select_table K oracle\<rparr>)"


section \<open>A concrete linked list\<close>

text \<open>Elements with numbered addresses; the next address is one above every one in use.\<close>

definition ref_clist :: "((nat \<times> pool_tx) list, nat, pool_tx) clist" where
  "ref_clist = \<lparr>cl_New = [],
     cl_PushBack = (\<lambda>l v. let e = (Suc (fold max (map fst l) 0), v) in Inr (e, l @ [e])),
     cl_Remove = (\<lambda>l e. if e \<in> set l then Inr (removeAll e l) else Inl Panic),
     cl_Elements = (\<lambda>l. l), cl_Len = (\<lambda>l. int (length l))\<rparr>"

lemma fold_max_ge: "x \<le> m \<or> x \<in> set xs \<Longrightarrow> x \<le> fold max xs m" for x m :: nat
  by (induction xs arbitrary: m) (auto simp: max_def)

lemma fresh_address: "Suc (fold max (map fst l) 0) \<notin> fst ` set l" for l :: "(nat \<times> 'a) list"
  using fold_max_ge [of _ 0 "map fst l"] by fastforce

interpretation ref_list: linked_list ref_clist
proof (unfold_locales, goal_cases)
  case (3 l v e l')
  then show ?case using fresh_address [of l] by (simp add: ref_clist_def Let_def) force
qed (auto simp: ref_clist_def)


section \<open>Well-formed pools\<close>

text \<open>
  Every queued transaction has a key and is in the queue of its kind, and every entry of a
  table is a queued element under its own key.
\<close>

definition queue_ok :: "sdk \<Rightarrow> bool \<Rightarrow> 'e element list \<Rightarrow> (tx_key \<rightharpoonup> 'e element) \<Rightarrow> bool" where
  "queue_ok K oracle es m \<longleftrightarrow>
     (\<forall>e \<in> set es. (\<exists>k. getTxKey K (snd e) = Inr k) \<and> IsOracleTx (tx_msgs (snd e)) = oracle) \<and>
     (\<forall>k e. m k = Some e \<longrightarrow> e \<in> set es \<and> getTxKey K (snd e) = Inr k)"

definition pool_ok :: "sdk \<Rightarrow> ('l, 'e, pool_tx) clist \<Rightarrow> ('l, 'e) pool \<Rightarrow> bool" where
  "pool_ok K C mp \<longleftrightarrow>
     queue_ok K True (cl_Elements C (txsOracle mp)) (txsMapOracle mp) \<and>
     queue_ok K False (cl_Elements C (txs mp)) (txsMap mp)"

lemma queue_ok_empty: "queue_ok K oracle [] Map.empty"
  by (simp add: queue_ok_def)

lemma queue_okD: "queue_ok K oracle es m \<Longrightarrow> m k = Some e \<Longrightarrow> e \<in> set es \<and> getTxKey K (snd e) = Inr k"
  unfolding queue_ok_def by blast

lemma queue_ok_push:
  "queue_ok K oracle es m \<Longrightarrow> getTxKey K (snd e) = Inr k \<Longrightarrow> IsOracleTx (tx_msgs (snd e)) = oracle \<Longrightarrow>
   queue_ok K oracle (es @ [e]) (m(k \<mapsto> e))"
  by (auto simp: queue_ok_def)

lemma queue_ok_remove:
  assumes ok: "queue_ok K oracle es m" and entry: "m k = Some e"
  shows "queue_ok K oracle (removeAll e es) (m(k := None))"
proof -
  have "e' \<in> set (removeAll e es) \<and> getTxKey K (snd e') = Inr k'" if "(m(k := None)) k' = Some e'" for k' e'
  proof -
    from that have "k' \<noteq> k" "m k' = Some e'" by (auto split: if_splits)
    with queue_okD [OF ok \<open>m k' = Some e'\<close>] queue_okD [OF ok entry] show ?thesis by auto
  qed
  then show ?thesis using ok unfolding queue_ok_def by (simp del: split_paired_All split_paired_Ex)
qed

context linked_list
begin

lemma remove_Inr: "cl_Remove C l e = Inr l' \<Longrightarrow> e \<in> set (cl_Elements C l) \<Longrightarrow>
    cl_Elements C l' = removeAll e (cl_Elements C l)"
  using remove by fastforce

lemma remove_shorter:
  assumes "cl_Remove C l e = Inr l'" and "e \<in> set (cl_Elements C l)"
  shows "cl_Len C l' < cl_Len C l"
  using assms length_removeAll_less [of e "cl_Elements C l"] by (simp add: len remove_Inr)

lemma push_longer: "cl_PushBack C l v = Inr (e, l') \<Longrightarrow> cl_Len C l' = cl_Len C l + 1"
  using push [of l v e l'] by (simp add: len)

end

lemma count_nonneg: "linked_list C \<Longrightarrow> 0 \<le> CountTx C mp"
  by (simp add: CountTx_def linked_list.len)

lemma insert_push_cases:
  assumes "insert_push K C mp tx = Inr mp'"
  obtains k e l where "IsOracleTx (tx_msgs tx)" "getTxKey K tx = Inr k" "cl_PushBack C (txsOracle mp) tx = Inr (e, l)"
      "mp' = mp\<lparr>txsOracle := l, txsMapOracle := (txsMapOracle mp)(k \<mapsto> e)\<rparr>"
  | k e l where "\<not> IsOracleTx (tx_msgs tx)" "getTxKey K tx = Inr k" "cl_PushBack C (txs mp) tx = Inr (e, l)"
      "mp' = mp\<lparr>txs := l, txsMap := (txsMap mp)(k \<mapsto> e)\<rparr>"
proof (cases "IsOracleTx (tx_msgs tx)")
  case True
  then show ?thesis using assms that(1) by (fastforce simp: insert_push_def rbind_eq_Inr)
next
  case False
  then show ?thesis using assms that(2) by (fastforce simp: insert_push_def rbind_eq_Inr)
qed

lemma pool_Remove_cases:
  assumes "pool_Remove K C mp tx = Inr mp'"
  obtains k e l where "IsOracleTx (tx_msgs tx)" "getTxKey K tx = Inr k" "txsMapOracle mp k = Some e"
      "cl_Remove C (txsOracle mp) e = Inr l" "mp' = mp\<lparr>txsOracle := l, txsMapOracle := (txsMapOracle mp)(k := None)\<rparr>"
  | k e l where "\<not> IsOracleTx (tx_msgs tx)" "getTxKey K tx = Inr k" "txsMap mp k = Some e"
      "cl_Remove C (txs mp) e = Inr l" "mp' = mp\<lparr>txs := l, txsMap := (txsMap mp)(k := None)\<rparr>"
proof (cases "IsOracleTx (tx_msgs tx)")
  case True
  then show ?thesis using assms that(1) by (fastforce simp: pool_Remove_def rbind_eq_Inr split: option.splits)
next
  case False
  then show ?thesis using assms that(2) by (fastforce simp: pool_Remove_def rbind_eq_Inr split: option.splits)
qed

lemma insert_push_ok:
  assumes "linked_list C" and "pool_ok K C mp" and "insert_push K C mp tx = Inr mp'"
  shows "pool_ok K C mp' \<and> CountTx C mp' = CountTx C mp + 1 \<and> maxTx mp' = maxTx mp"
  using assms(3)
proof (cases rule: insert_push_cases)
  case (1 k e l)
  with assms(2) linked_list.push [OF assms(1) 1(3)] linked_list.push_longer [OF assms(1) 1(3)]
  show ?thesis by (auto simp: pool_ok_def CountTx_def intro: queue_ok_push)
next
  case (2 k e l)
  with assms(2) linked_list.push [OF assms(1) 2(3)] linked_list.push_longer [OF assms(1) 2(3)]
  show ?thesis by (auto simp: pool_ok_def CountTx_def intro: queue_ok_push)
qed

lemma pool_Remove_ok:
  assumes "linked_list C" and "pool_ok K C mp" and "pool_Remove K C mp tx = Inr mp'"
  shows "pool_ok K C mp' \<and> CountTx C mp' < CountTx C mp \<and> maxTx mp' = maxTx mp"
  using assms(3)
proof (cases rule: pool_Remove_cases)
  case (1 k e l)
  then have "e \<in> set (cl_Elements C (txsOracle mp))" using assms(2) by (auto simp: pool_ok_def dest: queue_okD)
  with 1 assms(2) linked_list.remove_Inr [OF assms(1) 1(4)] linked_list.remove_shorter [OF assms(1) 1(4)]
  show ?thesis by (simp add: pool_ok_def CountTx_def queue_ok_remove)
next
  case (2 k e l)
  then have "e \<in> set (cl_Elements C (txs mp))" using assms(2) by (auto simp: pool_ok_def dest: queue_okD)
  with 2 assms(2) linked_list.remove_Inr [OF assms(1) 2(4)] linked_list.remove_shorter [OF assms(1) 2(4)]
  show ?thesis by (simp add: pool_ok_def CountTx_def queue_ok_remove)
qed


section \<open>Overlapping insertions\<close>

text \<open>
  The lock is held for reading, so an insertion may pass its checks while others have passed
  theirs and have not pushed yet. A state is the pool with the transactions in between, of
  which there are at most \<open>W\<close>.
\<close>

inductive pool_step :: "sdk \<Rightarrow> ('l, 'e, pool_tx) clist \<Rightarrow> nat \<Rightarrow>
    ('l, 'e) pool \<times> pool_tx list \<Rightarrow> ('l, 'e) pool \<times> pool_tx list \<Rightarrow> bool"
  for K C W where
  step_check: "length P < W \<Longrightarrow> insert_check C mp = Inr True \<Longrightarrow> pool_step K C W (mp, P) (mp, tx # P)"
| step_push: "insert_push K C mp tx = Inr mp' \<Longrightarrow> pool_step K C W (mp, P @ tx # Q) (mp', P @ Q)"
| step_error: "insert_push K C mp tx = Inl err \<Longrightarrow> pool_step K C W (mp, P @ tx # Q) (mp, P @ Q)"
| step_remove: "pool_Remove K C mp tx = Inr mp' \<Longrightarrow> pool_step K C W (mp, P) (mp', P)"

inductive_cases pool_stepE: "pool_step K C W (mp, P) (mp', P')"

definition pool_inv :: "sdk \<Rightarrow> ('l, 'e, pool_tx) clist \<Rightarrow> nat \<Rightarrow> int \<Rightarrow> ('l, 'e) pool \<times> pool_tx list \<Rightarrow> bool" where
  "pool_inv K C W n st \<longleftrightarrow>
     pool_ok K C (fst st) \<and> maxTx (fst st) = n \<and> length (snd st) \<le> W \<and>
     CountTx C (fst st) + int (length (snd st)) \<le> n + int W - 1"

lemma insert_check_True: "insert_check C mp = Inr True \<Longrightarrow> CountTx C mp < maxTx mp"
  by (auto simp: insert_check_def CountTx_def Let_def split: if_splits)

lemma pool_step_inv:
  assumes "linked_list C" and "pool_step K C W st st'" and "pool_inv K C W n st"
  shows "pool_inv K C W n st'"
  using assms(2,3)
proof cases
  case (step_check P mp tx)
  then show ?thesis using assms(3) insert_check_True [of C mp] by (auto simp: pool_inv_def)
next
  case (step_push mp tx mp' P Q)
  then show ?thesis using assms(3) insert_push_ok [OF assms(1) _ step_push(3)] by (auto simp: pool_inv_def)
next
  case (step_error mp tx err P Q)
  then show ?thesis using assms(3) by (auto simp: pool_inv_def)
next
  case (step_remove mp tx mp' P)
  then show ?thesis using assms(3) pool_Remove_ok [OF assms(1) _ step_remove(3)] by (auto simp: pool_inv_def)
qed

lemma pool_inv_new:
  "linked_list C \<Longrightarrow> 0 < W \<Longrightarrow> 0 \<le> n \<Longrightarrow> pool_inv K C W n (NewFifoMempool C [FifoMaxTxOpt n], [])"
  by (simp add: pool_inv_def pool_ok_def NewFifoMempool_def FifoMaxTxOpt_def CountTx_def linked_list.new_elements
      linked_list.len queue_ok_empty)

lemma pool_run_inv:
  assumes "linked_list C" and "(pool_step K C W)\<^sup>*\<^sup>* st st'" and "pool_inv K C W n st"
  shows "pool_inv K C W n st'"
  using assms(2,3) by induction (auto intro: pool_step_inv [OF assms(1)])

text \<open>
  C20: starting from an empty pool with the capacity \<open>n\<close>, every interleaving of insertions,
  at most \<open>W\<close> of them at a time, and removals leaves a well-formed pool: each queue holds
  transactions of its kind only, each entry of a lookup table is a queued element under its
  own sender and sequence, and the capacity is exceeded by at most \<open>W - 1\<close> transactions.
\<close>

theorem pool_capacity:
  assumes laws: "linked_list C" and workers: "0 < W" and capacity: "0 \<le> n"
    and run: "(pool_step K C W)\<^sup>*\<^sup>* (NewFifoMempool C [FifoMaxTxOpt n], []) (mp, P)"
  shows "pool_ok K C mp \<and> CountTx C mp \<le> n + int W - 1"
  using pool_run_inv [OF laws run pool_inv_new [OF laws workers capacity]] by (simp add: pool_inv_def)


definition ex_tx :: "string \<Rightarrow> pool_tx" where
  "ex_tx memo = \<lparr>tx_sigs = Some [(''a'', 7)], tx_msgs = [Plain_msg memo]\<rparr>"

theorem pool_capacity_witness:
  "\<exists>mp. (pool_step ref_sdk ref_clist 2)\<^sup>*\<^sup>* (NewFifoMempool ref_clist [FifoMaxTxOpt 1], []) (mp, []) \<and>
     CountTx ref_clist mp = 2 \<and> pool_ok ref_sdk ref_clist mp \<and> CountTx ref_clist mp \<le> 1 + int 2 - 1"
proof -
  let ?new = "NewFifoMempool ref_clist [FifoMaxTxOpt 1] :: ((nat \<times> pool_tx) list, nat) pool"
  define r where "r = rbind (insert_push ref_sdk ref_clist ?new (ex_tx ''x'')) (\<lambda>mp. insert_push ref_sdk ref_clist mp (ex_tx ''y''))"
  have "map_sum id (CountTx ref_clist) r = Inr 2" unfolding r_def by code_simp
  then obtain mp1 mp where p1: "insert_push ref_sdk ref_clist ?new (ex_tx ''x'') = Inr mp1"
    and p2: "insert_push ref_sdk ref_clist mp1 (ex_tx ''y'') = Inr mp" and two: "CountTx ref_clist mp = 2"
    by (cases r) (auto simp: r_def rbind_eq_Inr)
  have check: "insert_check ref_clist ?new = Inr True"
    by (simp add: insert_check_def NewFifoMempool_def FifoMaxTxOpt_def ref_clist_def)
  have "pool_step ref_sdk ref_clist 2 (?new, []) (?new, [ex_tx ''x''])"
    "pool_step ref_sdk ref_clist 2 (?new, [ex_tx ''x'']) (?new, [ex_tx ''y'', ex_tx ''x''])"
    by (auto intro!: step_check check)
  moreover have "pool_step ref_sdk ref_clist 2 (?new, [ex_tx ''y'', ex_tx ''x'']) (mp1, [ex_tx ''y''])"
    "pool_step ref_sdk ref_clist 2 (mp1, [ex_tx ''y'']) (mp, [])"
    using step_push [OF p1, of 2 "[ex_tx ''y'']" "[]"] step_push [OF p2, of 2 "[]" "[]"] by simp_all
  ultimately have run: "(pool_step ref_sdk ref_clist 2)\<^sup>*\<^sup>* (?new, []) (mp, [])"
    by (meson converse_rtranclp_into_rtranclp r_into_rtranclp)
  show ?thesis
    using run two pool_capacity [OF ref_list.linked_list_axioms _ _ run] by auto
qed



section \<open>The iteration\<close>

lemma next_from_shorter: "next_from ks it = Some it' \<Longrightarrow> length (listTxKey it') < length ks"
  by (induction ks it rule: next_from.induct) (auto split: option.splits)

text \<open>The loop of a proposer: \<open>for it != nil { use it.Tx(); it = it.Next() }\<close>.\<close>

function drain :: "'e fifo_iterator option \<Rightarrow> pool_tx result list" where
  "drain None = []"
| "drain (Some it) = fifo_Tx it # drain (fifo_Next it)"
  by pat_completeness auto
termination
  by (relation "measure (\<lambda>i. case i of None \<Rightarrow> 0 | Some it \<Rightarrow> Suc (length (listTxKey it)))")
    (auto simp: fifo_Next_def dest: next_from_shorter split: option.split)

lemma next_none_stays: "((\<lambda>i. Option.bind i fifo_Next) ^^ n) None = None"
  by (induction n) auto

lemma nexts_end: "length (listTxKey it) \<le> n \<Longrightarrow> ((\<lambda>i. Option.bind i fifo_Next) ^^ n) (fifo_Next it) = None"
proof (induction n arbitrary: it)
  case 0
  then show ?case by (simp add: fifo_Next_def)
next
  case (Suc n)
  show ?case
  proof (cases "fifo_Next it")
    case None
    then show ?thesis by (simp only: next_none_stays)
  next
    case (Some it')
    then have "length (listTxKey it') \<le> n" using Suc.prems next_from_shorter [of "listTxKey it" it it'] by (simp add: fifo_Next_def)
    from Suc.IH [OF this] Some show ?thesis by (simp add: funpow_Suc_right del: funpow.simps)
  qed
qed

text \<open>
  C22: every iteration over the pool ends. Whatever the queues hold, two transactions of one
  sender and sequence included, calling \<open>Next\<close> as many times as there are transactions
  exhausts the iterator that \<open>Select\<close> returned.
\<close>

theorem iteration_terminates:
  assumes "linked_list C"
  shows "((\<lambda>i. Option.bind i fifo_Next) ^^ nat (CountTx C mp)) (pool_Select K C mp) = None"
  unfolding pool_Select_def Let_def
  by (rule nexts_end) (simp add: CountTx_def linked_list.len [OF assms] flip: of_nat_add)

text \<open>A pool with two transactions of one sender and sequence: the iterator is exhausted after two steps.\<close>

theorem iteration_terminates_witness:
  "\<exists>mp1 mp2. pool_Insert ref_sdk ref_clist (NewFifoMempool ref_clist []) (ex_tx ''x'') = Inr mp1 \<and>
     pool_Insert ref_sdk ref_clist mp1 (ex_tx ''y'') = Inr mp2 \<and>
     getTxKey ref_sdk (ex_tx ''x'') = getTxKey ref_sdk (ex_tx ''y'') \<and> CountTx ref_clist mp2 = 2 \<and>
     pool_Select ref_sdk ref_clist mp2 \<noteq> None \<and>
     Option.bind (Option.bind (pool_Select ref_sdk ref_clist mp2) fifo_Next) fifo_Next = None"
proof -
  define r where "r = rbind (pool_Insert ref_sdk ref_clist (NewFifoMempool ref_clist []) (ex_tx ''x''))
      (\<lambda>mp. pool_Insert ref_sdk ref_clist mp (ex_tx ''y''))"
  have "map_sum id (\<lambda>mp. (CountTx ref_clist mp, pool_Select ref_sdk ref_clist mp \<noteq> None)) r = Inr (2, True)"
    unfolding r_def by code_simp
  then obtain mp1 mp2 where ins: "pool_Insert ref_sdk ref_clist (NewFifoMempool ref_clist []) (ex_tx ''x'') = Inr mp1"
      "pool_Insert ref_sdk ref_clist mp1 (ex_tx ''y'') = Inr mp2"
    and n: "CountTx ref_clist mp2 = 2" "pool_Select ref_sdk ref_clist mp2 \<noteq> None"
    by (cases r) (auto simp: r_def rbind_eq_Inr)
  have "getTxKey ref_sdk (ex_tx ''x'') = getTxKey ref_sdk (ex_tx ''y'')" by code_simp
  moreover have "Option.bind (Option.bind (pool_Select ref_sdk ref_clist mp2) fifo_Next) fifo_Next = None"
    using iteration_terminates [OF ref_list.linked_list_axioms, of mp2 ref_sdk] n(1) by (simp add: numeral_2_eq_2)
  ultimately show ?thesis using ins n by blast
qed

lemma select_table_map_of:
  assumes "distinct (map (key_or_empty K) es)"
  shows "select_table K es = map_of (map (\<lambda>e. (key_or_empty K e, e)) es)"
proof -
  have "fold (\<lambda>e m. m(key_or_empty K e \<mapsto> e)) es m = m ++ map_of (map (\<lambda>e. (key_or_empty K e, e)) es)" for m
    using assms
    by (induction es arbitrary: m) (auto simp: map_add_upd map_add_upd_left dom_map_of_conv_image_fst image_image)
  then show ?thesis by (simp add: select_table_def)
qed

abbreviation table_of :: "sdk \<Rightarrow> 'e element list \<Rightarrow> tx_key \<rightharpoonup> 'e element" where
  "table_of K es \<equiv> map_of (map (\<lambda>e. (key_or_empty K e, e)) es)"

lemma table_absent: "key_or_empty K e \<notin> key_or_empty K ` set es \<Longrightarrow> (table_of K es)(key_or_empty K e := None) = table_of K es"
  by (rule fun_upd_idem) (simp add: map_of_eq_None_iff image_image)

lemma drain_regular:
  "distinct (map (key_or_empty K) es) \<Longrightarrow>
   drain (fifo_Next \<lparr>currentTx = c, listTxKey = map (key_or_empty K) es, mapTxs = table_of K es, mapTxsOracle = Map.empty\<rparr>) =
   map (\<lambda>e. Inr (snd e)) es"
proof (induction es arbitrary: c)
  case (Cons e es)
  then show ?case by (simp add: fifo_Next_def fifo_Tx_def table_absent fun_upd_same del: fun_upd_apply)
qed (simp add: fifo_Next_def)

lemma drain_queues:
  "distinct (map (key_or_empty K) os) \<Longrightarrow> distinct (map (key_or_empty K) es) \<Longrightarrow>
   drain (fifo_Next \<lparr>currentTx = c, listTxKey = map (key_or_empty K) os @ map (key_or_empty K) es,
     mapTxs = table_of K es, mapTxsOracle = table_of K os\<rparr>) = map (\<lambda>e. Inr (snd e)) (os @ es)"
proof (induction os arbitrary: c)
  case (Cons e os)
  then show ?case by (simp add: fifo_Next_def fifo_Tx_def table_absent fun_upd_same del: fun_upd_apply)
qed (simp add: drain_regular)

text \<open>
  C21: oracle transactions go first. When no two queued transactions of a kind share sender and
  sequence, the walk of a proposer meets every oracle transaction in the order of insertion,
  then every other transaction in the order of insertion, each exactly once.
\<close>

theorem iteration_in_order:
  assumes "distinct (map (key_or_empty K) (cl_Elements C (txsOracle mp)))"
    and "distinct (map (key_or_empty K) (cl_Elements C (txs mp)))"
  shows "drain (pool_Select K C mp) =
    map (\<lambda>e. Inr (snd e)) (cl_Elements C (txsOracle mp) @ cl_Elements C (txs mp))"
  unfolding pool_Select_def Let_def select_table_map_of [OF assms(1)] select_table_map_of [OF assms(2)]
  by (rule drain_queues [OF assms])

definition ex_oracle_tx :: pool_tx where
  "ex_oracle_tx = \<lparr>tx_sigs = Some [(''b'', 1)],
     tx_msgs = [Prevote_msg \<lparr>prevoteHash = ''h'', prevoteFeeder = ''f'', prevoteValidator = ''v''\<rparr>]\<rparr>"

definition ex_pool :: "((nat \<times> pool_tx) list, nat) pool result" where
  "ex_pool = rbind (pool_Insert ref_sdk ref_clist (NewFifoMempool ref_clist []) (ex_tx ''x'')) (\<lambda>mp.
     pool_Insert ref_sdk ref_clist mp ex_oracle_tx)"

theorem iteration_in_order_witness:
  "\<exists>mp. ex_pool = Inr mp \<and> drain (pool_Select ref_sdk ref_clist mp) = [Inr ex_oracle_tx, Inr (ex_tx ''x'')]"
proof -
  define r where "r = ex_pool"
  have "map_sum id (\<lambda>mp. (cl_Elements ref_clist (txsOracle mp), cl_Elements ref_clist (txs mp))) r =
      Inr ([(1, ex_oracle_tx)], [(1, ex_tx ''x'')])"
    unfolding r_def by code_simp
  then obtain mp where mp: "r = Inr mp" "cl_Elements ref_clist (txsOracle mp) = [(1, ex_oracle_tx)]"
      "cl_Elements ref_clist (txs mp) = [(1, ex_tx ''x'')]"
    by (cases r) auto
  then show ?thesis using iteration_in_order [of ref_sdk ref_clist mp] by (intro exI [of _ mp]) (simp add: r_def)
qed



section \<open>Insertion and removal\<close>

lemma pool_Insert_push:
  assumes "pool_Insert K C mp tx = Inr mp'" and "0 \<le> maxTx mp"
  shows "insert_push K C mp tx = Inr mp'"
  using assms by (auto simp: pool_Insert_def insert_check_def rbind_def Let_def split: if_splits)

lemma insert_regular:
  assumes laws: "linked_list C" and ins: "pool_Insert K C mp tx = Inr mp'" and cap: "0 \<le> maxTx mp"
    and regular: "\<not> IsOracleTx (tx_msgs tx)"
  obtains k e where "getTxKey K tx = Inr k" "snd e = tx" "e \<notin> set (cl_Elements C (txs mp))"
    "cl_Elements C (txs mp') = cl_Elements C (txs mp) @ [e]" "txsMap mp' = (txsMap mp)(k \<mapsto> e)" "maxTx mp' = maxTx mp"
  using pool_Insert_push [OF ins cap]
proof (cases rule: insert_push_cases)
  case (2 k e l)
  have "e \<notin> set (cl_Elements C (txs mp))" using linked_list.push [OF laws 2(3)] by (metis imageI)
  with 2 linked_list.push [OF laws 2(3)] show ?thesis by (intro that [of k e]) simp_all
qed (use regular in simp)

lemma remove_regular:
  assumes laws: "linked_list C" and regular: "\<not> IsOracleTx (tx_msgs tx)" and key: "getTxKey K tx = Inr k"
    and entry: "txsMap mp k = Some e" and queued: "e \<in> set (cl_Elements C (txs mp))"
  obtains l where "pool_Remove K C mp tx = Inr (mp\<lparr>txs := l, txsMap := (txsMap mp)(k := None)\<rparr>)"
    "cl_Elements C l = removeAll e (cl_Elements C (txs mp))"
  using linked_list.remove [OF laws queued] regular key entry that by (auto simp: pool_Remove_def)

text \<open>
  A second transaction with the sender and sequence of a queued one takes over its entry in
  the lookup table. Removing the first transaction then takes the second one out of the queue;
  the first stays queued, takes up capacity and is offered to every proposer, and removing it
  again fails with \<open>ErrTxNotFound\<close>.
\<close>

lemma duplicate_key_orphaned:
  assumes laws: "linked_list C" and cap: "0 \<le> maxTx mp"
    and same: "getTxKey K tx1 = getTxKey K tx2" "\<not> IsOracleTx (tx_msgs tx1)" "\<not> IsOracleTx (tx_msgs tx2)"
    and ins: "pool_Insert K C mp tx1 = Inr mp1" "pool_Insert K C mp1 tx2 = Inr mp2"
  shows "\<exists>e mp3. snd e = tx1 \<and> pool_Remove K C mp2 tx1 = Inr mp3 \<and>
     cl_Elements C (txs mp3) = cl_Elements C (txs mp) @ [e] \<and> pool_Remove K C mp3 tx1 = Inl ErrTxNotFound"
proof -
  from insert_regular [OF laws ins(1) cap same(2)] obtain k e1 where e1: "getTxKey K tx1 = Inr k" "snd e1 = tx1"
      "cl_Elements C (txs mp1) = cl_Elements C (txs mp) @ [e1]" "txsMap mp1 = (txsMap mp)(k \<mapsto> e1)" "maxTx mp1 = maxTx mp"
    by blast
  from insert_regular [OF laws ins(2) _ same(3)] cap e1(5) obtain k' e2 where e2: "getTxKey K tx2 = Inr k'"
      "e2 \<notin> set (cl_Elements C (txs mp1))" "cl_Elements C (txs mp2) = cl_Elements C (txs mp1) @ [e2]"
      "txsMap mp2 = (txsMap mp1)(k' \<mapsto> e2)"
    by metis
  have "k' = k" using same(1) e1(1) e2(1) by simp
  from remove_regular [OF laws same(2) e1(1), of mp2 e2] e2 this obtain l where
    l: "pool_Remove K C mp2 tx1 = Inr (mp2\<lparr>txs := l, txsMap := (txsMap mp2)(k := None)\<rparr>)"
      "cl_Elements C l = removeAll e2 (cl_Elements C (txs mp2))"
    by auto
  let ?mp3 = "mp2\<lparr>txs := l, txsMap := (txsMap mp2)(k := None)\<rparr>"
  have "cl_Elements C (txs ?mp3) = cl_Elements C (txs mp) @ [e1]" using l(2) e1(3) e2(2,3) by (simp add: removeAll_id)
  moreover have "pool_Remove K C ?mp3 tx1 = Inl ErrTxNotFound" using same(2) e1(1) by (simp add: pool_Remove_def)
  ultimately show ?thesis using e1(2) l(1) by blast
qed

lemma duplicate_key_orphaned_example:
  "\<exists>mp1 mp2. pool_Insert ref_sdk ref_clist (NewFifoMempool ref_clist []) (ex_tx ''x'') = Inr mp1 \<and>
     pool_Insert ref_sdk ref_clist mp1 (ex_tx ''y'') = Inr mp2 \<and>
     (\<exists>e mp3. snd e = ex_tx ''x'' \<and> pool_Remove ref_sdk ref_clist mp2 (ex_tx ''x'') = Inr mp3 \<and>
       cl_Elements ref_clist (txs mp3) = cl_Elements ref_clist (txs (NewFifoMempool ref_clist [])) @ [e] \<and>
       pool_Remove ref_sdk ref_clist mp3 (ex_tx ''x'') = Inl ErrTxNotFound)"
proof -
  define r where "r = rbind (pool_Insert ref_sdk ref_clist (NewFifoMempool ref_clist []) (ex_tx ''x''))
      (\<lambda>mp. pool_Insert ref_sdk ref_clist mp (ex_tx ''y''))"
  have "map_sum id (CountTx ref_clist) r = Inr 2" unfolding r_def by code_simp
  then obtain mp1 mp2 where
    ins: "pool_Insert ref_sdk ref_clist (NewFifoMempool ref_clist []) (ex_tx ''x'') = Inr mp1"
      "pool_Insert ref_sdk ref_clist mp1 (ex_tx ''y'') = Inr mp2"
    by (cases r) (auto simp: r_def rbind_eq_Inr)
  have "0 \<le> maxTx (NewFifoMempool ref_clist [])" by (simp add: NewFifoMempool_def DefaultMaxTx_def)
  from duplicate_key_orphaned [OF ref_list.linked_list_axioms this _ _ _ ins] ins show ?thesis
    by (auto simp: ex_tx_def getTxKey_def IsOracleTx_def simp del: split_paired_Ex)
qed

end
