(* ===== verification/Go_Json.thy ===== *)
theory Go_Json
  imports Go_Lib
begin

text \<open>
  Go's \<open>encoding/json\<close> (Go 1.24), as far as the repository uses it: checking and reading a JSON
  text, decoding it into structs, pointers, slices, strings and integers, and writing strings.

  A text is cut into tokens, and the tokens are read by a push-down automaton, as in the
  scanner of the package; both recursions are on the input, so no fuel is needed.
\<close>


section \<open>Runes\<close>

abbreviation code :: "char \<Rightarrow> nat" where
  "code c \<equiv> of_char c"

definition cont :: "char \<Rightarrow> bool" where
  "cont c \<longleftrightarrow> 0x80 \<le> code c \<and> code c \<le> 0xBF"

text \<open>The bounds of the second byte of a rune, by the first.\<close>

definition second_ok :: "char \<Rightarrow> char \<Rightarrow> bool" where
  "second_ok c d \<longleftrightarrow>
     (if code c = 0xE0 then 0xA0 else if code c = 0xF0 then 0x90 else 0x80) \<le> code d \<and>
     code d \<le> (if code c = 0xED then 0x9F else if code c = 0xF4 then 0x8F else 0xBF)"

text \<open>\<open>utf8.DecodeRune\<close>: the width of the rune at the front, 0 when the bytes are not valid UTF-8.\<close>

fun rune_len :: "string \<Rightarrow> nat" where
  "rune_len (c # d # e # f # s) =
     (if code c < 0x80 then 1
      else if 0xC2 \<le> code c \<and> code c \<le> 0xDF \<and> cont d then 2
      else if 0xE0 \<le> code c \<and> code c \<le> 0xEF \<and> second_ok c d \<and> cont e then 3
      else if 0xF0 \<le> code c \<and> code c \<le> 0xF4 \<and> second_ok c d \<and> cont e \<and> cont f then 4
      else 0)"
| "rune_len [c, d, e] =
     (if code c < 0x80 then 1
      else if 0xC2 \<le> code c \<and> code c \<le> 0xDF \<and> cont d then 2
      else if 0xE0 \<le> code c \<and> code c \<le> 0xEF \<and> second_ok c d \<and> cont e then 3
      else 0)"
| "rune_len [c, d] =
     (if code c < 0x80 then 1 else if 0xC2 \<le> code c \<and> code c \<le> 0xDF \<and> cont d then 2 else 0)"
| "rune_len [c] = (if code c < 0x80 then 1 else 0)"
| "rune_len [] = 0"

text \<open>\<open>utf8.AppendRune\<close>.\<close>

definition utf8 :: "nat \<Rightarrow> string" where
  "utf8 r =
     (if r < 0x80 then [char_of r]
      else if r < 0x800 then [char_of (0xC0 + r div 64), char_of (0x80 + r mod 64)]
      else if r < 0x10000
      then [char_of (0xE0 + r div 4096), char_of (0x80 + r div 64 mod 64), char_of (0x80 + r mod 64)]
      else [char_of (0xF0 + r div 262144), char_of (0x80 + r div 4096 mod 64),
            char_of (0x80 + r div 64 mod 64), char_of (0x80 + r mod 64)])"

definition RuneError :: string where
  "RuneError = [CHR 0xEF, CHR 0xBF, CHR 0xBD]"


section \<open>Strings\<close>

definition is_hex :: "char \<Rightarrow> bool" where
  "is_hex c \<longleftrightarrow> hex_value c \<noteq> None"

text \<open>The text of a string after its opening quote, up to the closing one, and the rest.\<close>

fun scan_str :: "string \<Rightarrow> (string \<times> string) option" where
  "scan_str [] = None"
| "scan_str (c # s) =
     (if c = CHR 0x22 then Some ([], s)
      else if c = CHR 0x5C then
        (case s of
           e # t \<Rightarrow>
             if e \<in> set [CHR ''b'', CHR ''f'', CHR ''n'', CHR ''r'', CHR ''t'', CHR 0x5C, CHR ''/'', CHR 0x22]
             then map_option (\<lambda>(x, r). (c # e # x, r)) (scan_str t)
             else if e = CHR ''u'' then
               (case t of
                  h1 # h2 # h3 # h4 # u \<Rightarrow>
                    if list_all is_hex [h1, h2, h3, h4]
                    then map_option (\<lambda>(x, r). (c # e # h1 # h2 # h3 # h4 # x, r)) (scan_str u)
                    else None
                | _ \<Rightarrow> None)
             else None
         | [] \<Rightarrow> None)
      else if code c < 0x20 then None
      else map_option (\<lambda>(x, r). (c # x, r)) (scan_str s))"

lemma scan_str_shorter: "scan_str s = Some (x, r) \<Longrightarrow> length r < length s"
proof (induction s arbitrary: x r rule: scan_str.induct)
  case (2 c s)
  show ?case
  proof (cases "c = CHR 0x22 \<or> c \<noteq> CHR 0x5C")
    case True
    then show ?thesis using 2 by (fastforce split: if_splits)
  next
    case False
    then show ?thesis using 2 by (fastforce split: if_splits list.splits)
  qed
qed simp

definition u4 :: "char \<Rightarrow> char \<Rightarrow> char \<Rightarrow> char \<Rightarrow> nat" where
  "u4 a b c d = ((the (hex_value a) * 16 + the (hex_value b)) * 16 + the (hex_value c)) * 16 + the (hex_value d)"

definition unescape :: "char \<Rightarrow> char" where
  "unescape e =
     (if e = CHR ''b'' then CHR 0x08 else if e = CHR ''f'' then CHR 0x0C else if e = CHR ''n'' then CHR 0x0A
      else if e = CHR ''r'' then CHR 0x0D else if e = CHR ''t'' then CHR 0x09 else e)"

text \<open>
  \<open>unquote\<close>: escapes are resolved, a pair of surrogates is one rune, and an unpaired surrogate
  and a byte that is not UTF-8 become the replacement character.
\<close>

function unquote :: "string \<Rightarrow> string" where
  "unquote [] = []"
| "unquote (c # s) =
     (if c = CHR 0x5C then
        (case s of
           [] \<Rightarrow> []
         | e # t \<Rightarrow>
             if e \<noteq> CHR ''u'' then unescape e # unquote t
             else
               (case t of
                  h1 # h2 # h3 # h4 # u \<Rightarrow>
                    let r = u4 h1 h2 h3 h4 in
                    if \<not> (0xD800 \<le> r \<and> r < 0xE000) then utf8 r @ unquote u
                    else
                      (case u of
                         b # v # g1 # g2 # g3 # g4 # w \<Rightarrow>
                           let r1 = u4 g1 g2 g3 g4 in
                           if b = CHR 0x5C \<and> v = CHR ''u'' \<and> r < 0xDC00 \<and> 0xDC00 \<le> r1 \<and> r1 < 0xE000
                           then utf8 ((r - 0xD800) * 0x400 + (r1 - 0xDC00) + 0x10000) @ unquote w
                           else RuneError @ unquote u
                       | _ \<Rightarrow> RuneError @ unquote u)
                | _ \<Rightarrow> []))
      else let n = rune_len (c # s) in
           if n = 0 then RuneError @ unquote s
           else take n (c # s) @ unquote (drop (n - 1) s))"
  by pat_completeness auto
termination by (relation "measure length") auto


section \<open>Numbers and tokens\<close>

definition digit :: "char \<Rightarrow> bool" where
  "digit c \<longleftrightarrow> 48 \<le> code c \<and> code c \<le> 57"

definition digits1 :: "string \<Rightarrow> (string \<times> string) option" where
  "digits1 s = (if takeWhile digit s = [] then None else Some (takeWhile digit s, dropWhile digit s))"

definition scan_int :: "string \<Rightarrow> (string \<times> string) option" where
  "scan_int s = (case s of c # t \<Rightarrow> if c = CHR ''0'' then Some (''0'', t) else digits1 s | [] \<Rightarrow> None)"

definition scan_frac :: "string \<Rightarrow> (string \<times> string) option" where
  "scan_frac s = (case s of
       c # t \<Rightarrow> if c = CHR ''.'' then map_option (\<lambda>(x, r). (c # x, r)) (digits1 t) else Some ([], s)
     | [] \<Rightarrow> Some ([], s))"

definition scan_exp :: "string \<Rightarrow> (string \<times> string) option" where
  "scan_exp s = (case s of
       e # t \<Rightarrow>
         if e \<in> set ''eE'' then
           (case t of
              g # u \<Rightarrow> if g \<in> set ''+-'' then map_option (\<lambda>(x, r). (e # g # x, r)) (digits1 u)
                        else map_option (\<lambda>(x, r). (e # x, r)) (digits1 t)
            | [] \<Rightarrow> None)
         else Some ([], s)
     | [] \<Rightarrow> Some ([], s))"

definition scan_unsigned :: "string \<Rightarrow> (string \<times> string) option" where
  "scan_unsigned s =
     Option.bind (scan_int s) (\<lambda>(i, s1).
     Option.bind (scan_frac s1) (\<lambda>(f, s2).
     Option.bind (scan_exp s2) (\<lambda>(e, s3). Some (i @ f @ e, s3))))"

definition scan_num :: "string \<Rightarrow> (string \<times> string) option" where
  "scan_num s = (case s of
       c # t \<Rightarrow> if c = CHR ''-'' then map_option (\<lambda>(x, r). (c # x, r)) (scan_unsigned t) else scan_unsigned s
     | [] \<Rightarrow> None)"

lemma digits1_shorter:
  assumes "digits1 s = Some (x, r)"
  shows "length r < length s"
proof -
  have "length s = length (takeWhile digit s) + length (dropWhile digit s)"
    by (metis length_append takeWhile_dropWhile_id)
  then show ?thesis using assms by (auto simp: digits1_def split: if_splits)
qed

lemma scan_int_shorter: "scan_int s = Some (x, r) \<Longrightarrow> length r < length s"
  by (auto simp: scan_int_def split: list.splits if_splits dest: digits1_shorter)

lemma scan_frac_shorter: "scan_frac s = Some (x, r) \<Longrightarrow> length r \<le> length s"
  by (auto simp: scan_frac_def split: list.splits if_splits dest!: digits1_shorter)

lemma scan_exp_shorter: "scan_exp s = Some (x, r) \<Longrightarrow> length r \<le> length s"
  by (auto simp: scan_exp_def split: list.splits if_splits dest!: digits1_shorter)

lemma scan_unsigned_shorter:
  assumes "scan_unsigned s = Some (x, r)"
  shows "length r < length s"
proof -
  from assms obtain i s1 f s2 e where
    "scan_int s = Some (i, s1)" "scan_frac s1 = Some (f, s2)" "scan_exp s2 = Some (e, r)"
    by (auto simp: scan_unsigned_def bind_eq_Some_conv)
  then show ?thesis using scan_int_shorter scan_frac_shorter scan_exp_shorter by fastforce
qed

lemma scan_num_shorter: "scan_num s = Some (x, r) \<Longrightarrow> length r < length s"
  by (auto simp: scan_num_def split: list.splits if_splits dest!: scan_unsigned_shorter)

datatype token = TOpenObj | TCloseObj | TOpenArr | TCloseArr | TComma | TColon
  | TStr string | TNum string | TTrue | TFalse | TNull

definition punct :: "char \<Rightarrow> token option" where
  "punct c =
     (if c = CHR 0x7B then Some TOpenObj else if c = CHR 0x7D then Some TCloseObj
      else if c = CHR 0x5B then Some TOpenArr else if c = CHR 0x5D then Some TCloseArr
      else if c = CHR 0x2C then Some TComma else if c = CHR 0x3A then Some TColon else None)"

definition next_token :: "char \<Rightarrow> string \<Rightarrow> (token \<times> string) option" where
  "next_token c s =
     (case punct c of
        Some t \<Rightarrow> Some (t, s)
      | None \<Rightarrow>
          if c = CHR 0x22 then map_option (\<lambda>(x, r). (TStr (unquote x), r)) (scan_str s)
          else if c = CHR ''-'' \<or> digit c then map_option (\<lambda>(x, r). (TNum x, r)) (scan_num (c # s))
          else if take 4 (c # s) = ''true'' then Some (TTrue, drop 3 s)
          else if take 5 (c # s) = ''false'' then Some (TFalse, drop 4 s)
          else if take 4 (c # s) = ''null'' then Some (TNull, drop 3 s)
          else None)"

lemma next_token_shorter: "next_token c s = Some (t, r) \<Longrightarrow> length r < Suc (length s)"
  by (auto simp: next_token_def split: option.splits if_splits dest!: scan_str_shorter scan_num_shorter)

function json_lex :: "string \<Rightarrow> token list option" where
  "json_lex [] = Some []"
| "json_lex (c # s) =
     (if c \<in> set [CHR 0x20, CHR 0x09, CHR 0x0D, CHR 0x0A] then json_lex s
      else case next_token c s of
             None \<Rightarrow> None
           | Some (t, r) \<Rightarrow> map_option ((#) t) (json_lex r))"
  by pat_completeness auto
termination by (relation "measure length") (auto dest: next_token_shorter)


section \<open>Values\<close>

datatype json = JNull | JBool bool | JNum string | JStr string | JArr "json list" | JObj "(string \<times> json) list"

text \<open>
  The automaton: open arrays and objects with what has been read of them, an \<open>FVal k\<close> above
  an object whose member \<open>k\<close> is being read, and what may come next.
\<close>

datatype frame = FArr "json list" | FObj "(string \<times> json) list" | FVal string

datatype expect = BeginValue | BeginValueOrEmpty | BeginString | BeginStringOrEmpty | AfterKey string
  | EndValue | EndTop json

definition maxNestingDepth :: nat where
  "maxNestingDepth = 10000"

fun is_open :: "frame \<Rightarrow> bool" where
  "is_open (FVal k) = False"
| "is_open _ = True"

fun put :: "json \<Rightarrow> frame list \<Rightarrow> (frame list \<times> expect) option" where
  "put v [] = Some ([], EndTop v)"
| "put v (FArr vs # st) = Some (FArr (vs @ [v]) # st, EndValue)"
| "put v (FVal k # FObj ms # st) = Some (FObj (ms @ [(k, v)]) # st, EndValue)"
| "put v _ = None"

definition open_frame :: "frame \<Rightarrow> expect \<Rightarrow> frame list \<Rightarrow> (frame list \<times> expect) option" where
  "open_frame f e st = (if length (filter is_open (f # st)) > maxNestingDepth then None else Some (f # st, e))"

fun begin_value :: "token \<Rightarrow> frame list \<Rightarrow> (frame list \<times> expect) option" where
  "begin_value TOpenObj st = open_frame (FObj []) BeginStringOrEmpty st"
| "begin_value TOpenArr st = open_frame (FArr []) BeginValueOrEmpty st"
| "begin_value (TStr x) st = put (JStr x) st"
| "begin_value (TNum x) st = put (JNum x) st"
| "begin_value TTrue st = put (JBool True) st"
| "begin_value TFalse st = put (JBool False) st"
| "begin_value TNull st = put JNull st"
| "begin_value _ st = None"

fun close :: "frame list \<Rightarrow> (frame list \<times> expect) option" where
  "close (FArr vs # st) = put (JArr vs) st"
| "close (FObj ms # st) = put (JObj ms) st"
| "close _ = None"

fun json_step :: "token \<Rightarrow> frame list \<times> expect \<Rightarrow> (frame list \<times> expect) option" where
  "json_step t (st, BeginValue) = begin_value t st"
| "json_step t (st, BeginValueOrEmpty) = (if t = TCloseArr then close st else begin_value t st)"
| "json_step (TStr k) (st, BeginString) = Some (st, AfterKey k)"
| "json_step (TStr k) (st, BeginStringOrEmpty) = Some (st, AfterKey k)"
| "json_step TCloseObj (st, BeginStringOrEmpty) = close st"
| "json_step TColon (st, AfterKey k) = Some (FVal k # st, BeginValue)"
| "json_step TComma (FArr vs # st, EndValue) = Some (FArr vs # st, BeginValue)"
| "json_step TCloseArr (FArr vs # st, EndValue) = close (FArr vs # st)"
| "json_step TComma (FObj ms # st, EndValue) = Some (FObj ms # st, BeginString)"
| "json_step TCloseObj (FObj ms # st, EndValue) = close (FObj ms # st)"
| "json_step _ _ = None"

fun fold_opt :: "('a \<Rightarrow> 's \<Rightarrow> 's option) \<Rightarrow> 'a list \<Rightarrow> 's \<Rightarrow> 's option" where
  "fold_opt f [] s = Some s"
| "fold_opt f (x # xs) s = Option.bind (f x s) (fold_opt f xs)"

definition json_read :: "string \<Rightarrow> json option" where
  "json_read s =
     Option.bind (json_lex s) (\<lambda>ts.
     case fold_opt json_step ts ([], BeginValue) of
       Some ([], EndTop v) \<Rightarrow> Some v
     | _ \<Rightarrow> None)"


section \<open>Decoding\<close>

text \<open>
  The decoders take the value that is there already, since a repeated member of an object is
  decoded into what the earlier one left. \<open>None\<close> is a value of the wrong type: the package goes
  on with the other members and reports the error at the end.

  \<open>foldName\<close> makes ASCII letters upper case; the Kelvin sign and the long s are the only other
  runes that fold to ASCII letters.
\<close>

fun foldName :: "string \<Rightarrow> string" where
  "foldName (a # b # c # s) =
     (if [a, b, c] = [CHR 0xE2, CHR 0x84, CHR 0xAA] then CHR ''K'' # foldName s
      else if [a, b] = [CHR 0xC5, CHR 0xBF] then CHR ''S'' # foldName (c # s)
      else upper a # foldName (b # c # s))"
| "foldName [a, b] = (if [a, b] = [CHR 0xC5, CHR 0xBF] then ''S'' else [upper a, upper b])"
| "foldName [a] = [upper a]"
| "foldName [] = []"

type_synonym 's fields = "(string \<times> (json \<Rightarrow> 's \<Rightarrow> 's option)) list"

definition decode_member :: "'s fields \<Rightarrow> string \<times> json \<Rightarrow> 's \<Rightarrow> 's option" where
  "decode_member fs kv s =
     (case find (\<lambda>(n, _). n = fst kv) fs of
        Some (_, f) \<Rightarrow> f (snd kv) s
      | None \<Rightarrow>
          (case find (\<lambda>(n, _). foldName n = foldName (fst kv)) fs of
             Some (_, f) \<Rightarrow> f (snd kv) s
           | None \<Rightarrow> Some s))"

fun decode_struct :: "'s fields \<Rightarrow> json \<Rightarrow> 's \<Rightarrow> 's option" where
  "decode_struct fs (JObj ms) s = fold_opt (decode_member fs) ms s"
| "decode_struct fs JNull s = Some s"
| "decode_struct fs _ s = None"

fun decode_string :: "json \<Rightarrow> string \<Rightarrow> string option" where
  "decode_string (JStr x) s = Some x"
| "decode_string JNull s = Some s"
| "decode_string _ s = None"

text \<open>\<open>strconv.ParseInt(lit, 10, 64)\<close> of a JSON number.\<close>

definition digits_value :: "string \<Rightarrow> int" where
  "digits_value s = foldl (\<lambda>n c. 10 * n + int (code c - 48)) 0 s"

definition parse_int64 :: "string \<Rightarrow> int option" where
  "parse_int64 s =
     (let neg = (s \<noteq> [] \<and> hd s = CHR ''-''); ds = (if neg then tl s else s);
          n = (if neg then - digits_value ds else digits_value ds)
      in if ds \<noteq> [] \<and> list_all digit ds \<and> - (2 ^ 63) \<le> n \<and> n < 2 ^ 63 then Some n else None)"

fun decode_int64 :: "json \<Rightarrow> int \<Rightarrow> int option" where
  "decode_int64 (JNum x) s = parse_int64 x"
| "decode_int64 JNull s = Some s"
| "decode_int64 _ s = None"

text \<open>A pointer is \<open>None\<close> when nil; a value is decoded into what it points to, or into a new zero value.\<close>

definition decode_ptr :: "(json \<Rightarrow> 's \<Rightarrow> 's option) \<Rightarrow> 's \<Rightarrow> json \<Rightarrow> 's option \<Rightarrow> 's option option" where
  "decode_ptr d zero j p =
     (if j = JNull then Some None
      else map_option Some (d j (case p of None \<Rightarrow> zero | Some x \<Rightarrow> x)))"

text \<open>
  A slice is its elements and those that an earlier, longer value left behind them in the
  backing array, into which the next value is decoded.
\<close>

type_synonym 'a slice = "'a list \<times> 'a list"

fun decode_elems :: "(json \<Rightarrow> 'a \<Rightarrow> 'a option) \<Rightarrow> 'a \<Rightarrow> json list \<Rightarrow> 'a list \<Rightarrow> 'a slice option" where
  "decode_elems d zero [] back = Some ([], back)"
| "decode_elems d zero (j # js) back =
     Option.bind (d j (case back of [] \<Rightarrow> zero | b # _ \<Rightarrow> b)) (\<lambda>x.
     map_option (\<lambda>(xs, r). (x # xs, r)) (decode_elems d zero js (tl back)))"

fun decode_slice :: "(json \<Rightarrow> 'a \<Rightarrow> 'a option) \<Rightarrow> 'a \<Rightarrow> json \<Rightarrow> 'a slice \<Rightarrow> 'a slice option" where
  "decode_slice d zero (JArr js) s = (if js = [] then Some ([], []) else decode_elems d zero js (fst s @ snd s))"
| "decode_slice d zero JNull s = Some ([], [])"
| "decode_slice d zero _ s = None"

text \<open>A field of a struct that is a string, an \<open>int64\<close> or a pointer to a struct.\<close>

definition str_field :: "('s \<Rightarrow> string) \<Rightarrow> (string \<Rightarrow> 's \<Rightarrow> 's) \<Rightarrow> json \<Rightarrow> 's \<Rightarrow> 's option" where
  "str_field get upd j s = map_option (\<lambda>x. upd x s) (decode_string j (get s))"

definition int_field :: "('s \<Rightarrow> int) \<Rightarrow> (int \<Rightarrow> 's \<Rightarrow> 's) \<Rightarrow> json \<Rightarrow> 's \<Rightarrow> 's option" where
  "int_field get upd j s = map_option (\<lambda>x. upd x s) (decode_int64 j (get s))"

definition ptr_field ::
    "'a fields \<Rightarrow> 'a \<Rightarrow> ('s \<Rightarrow> 'a option) \<Rightarrow> ('a option \<Rightarrow> 's \<Rightarrow> 's) \<Rightarrow> json \<Rightarrow> 's \<Rightarrow> 's option" where
  "ptr_field fs zero get upd j s = map_option (\<lambda>x. upd x s) (decode_ptr (decode_struct fs) zero j (get s))"

text \<open>\<open>json.Unmarshal(s, &v)\<close> into a struct, and the keys of \<open>map[string]json.RawMessage\<close>.\<close>

definition unmarshal_struct :: "'s fields \<Rightarrow> 's \<Rightarrow> string \<Rightarrow> 's option" where
  "unmarshal_struct fs zero s = Option.bind (json_read s) (\<lambda>j. decode_struct fs j zero)"

definition unmarshal_keys :: "string \<Rightarrow> string list option" where
  "unmarshal_keys s =
     (case json_read s of
        Some (JObj ms) \<Rightarrow> Some (map fst ms)
      | Some JNull \<Rightarrow> Some []
      | _ \<Rightarrow> None)"


section \<open>Writing\<close>

definition u00 :: "nat \<Rightarrow> string" where
  "u00 n = [CHR 0x5C, CHR ''u'', CHR ''0'', CHR ''0'', hex_digit (n div 16), hex_digit (n mod 16)]"

definition quote_ascii :: "char \<Rightarrow> string" where
  "quote_ascii c =
     (if c = CHR 0x5C \<or> c = CHR 0x22 then [CHR 0x5C, c]
      else if c = CHR 0x08 then [CHR 0x5C, CHR ''b''] else if c = CHR 0x0C then [CHR 0x5C, CHR ''f'']
      else if c = CHR 0x0A then [CHR 0x5C, CHR ''n''] else if c = CHR 0x0D then [CHR 0x5C, CHR ''r'']
      else if c = CHR 0x09 then [CHR 0x5C, CHR ''t'']
      else if code c < 0x20 \<or> c \<in> set ''<>&'' then u00 (code c)
      else [c])"

function quote_body :: "string \<Rightarrow> string" where
  "quote_body [] = []"
| "quote_body (c # s) =
     (if code c < 0x80 then quote_ascii c @ quote_body s
      else let n = rune_len (c # s) in
           if n = 0 then CHR 0x5C # ''ufffd'' @ quote_body s
           else if take n (c # s) = [CHR 0xE2, CHR 0x80, CHR 0xA8] then CHR 0x5C # ''u2028'' @ quote_body (drop (n - 1) s)
           else if take n (c # s) = [CHR 0xE2, CHR 0x80, CHR 0xA9] then CHR 0x5C # ''u2029'' @ quote_body (drop (n - 1) s)
           else take n (c # s) @ quote_body (drop (n - 1) s))"
  by pat_completeness auto
termination by (relation "measure length") auto

definition quote :: "string \<Rightarrow> string" where
  "quote s = CHR 0x22 # quote_body s @ [CHR 0x22]"

fun nat_digits :: "nat \<Rightarrow> string" where
  "nat_digits n = (if n < 10 then [char_of (48 + n)] else nat_digits (n div 10) @ [char_of (48 + n mod 10)])"

declare nat_digits.simps [simp del]

definition int_digits :: "int \<Rightarrow> string" where
  "int_digits i = (if i < 0 then CHR ''-'' # nat_digits (nat (- i)) else nat_digits (nat i))"

fun commas :: "string list \<Rightarrow> string" where
  "commas [] = []"
| "commas [x] = x"
| "commas (x # xs) = x @ CHR '','' # commas xs"

definition write_obj :: "(string \<times> string) list \<Rightarrow> string" where
  "write_obj ms = CHR 0x7B # commas (map (\<lambda>(k, v). quote k @ CHR 0x3A # v) ms) @ [CHR 0x7D]"

definition write_arr :: "string list \<Rightarrow> string" where
  "write_arr vs = CHR 0x5B # commas vs @ [CHR 0x5D]"



section \<open>Reading what was written\<close>

text \<open>
  Texts without blanks, with strings of any ASCII characters (quotes, backslashes, control and
  HTML characters are escaped) and numbers that are plain digits, read back as the value that was
  written. Concrete texts are evaluated through this.
\<close>

definition plain :: "string \<Rightarrow> bool" where
  "plain s \<longleftrightarrow> list_all (\<lambda>c. code c < 0x80) s"

definition plain_num :: "string \<Rightarrow> bool" where
  "plain_num s \<longleftrightarrow> s \<noteq> [] \<and> list_all digit s \<and> (hd s = CHR ''0'' \<longrightarrow> s = ''0'')"

fun plain_json :: "json \<Rightarrow> bool" where
  "plain_json (JStr s) = plain s"
| "plain_json (JNum s) = plain_num s"
| "plain_json (JArr js) = list_all plain_json js"
| "plain_json (JObj ms) = list_all (\<lambda>kv. plain (fst kv) \<and> plain_json (snd kv)) ms"
| "plain_json _ = True"

fun write_json :: "json \<Rightarrow> string" where
  "write_json JNull = ''null''"
| "write_json (JBool b) = (if b then ''true'' else ''false'')"
| "write_json (JNum s) = s"
| "write_json (JStr s) = quote s"
| "write_json (JArr js) = write_arr (map write_json js)"
| "write_json (JObj ms) = write_obj (map (\<lambda>kv. (fst kv, write_json (snd kv))) ms)"

fun depth :: "json \<Rightarrow> nat" where
  "depth (JArr js) = Suc (fold max (map depth js) 0)"
| "depth (JObj ms) = Suc (fold max (map (\<lambda>kv. depth (snd kv)) ms) 0)"
| "depth _ = 0"

fun sep :: "token list list \<Rightarrow> token list" where
  "sep [] = []"
| "sep [x] = x"
| "sep (x # xs) = x @ TComma # sep xs"

fun tokens :: "json \<Rightarrow> token list" where
  "tokens JNull = [TNull]"
| "tokens (JBool b) = [if b then TTrue else TFalse]"
| "tokens (JNum s) = [TNum s]"
| "tokens (JStr s) = [TStr s]"
| "tokens (JArr js) = TOpenArr # sep (map tokens js) @ [TCloseArr]"
| "tokens (JObj ms) = TOpenObj # sep (map (\<lambda>kv. TStr (fst kv) # TColon # tokens (snd kv)) ms) @ [TCloseObj]"

text \<open>One escaped character is scanned as one piece and resolved to the character.\<close>

lemma u4_u00: "n < 0x80 \<Longrightarrow> u4 (CHR ''0'') (CHR ''0'') (hex_digit (n div 16)) (hex_digit (n mod 16)) = n"
proof -
  have "hex_value (CHR ''0'') = Some 0" by code_simp
  then show "n < 0x80 \<Longrightarrow> ?thesis" by (simp add: u4_def hex_value_digit)
qed

lemma quote_ascii_cases [consumes 1, case_names short u00 self]:
  assumes "code c < 0x80"
  obtains e where "quote_ascii c = [CHR 0x5C, e]" "unescape e = c"
      "e \<in> set [CHR ''b'', CHR ''f'', CHR ''n'', CHR ''r'', CHR ''t'', CHR 0x5C, CHR 0x22]"
  | "quote_ascii c = u00 (code c)"
  | "quote_ascii c = [c]" "c \<noteq> CHR 0x5C" "c \<noteq> CHR 0x22" "\<not> code c < 0x20"
proof -
  consider "c \<in> set [CHR 0x5C, CHR 0x22, CHR 0x08, CHR 0x0C, CHR 0x0A, CHR 0x0D, CHR 0x09]"
    | "c \<notin> set [CHR 0x5C, CHR 0x22, CHR 0x08, CHR 0x0C, CHR 0x0A, CHR 0x0D, CHR 0x09]" "code c < 0x20 \<or> c \<in> set ''<>&''"
    | "c \<notin> set [CHR 0x5C, CHR 0x22, CHR 0x08, CHR 0x0C, CHR 0x0A, CHR 0x0D, CHR 0x09]" "\<not> (code c < 0x20 \<or> c \<in> set ''<>&'')"
    by blast
  then show thesis
  proof cases
    case 1
    then show ?thesis using that(1) by (auto simp: quote_ascii_def unescape_def)
  next
    case 2
    then have "quote_ascii c = u00 (code c)" by (simp add: quote_ascii_def)
    then show ?thesis by (rule that(2))
  next
    case 3
    then have "quote_ascii c = [c]" by (simp add: quote_ascii_def)
    then show ?thesis using that(3) 3 by simp
  qed
qed

lemma scan_str_escaped:
  assumes "code c < 0x80"
  shows "scan_str (quote_ascii c @ t) = map_option (\<lambda>(x, r). (quote_ascii c @ x, r)) (scan_str t)"
  using assms
proof (cases rule: quote_ascii_cases)
  case u00
  have "is_hex (CHR ''0'')" by code_simp
  then show ?thesis using assms u00 by (simp add: u00_def is_hex_def hex_value_digit)
qed auto

lemma rune_len_ascii: "code c < 0x80 \<Longrightarrow> rune_len (c # s) = 1"
  by (cases "c # s" rule: rune_len.cases) auto

lemma unquote_escaped:
  assumes "code c < 0x80" shows "unquote (quote_ascii c @ t) = c # unquote t"
  using assms
proof (cases rule: quote_ascii_cases)
  case u00
  then show ?thesis using assms by (simp add: u00_def u4_u00 utf8_def)
qed (auto simp: rune_len_ascii assms)

lemma scan_str_plain: "plain s \<Longrightarrow> scan_str (quote_body s @ CHR 0x22 # r) = Some (quote_body s, r)"
proof (induction s)
  case (Cons c s)
  then show ?case by (simp add: plain_def scan_str_escaped del: scan_str.simps(2))
qed simp

lemma unquote_plain: "plain s \<Longrightarrow> unquote (quote_body s) = s"
  by (induction s) (simp_all add: plain_def unquote_escaped)

lemma lex_string: "plain s \<Longrightarrow> json_lex (quote s @ r) = map_option ((#) (TStr s)) (json_lex r)"
  by (simp add: quote_def next_token_def punct_def scan_str_plain unquote_plain del: scan_str.simps(2))


lemma lex_punct: "punct c = Some t \<Longrightarrow> json_lex (c # s) = map_option ((#) t) (json_lex s)"
  by (auto simp: next_token_def punct_def split: if_splits)

lemma lex_puncts:
  "json_lex (CHR 0x7B # s) = map_option ((#) TOpenObj) (json_lex s)"
  "json_lex (CHR 0x7D # s) = map_option ((#) TCloseObj) (json_lex s)"
  "json_lex (CHR 0x5B # s) = map_option ((#) TOpenArr) (json_lex s)"
  "json_lex (CHR 0x5D # s) = map_option ((#) TCloseArr) (json_lex s)"
  "json_lex (CHR 0x2C # s) = map_option ((#) TComma) (json_lex s)"
  "json_lex (CHR 0x3A # s) = map_option ((#) TColon) (json_lex s)"
  by (rule lex_punct, simp add: punct_def)+

definition ends :: "string \<Rightarrow> bool" where
  "ends r \<longleftrightarrow> r = [] \<or> hd r \<in> set [CHR '','', CHR 0x5D, CHR 0x7D]"

lemma ends_simps [simp]:
  "ends []" "ends (c # s) \<longleftrightarrow> c \<in> set [CHR '','', CHR 0x5D, CHR 0x7D]"
  by (simp_all add: ends_def)

lemma ends_no_digit: "ends r \<Longrightarrow> takeWhile digit r = [] \<and> dropWhile digit r = r"
  by (cases r) (auto simp: digit_def)

lemma scan_num_plain:
  assumes "plain_num s" and "ends r"
  shows "scan_num (s @ r) = Some (s, r)"
proof -
  obtain c t where s: "s = c # t" using assms(1) by (cases s) (auto simp: plain_num_def)
  have dig: "list_all digit s" using assms(1) by (simp add: plain_num_def)
  have "digits1 (s @ r) = Some (s, r)"
    using dig s ends_no_digit [OF assms(2)] by (simp add: digits1_def list_all_iff takeWhile_append dropWhile_append)
  then have "scan_int (s @ r) = Some (s, r)"
    using assms(1) s by (auto simp: scan_int_def plain_num_def)
  moreover have "scan_frac r = Some ([], r)" "scan_exp r = Some ([], r)"
    using assms(2) by (cases r; auto simp: scan_frac_def scan_exp_def)+
  ultimately have "scan_unsigned (s @ r) = Some (s, r)" by (simp add: scan_unsigned_def)
  then show ?thesis using dig s by (auto simp: scan_num_def digit_def)
qed

lemma digit_not_special:
  assumes "digit c"
  shows "punct c = None \<and> c \<noteq> CHR 0x22 \<and> c \<notin> set [CHR 0x20, CHR 0x09, CHR 0x0D, CHR 0x0A]"
proof -
  have "c \<notin> set [CHR 0x7B, CHR 0x7D, CHR 0x5B, CHR 0x5D, CHR 0x2C, CHR 0x3A, CHR 0x22, CHR 0x20, CHR 0x09, CHR 0x0D, CHR 0x0A]"
  proof
    assume "c \<in> set [CHR 0x7B, CHR 0x7D, CHR 0x5B, CHR 0x5D, CHR 0x2C, CHR 0x3A, CHR 0x22, CHR 0x20, CHR 0x09, CHR 0x0D, CHR 0x0A]"
    with assms show False by (simp only: set_simps insert_iff empty_iff) (elim disjE; simp add: digit_def)
  qed
  then show ?thesis by (simp add: punct_def)
qed

lemma lex_number:
  assumes "plain_num s" and "ends r"
  shows "json_lex (s @ r) = map_option ((#) (TNum s)) (json_lex r)"
proof -
  obtain c t where s: "s = c # t" "digit c" using assms(1) by (cases s) (auto simp: plain_num_def)
  then have "next_token c (t @ r) = Some (TNum s, r)"
    using scan_num_plain [OF assms] digit_not_special [OF s(2)] by (simp add: next_token_def)
  then show ?thesis using s digit_not_special [OF s(2)] by (simp add: json_lex.simps)
qed

declare json_lex.simps(2) [simp del]

lemma lex_commas:
  assumes "\<And>x r. x \<in> set xs \<Longrightarrow> ends r \<Longrightarrow> json_lex (w x @ r) = map_option ((@) (t x)) (json_lex r)" and "ends r"
  shows "json_lex (commas (map w xs) @ r) = map_option ((@) (sep (map t xs))) (json_lex r)"
  using assms(1)
proof (induction xs rule: induct_list012)
  case 1
  then show ?case by (simp add: option.map_ident_strong)
next
  case (2 x)
  then show ?case using assms(2) by simp
next
  case (3 x y zs)
  then have "json_lex (commas (map w (y # zs)) @ r) = map_option ((@) (sep (map t (y # zs)))) (json_lex r)" by simp
  then show ?case using 3(3) [of x] by (cases "json_lex r") (simp_all add: lex_puncts)
qed

lemma lex_write: "plain_json j \<Longrightarrow> ends r \<Longrightarrow> json_lex (write_json j @ r) = map_option ((@) (tokens j)) (json_lex r)"
proof (induction j arbitrary: r)
  case (JNum s)
  then show ?case using lex_number by simp
next
  case (JStr s)
  then show ?case using lex_string by simp
next
  case (JArr js)
  have "json_lex (commas (map write_json js) @ CHR 0x5D # r) = map_option ((@) (sep (map tokens js))) (json_lex (CHR 0x5D # r))"
    using JArr by (intro lex_commas) (auto simp: list_all_iff)
  then show ?case by (cases "json_lex r") (simp_all add: write_arr_def lex_puncts)
next
  case (JObj ms)
  let ?w = "\<lambda>kv. quote (fst kv) @ CHR 0x3A # write_json (snd kv)" and ?t = "\<lambda>kv. TStr (fst kv) # TColon # tokens (snd kv)"
  have "json_lex (commas (map ?w ms) @ CHR 0x7D # r) = map_option ((@) (sep (map ?t ms))) (json_lex (CHR 0x7D # r))"
  proof (rule lex_commas)
    fix kv r' assume "kv \<in> set ms" "ends r'"
    then have "plain (fst kv)" "json_lex (write_json (snd kv) @ r') = map_option ((@) (tokens (snd kv))) (json_lex r')"
      using JObj by (auto simp: list_all_iff snds.simps)
    then show "json_lex (?w kv @ r') = map_option ((@) (?t kv)) (json_lex r')"
      by (cases "json_lex r'") (simp_all add: lex_string lex_puncts)
  qed simp
  then show ?case by (cases "json_lex r") (simp_all add: write_obj_def lex_puncts comp_def)
next
  case JNull
  then show ?case by (cases "json_lex r") (simp_all add: json_lex.simps next_token_def punct_def digit_def)
next
  case (JBool b)
  then show ?case by (cases "json_lex r") (auto simp: json_lex.simps next_token_def punct_def digit_def)
qed


definition open_depth :: "frame list \<Rightarrow> nat" where
  "open_depth st = length (filter is_open st)"

definition takes_value :: "frame list \<Rightarrow> bool" where
  "takes_value st \<longleftrightarrow> (case st of [] \<Rightarrow> True | FArr _ # _ \<Rightarrow> True | FVal _ # FObj _ # _ \<Rightarrow> True | _ \<Rightarrow> False)"

definition value_read :: "json \<Rightarrow> bool" where
  "value_read j \<longleftrightarrow> (\<forall>st ts. takes_value st \<longrightarrow> open_depth st + depth j \<le> maxNestingDepth \<longrightarrow>
     fold_opt json_step (tokens j @ ts) (st, BeginValue) = Option.bind (put j st) (fold_opt json_step ts))"

lemma value_readD:
  "value_read j \<Longrightarrow> takes_value st \<Longrightarrow> open_depth st + depth j \<le> maxNestingDepth \<Longrightarrow>
   fold_opt json_step (tokens j @ ts) (st, BeginValue) = Option.bind (put j st) (fold_opt json_step ts)"
  by (simp add: value_read_def)

lemma read_elems:
  assumes "\<And>j. j \<in> set js \<Longrightarrow> value_read j \<and> Suc (open_depth st) + depth j \<le> maxNestingDepth" and "js \<noteq> []"
  shows "fold_opt json_step (sep (map tokens js) @ ts) (FArr vs # st, BeginValue) =
     fold_opt json_step ts (FArr (vs @ js) # st, EndValue)"
  using assms
proof (induction js arbitrary: vs)
  case (Cons j js)
  have j: "fold_opt json_step (tokens j @ ts') (FArr vs # st, BeginValue) =
      fold_opt json_step ts' (FArr (vs @ [j]) # st, EndValue)" for ts'
    using value_readD [of j "FArr vs # st"] Cons.prems(1) [of j] by (simp add: takes_value_def open_depth_def)
  show ?case
  proof (cases js)
    case Nil
    then show ?thesis using j by simp
  next
    case (Cons k ks)
    then show ?thesis using j [of "TComma # sep (map tokens js) @ ts"] Cons.IH [of "vs @ [j]"] Cons.prems(1) by simp
  qed
qed simp

lemma read_members:
  assumes "\<And>kv. kv \<in> set ms \<Longrightarrow> value_read (snd kv) \<and> Suc (open_depth st) + depth (snd kv) \<le> maxNestingDepth" and "ms \<noteq> []"
    and "e = BeginString \<or> e = BeginStringOrEmpty"
  shows "fold_opt json_step (sep (map (\<lambda>kv. TStr (fst kv) # TColon # tokens (snd kv)) ms) @ ts) (FObj vs # st, e) =
     fold_opt json_step ts (FObj (vs @ ms) # st, EndValue)"
  using assms
proof (induction ms arbitrary: vs e)
  case (Cons kv ms)
  have j: "fold_opt json_step (TStr (fst kv) # TColon # tokens (snd kv) @ ts') (FObj vs # st, e) =
      fold_opt json_step ts' (FObj (vs @ [kv]) # st, EndValue)" for ts'
    using value_readD [of "snd kv" "FVal (fst kv) # FObj vs # st"] Cons.prems(1) [of kv] Cons.prems(3)
    by (auto simp: takes_value_def open_depth_def)
  show ?case
  proof (cases ms)
    case Nil
    then show ?thesis using j by simp
  next
    case (Cons k ks)
    then show ?thesis
      using j [of "TComma # sep (map (\<lambda>kv. TStr (fst kv) # TColon # tokens (snd kv)) ms) @ ts"] Cons.IH [of BeginString "vs @ [kv]"]
        Cons.prems(1)
      by simp
  qed
qed simp

lemma depth_le: "j \<in> set js \<Longrightarrow> depth j \<le> fold max (map depth js) 0"
proof -
  have "x \<le> fold max xs m" if "x \<le> m \<or> x \<in> set xs" for x m :: nat and xs
    using that by (induction xs arbitrary: m) (auto simp: max_def)
  then show "j \<in> set js \<Longrightarrow> ?thesis" by simp
qed

lemma sep_Cons: "\<exists>r. sep (x # xs) = x @ r"
  by (cases xs) auto

lemma tokens_head: "\<exists>t r. tokens j = t # r \<and> t \<noteq> TCloseArr"
  by (cases j) auto

lemma read_array:
  assumes "\<And>j. j \<in> set js \<Longrightarrow> value_read j"
  shows "value_read (JArr js)"
  unfolding value_read_def
proof (intro allI impI)
  fix st ts assume st: "takes_value st" "open_depth st + depth (JArr js) \<le> maxNestingDepth"
  have ok: "value_read j \<and> Suc (open_depth st) + depth j \<le> maxNestingDepth" if "j \<in> set js" for j
    using that assms st(2) depth_le [OF that] by simp
  have "open_frame (FArr []) BeginValueOrEmpty st = Some (FArr [] # st, BeginValueOrEmpty)"
    using st(2) by (simp add: open_frame_def open_depth_def)
  moreover have "fold_opt json_step (sep (map tokens js) @ TCloseArr # ts) (FArr [] # st, BeginValueOrEmpty) =
      Option.bind (put (JArr js) st) (fold_opt json_step ts)"
  proof (cases js)
    case (Cons j js')
    then obtain t rest where t: "sep (map tokens js) = t # rest" "t \<noteq> TCloseArr"
      using sep_Cons [of "tokens j" "map tokens js'"] tokens_head [of j] by auto
    have "js \<noteq> []" using Cons by simp
    from read_elems [OF ok this, of "TCloseArr # ts" "[]"] t show ?thesis by simp
  qed simp
  ultimately show "fold_opt json_step (tokens (JArr js) @ ts) (st, BeginValue) =
      Option.bind (put (JArr js) st) (fold_opt json_step ts)"
    by simp
qed

lemma read_object:
  assumes "\<And>kv. kv \<in> set ms \<Longrightarrow> value_read (snd kv)"
  shows "value_read (JObj ms)"
  unfolding value_read_def
proof (intro allI impI)
  fix st ts assume st: "takes_value st" "open_depth st + depth (JObj ms) \<le> maxNestingDepth"
  have ok: "value_read (snd kv) \<and> Suc (open_depth st) + depth (snd kv) \<le> maxNestingDepth" if "kv \<in> set ms" for kv
    using that assms st(2) depth_le [of "snd kv" "map snd ms"] by (simp add: comp_def)
  have "open_frame (FObj []) BeginStringOrEmpty st = Some (FObj [] # st, BeginStringOrEmpty)"
    using st(2) by (simp add: open_frame_def open_depth_def)
  moreover have "fold_opt json_step (sep (map (\<lambda>kv. TStr (fst kv) # TColon # tokens (snd kv)) ms) @ TCloseObj # ts)
      (FObj [] # st, BeginStringOrEmpty) = Option.bind (put (JObj ms) st) (fold_opt json_step ts)"
  proof (cases "ms = []")
    case False
    from read_members [OF ok this, where e = BeginStringOrEmpty and ts = "TCloseObj # ts" and vs = "[]"] show ?thesis by simp
  qed simp
  ultimately show "fold_opt json_step (tokens (JObj ms) @ ts) (st, BeginValue) =
      Option.bind (put (JObj ms) st) (fold_opt json_step ts)"
    by simp
qed

lemma tokens_read: "value_read j"
proof (induction j)
  case (JArr js)
  then show ?case by (rule read_array)
next
  case (JObj ms)
  then show ?case by (intro read_object) (auto simp: snds.simps)
qed (auto simp: value_read_def)

lemma json_read_write:
  assumes "plain_json j" and "depth j \<le> maxNestingDepth"
  shows "json_read (write_json j) = Some j"
proof -
  have "json_lex (write_json j) = Some (tokens j)" using lex_write [OF assms(1), of "[]"] by simp
  moreover have "fold_opt json_step (tokens j) ([], BeginValue) = Some ([], EndTop j)"
    using value_readD [OF tokens_read, of "[]" j "[]"] assms(2) by (simp add: takes_value_def open_depth_def)
  ultimately show ?thesis by (simp add: json_read_def)
qed

end
