(* ===== verification/Go_Encoding.thy ===== *)
theory Go_Encoding
  imports Go_Lib "HOL-Library.Word"
begin

text \<open>
  \<open>crypto/sha256\<close> and \<open>encoding/base64\<close> of Go's standard library. A byte is a character, so a
  digest and a decoded key are strings of bytes.
\<close>

unbundle bit_operations_syntax


section \<open>SHA-256\<close>

type_synonym word32 = "32 word"

text \<open>
  The round constants are the first 32 bits of the fractional parts of the cube roots of the
  first 64 primes; \<open>sha_K_cube_roots\<close> checks the table against that description.
\<close>

definition sha_K :: "word32 list" where
  "sha_K =
    [1116352408, 1899447441, 3049323471, 3921009573, 961987163, 1508970993, 2453635748, 2870763221,
     3624381080, 310598401, 607225278, 1426881987, 1925078388, 2162078206, 2614888103, 3248222580,
     3835390401, 4022224774, 264347078, 604807628, 770255983, 1249150122, 1555081692, 1996064986,
     2554220882, 2821834349, 2952996808, 3210313671, 3336571891, 3584528711, 113926993, 338241895,
     666307205, 773529912, 1294757372, 1396182291, 1695183700, 1986661051, 2177026350, 2456956037,
     2730485921, 2820302411, 3259730800, 3345764771, 3516065817, 3600352804, 4094571909, 275423344,
     430227734, 506948616, 659060556, 883997877, 958139571, 1322822218, 1537002063, 1747873779,
     1955562222, 2024104815, 2227730452, 2361852424, 2428436474, 2756734187, 3204031479, 3329325298]"

lemma sha_K_cube_roots:
  "list_all2 (\<lambda>p k. list_ex (\<lambda>n. let r = n * 2 ^ 32 + uint k in r ^ 3 \<le> p * 2 ^ 96 \<and> p * 2 ^ 96 < (r + 1) ^ 3) [1..6])
     [2, 3, 5, 7, 11, 13, 17, 19, 23, 29, 31, 37, 41, 43, 47, 53, 59, 61, 67, 71, 73, 79,
      83, 89, 97, 101, 103, 107, 109, 113, 127, 131, 137, 139, 149, 151, 157, 163, 167, 173, 179, 181, 191,
      193, 197, 199, 211, 223, 227, 229, 233, 239, 241, 251, 257, 263, 269, 271, 277, 281, 283, 293, 307, 311] sha_K"
  by code_simp

record sha_state =
  sA :: word32
  sB :: word32
  sC :: word32
  sD :: word32
  sE :: word32
  sF :: word32
  sG :: word32
  sH :: word32

definition sha_init :: sha_state where
  "sha_init = \<lparr>sA = 0x6a09e667, sB = 0xbb67ae85, sC = 0x3c6ef372, sD = 0xa54ff53a,
     sE = 0x510e527f, sF = 0x9b05688c, sG = 0x1f83d9ab, sH = 0x5be0cd19\<rparr>"

text \<open>The message is followed by the byte 0x80, zeros and its length in bits.\<close>

definition be_bytes :: "nat \<Rightarrow> nat \<Rightarrow> bytes" where
  "be_bytes n x = map (\<lambda>i. char_of (x div 256 ^ i)) (rev [0..<n])"

definition sha_pad :: "bytes \<Rightarrow> bytes" where
  "sha_pad m = m @ [CHR 0x80] @ replicate ((119 - length m mod 64) mod 64) (CHR 0x00) @ be_bytes 8 (8 * length m)"

fun be_words :: "bytes \<Rightarrow> word32 list" where
  "be_words (a # b # c # d # s) =
     word_of_nat (((of_char a * 256 + of_char b) * 256 + of_char c) * 256 + of_char d) # be_words s"
| "be_words _ = []"

text \<open>The schedule of a block, newest word first.\<close>

definition sha_next :: "word32 list \<Rightarrow> word32 list" where
  "sha_next ws =
     (let x = ws ! 14; y = ws ! 1;
          s0 = word_rotr 7 x XOR word_rotr 18 x XOR drop_bit 3 x;
          s1 = word_rotr 17 y XOR word_rotr 19 y XOR drop_bit 10 y
      in (s1 + ws ! 6 + s0 + ws ! 15) # ws)"

definition sha_round :: "word32 \<times> word32 \<Rightarrow> sha_state \<Rightarrow> sha_state" where
  "sha_round kw h =
     (let t1 = sH h + (word_rotr 6 (sE h) XOR word_rotr 11 (sE h) XOR word_rotr 25 (sE h)) +
                 ((sE h AND sF h) XOR (NOT (sE h) AND sG h)) + fst kw + snd kw;
          t2 = (word_rotr 2 (sA h) XOR word_rotr 13 (sA h) XOR word_rotr 22 (sA h)) +
                 ((sA h AND sB h) XOR (sA h AND sC h) XOR (sB h AND sC h))
      in \<lparr>sA = t1 + t2, sB = sA h, sC = sB h, sD = sC h, sE = sD h + t1, sF = sE h, sG = sF h, sH = sG h\<rparr>)"

definition sha_block :: "word32 list \<Rightarrow> sha_state \<Rightarrow> sha_state" where
  "sha_block ws h =
     (let r = fold sha_round (zip sha_K (rev ((sha_next ^^ 48) (rev ws)))) h
      in \<lparr>sA = sA h + sA r, sB = sB h + sB r, sC = sC h + sC r, sD = sD h + sD r,
          sE = sE h + sE r, sF = sF h + sF r, sG = sG h + sG r, sH = sH h + sH r\<rparr>)"

function blocks :: "word32 list \<Rightarrow> word32 list list" where
  "blocks ws = (if ws = [] then [] else take 16 ws # blocks (drop 16 ws))"
  by pat_completeness auto
termination by (relation "measure length") auto

declare blocks.simps [simp del]

definition Sum256 :: "bytes \<Rightarrow> bytes" where
  "Sum256 m =
     (let h = fold sha_block (blocks (be_words (sha_pad m))) sha_init
      in concat (map (\<lambda>w. be_bytes 4 (unat w)) [sA h, sB h, sC h, sD h, sE h, sF h, sG h, sH h]))"

lemma be_bytes_length [simp]: "length (be_bytes n x) = n"
  by (simp add: be_bytes_def)

lemma Sum256_length: "length (Sum256 m) = 32"
  by (simp add: Sum256_def Let_def)


section \<open>Base64\<close>

definition b64_value :: "char \<Rightarrow> nat option" where
  "b64_value c = (let n = of_char c :: nat in
     if 65 \<le> n \<and> n \<le> 90 then Some (n - 65)
     else if 97 \<le> n \<and> n \<le> 122 then Some (n - 71)
     else if 48 \<le> n \<and> n \<le> 57 then Some (n + 4)
     else if n = 43 then Some 62
     else if n = 47 then Some 63
     else None)"

definition b64_digit :: "nat \<Rightarrow> char" where
  "b64_digit n =
     (if n < 26 then char_of (n + 65) else if n < 52 then char_of (n + 71)
      else if n < 62 then char_of (n - 4) else if n = 62 then CHR ''+'' else CHR ''/'')"

text \<open>\<open>StdEncoding.DecodeString\<close>: newlines are skipped, padding is required and ends the text.\<close>

definition b64_pad :: char where
  "b64_pad = CHR ''=''"

fun b64_groups :: "string \<Rightarrow> bytes option" where
  "b64_groups [] = Some []"
| "b64_groups (a # b # c # d # s) =
     (case (b64_value a, b64_value b) of
        (Some x, Some y) \<Rightarrow>
          (case b64_value c of
             None \<Rightarrow>
               if c = b64_pad \<and> d = b64_pad \<and> s = [] then Some [char_of (x * 4 + y div 16)] else None
           | Some z \<Rightarrow>
               (case b64_value d of
                  None \<Rightarrow>
                    if d = b64_pad \<and> s = []
                    then Some [char_of (x * 4 + y div 16), char_of (y mod 16 * 16 + z div 4)] else None
                | Some v \<Rightarrow>
                    map_option (\<lambda>r. char_of (x * 4 + y div 16) # char_of (y mod 16 * 16 + z div 4) #
                                     char_of (z mod 4 * 64 + v) # r) (b64_groups s)))
      | _ \<Rightarrow> None)"
| "b64_groups _ = None"

definition b64_decode :: "string \<Rightarrow> bytes option" where
  "b64_decode s = b64_groups (filter (\<lambda>c. c \<noteq> CHR 0x0A \<and> c \<noteq> CHR 0x0D) s)"

fun b64_encode :: "bytes \<Rightarrow> string" where
  "b64_encode [] = []"
| "b64_encode [a] = [b64_digit (of_char a div 4), b64_digit (of_char a mod 4 * 16), b64_pad, b64_pad]"
| "b64_encode [a, b] =
     [b64_digit (of_char a div 4), b64_digit (of_char a mod 4 * 16 + of_char b div 16), b64_digit (of_char b mod 16 * 4), b64_pad]"
| "b64_encode (a # b # c # s) =
     b64_digit (of_char a div 4) # b64_digit (of_char a mod 4 * 16 + of_char b div 16) #
     b64_digit (of_char b mod 16 * 4 + of_char c div 64) # b64_digit (of_char c mod 64) # b64_encode s"


lemma b64_value_digit: "n < 64 \<Longrightarrow> b64_value (b64_digit n) = Some n"
  by (auto simp: b64_value_def b64_digit_def Let_def)

lemma b64_value_pad [simp]: "b64_value b64_pad = None"
  by (simp add: b64_value_def b64_pad_def)

text \<open>The four six-bit digits of three bytes.\<close>

lemma b64_digits:
  fixes a b c :: nat
  assumes "a < 256" "b < 256" "c < 256"
  shows "a div 4 < 64" "a mod 4 * 16 + b div 16 < 64" "b mod 16 * 4 + c div 64 < 64" "c mod 64 < 64"
proof -
  have "a mod 4 \<le> 3" "b div 16 < 16" "b mod 16 \<le> 15" "c div 64 < 4"
    using assms by (simp_all add: div_less_iff_less_mult less_Suc_eq_le [symmetric])
  then show "a div 4 < 64" "a mod 4 * 16 + b div 16 < 64" "b mod 16 * 4 + c div 64 < 64" "c mod 64 < 64"
    using assms by (linarith | simp add: div_less_iff_less_mult)+
qed

lemma char_parts:
  "of_char b div 16 div 16 = (0 :: nat)" "of_char b div 16 mod 16 = (of_char b div 16 :: nat)"
  "of_char b div 64 div 4 = (0 :: nat)" "of_char b div 64 mod 4 = (of_char b div 64 :: nat)"
proof -
  have "of_char b div 16 < (16 :: nat)" "of_char b div 64 < (4 :: nat)"
    using nat_of_char_less_256 [of b] by (simp_all add: div_less_iff_less_mult)
  then show "of_char b div 16 div 16 = (0 :: nat)" "of_char b div 16 mod 16 = (of_char b div 16 :: nat)"
    "of_char b div 64 div 4 = (0 :: nat)" "of_char b div 64 mod 4 = (of_char b div 64 :: nat)"
    by simp_all
qed

lemmas char_less = nat_of_char_less_256

lemma b64_groups_encode: "b64_groups (b64_encode bs) = Some bs"
proof (induction bs rule: b64_encode.induct)
  case (2 a)
  then show ?case
    using b64_digits [of "of_char a" 0 0] char_less [of a] by (simp add: b64_value_digit)
next
  case (3 a b)
  then show ?case
    using b64_digits [of "of_char a" "of_char b" 0] char_less [of a] char_less [of b]
    by (simp add: b64_value_digit char_parts)
next
  case (4 a b c s)
  then show ?case
    using b64_digits [of "of_char a" "of_char b" "of_char c"] char_less [of a] char_less [of b] char_less [of c]
    by (simp add: b64_value_digit char_parts)
qed simp

lemma b64_digit_newline: "n < 64 \<Longrightarrow> b64_digit n \<noteq> CHR 0x0A \<and> b64_digit n \<noteq> CHR 0x0D"
  using b64_value_digit [of n] by (auto simp: b64_value_def)

lemma b64_encode_digits: "x \<in> set (b64_encode bs) \<Longrightarrow> x = b64_pad \<or> (\<exists>n < 64. x = b64_digit n)"
proof (induction bs rule: b64_encode.induct)
  case (2 a)
  have "of_char a div 4 < (64 :: nat)" "of_char a mod 4 * 16 < (64 :: nat)"
    using b64_digits [of "of_char a" 0 0] char_less [of a] by simp_all
  then show ?case using 2 by (simp only: b64_encode.simps set_simps insert_iff empty_iff) blast
next
  case (3 a b)
  have "of_char a div 4 < (64 :: nat)" "of_char a mod 4 * 16 + of_char b div 16 < (64 :: nat)" "of_char b mod 16 * 4 < (64 :: nat)"
    using b64_digits [of "of_char a" "of_char b" 0] char_less [of a] char_less [of b] by simp_all
  then show ?case using 3 by (simp only: b64_encode.simps set_simps insert_iff empty_iff) blast
next
  case (4 a b c s)
  have "of_char a div 4 < (64 :: nat)" "of_char a mod 4 * 16 + of_char b div 16 < (64 :: nat)"
    "of_char b mod 16 * 4 + of_char c div 64 < (64 :: nat)" "of_char c mod 64 < (64 :: nat)"
    using b64_digits [of "of_char a" "of_char b" "of_char c"] char_less [of a] char_less [of b] char_less [of c] by simp_all
  then show ?case using 4 by (simp only: b64_encode.simps set_simps insert_iff) blast
qed simp

lemma b64_encode_newline: "c \<in> set (b64_encode bs) \<Longrightarrow> c \<noteq> CHR 0x0A \<and> c \<noteq> CHR 0x0D"
  using b64_encode_digits b64_digit_newline by (fastforce simp: b64_pad_def)

lemma b64_decode_encode: "b64_decode (b64_encode bs) = Some bs"
proof -
  have "filter (\<lambda>c. c \<noteq> CHR 0x0A \<and> c \<noteq> CHR 0x0D) (b64_encode bs) = b64_encode bs"
    using b64_encode_newline by (intro filter_True) blast
  then show ?thesis by (simp add: b64_decode_def b64_groups_encode)
qed

end
