(* ===== verification/Mfa.thy ===== *)
theory Mfa
  imports Core_Types Go_Json Go_Encoding
begin

text \<open>
  \<open>src/x/mfa\<close>: multi-factor approval of transactions. An account may register a policy with
  the key of an approval service; a transaction that moves its Do, or that changes the policy,
  must then carry in its memo a fresh signature of that key, or of a guardian, over the messages
  and the sequences of the signers. A policy can also be removed or its key replaced by a
  recovery that the account starts and executes three days later.

  Two ante decorators do the work: \<open>MFARequirementDecorator\<close> checks the approvals before the fees
  are taken, \<open>MFAControlApplyDecorator\<close> applies the control action of the memo after the signatures
  have been verified. Signing (secp256k1), the JSON form of messages and \<open>sdk.MustSortJSON\<close> are
  third-party code: the record \<open>mfa_lib\<close>.
\<close>


section \<open>Policies (types/policy.go, types/keys.go, keeper/policy.go)\<close>

abbreviation ErrMFARequired :: error where "ErrMFARequired \<equiv> Registered ''mfa'' 2"
abbreviation ErrInvalidMFAApproval :: error where "ErrInvalidMFAApproval \<equiv> Registered ''mfa'' 3"
abbreviation ErrExpiredMFAApproval :: error where "ErrExpiredMFAApproval \<equiv> Registered ''mfa'' 4"
abbreviation ErrInvalidMFAPolicy :: error where "ErrInvalidMFAPolicy \<equiv> Registered ''mfa'' 5"
abbreviation ErrInvalidAddress :: error where "ErrInvalidAddress \<equiv> Sdk ''ErrInvalidAddress''"
abbreviation ErrUnauthorized :: error where "ErrUnauthorized \<equiv> Sdk ''ErrUnauthorized''"

definition RecoveryDelaySeconds :: int where
  "RecoveryDelaySeconds = 72 * 60 * 60"

definition RecoveryActionDisable :: string where "RecoveryActionDisable = ''disable''"
definition RecoveryActionRotate :: string where "RecoveryActionRotate = ''rotate''"

text \<open>\<open>secp256k1.PubKeySize\<close>.\<close>

abbreviation PubKeySize :: nat where "PubKeySize \<equiv> 33"

record PendingRecovery =
  rAction :: string
  rApprovalPubKey :: bytes
  rRequestedAt :: int
  rExecuteAfter :: int

record Policy =
  pAccount :: string
  pApprovalPubKey :: bytes
  pEnabled :: bool
  pGuardianAddress :: string
  pPendingRecovery :: "PendingRecovery option"

definition IsRecoveryAction :: "string \<Rightarrow> bool" where
  "IsRecoveryAction action \<longleftrightarrow> action = RecoveryActionDisable \<or> action = RecoveryActionRotate"

definition NewPolicy :: "sdk \<Rightarrow> address \<Rightarrow> bytes \<Rightarrow> Policy" where
  "NewPolicy K account approvalPubKey =
     \<lparr>pAccount = AccString K account, pApprovalPubKey = approvalPubKey, pEnabled = True,
      pGuardianAddress = [], pPendingRecovery = None\<rparr>"

definition PendingRecovery_ValidateBasic :: "PendingRecovery \<Rightarrow> unit result" where
  "PendingRecovery_ValidateBasic r =
     rbind (fail_if (\<not> IsRecoveryAction (rAction r)) (Text ''invalid mfa recovery action'')) (\<lambda>_.
     rbind (fail_if (rAction r = RecoveryActionRotate \<and> length (rApprovalPubKey r) \<noteq> PubKeySize)
              (Text ''invalid mfa recovery approval public key length'')) (\<lambda>_.
     rbind (fail_if (rAction r = RecoveryActionDisable \<and> length (rApprovalPubKey r) \<noteq> 0)
              (Text ''disable recovery must not include an approval public key'')) (\<lambda>_.
     rbind (fail_if (rRequestedAt r \<le> 0) (Text ''invalid mfa recovery request time'')) (\<lambda>_.
     fail_if (rExecuteAfter r < i64 (rRequestedAt r + RecoveryDelaySeconds)) (Text ''mfa recovery delay is too short'')))))"

definition Policy_ValidateBasic :: "sdk \<Rightarrow> Policy \<Rightarrow> unit result" where
  "Policy_ValidateBasic K p =
     rbind (wrap_err (Text ''invalid mfa account'') (AccFromBech32 K (pAccount p))) (\<lambda>_.
     if \<not> pEnabled p then Inr ()
     else rbind (fail_if (length (pApprovalPubKey p) \<noteq> PubKeySize) (Text ''invalid mfa approval public key length'')) (\<lambda>_.
          rbind (if pGuardianAddress p \<noteq> []
                 then wrap_err (Text ''invalid mfa guardian address'') (rbind (AccFromBech32 K (pGuardianAddress p)) (\<lambda>_. Inr ()))
                 else Inr ()) (\<lambda>_.
          case pPendingRecovery p of None \<Rightarrow> Inr () | Some r \<Rightarrow> PendingRecovery_ValidateBasic r)))"

text \<open>
  The store keeps the JSON form of a policy; the account and the guardian of a stored policy are
  bech32 texts, which JSON does not change, so the model keeps the policy itself.
\<close>

type_synonym mfa_store = "Policy kv"

definition PolicyKey :: "string \<Rightarrow> bytes" where
  "PolicyKey account = CHR 0x01 # account"

definition SetPolicy :: "sdk \<Rightarrow> mfa_store \<Rightarrow> Policy \<Rightarrow> mfa_store result" where
  "SetPolicy K s policy =
     rbind (Policy_ValidateBasic K policy) (\<lambda>_. Inr (kv_set (PolicyKey (pAccount policy)) policy s))"

definition GetPolicy :: "sdk \<Rightarrow> mfa_store \<Rightarrow> address \<Rightarrow> Policy option" where
  "GetPolicy K s account =
     (case kv_get s (PolicyKey (AccString K account)) of
        None \<Rightarrow> None
      | Some policy \<Rightarrow> if pEnabled policy then Some policy else None)"

definition DeletePolicy :: "sdk \<Rightarrow> mfa_store \<Rightarrow> address \<Rightarrow> mfa_store" where
  "DeletePolicy K s account = kv_del (PolicyKey (AccString K account)) s"

definition HasPolicy :: "sdk \<Rightarrow> mfa_store \<Rightarrow> address \<Rightarrow> bool" where
  "HasPolicy K s account \<longleftrightarrow> GetPolicy K s account \<noteq> None"


section \<open>The memo (types/approval.go)\<close>

record MemoApproval =
  aAccount :: string
  aExpiresAt :: int
  aSignature :: string

record MemoEnable =
  eAccount :: string
  eApprovalPubKey :: string
  eGuardianAddress :: string

record MemoSetGuardian =
  gAccount :: string
  gGuardianAddress :: string

record MemoRecoveryStart =
  sAccount :: string
  sAction :: string
  sApprovalPubKey :: string

record MemoGuardianApproval =
  gaAccount :: string
  gaGuardianAddress :: string
  gaAction :: string
  gaApprovalPubKey :: string
  gaGuardianPubKey :: string
  gaExpiresAt :: int
  gaSignature :: string

text \<open>\<open>MemoDisable\<close>, \<open>MemoRecoveryCancel\<close> and \<open>MemoRecoveryExecute\<close> hold an account only.\<close>

record MemoMFA =
  Approvals :: "MemoApproval slice"
  Enable :: "MemoEnable option"
  Disable :: "string option"
  SetGuardian :: "MemoSetGuardian option"
  RecoveryStart :: "MemoRecoveryStart option"
  RecoveryCancel :: "string option"
  RecoveryExecute :: "string option"
  GuardianApproval :: "MemoGuardianApproval option"

definition zero_mfa :: MemoMFA where
  "zero_mfa = \<lparr>Approvals = ([], []), Enable = None, Disable = None, SetGuardian = None, RecoveryStart = None,
     RecoveryCancel = None, RecoveryExecute = None, GuardianApproval = None\<rparr>"

definition approval_fields :: "MemoApproval fields" where
  "approval_fields =
     [(''account'', str_field aAccount (\<lambda>x. aAccount_update (\<lambda>_. x))),
      (''expires_at'', int_field aExpiresAt (\<lambda>x. aExpiresAt_update (\<lambda>_. x))),
      (''signature'', str_field aSignature (\<lambda>x. aSignature_update (\<lambda>_. x)))]"

definition enable_fields :: "MemoEnable fields" where
  "enable_fields =
     [(''account'', str_field eAccount (\<lambda>x. eAccount_update (\<lambda>_. x))),
      (''approval_pub_key'', str_field eApprovalPubKey (\<lambda>x. eApprovalPubKey_update (\<lambda>_. x))),
      (''guardian_address'', str_field eGuardianAddress (\<lambda>x. eGuardianAddress_update (\<lambda>_. x)))]"

definition account_fields :: "string fields" where
  "account_fields = [(''account'', str_field id (\<lambda>x _. x))]"

definition set_guardian_fields :: "MemoSetGuardian fields" where
  "set_guardian_fields =
     [(''account'', str_field gAccount (\<lambda>x. gAccount_update (\<lambda>_. x))),
      (''guardian_address'', str_field gGuardianAddress (\<lambda>x. gGuardianAddress_update (\<lambda>_. x)))]"

definition recovery_start_fields :: "MemoRecoveryStart fields" where
  "recovery_start_fields =
     [(''account'', str_field sAccount (\<lambda>x. sAccount_update (\<lambda>_. x))),
      (''action'', str_field sAction (\<lambda>x. sAction_update (\<lambda>_. x))),
      (''approval_pub_key'', str_field sApprovalPubKey (\<lambda>x. sApprovalPubKey_update (\<lambda>_. x)))]"

definition guardian_approval_fields :: "MemoGuardianApproval fields" where
  "guardian_approval_fields =
     [(''account'', str_field gaAccount (\<lambda>x. gaAccount_update (\<lambda>_. x))),
      (''guardian_address'', str_field gaGuardianAddress (\<lambda>x. gaGuardianAddress_update (\<lambda>_. x))),
      (''action'', str_field gaAction (\<lambda>x. gaAction_update (\<lambda>_. x))),
      (''approval_pub_key'', str_field gaApprovalPubKey (\<lambda>x. gaApprovalPubKey_update (\<lambda>_. x))),
      (''guardian_pub_key'', str_field gaGuardianPubKey (\<lambda>x. gaGuardianPubKey_update (\<lambda>_. x))),
      (''expires_at'', int_field gaExpiresAt (\<lambda>x. gaExpiresAt_update (\<lambda>_. x))),
      (''signature'', str_field gaSignature (\<lambda>x. gaSignature_update (\<lambda>_. x)))]"

definition zero_approval :: MemoApproval where
  "zero_approval = \<lparr>aAccount = [], aExpiresAt = 0, aSignature = []\<rparr>"

definition mfa_fields :: "MemoMFA fields" where
  "mfa_fields =
     [(''approvals'', \<lambda>j s. map_option (\<lambda>x. s\<lparr>Approvals := x\<rparr>)
         (decode_slice (decode_struct approval_fields) zero_approval j (Approvals s))),
      (''enable'', ptr_field enable_fields \<lparr>eAccount = [], eApprovalPubKey = [], eGuardianAddress = []\<rparr>
         Enable (\<lambda>x. Enable_update (\<lambda>_. x))),
      (''disable'', ptr_field account_fields [] Disable (\<lambda>x. Disable_update (\<lambda>_. x))),
      (''set_guardian'', ptr_field set_guardian_fields \<lparr>gAccount = [], gGuardianAddress = []\<rparr>
         SetGuardian (\<lambda>x. SetGuardian_update (\<lambda>_. x))),
      (''recovery_start'', ptr_field recovery_start_fields \<lparr>sAccount = [], sAction = [], sApprovalPubKey = []\<rparr>
         RecoveryStart (\<lambda>x. RecoveryStart_update (\<lambda>_. x))),
      (''recovery_cancel'', ptr_field account_fields [] RecoveryCancel (\<lambda>x. RecoveryCancel_update (\<lambda>_. x))),
      (''recovery_execute'', ptr_field account_fields [] RecoveryExecute (\<lambda>x. RecoveryExecute_update (\<lambda>_. x))),
      (''guardian_approval'', ptr_field guardian_approval_fields
         \<lparr>gaAccount = [], gaGuardianAddress = [], gaAction = [], gaApprovalPubKey = [], gaGuardianPubKey = [],
          gaExpiresAt = 0, gaSignature = []\<rparr>
         GuardianApproval (\<lambda>x. GuardianApproval_update (\<lambda>_. x)))]"

definition MemoKey :: string where "MemoKey = ''dochain_mfa''"

definition envelope_fields :: "MemoMFA option fields" where
  "envelope_fields = [(MemoKey, decode_ptr (decode_struct mfa_fields) zero_mfa)]"

definition DecodeApprovalSignature :: "string \<Rightarrow> bytes result" where
  "DecodeApprovalSignature s = (case b64_decode s of None \<Rightarrow> Inl (Text ''illegal base64 data'') | Some b \<Rightarrow> Inr b)"

definition DecodeApprovalPubKey :: "string \<Rightarrow> bytes result" where
  "DecodeApprovalPubKey s = (case b64_decode s of None \<Rightarrow> Inl (Text ''illegal base64 data'') | Some b \<Rightarrow> Inr b)"

definition EncodeApprovalPubKey :: "bytes \<Rightarrow> string" where
  "EncodeApprovalPubKey = b64_encode"

definition EncodeApprovalSignature :: "bytes \<Rightarrow> string" where
  "EncodeApprovalSignature = b64_encode"



section \<open>Transactions and payloads\<close>

text \<open>
  The messages whose Do is protected: the fields the decorator reads and, last, the other fields
  in their encoding (the outputs of a multi-send, the contract and message of an execution, the
  receiver and channel of a transfer, the raw nested messages of an execution of grants), so that
  a message, and with it the JSON form that is hashed, is determined by the value. \<open>Exec_msg\<close> holds
  the nested messages, \<open>None\<close> when they cannot be unpacked; \<open>Other_msg\<close> any other message, encoded.
\<close>

datatype mfa_msg =
    Bank_Send string string "coin list"
  | Bank_MultiSend "(string \<times> coin list) list" bytes
  | Staking_Undelegate string coin bytes
  | Staking_BeginRedelegate string coin bytes
  | Ibc_Transfer string coin bytes
  | Wasm_Execute string "coin list" bytes
  | Legacy_Execute string "coin list" bytes
  | Market_SwapSend string coin bytes
  | Market_Swap string coin bytes
  | Exec_msg "mfa_msg list option" bytes
  | Other_msg bytes

text \<open>
  A transaction with the interfaces it implements: the memo, the timeout height, and the result
  of \<open>GetSigners\<close>; \<open>None\<close> when the type does not have the method.
\<close>

record mfa_tx =
  txMsgs :: "mfa_msg list"
  txMemo :: "string option"
  txTimeoutHeight :: "int option"
  txSigners :: "address list result option"

record mfa_ctx =
  BlockTime :: int
  ChainID :: string
  Sequences :: "address \<Rightarrow> int option"

record mfa_lib =
  MarshalInterfaceJSON :: "mfa_msg \<Rightarrow> bytes result"
  MustSortJSON :: "bytes \<Rightarrow> bytes result"
  VerifySignature :: "bytes \<Rightarrow> bytes \<Rightarrow> bytes \<Rightarrow> bool"
  PubKeyAddress :: "bytes \<Rightarrow> address result"

definition getMemo :: "mfa_tx \<Rightarrow> string" where
  "getMemo tx = (case txMemo tx of None \<Rightarrow> [] | Some m \<Rightarrow> m)"

definition getTimeoutHeight :: "mfa_tx \<Rightarrow> int" where
  "getTimeoutHeight tx = (case txTimeoutHeight tx of None \<Rightarrow> 0 | Some h \<Rightarrow> h)"

definition parseMFAMemo :: "mfa_tx \<Rightarrow> MemoMFA option result" where
  "parseMFAMemo tx =
     (let memo = getMemo tx
      in if memo = [] then Inr None
         else case unmarshal_struct envelope_fields None memo of
                None \<Rightarrow> Inl (Text ''json'')
              | Some mfa \<Rightarrow> Inr mfa)"

definition containsMFAKey :: "string \<Rightarrow> bool" where
  "containsMFAKey memo = (case unmarshal_keys memo of None \<Rightarrow> False | Some ks \<Rightarrow> MemoKey \<in> set ks)"

record SignerSequence =
  ssAddress :: string
  ssSequence :: int

record ApprovalPayload =
  apVersion :: string
  apChainID :: string
  apAccount :: string
  apExpiresAt :: int
  apTimeoutHeight :: int
  apMessagesHash :: string
  apSigners :: "SignerSequence list"

record GuardianApprovalPayload = ApprovalPayload +
  gpGuardianAddress :: string
  gpAction :: string
  gpApprovalPubKey :: string

definition ApprovalVersion :: string where "ApprovalVersion = ''dochain-mfa-v1''"
definition GuardianApprovalVersion :: string where "GuardianApprovalVersion = ''dochain-mfa-guardian-v1''"

definition write_signers :: "SignerSequence list \<Rightarrow> string" where
  "write_signers ss = write_arr (map (\<lambda>s.
     write_obj [(''address'', quote (ssAddress s)), (''sequence'', int_digits (ssSequence s))]) ss)"

definition ApprovalPayload_SignBytes :: "mfa_lib \<Rightarrow> ApprovalPayload \<Rightarrow> bytes result" where
  "ApprovalPayload_SignBytes L p =
     MustSortJSON L (write_obj
       [(''version'', quote (apVersion p)), (''chain_id'', quote (apChainID p)), (''account'', quote (apAccount p)),
        (''expires_at'', int_digits (apExpiresAt p)), (''timeout_height'', int_digits (apTimeoutHeight p)),
        (''messages_hash'', quote (apMessagesHash p)), (''signers'', write_signers (apSigners p))])"

definition GuardianApprovalPayload_SignBytes :: "mfa_lib \<Rightarrow> GuardianApprovalPayload \<Rightarrow> bytes result" where
  "GuardianApprovalPayload_SignBytes L p =
     MustSortJSON L (write_obj
       ([(''version'', quote (apVersion p)), (''chain_id'', quote (apChainID p)), (''account'', quote (apAccount p)),
         (''guardian_address'', quote (gpGuardianAddress p)), (''action'', quote (gpAction p))] @
        (if gpApprovalPubKey p = [] then [] else [(''approval_pub_key'', quote (gpApprovalPubKey p))]) @
        [(''expires_at'', int_digits (apExpiresAt p)), (''timeout_height'', int_digits (apTimeoutHeight p)),
         (''messages_hash'', quote (apMessagesHash p)), (''signers'', write_signers (apSigners p))]))"

definition newApprovalPayload ::
    "mfa_ctx \<Rightarrow> string \<Rightarrow> int \<Rightarrow> int \<Rightarrow> string \<Rightarrow> SignerSequence list \<Rightarrow> ApprovalPayload" where
  "newApprovalPayload ctx account expiresAt timeoutHeight msgsHash signers =
     \<lparr>apVersion = ApprovalVersion, apChainID = ChainID ctx, apAccount = account, apExpiresAt = expiresAt,
      apTimeoutHeight = timeoutHeight, apMessagesHash = msgsHash, apSigners = signers\<rparr>"

definition newGuardianApprovalPayload ::
    "mfa_ctx \<Rightarrow> string \<Rightarrow> string \<Rightarrow> string \<Rightarrow> string \<Rightarrow> int \<Rightarrow> int \<Rightarrow> string \<Rightarrow> SignerSequence list \<Rightarrow>
     GuardianApprovalPayload" where
  "newGuardianApprovalPayload ctx account guardianAddress action approvalPubKey expiresAt timeoutHeight msgsHash signers =
     \<lparr>apVersion = GuardianApprovalVersion, apChainID = ChainID ctx, apAccount = account, apExpiresAt = expiresAt,
      apTimeoutHeight = timeoutHeight, apMessagesHash = msgsHash, apSigners = signers,
      gpGuardianAddress = guardianAddress, gpAction = action, gpApprovalPubKey = approvalPubKey\<rparr>"

definition messagesHash :: "mfa_lib \<Rightarrow> mfa_msg list \<Rightarrow> string result" where
  "messagesHash L msgs =
     rbind (fold_res (\<lambda>msg h.
        rbind (wrap_err ErrInvalidMFAApproval (MarshalInterfaceJSON L msg)) (\<lambda>bz.
        rbind (MustSortJSON L bz) (\<lambda>sorted. Inr (h @ sorted)))) msgs []) (\<lambda>h.
     Inr (hex_encode (Sum256 h)))"

definition signerSequences :: "sdk \<Rightarrow> mfa_ctx \<Rightarrow> mfa_tx \<Rightarrow> SignerSequence list result" where
  "signerSequences K ctx tx =
     (case txSigners tx of
        None \<Rightarrow> Inl ErrInvalidMFAApproval
      | Some signers \<Rightarrow>
          rbind (wrap_err ErrInvalidMFAApproval signers) (\<lambda>as.
          Inr (map (\<lambda>a. \<lparr>ssAddress = AccString K a,
                          ssSequence = (case Sequences ctx a of None \<Rightarrow> 0 | Some n \<Rightarrow> n)\<rparr>) as)))"

definition approvalPayload ::
    "sdk \<Rightarrow> mfa_lib \<Rightarrow> mfa_ctx \<Rightarrow> mfa_tx \<Rightarrow> string \<Rightarrow> int \<Rightarrow> ApprovalPayload result" where
  "approvalPayload K L ctx tx account expiresAt =
     rbind (messagesHash L (txMsgs tx)) (\<lambda>msgsHash.
     rbind (signerSequences K ctx tx) (\<lambda>signers.
     Inr (newApprovalPayload ctx account expiresAt (getTimeoutHeight tx) msgsHash signers)))"

text \<open>The payloads as a client builds them from sequences it supplies; the hash as a plain function.\<close>

definition messagesHash_of :: "mfa_lib \<Rightarrow> mfa_msg list \<Rightarrow> string result" where
  "messagesHash_of L msgs =
     rbind (fold_res (\<lambda>msg h.
        rbind (MarshalInterfaceJSON L msg) (\<lambda>bz.
        rbind (MustSortJSON L bz) (\<lambda>sorted. Inr (h @ sorted)))) msgs []) (\<lambda>h.
     Inr (hex_encode (Sum256 h)))"

definition BuildApprovalPayload ::
    "sdk \<Rightarrow> mfa_lib \<Rightarrow> mfa_ctx \<Rightarrow> mfa_tx \<Rightarrow> address \<Rightarrow> int \<Rightarrow> SignerSequence list \<Rightarrow> ApprovalPayload result" where
  "BuildApprovalPayload K L ctx tx account expiresAt signers =
     rbind (messagesHash_of L (txMsgs tx)) (\<lambda>hash.
     Inr (newApprovalPayload ctx (AccString K account) expiresAt (getTimeoutHeight tx) hash signers))"

definition BuildGuardianApprovalPayload ::
    "sdk \<Rightarrow> mfa_lib \<Rightarrow> mfa_ctx \<Rightarrow> mfa_tx \<Rightarrow> address \<Rightarrow> string \<Rightarrow> string \<Rightarrow> string \<Rightarrow> int \<Rightarrow> SignerSequence list \<Rightarrow>
     GuardianApprovalPayload result" where
  "BuildGuardianApprovalPayload K L ctx tx account guardianAddress action approvalPubKey expiresAt signers =
     rbind (messagesHash_of L (txMsgs tx)) (\<lambda>hash.
     Inr (newGuardianApprovalPayload ctx (AccString K account) guardianAddress action approvalPubKey expiresAt
            (getTimeoutHeight tx) hash signers))"

definition requireTxSigner :: "mfa_tx \<Rightarrow> address \<Rightarrow> unit result" where
  "requireTxSigner tx account =
     (case txSigners tx of
        None \<Rightarrow> Inl ErrInvalidMFAApproval
      | Some signers \<Rightarrow>
          rbind (wrap_err ErrInvalidMFAApproval signers) (\<lambda>as. fail_if (account \<notin> set as) ErrUnauthorized))"


section \<open>The protected accounts\<close>

type_synonym accounts = "address kv"

definition containsDo :: "sdk \<Rightarrow> coin list \<Rightarrow> bool" where
  "containsDo K coins \<longleftrightarrow> 0 < CoinsAmountOf K coins MicroDoDenom"

definition addAccount :: "sdk \<Rightarrow> string \<Rightarrow> accounts \<Rightarrow> accounts result" where
  "addAccount K addr accounts =
     rbind (wrap_err ErrInvalidAddress (AccFromBech32 K addr)) (\<lambda>account.
     Inr (kv_set (AccString K account) account accounts))"

definition add_if :: "sdk \<Rightarrow> bool \<Rightarrow> string \<Rightarrow> accounts \<Rightarrow> accounts result" where
  "add_if K c addr accounts = (if c then addAccount K addr accounts else Inr accounts)"

fun addProtectedAccounts :: "sdk \<Rightarrow> mfa_msg \<Rightarrow> accounts \<Rightarrow> accounts result"
  and addProtectedMsgs :: "sdk \<Rightarrow> mfa_msg list \<Rightarrow> accounts \<Rightarrow> accounts result" where
  "addProtectedAccounts K (Bank_Send fromAddr toAddr amount) m = add_if K (containsDo K amount) fromAddr m"
| "addProtectedAccounts K (Bank_MultiSend inputs rest) m =
     fold_res (\<lambda>(addr, coins). add_if K (containsDo K coins) addr) inputs m"
| "addProtectedAccounts K (Staking_Undelegate delegator amount rest) m = add_if K (Denom amount = MicroDoDenom) delegator m"
| "addProtectedAccounts K (Staking_BeginRedelegate delegator amount rest) m = add_if K (Denom amount = MicroDoDenom) delegator m"
| "addProtectedAccounts K (Ibc_Transfer sender tok rest) m = add_if K (Denom tok = MicroDoDenom) sender m"
| "addProtectedAccounts K (Wasm_Execute sender funds rest) m = add_if K (containsDo K funds) sender m"
| "addProtectedAccounts K (Legacy_Execute sender coins rest) m = add_if K (containsDo K coins) sender m"
| "addProtectedAccounts K (Market_SwapSend fromAddr offer rest) m = add_if K (Denom offer = MicroDoDenom) fromAddr m"
| "addProtectedAccounts K (Market_Swap trader offer rest) m = add_if K (Denom offer = MicroDoDenom) trader m"
| "addProtectedAccounts K (Exec_msg None rest) m = Inl ErrInvalidMFAApproval"
| "addProtectedAccounts K (Exec_msg (Some inner) rest) m = addProtectedMsgs K inner m"
| "addProtectedAccounts K (Other_msg encoded) m = Inr m"
| "addProtectedMsgs K [] m = Inr m"
| "addProtectedMsgs K (msg # msgs) m = rbind (addProtectedAccounts K msg m) (\<lambda>m'. addProtectedMsgs K msgs m')"

definition protectedAccounts :: "sdk \<Rightarrow> mfa_msg list \<Rightarrow> accounts result" where
  "protectedAccounts K msgs = addProtectedMsgs K msgs []"

definition accountsWithPolicy :: "sdk \<Rightarrow> mfa_store \<Rightarrow> accounts \<Rightarrow> accounts" where
  "accountsWithPolicy K s accounts = filter (\<lambda>(key, account). GetPolicy K s account \<noteq> None) accounts"


section \<open>Control actions\<close>

definition validateControlActionCount :: "MemoMFA \<Rightarrow> unit result" where
  "validateControlActionCount m =
     fail_if ((if Enable m \<noteq> None then 1 else 0) + (if Disable m \<noteq> None then 1 else 0) +
              (if SetGuardian m \<noteq> None then 1 else 0) + (if RecoveryStart m \<noteq> None then 1 else 0) +
              (if RecoveryCancel m \<noteq> None then 1 else 0) + (if RecoveryExecute m \<noteq> None then 1 else 0) > (1 :: nat))
       ErrInvalidMFAApproval"

definition validateOptionalGuardianAddress :: "sdk \<Rightarrow> string \<Rightarrow> unit result" where
  "validateOptionalGuardianAddress K addr =
     (if addr = [] then Inr () else rbind (wrap_err ErrInvalidAddress (AccFromBech32 K addr)) (\<lambda>_. Inr ()))"

definition recoveryApprovalPubKey :: "string \<Rightarrow> string \<Rightarrow> bytes result" where
  "recoveryApprovalPubKey action encodedPubKey =
     (if action = RecoveryActionDisable
      then if encodedPubKey \<noteq> [] then Inl ErrInvalidMFAPolicy else Inr []
      else rbind (wrap_err ErrInvalidMFAPolicy (DecodeApprovalPubKey encodedPubKey)) (\<lambda>pubKey.
           rbind (fail_if (length pubKey \<noteq> PubKeySize) ErrInvalidMFAPolicy) (\<lambda>_. Inr pubKey)))"

definition validateRecoveryRequest :: "string \<Rightarrow> string \<Rightarrow> unit result" where
  "validateRecoveryRequest action approvalPubKey =
     rbind (fail_if (\<not> IsRecoveryAction action) ErrInvalidMFAPolicy) (\<lambda>_.
     rbind (recoveryApprovalPubKey action approvalPubKey) (\<lambda>_. Inr ()))"

text \<open>\<open>control_account\<close>: the account of a control action.\<close>

definition control_account :: "sdk \<Rightarrow> string \<Rightarrow> address result" where
  "control_account K account = wrap_err ErrInvalidAddress (AccFromBech32 K account)"

definition addControlRequirements :: "sdk \<Rightarrow> mfa_store \<Rightarrow> accounts \<Rightarrow> MemoMFA \<Rightarrow> accounts result" where
  "addControlRequirements K s accounts m =
     rbind (case Enable m of None \<Rightarrow> Inr accounts | Some e \<Rightarrow>
              rbind (control_account K (eAccount e)) (\<lambda>addr.
              Inr (if GetPolicy K s addr \<noteq> None then kv_set (AccString K addr) addr accounts else accounts))) (\<lambda>accounts1.
     rbind (case Disable m of None \<Rightarrow> Inr accounts1 | Some account \<Rightarrow>
              rbind (control_account K account) (\<lambda>addr.
              rbind (fail_if (GetPolicy K s addr = None) ErrInvalidMFAPolicy) (\<lambda>_.
              Inr (kv_set (AccString K addr) addr accounts1)))) (\<lambda>accounts2.
     rbind (case SetGuardian m of None \<Rightarrow> Inr accounts2 | Some g \<Rightarrow>
              rbind (control_account K (gAccount g)) (\<lambda>addr.
              rbind (fail_if (GetPolicy K s addr = None) ErrInvalidMFAPolicy) (\<lambda>_.
              rbind (validateOptionalGuardianAddress K (gGuardianAddress g)) (\<lambda>_.
              Inr (kv_set (AccString K addr) addr accounts2))))) (\<lambda>accounts3.
     rbind (case RecoveryStart m of None \<Rightarrow> Inr () | Some r \<Rightarrow>
              rbind (control_account K (sAccount r)) (\<lambda>addr.
              rbind (fail_if (GetPolicy K s addr = None) ErrInvalidMFAPolicy) (\<lambda>_.
              validateRecoveryRequest (sAction r) (sApprovalPubKey r)))) (\<lambda>_.
     rbind (case RecoveryCancel m of None \<Rightarrow> Inr () | Some account \<Rightarrow>
              rbind (control_account K account) (\<lambda>addr.
              fail_if (GetPolicy K s addr = None) ErrInvalidMFAPolicy)) (\<lambda>_.
     rbind (case RecoveryExecute m of None \<Rightarrow> Inr () | Some account \<Rightarrow>
              rbind (control_account K account) (\<lambda>addr.
              case GetPolicy K s addr of
                None \<Rightarrow> Inl ErrInvalidMFAPolicy
              | Some policy \<Rightarrow> fail_if (pPendingRecovery policy = None) ErrInvalidMFAPolicy)) (\<lambda>_.
     Inr accounts3))))))"

definition recoveryBypassAccount :: "sdk \<Rightarrow> MemoMFA \<Rightarrow> address option result" where
  "recoveryBypassAccount K m =
     (case (case RecoveryStart m of
              Some r \<Rightarrow> Some (sAccount r)
            | None \<Rightarrow> (case RecoveryCancel m of Some a \<Rightarrow> Some a | None \<Rightarrow> RecoveryExecute m)) of
        None \<Rightarrow> Inr None
      | Some account \<Rightarrow> rbind (control_account K account) (\<lambda>addr. Inr (Some addr)))"

definition requireRecoveryControlCarrier :: "sdk \<Rightarrow> mfa_tx \<Rightarrow> address \<Rightarrow> unit result" where
  "requireRecoveryControlCarrier K tx account =
     (case txMsgs tx of
        [] \<Rightarrow> Inr ()
      | [Bank_Send fromAddr toAddr amount] \<Rightarrow>
          rbind (fail_if (fromAddr \<noteq> AccString K account \<or> toAddr \<noteq> AccString K account) ErrInvalidMFAApproval) (\<lambda>_.
          if CoinsAmountOf K amount MicroDoDenom \<noteq> 1 then Inl ErrInvalidMFAApproval
          else rbind (NewCoin K MicroDoDenom 1) (\<lambda>c.
               rbind (NewCoins K [c]) (\<lambda>cs. fail_if (\<not> CoinsEqual K amount cs) ErrInvalidMFAApproval)))
      | _ \<Rightarrow> Inl ErrInvalidMFAApproval)"



section \<open>Approvals\<close>

definition approvalForAccount :: "MemoApproval list \<Rightarrow> string \<Rightarrow> MemoApproval option" where
  "approvalForAccount approvals account = find (\<lambda>a. aAccount a = account) approvals"

text \<open>The map \<open>approvalByAccount\<close>: the last approval of an account.\<close>

definition approvalByAccount :: "MemoApproval list \<Rightarrow> string \<Rightarrow> MemoApproval option" where
  "approvalByAccount approvals account = find (\<lambda>a. aAccount a = account) (rev approvals)"

definition guardianControlAction :: "MemoMFA \<Rightarrow> (string \<times> string) option" where
  "guardianControlAction m =
     (case Disable m of
        Some _ \<Rightarrow> Some (RecoveryActionDisable, [])
      | None \<Rightarrow> (case Enable m of
                   Some e \<Rightarrow> Some (RecoveryActionRotate, eApprovalPubKey e)
                 | None \<Rightarrow> None))"

definition verifyGuardianApproval ::
    "sdk \<Rightarrow> mfa_lib \<Rightarrow> mfa_ctx \<Rightarrow> string \<Rightarrow> Policy \<Rightarrow> MemoMFA \<Rightarrow> int \<Rightarrow> string \<Rightarrow> SignerSequence list \<Rightarrow> bool result" where
  "verifyGuardianApproval K L ctx account policy m timeoutHeight msgsHash signers =
     (case GuardianApproval m of
        None \<Rightarrow> Inr False
      | Some approval \<Rightarrow>
          if pGuardianAddress policy = [] then Inl ErrInvalidMFAApproval
          else case guardianControlAction m of
                 None \<Rightarrow> Inl ErrInvalidMFAApproval
               | Some (action, approvalPubKey) \<Rightarrow>
                   if gaAccount approval \<noteq> account then Inr False
                   else
                     rbind (fail_if (gaGuardianAddress approval \<noteq> pGuardianAddress policy) ErrInvalidMFAApproval) (\<lambda>_.
                     rbind (fail_if (gaAction approval \<noteq> action \<or> gaApprovalPubKey approval \<noteq> approvalPubKey)
                              ErrInvalidMFAApproval) (\<lambda>_.
                     rbind (fail_if (gaExpiresAt approval \<le> BlockTime ctx) ErrExpiredMFAApproval) (\<lambda>_.
                     rbind (wrap_err ErrInvalidMFAApproval (DecodeApprovalPubKey (gaGuardianPubKey approval))) (\<lambda>guardianPubKey.
                     rbind (PubKeyAddress L guardianPubKey) (\<lambda>addr.
                     rbind (fail_if (AccString K addr \<noteq> pGuardianAddress policy) ErrInvalidMFAApproval) (\<lambda>_.
                     rbind (wrap_err ErrInvalidMFAApproval (DecodeApprovalSignature (gaSignature approval))) (\<lambda>signature.
                     rbind (GuardianApprovalPayload_SignBytes L
                              (newGuardianApprovalPayload ctx account (pGuardianAddress policy) action approvalPubKey
                                 (gaExpiresAt approval) timeoutHeight msgsHash signers)) (\<lambda>bz.
                     rbind (fail_if (\<not> VerifySignature L guardianPubKey bz signature) ErrInvalidMFAApproval) (\<lambda>_.
                     Inr True))))))))))"

definition verify_account ::
    "sdk \<Rightarrow> mfa_lib \<Rightarrow> mfa_store \<Rightarrow> mfa_ctx \<Rightarrow> MemoMFA \<Rightarrow> int \<Rightarrow> string \<Rightarrow> SignerSequence list \<Rightarrow>
     string \<times> address \<Rightarrow> unit result" where
  "verify_account K L s ctx m timeoutHeight msgsHash signers required =
     (case GetPolicy K s (snd required) of
        None \<Rightarrow> Inr ()
      | Some policy \<Rightarrow>
          (case approvalByAccount (fst (Approvals m)) (fst required) of
             Some approval \<Rightarrow>
               rbind (fail_if (aExpiresAt approval \<le> BlockTime ctx) ErrExpiredMFAApproval) (\<lambda>_.
               rbind (wrap_err ErrInvalidMFAApproval (DecodeApprovalSignature (aSignature approval))) (\<lambda>signature.
               rbind (ApprovalPayload_SignBytes L
                        (newApprovalPayload ctx (fst required) (aExpiresAt approval) timeoutHeight msgsHash signers)) (\<lambda>bz.
               fail_if (\<not> VerifySignature L (pApprovalPubKey policy) bz signature) ErrInvalidMFAApproval)))
           | None \<Rightarrow>
               rbind (verifyGuardianApproval K L ctx (fst required) policy m timeoutHeight msgsHash signers) (\<lambda>guardianOK.
               fail_if (\<not> guardianOK) ErrMFARequired)))"

text \<open>\<open>rng\<close> is the order in which Go ranges over the map of required accounts.\<close>

definition verifyApprovals ::
    "sdk \<Rightarrow> mfa_lib \<Rightarrow> (accounts \<Rightarrow> accounts) \<Rightarrow> mfa_store \<Rightarrow> mfa_ctx \<Rightarrow> mfa_tx \<Rightarrow> accounts \<Rightarrow> MemoMFA \<Rightarrow> unit result" where
  "verifyApprovals K L rng s ctx tx required m =
     rbind (messagesHash L (txMsgs tx)) (\<lambda>msgsHash.
     rbind (signerSequences K ctx tx) (\<lambda>signers.
     fold_res (\<lambda>r _. verify_account K L s ctx m (getTimeoutHeight tx) msgsHash signers r) (rng required) ()))"

definition verifyInitialEnableApproval ::
    "sdk \<Rightarrow> mfa_lib \<Rightarrow> mfa_store \<Rightarrow> mfa_ctx \<Rightarrow> mfa_tx \<Rightarrow> MemoMFA \<Rightarrow> unit result" where
  "verifyInitialEnableApproval K L s ctx tx m =
     (case Enable m of
        None \<Rightarrow> Inr ()
      | Some e \<Rightarrow>
          rbind (control_account K (eAccount e)) (\<lambda>account.
          if GetPolicy K s account \<noteq> None then Inr ()
          else
            rbind (requireTxSigner tx account) (\<lambda>_.
            rbind (wrap_err ErrInvalidMFAPolicy (DecodeApprovalPubKey (eApprovalPubKey e))) (\<lambda>pubKey.
            rbind (wrap_err ErrInvalidMFAPolicy (Policy_ValidateBasic K (NewPolicy K account pubKey))) (\<lambda>_.
            rbind (validateOptionalGuardianAddress K (eGuardianAddress e)) (\<lambda>_.
            case approvalForAccount (fst (Approvals m)) (AccString K account) of
              None \<Rightarrow> Inl ErrMFARequired
            | Some approval \<Rightarrow>
                rbind (fail_if (aExpiresAt approval \<le> BlockTime ctx) ErrExpiredMFAApproval) (\<lambda>_.
                rbind (wrap_err ErrInvalidMFAApproval (DecodeApprovalSignature (aSignature approval))) (\<lambda>signature.
                rbind (approvalPayload K L ctx tx (AccString K account) (aExpiresAt approval)) (\<lambda>payload.
                rbind (ApprovalPayload_SignBytes L payload) (\<lambda>bz.
                fail_if (\<not> VerifySignature L pubKey bz signature) ErrInvalidMFAApproval))))))))))"

definition memo_of :: "MemoMFA option result \<Rightarrow> MemoMFA option" where
  "memo_of parsed = (case parsed of Inl _ \<Rightarrow> None | Inr m \<Rightarrow> m)"

definition required_accounts ::
    "sdk \<Rightarrow> mfa_store \<Rightarrow> mfa_tx \<Rightarrow> MemoMFA option \<Rightarrow> accounts result" where
  "required_accounts K s tx mfaMemo =
     rbind (protectedAccounts K (txMsgs tx)) (\<lambda>accounts.
     rbind (case mfaMemo of
              None \<Rightarrow> Inr accounts
            | Some m \<Rightarrow>
                rbind (validateControlActionCount m) (\<lambda>_.
                rbind (addControlRequirements K s accounts m) (\<lambda>accounts1.
                rbind (recoveryBypassAccount K m) (\<lambda>bypass.
                case bypass of
                  None \<Rightarrow> Inr accounts1
                | Some bypassAccount \<Rightarrow>
                    rbind (requireRecoveryControlCarrier K tx bypassAccount) (\<lambda>_.
                    Inr (kv_del (AccString K bypassAccount) accounts1)))))) (\<lambda>accounts2.
     Inr (accountsWithPolicy K s accounts2)))"

definition MFARequirement_AnteHandle ::
    "sdk \<Rightarrow> mfa_lib \<Rightarrow> (accounts \<Rightarrow> accounts) \<Rightarrow> bool \<Rightarrow> mfa_store \<Rightarrow> mfa_ctx \<Rightarrow> mfa_tx \<Rightarrow> unit result" where
  "MFARequirement_AnteHandle K L rng nilKeeper s ctx tx =
     (if nilKeeper then Inr ()
      else
        let parsed = parseMFAMemo tx; mfaMemo = memo_of parsed in
        rbind (required_accounts K s tx mfaMemo) (\<lambda>requiredAccounts.
        rbind (if requiredAccounts \<noteq> []
               then case parsed of
                      Inl _ \<Rightarrow> Inl ErrInvalidMFAApproval
                    | Inr None \<Rightarrow> Inl ErrMFARequired
                    | Inr (Some m) \<Rightarrow> verifyApprovals K L rng s ctx tx requiredAccounts m
               else fail_if (isl parsed \<and> containsMFAKey (getMemo tx)) ErrInvalidMFAApproval) (\<lambda>_.
        case mfaMemo of
          None \<Rightarrow> Inr ()
        | Some m \<Rightarrow> verifyInitialEnableApproval K L s ctx tx m)))"


section \<open>Applying a control action\<close>

definition apply_Enable :: "sdk \<Rightarrow> mfa_tx \<Rightarrow> MemoEnable \<Rightarrow> mfa_store \<Rightarrow> mfa_store result" where
  "apply_Enable K tx e s =
     rbind (control_account K (eAccount e)) (\<lambda>account.
     rbind (requireTxSigner tx account) (\<lambda>_.
     rbind (wrap_err ErrInvalidMFAPolicy (DecodeApprovalPubKey (eApprovalPubKey e))) (\<lambda>pubKey.
     let guardianAddress = (case GetPolicy K s account of
           Some existing \<Rightarrow> if eGuardianAddress e = [] then pGuardianAddress existing else eGuardianAddress e
         | None \<Rightarrow> eGuardianAddress e)
     in rbind (validateOptionalGuardianAddress K guardianAddress) (\<lambda>_.
        wrap_err ErrInvalidMFAPolicy
          (SetPolicy K s ((NewPolicy K account pubKey)\<lparr>pGuardianAddress := guardianAddress\<rparr>))))))"

definition apply_Disable :: "sdk \<Rightarrow> mfa_tx \<Rightarrow> string \<Rightarrow> mfa_store \<Rightarrow> mfa_store result" where
  "apply_Disable K tx acc s =
     rbind (control_account K acc) (\<lambda>account.
     rbind (requireTxSigner tx account) (\<lambda>_. Inr (DeletePolicy K s account)))"

definition apply_SetGuardian :: "sdk \<Rightarrow> mfa_tx \<Rightarrow> MemoSetGuardian \<Rightarrow> mfa_store \<Rightarrow> mfa_store result" where
  "apply_SetGuardian K tx g s =
     rbind (control_account K (gAccount g)) (\<lambda>account.
     rbind (requireTxSigner tx account) (\<lambda>_.
     rbind (validateOptionalGuardianAddress K (gGuardianAddress g)) (\<lambda>_.
     case GetPolicy K s account of
       None \<Rightarrow> Inl ErrInvalidMFAPolicy
     | Some policy \<Rightarrow>
         wrap_err ErrInvalidMFAPolicy (SetPolicy K s (policy\<lparr>pGuardianAddress := gGuardianAddress g\<rparr>)))))"

definition apply_RecoveryStart :: "sdk \<Rightarrow> mfa_ctx \<Rightarrow> mfa_tx \<Rightarrow> MemoRecoveryStart \<Rightarrow> mfa_store \<Rightarrow> mfa_store result" where
  "apply_RecoveryStart K ctx tx r s =
     rbind (control_account K (sAccount r)) (\<lambda>account.
     rbind (requireTxSigner tx account) (\<lambda>_.
     case GetPolicy K s account of
       None \<Rightarrow> Inl ErrInvalidMFAPolicy
     | Some policy \<Rightarrow>
         rbind (recoveryApprovalPubKey (sAction r) (sApprovalPubKey r)) (\<lambda>approvalPubKey.
         let requestedAt = BlockTime ctx
         in wrap_err ErrInvalidMFAPolicy
              (SetPolicy K s (policy\<lparr>pPendingRecovery := Some
                 \<lparr>rAction = sAction r, rApprovalPubKey = approvalPubKey, rRequestedAt = requestedAt,
                  rExecuteAfter = i64 (requestedAt + RecoveryDelaySeconds)\<rparr>\<rparr>)))))"

definition apply_RecoveryCancel :: "sdk \<Rightarrow> mfa_tx \<Rightarrow> string \<Rightarrow> mfa_store \<Rightarrow> mfa_store result" where
  "apply_RecoveryCancel K tx acc s =
     rbind (control_account K acc) (\<lambda>account.
     rbind (requireTxSigner tx account) (\<lambda>_.
     case GetPolicy K s account of
       None \<Rightarrow> Inl ErrInvalidMFAPolicy
     | Some policy \<Rightarrow> wrap_err ErrInvalidMFAPolicy (SetPolicy K s (policy\<lparr>pPendingRecovery := None\<rparr>))))"

definition apply_RecoveryExecute :: "sdk \<Rightarrow> mfa_ctx \<Rightarrow> mfa_tx \<Rightarrow> string \<Rightarrow> mfa_store \<Rightarrow> mfa_store result" where
  "apply_RecoveryExecute K ctx tx acc s =
     rbind (control_account K acc) (\<lambda>account.
     rbind (requireTxSigner tx account) (\<lambda>_.
     case GetPolicy K s account of
       None \<Rightarrow> Inl ErrInvalidMFAPolicy
     | Some policy \<Rightarrow>
         (case pPendingRecovery policy of
            None \<Rightarrow> Inl ErrInvalidMFAPolicy
          | Some r \<Rightarrow>
              rbind (fail_if (rExecuteAfter r > BlockTime ctx) ErrMFARequired) (\<lambda>_.
              if rAction r = RecoveryActionDisable then Inr (DeletePolicy K s account)
              else if rAction r = RecoveryActionRotate
              then wrap_err ErrInvalidMFAPolicy
                     (SetPolicy K s ((NewPolicy K account (rApprovalPubKey r))\<lparr>pGuardianAddress := pGuardianAddress policy\<rparr>))
              else Inl ErrInvalidMFAPolicy))))"

definition opt_step :: "('a \<Rightarrow> 's \<Rightarrow> 's result) \<Rightarrow> 'a option \<Rightarrow> 's \<Rightarrow> 's result" where
  "opt_step f x s = (case x of None \<Rightarrow> Inr s | Some a \<Rightarrow> f a s)"

definition applyControlActions :: "sdk \<Rightarrow> mfa_ctx \<Rightarrow> mfa_tx \<Rightarrow> MemoMFA \<Rightarrow> mfa_store \<Rightarrow> mfa_store result" where
  "applyControlActions K ctx tx m s =
     rbind (opt_step (apply_Enable K tx) (Enable m) s) (\<lambda>s1.
     rbind (opt_step (apply_Disable K tx) (Disable m) s1) (\<lambda>s2.
     rbind (opt_step (apply_SetGuardian K tx) (SetGuardian m) s2) (\<lambda>s3.
     rbind (opt_step (apply_RecoveryStart K ctx tx) (RecoveryStart m) s3) (\<lambda>s4.
     rbind (opt_step (apply_RecoveryCancel K tx) (RecoveryCancel m) s4) (\<lambda>s5.
     opt_step (apply_RecoveryExecute K ctx tx) (RecoveryExecute m) s5)))))"

definition MFAControlApply_AnteHandle ::
    "sdk \<Rightarrow> bool \<Rightarrow> mfa_ctx \<Rightarrow> mfa_tx \<Rightarrow> mfa_store \<Rightarrow> mfa_store result" where
  "MFAControlApply_AnteHandle K nilKeeper ctx tx s =
     (if nilKeeper then Inr s
      else case parseMFAMemo tx of
             Inl _ \<Rightarrow> if containsMFAKey (getMemo tx) then Inl ErrInvalidMFAApproval else Inr s
           | Inr None \<Rightarrow> Inr s
           | Inr (Some m) \<Rightarrow>
               rbind (validateControlActionCount m) (\<lambda>_. applyControlActions K ctx tx m s))"

text \<open>
  The two decorators of one transaction; the decorators between them do not touch this store.
\<close>

definition mfa_ante ::
    "sdk \<Rightarrow> mfa_lib \<Rightarrow> (accounts \<Rightarrow> accounts) \<Rightarrow> mfa_ctx \<Rightarrow> mfa_tx \<Rightarrow> mfa_store \<Rightarrow> mfa_store result" where
  "mfa_ante K L rng ctx tx s =
     rbind (MFARequirement_AnteHandle K L rng False s ctx tx) (\<lambda>_. MFAControlApply_AnteHandle K False ctx tx s)"


section \<open>Genesis (genesis.go)\<close>

definition mfa_ValidateGenesis :: "sdk \<Rightarrow> Policy list \<Rightarrow> unit result" where
  "mfa_ValidateGenesis K policies =
     rbind (fold_res (\<lambda>policy seen.
        rbind (Policy_ValidateBasic K policy) (\<lambda>_.
        rbind (fail_if (pAccount policy \<in> set seen) (Text ''duplicate mfa policy for account'')) (\<lambda>_.
        Inr (pAccount policy # seen)))) policies []) (\<lambda>_. Inr ())"

definition mfa_InitGenesis :: "sdk \<Rightarrow> mfa_store \<Rightarrow> Policy list \<Rightarrow> mfa_store result" where
  "mfa_InitGenesis K s policies =
     rbind (must (mfa_ValidateGenesis K policies)) (\<lambda>_.
     fold_res (\<lambda>policy s. must (SetPolicy K s policy)) policies s)"

definition mfa_ExportGenesis :: "sdk \<Rightarrow> mfa_store \<Rightarrow> Policy list" where
  "mfa_ExportGenesis K s =
     concat (map (\<lambda>(key, _).
       case AccFromBech32 K (tl key) of
         Inl _ \<Rightarrow> []
       | Inr addr \<Rightarrow> (case GetPolicy K s addr of None \<Rightarrow> [] | Some policy \<Rightarrow> [policy])) s)"

end
