(* ===== verification/Mfa_Memo.thy ===== *)
theory Mfa_Memo
  imports Mfa
begin

text \<open>
  The memo as a client writes it, \<open>json.Marshal\<close> of \<open>MemoEnvelope\<close> (\<open>src/x/mfa/types/approval.go\<close>),
  and the theorem that \<open>parseMFAMemo\<close> reads it back.
\<close>

section \<open>Numbers\<close>

lemma digit_char: "d < 10 \<Longrightarrow> digit (char_of (48 + d)) \<and> code (char_of (48 + d)) = 48 + d"
  by (simp add: digit_def)

lemma nat_digits_all: "list_all digit (nat_digits n)"
  by (induction n rule: nat_digits.induct) (simp add: nat_digits.simps digit_char)

lemma digits_value_snoc: "digits_value (s @ [c]) = 10 * digits_value s + int (code c - 48)"
  by (simp add: digits_value_def)

lemma digits_value_digits: "digits_value (nat_digits n) = int n"
proof (induction n rule: nat_digits.induct)
  case (1 n)
  show ?case
  proof (cases "n < 10")
    case True
    then show ?thesis using digit_char [OF True] by (simp add: nat_digits.simps [of n] digits_value_def)
  next
    case False
    have "10 * int (n div 10) + int (n mod 10) = int n" by presburger
    with 1 False show ?thesis using digit_char [of "n mod 10"] by (simp add: nat_digits.simps [of n] digits_value_snoc)
  qed
qed

lemma nat_digits_plain: "plain_num (nat_digits n)"
proof -
  have "nat_digits n \<noteq> [] \<and> (0 < n \<longrightarrow> hd (nat_digits n) \<noteq> CHR ''0'')"
  proof (induction n rule: nat_digits.induct)
    case (1 n)
    show ?case
    proof (cases "n < 10")
      case True
      have "code (CHR ''0'') = 48" by simp
      then have "0 < n \<Longrightarrow> char_of (48 + n) \<noteq> CHR ''0''"
        using digit_char [OF True] by (metis add_cancel_left_right less_numeral_extra(3))
      then show ?thesis using True by (simp add: nat_digits.simps [of n])
    next
      case False
      with 1 show ?thesis by (simp add: nat_digits.simps [of n] div_greater_zero_iff)
    qed
  qed
  moreover have "nat_digits 0 = ''0''" by code_simp
  ultimately show ?thesis using nat_digits_all [of n] by (cases "n = 0") (auto simp: plain_num_def)
qed

lemma parse_int64_digits:
  assumes "0 \<le> i" "i < 2 ^ 63" shows "parse_int64 (int_digits i) = Some i" "plain_num (int_digits i)"
proof -
  have p: "plain_num (nat_digits (nat i))" by (rule nat_digits_plain)
  then have "hd (nat_digits (nat i)) \<noteq> CHR ''-''" "nat_digits (nat i) \<noteq> []"
    using hd_in_set [of "nat_digits (nat i)"] by (force simp: plain_num_def list_all_iff digit_def)+
  then show "parse_int64 (int_digits i) = Some i" "plain_num (int_digits i)"
    using assms p nat_digits_all [of "nat i"] by (auto simp: int_digits_def parse_int64_def Let_def digits_value_digits)
qed



section \<open>The written memo\<close>

definition str_member :: "string \<Rightarrow> string \<Rightarrow> (string \<times> json) list" where
  "str_member name v = [(name, JStr v)]"

text \<open>A member with the option \<open>omitempty\<close>.\<close>

definition str_omit :: "string \<Rightarrow> string \<Rightarrow> (string \<times> json) list" where
  "str_omit name v = (if v = [] then [] else [(name, JStr v)])"

definition ptr_member :: "string \<Rightarrow> ('a \<Rightarrow> (string \<times> json) list) \<Rightarrow> 'a option \<Rightarrow> (string \<times> json) list" where
  "ptr_member name f x = (case x of None \<Rightarrow> [] | Some v \<Rightarrow> [(name, JObj (f v))])"

definition approval_members :: "MemoApproval \<Rightarrow> (string \<times> json) list" where
  "approval_members ap = str_member ''account'' (aAccount ap) @ [(''expires_at'', JNum (int_digits (aExpiresAt ap)))] @
     str_member ''signature'' (aSignature ap)"

definition enable_members :: "MemoEnable \<Rightarrow> (string \<times> json) list" where
  "enable_members e = str_member ''account'' (eAccount e) @ str_member ''approval_pub_key'' (eApprovalPubKey e) @
     str_omit ''guardian_address'' (eGuardianAddress e)"

definition set_guardian_members :: "MemoSetGuardian \<Rightarrow> (string \<times> json) list" where
  "set_guardian_members g = str_member ''account'' (gAccount g) @ str_omit ''guardian_address'' (gGuardianAddress g)"

definition recovery_start_members :: "MemoRecoveryStart \<Rightarrow> (string \<times> json) list" where
  "recovery_start_members r = str_member ''account'' (sAccount r) @ str_member ''action'' (sAction r) @
     str_omit ''approval_pub_key'' (sApprovalPubKey r)"

definition guardian_approval_members :: "MemoGuardianApproval \<Rightarrow> (string \<times> json) list" where
  "guardian_approval_members g = str_member ''account'' (gaAccount g) @ str_member ''guardian_address'' (gaGuardianAddress g) @
     str_member ''action'' (gaAction g) @ str_omit ''approval_pub_key'' (gaApprovalPubKey g) @
     str_member ''guardian_pub_key'' (gaGuardianPubKey g) @ [(''expires_at'', JNum (int_digits (gaExpiresAt g)))] @
     str_member ''signature'' (gaSignature g)"

definition memo_members :: "MemoMFA \<Rightarrow> (string \<times> json) list" where
  "memo_members m =
     (if fst (Approvals m) = [] then [] else [(''approvals'', JArr (map (\<lambda>ap. JObj (approval_members ap)) (fst (Approvals m))))]) @
     ptr_member ''enable'' enable_members (Enable m) @
     ptr_member ''disable'' (str_member ''account'') (Disable m) @
     ptr_member ''set_guardian'' set_guardian_members (SetGuardian m) @
     ptr_member ''recovery_start'' recovery_start_members (RecoveryStart m) @
     ptr_member ''recovery_cancel'' (str_member ''account'') (RecoveryCancel m) @
     ptr_member ''recovery_execute'' (str_member ''account'') (RecoveryExecute m) @
     ptr_member ''guardian_approval'' guardian_approval_members (GuardianApproval m)"

definition memo_json :: "MemoMFA \<Rightarrow> json" where
  "memo_json m = JObj [(MemoKey, JObj (memo_members m))]"

text \<open>Reading the members one after the other.\<close>

lemma fold_opt_append: "fold_opt f (xs @ ys) s = Option.bind (fold_opt f xs s) (fold_opt f ys)"
  by (induction xs arbitrary: s) (auto split: bind_splits)

lemmas field_defs = str_field_def int_field_def decode_member_def str_member_def str_omit_def

lemma approval_read:
  "0 \<le> aExpiresAt ap \<Longrightarrow> aExpiresAt ap < 2 ^ 63 \<Longrightarrow>
   decode_struct approval_fields (JObj (approval_members ap)) s = Some ap"
  by (simp add: approval_members_def approval_fields_def field_defs parse_int64_digits)

lemma enable_read: "eGuardianAddress s = [] \<Longrightarrow> decode_struct enable_fields (JObj (enable_members e)) s = Some e"
  by (auto simp: enable_members_def enable_fields_def field_defs)

lemma account_read: "decode_struct account_fields (JObj (str_member ''account'' a)) s = Some a"
  by (simp add: account_fields_def field_defs)

lemma set_guardian_read:
  "gGuardianAddress s = [] \<Longrightarrow> decode_struct set_guardian_fields (JObj (set_guardian_members g)) s = Some g"
  by (auto simp: set_guardian_members_def set_guardian_fields_def field_defs)

lemma recovery_start_read:
  "sApprovalPubKey s = [] \<Longrightarrow> decode_struct recovery_start_fields (JObj (recovery_start_members r)) s = Some r"
  by (auto simp: recovery_start_members_def recovery_start_fields_def field_defs)

lemma guardian_approval_read:
  "gaApprovalPubKey s = [] \<Longrightarrow> 0 \<le> gaExpiresAt g \<Longrightarrow> gaExpiresAt g < 2 ^ 63 \<Longrightarrow>
   decode_struct guardian_approval_fields (JObj (guardian_approval_members g)) s = Some g"
  by (auto simp: guardian_approval_members_def guardian_approval_fields_def field_defs parse_int64_digits)

lemma approvals_read:
  "list_all (\<lambda>ap. 0 \<le> aExpiresAt ap \<and> aExpiresAt ap < 2 ^ 63) aps \<Longrightarrow>
   decode_elems (decode_struct approval_fields) zero_approval (map (\<lambda>ap. JObj (approval_members ap)) aps) [] = Some (aps, [])"
  by (induction aps) (simp_all add: approval_read del: decode_struct.simps)


definition expiry_ok :: "int \<Rightarrow> bool" where
  "expiry_ok i \<longleftrightarrow> 0 \<le> i \<and> i < 2 ^ 63"

text \<open>The memos the theorem is about: texts of ASCII characters, of any kind, and expiry times from 0 to \<open>2 ^ 63 - 1\<close>.\<close>

definition memo_plain :: "MemoMFA \<Rightarrow> bool" where
  "memo_plain m \<longleftrightarrow>
     snd (Approvals m) = [] \<and>
     list_all (\<lambda>ap. plain (aAccount ap) \<and> plain (aSignature ap) \<and> expiry_ok (aExpiresAt ap)) (fst (Approvals m)) \<and>
     pred_option (\<lambda>e. plain (eAccount e) \<and> plain (eApprovalPubKey e) \<and> plain (eGuardianAddress e)) (Enable m) \<and>
     pred_option plain (Disable m) \<and>
     pred_option (\<lambda>g. plain (gAccount g) \<and> plain (gGuardianAddress g)) (SetGuardian m) \<and>
     pred_option (\<lambda>r. plain (sAccount r) \<and> plain (sAction r) \<and> plain (sApprovalPubKey r)) (RecoveryStart m) \<and>
     pred_option plain (RecoveryCancel m) \<and>
     pred_option plain (RecoveryExecute m) \<and>
     pred_option (\<lambda>g. plain (gaAccount g) \<and> plain (gaGuardianAddress g) \<and> plain (gaAction g) \<and> plain (gaApprovalPubKey g) \<and>
       plain (gaGuardianPubKey g) \<and> plain (gaSignature g) \<and> expiry_ok (gaExpiresAt g)) (GuardianApproval m)"

lemma plain_names:
  "plain ''account''" "plain ''expires_at''" "plain ''signature''" "plain ''approval_pub_key''" "plain ''guardian_address''"
  "plain ''action''" "plain ''guardian_pub_key''" "plain ''approvals''" "plain ''enable''" "plain ''disable''"
  "plain ''set_guardian''" "plain ''recovery_start''" "plain ''recovery_cancel''" "plain ''recovery_execute''"
  "plain ''guardian_approval''" "plain ''dochain_mfa''"
  by (simp_all add: plain_def)

lemmas member_defs = str_member_def str_omit_def approval_members_def enable_members_def set_guardian_members_def
  recovery_start_members_def guardian_approval_members_def

abbreviation plain_member :: "string \<times> json \<Rightarrow> bool" where
  "plain_member \<equiv> \<lambda>kv. plain (fst kv) \<and> plain_json (snd kv)"

lemma ptr_member_plain:
  "pred_option P x \<Longrightarrow> (\<And>v. P v \<Longrightarrow> list_all plain_member (f v)) \<Longrightarrow> plain n \<Longrightarrow> list_all plain_member (ptr_member n f x)"
  by (cases x) (auto simp: ptr_member_def)

lemma members_plain:
  "plain (aAccount ap) \<and> plain (aSignature ap) \<and> expiry_ok (aExpiresAt ap) \<Longrightarrow> list_all plain_member (approval_members ap)"
  "plain (eAccount e) \<and> plain (eApprovalPubKey e) \<and> plain (eGuardianAddress e) \<Longrightarrow> list_all plain_member (enable_members e)"
  "plain a \<Longrightarrow> list_all plain_member (str_member ''account'' a)"
  "plain (gAccount g) \<and> plain (gGuardianAddress g) \<Longrightarrow> list_all plain_member (set_guardian_members g)"
  "plain (sAccount r) \<and> plain (sAction r) \<and> plain (sApprovalPubKey r) \<Longrightarrow> list_all plain_member (recovery_start_members r)"
  "plain (gaAccount ga) \<and> plain (gaGuardianAddress ga) \<and> plain (gaAction ga) \<and> plain (gaApprovalPubKey ga) \<and>
     plain (gaGuardianPubKey ga) \<and> plain (gaSignature ga) \<and> expiry_ok (gaExpiresAt ga) \<Longrightarrow>
     list_all plain_member (guardian_approval_members ga)"
  by (auto simp: member_defs plain_names expiry_ok_def parse_int64_digits(2))

lemma memo_json_plain:
  assumes "memo_plain m" shows "plain_json (memo_json m)"
proof -
  note parts = assms [unfolded memo_plain_def]
  note part = parts [THEN conjunct2, THEN conjunct2]
  have "list_all plain_member (if fst (Approvals m) = [] then []
      else [(''approvals'', JArr (map (\<lambda>ap. JObj (approval_members ap)) (fst (Approvals m))))])"
    using parts members_plain(1) by (auto simp: plain_names list_all_iff)
  moreover have "list_all plain_member (ptr_member ''enable'' enable_members (Enable m))"
    using part by (intro ptr_member_plain [OF _ members_plain(2) plain_names(9)]) blast+
  moreover have "list_all plain_member (ptr_member ''disable'' (str_member ''account'') (Disable m))"
    using part by (intro ptr_member_plain [OF _ members_plain(3) plain_names(10)]) blast+
  moreover have "list_all plain_member (ptr_member ''set_guardian'' set_guardian_members (SetGuardian m))"
    using part by (intro ptr_member_plain [OF _ members_plain(4) plain_names(11)]) blast+
  moreover have "list_all plain_member (ptr_member ''recovery_start'' recovery_start_members (RecoveryStart m))"
    using part by (intro ptr_member_plain [OF _ members_plain(5) plain_names(12)]) blast+
  moreover have "list_all plain_member (ptr_member ''recovery_cancel'' (str_member ''account'') (RecoveryCancel m))"
    using part by (intro ptr_member_plain [OF _ members_plain(3) plain_names(13)]) blast+
  moreover have "list_all plain_member (ptr_member ''recovery_execute'' (str_member ''account'') (RecoveryExecute m))"
    using part by (intro ptr_member_plain [OF _ members_plain(3) plain_names(14)]) blast+
  moreover have "list_all plain_member (ptr_member ''guardian_approval'' guardian_approval_members (GuardianApproval m))"
    using part by (intro ptr_member_plain [OF _ members_plain(6) plain_names(15)]) blast+
  ultimately have "list_all plain_member (memo_members m)" unfolding memo_members_def list_all_append by blast
  then show ?thesis by (simp add: memo_json_def MemoKey_def plain_names)
qed

lemma fold_max_le: "list_all (\<lambda>x. x \<le> (b :: nat)) xs \<Longrightarrow> a \<le> b \<Longrightarrow> fold max xs a \<le> b"
  by (induction xs arbitrary: a) auto

lemma members_depth:
  "depth (JObj (approval_members ap)) \<le> 1" "depth (JObj (enable_members e)) \<le> 1" "depth (JObj (str_member n a)) \<le> 1"
  "depth (JObj (set_guardian_members g)) \<le> 1" "depth (JObj (recovery_start_members r)) \<le> 1"
  "depth (JObj (guardian_approval_members ga)) \<le> 1"
  by (simp_all add: member_defs)

lemma memo_json_depth: "depth (memo_json m) \<le> maxNestingDepth"
proof -
  have "depth j \<le> 2" if "(k, j) \<in> set (memo_members m)" for k j
    using that members_depth
    by (auto simp: memo_members_def ptr_member_def fold_max_le list_all_iff le_SucI numeral_2_eq_2 simp del: depth.simps(2)
        split: if_splits option.splits)
  then have "depth (JObj (memo_members m)) \<le> 3"
    by (auto intro!: fold_max_le simp: list_all_iff eval_nat_numeral)
  then show ?thesis by (simp add: memo_json_def maxNestingDepth_def)
qed

lemma memo_read:
  assumes "memo_plain m"
  shows "decode_struct envelope_fields (memo_json m) None = Some (Some m)"
proof -
  let ?d = "fold_opt (decode_member mfa_fields)"
  note ptr = ptr_member_def ptr_field_def decode_ptr_def decode_member_def mfa_fields_def
  have ap: "?d (if fst (Approvals m) = [] then [] else [(''approvals'', JArr (map (\<lambda>ap. JObj (approval_members ap)) (fst (Approvals m))))]) s
      = Some (s\<lparr>Approvals := Approvals m\<rparr>)" if "Approvals s = ([], [])" for s
    using assms that approvals_read [of "fst (Approvals m)"]
    by (cases "Approvals m") (auto simp: memo_plain_def expiry_ok_def decode_member_def mfa_fields_def list_all_iff)
  have en: "?d (ptr_member ''enable'' enable_members (Enable m)) s = Some (s\<lparr>Enable := Enable m\<rparr>)" if "Enable s = None" for s
    using that by (cases "Enable m") (auto simp: ptr enable_read simp del: decode_struct.simps)
  have di: "?d (ptr_member ''disable'' (str_member ''account'') (Disable m)) s = Some (s\<lparr>Disable := Disable m\<rparr>)" if "Disable s = None" for s
    using that by (cases "Disable m") (auto simp: ptr account_read simp del: decode_struct.simps)
  have sg: "?d (ptr_member ''set_guardian'' set_guardian_members (SetGuardian m)) s = Some (s\<lparr>SetGuardian := SetGuardian m\<rparr>)"
    if "SetGuardian s = None" for s
    using that by (cases "SetGuardian m") (auto simp: ptr set_guardian_read simp del: decode_struct.simps)
  have rs: "?d (ptr_member ''recovery_start'' recovery_start_members (RecoveryStart m)) s = Some (s\<lparr>RecoveryStart := RecoveryStart m\<rparr>)"
    if "RecoveryStart s = None" for s
    using that by (cases "RecoveryStart m") (auto simp: ptr recovery_start_read simp del: decode_struct.simps)
  have rc: "?d (ptr_member ''recovery_cancel'' (str_member ''account'') (RecoveryCancel m)) s = Some (s\<lparr>RecoveryCancel := RecoveryCancel m\<rparr>)"
    if "RecoveryCancel s = None" for s
    using that by (cases "RecoveryCancel m") (auto simp: ptr account_read simp del: decode_struct.simps)
  have re: "?d (ptr_member ''recovery_execute'' (str_member ''account'') (RecoveryExecute m)) s = Some (s\<lparr>RecoveryExecute := RecoveryExecute m\<rparr>)"
    if "RecoveryExecute s = None" for s
    using that by (cases "RecoveryExecute m") (auto simp: ptr account_read simp del: decode_struct.simps)
  have ga: "?d (ptr_member ''guardian_approval'' guardian_approval_members (GuardianApproval m)) s = Some (s\<lparr>GuardianApproval := GuardianApproval m\<rparr>)"
    if "GuardianApproval s = None" for s
    using that assms
    by (cases "GuardianApproval m") (auto simp: ptr guardian_approval_read memo_plain_def expiry_ok_def simp del: decode_struct.simps)
  have "decode_struct mfa_fields (JObj (memo_members m)) zero_mfa = Some m"
    unfolding decode_struct.simps memo_members_def fold_opt_append
    by (simp add: ap en di sg rs rc re ga zero_mfa_def)
  then show ?thesis
    by (simp add: memo_json_def envelope_fields_def decode_member_def decode_ptr_def del: decode_struct.simps(1))
       (simp add: decode_member_def decode_ptr_def)
qed


definition memo_text :: "MemoMFA \<Rightarrow> string" where
  "memo_text m = write_json (memo_json m)"

lemma memo_parsed:
  assumes "memo_plain m" "txMemo tx = Some (memo_text m)"
  shows "parseMFAMemo tx = Inr (Some m)"
proof -
  have "json_read (memo_text m) = Some (memo_json m)"
    unfolding memo_text_def by (rule json_read_write [OF memo_json_plain [OF assms(1)] memo_json_depth])
  moreover have "memo_text m \<noteq> []" by (simp add: memo_text_def memo_json_def write_obj_def)
  ultimately show ?thesis
    using assms memo_read [OF assms(1)] by (simp add: parseMFAMemo_def getMemo_def Let_def unmarshal_struct_def)
qed

text \<open>
  C15: the memo a wallet writes is the memo the chain reads: the JSON text of a memo with any
  combination of approvals and control actions, omitted where empty, is parsed back to the same
  approvals and actions, for texts of any ASCII characters (quotes, backslashes, control characters
  and the HTML characters, which are escaped, included) and expiry times from 0 to 2^63 - 1.
\<close>

theorem memo_round_trip:
  assumes "memo_plain m"
  shows "parseMFAMemo (tx\<lparr>txMemo := Some (memo_text m)\<rparr>) = Inr (Some m)"
  using memo_parsed [OF assms, of "tx\<lparr>txMemo := Some (memo_text m)\<rparr>"] by simp

definition sample_approval :: MemoApproval where
  "sample_approval = \<lparr>aAccount = ''do1aaaaaaaaaaaaaaaaaaaa'', aExpiresAt = 1700000300, aSignature = ''c2ln''\<rparr>"

definition sample_memo :: MemoMFA where
  "sample_memo = zero_mfa\<lparr>Approvals := ([sample_approval], []), Disable := Some (''do1'' @ [CHR 0x22, CHR 0x5C, CHR ''<'', CHR 0x0A, CHR 0x01])\<rparr>"

definition sample_tx :: mfa_tx where
  "sample_tx = \<lparr>txMsgs = [], txMemo = None, txTimeoutHeight = None, txSigners = Some (Inr [''aaaaaaaaaaaaaaaaaaaa''])\<rparr>"

lemmas sample_defs = sample_approval_def sample_memo_def sample_tx_def zero_mfa_def

theorem memo_round_trip_witness:
  "memo_plain sample_memo \<and> parseMFAMemo (sample_tx\<lparr>txMemo := Some (memo_text sample_memo)\<rparr>) = Inr (Some sample_memo)"
proof -
  have "memo_plain sample_memo" by (simp add: memo_plain_def sample_defs plain_def expiry_ok_def)
  with memo_round_trip [of sample_memo sample_tx] show ?thesis by blast
qed

end
