(* ===== verification/Mfa_Safety.thy ===== *)
theory Mfa_Safety
  imports Mfa_Memo Sdk_Reference
begin

text \<open>
  What \<open>src/x/mfa\<close> promises: the Do of an account with a policy moves only with an approval, and
  the policy itself changes only with an approval or, after the recovery delay, by its owner.
\<close>


section \<open>Who spends Do\<close>

text \<open>The addresses, as written, that spend Do in a message, nested messages included.\<close>

fun spenders :: "sdk \<Rightarrow> mfa_msg \<Rightarrow> string list" where
  "spenders K (Bank_Send fromAddr toAddr amount) = (if containsDo K amount then [fromAddr] else [])"
| "spenders K (Bank_MultiSend inputs rest) = map fst (filter (\<lambda>i. containsDo K (snd i)) inputs)"
| "spenders K (Staking_Undelegate a c rest) = (if Denom c = MicroDoDenom then [a] else [])"
| "spenders K (Staking_BeginRedelegate a c rest) = (if Denom c = MicroDoDenom then [a] else [])"
| "spenders K (Ibc_Transfer a c rest) = (if Denom c = MicroDoDenom then [a] else [])"
| "spenders K (Wasm_Execute a cs rest) = (if containsDo K cs then [a] else [])"
| "spenders K (Legacy_Execute a cs rest) = (if containsDo K cs then [a] else [])"
| "spenders K (Market_SwapSend a c rest) = (if Denom c = MicroDoDenom then [a] else [])"
| "spenders K (Market_Swap a c rest) = (if Denom c = MicroDoDenom then [a] else [])"
| "spenders K (Exec_msg None rest) = []"
| "spenders K (Exec_msg (Some inner) rest) = concat (map (spenders K) inner)"
| "spenders K (Other_msg encoded) = []"

definition holds :: "sdk \<Rightarrow> accounts \<Rightarrow> address \<Rightarrow> bool" where
  "holds K m a \<longleftrightarrow> kv_get m (AccString K a) = Some a"

text \<open>What adding the protected accounts of some messages does: \<open>xs\<close> are the addresses that spend Do.\<close>

definition adds :: "sdk \<Rightarrow> string list \<Rightarrow> accounts \<Rightarrow> accounts \<Rightarrow> bool" where
  "adds K xs m m' \<longleftrightarrow> (\<forall>a. addr_ok a \<longrightarrow> (holds K m' a \<longleftrightarrow> holds K m a \<or> (\<exists>x \<in> set xs. AccFromBech32 K x = Inr a)))"

lemma adds_nil: "adds K [] m m"
  by (simp add: adds_def)

lemma adds_append: "adds K xs m m' \<Longrightarrow> adds K ys m' m'' \<Longrightarrow> adds K (xs @ ys) m m''"
  by (auto simp: adds_def)

context bech32
begin

lemma holds_set: "addr_ok a \<Longrightarrow> addr_ok b \<Longrightarrow> holds K (kv_set (AccString K b) b m) a \<longleftrightarrow> a = b \<or> holds K m a"
  using acc_inject [of a b] by (auto simp: holds_def)

lemma holds_del: "addr_ok a \<Longrightarrow> addr_ok b \<Longrightarrow> holds K (kv_del (AccString K b) m) a \<longleftrightarrow> a \<noteq> b \<and> holds K m a"
  using acc_inject [of a b] by (auto simp: holds_def)

lemma addAccount_holds:
  assumes "addAccount K addr m = Inr m'"
  obtains b where "AccFromBech32 K addr = Inr b" "addr_ok b" "\<And>a. addr_ok a \<Longrightarrow> holds K m' a \<longleftrightarrow> a = b \<or> holds K m a"
proof -
  from assms obtain b where b: "AccFromBech32 K addr = Inr b" "m' = kv_set (AccString K b) b m"
    by (auto simp: addAccount_def rbind_eq_Inr)
  with acc_write [OF b(1)] that show ?thesis by (simp add: holds_set)
qed

lemma add_if_adds: "add_if K c addr m = Inr m' \<Longrightarrow> adds K (if c then [addr] else []) m m'"
  by (auto simp: add_if_def adds_def elim!: addAccount_holds split: if_splits)

lemma multi_send_adds:
  "fold_res (\<lambda>(addr, coins). add_if K (containsDo K coins) addr) inputs m = Inr m' \<Longrightarrow>
   adds K (map fst (filter (\<lambda>i. containsDo K (snd i)) inputs)) m m'"
proof (induction inputs arbitrary: m)
  case (Cons i inputs)
  then obtain u where u: "add_if K (containsDo K (snd i)) (fst i) m = Inr u"
      "fold_res (\<lambda>(addr, coins). add_if K (containsDo K coins) addr) inputs u = Inr m'"
    by (cases i) (auto simp: rbind_eq_Inr)
  from adds_append [OF add_if_adds [OF u(1)] Cons.IH [OF u(2)]] show ?case by (simp split: if_splits)
qed (simp add: adds_nil)

end

lemma protected_adds:
  "bech32 K \<Longrightarrow> addProtectedAccounts K msg m = Inr m' \<Longrightarrow> adds K (spenders K msg) m m'"
  "bech32 K \<Longrightarrow> addProtectedMsgs K msgs m = Inr m' \<Longrightarrow> adds K (concat (map (spenders K) msgs)) m m'"
proof (induction K msg m and K msgs m arbitrary: m' and m' rule: addProtectedAccounts_addProtectedMsgs.induct)
  case (14 K msg msgs m)
  then obtain u where "addProtectedAccounts K msg m = Inr u" "addProtectedMsgs K msgs u = Inr m'"
    by (auto simp: rbind_eq_Inr)
  with 14 show ?case by (auto intro: adds_append)
qed (auto simp: bech32.multi_send_adds adds_nil dest: bech32.add_if_adds)


section \<open>Approvals\<close>

definition signed_by :: "mfa_lib \<Rightarrow> bytes \<Rightarrow> bytes result \<Rightarrow> string \<Rightarrow> bool" where
  "signed_by L key signBytes sig =
     (case signBytes of
        Inl _ \<Rightarrow> False
      | Inr bz \<Rightarrow> (case DecodeApprovalSignature sig of Inl _ \<Rightarrow> False | Inr b \<Rightarrow> VerifySignature L key bz b))"

lemma signed_by_iff:
  "signed_by L key r sig \<longleftrightarrow> (\<exists>bz b. r = Inr bz \<and> DecodeApprovalSignature sig = Inr b \<and> VerifySignature L key bz b)"
  by (auto simp: signed_by_def split: sum.splits)

text \<open>
  A fresh approval of the transaction for an account, under the key \<open>key\<close>: it signs the chain, the
  account, the expiry, the timeout height, the hash of the messages and the sequences of the signers.
\<close>

definition approved ::
    "sdk \<Rightarrow> mfa_lib \<Rightarrow> mfa_ctx \<Rightarrow> mfa_tx \<Rightarrow> address \<Rightarrow> bytes \<Rightarrow> MemoMFA \<Rightarrow> bool" where
  "approved K L ctx tx a key m =
     list_ex (\<lambda>ap. aAccount ap = AccString K a \<and> BlockTime ctx < aExpiresAt ap \<and>
       signed_by L key (rbind (approvalPayload K L ctx tx (AccString K a) (aExpiresAt ap)) (ApprovalPayload_SignBytes L))
         (aSignature ap)) (fst (Approvals m))"

definition guardian_bytes ::
    "sdk \<Rightarrow> mfa_lib \<Rightarrow> mfa_ctx \<Rightarrow> mfa_tx \<Rightarrow> address \<Rightarrow> string \<Rightarrow> string \<Rightarrow> string \<Rightarrow> int \<Rightarrow> bytes result" where
  "guardian_bytes K L ctx tx a guardian action key expiresAt =
     rbind (messagesHash L (txMsgs tx)) (\<lambda>h.
     rbind (signerSequences K ctx tx) (\<lambda>signers.
     GuardianApprovalPayload_SignBytes L
       (newGuardianApprovalPayload ctx (AccString K a) guardian action key expiresAt (getTimeoutHeight tx) h signers)))"

text \<open>
  What a client builds with the current sequences is what the chain verifies.
\<close>

lemma messagesHash_of_eq: "messagesHash_of L msgs = Inr h \<longleftrightarrow> messagesHash L msgs = Inr h"
proof -
  have "fold_res (\<lambda>msg h. rbind (MarshalInterfaceJSON L msg) (\<lambda>bz. rbind (MustSortJSON L bz) (\<lambda>sorted. Inr (h @ sorted)))) msgs acc = Inr r \<longleftrightarrow>
      fold_res (\<lambda>msg h. rbind (wrap_err ErrInvalidMFAApproval (MarshalInterfaceJSON L msg)) (\<lambda>bz.
        rbind (MustSortJSON L bz) (\<lambda>sorted. Inr (h @ sorted)))) msgs acc = Inr r" for acc r
    by (induction msgs arbitrary: acc) (simp_all add: rbind_eq_Inr)
  then show ?thesis by (simp add: messagesHash_of_def messagesHash_def rbind_eq_Inr)
qed

lemma client_payload:
  assumes "signerSequences K ctx tx = Inr signers"
  shows "BuildApprovalPayload K L ctx tx a t signers = Inr p \<longleftrightarrow> approvalPayload K L ctx tx (AccString K a) t = Inr p"
  using assms by (auto simp: BuildApprovalPayload_def approvalPayload_def rbind_eq_Inr messagesHash_of_eq)

text \<open>
  A fresh approval of the guardian, which names the control action of the memo and the new key,
  signed with the key whose address is the guardian's.
\<close>

definition guardian_approved ::
    "sdk \<Rightarrow> mfa_lib \<Rightarrow> mfa_ctx \<Rightarrow> mfa_tx \<Rightarrow> address \<Rightarrow> string \<Rightarrow> MemoMFA \<Rightarrow> bool" where
  "guardian_approved K L ctx tx a guardian m =
     (case GuardianApproval m of
        None \<Rightarrow> False
      | Some g \<Rightarrow>
          (case guardianControlAction m of
             None \<Rightarrow> False
           | Some (action, key) \<Rightarrow>
               gaAccount g = AccString K a \<and> gaAction g = action \<and> gaApprovalPubKey g = key \<and> BlockTime ctx < gaExpiresAt g \<and>
               (case DecodeApprovalPubKey (gaGuardianPubKey g) of
                  Inl _ \<Rightarrow> False
                | Inr gk \<Rightarrow>
                    rbind (PubKeyAddress L gk) (\<lambda>addr. Inr (AccString K addr)) = Inr guardian \<and>
                    signed_by L gk (guardian_bytes K L ctx tx a guardian action key (gaExpiresAt g)) (gaSignature g))))"

text \<open>The transaction carries an approval of the key of a policy of \<open>a\<close> or of its guardian.\<close>

definition authorised ::
    "sdk \<Rightarrow> mfa_lib \<Rightarrow> mfa_ctx \<Rightarrow> mfa_tx \<Rightarrow> address \<Rightarrow> Policy \<Rightarrow> MemoMFA \<Rightarrow> bool" where
  "authorised K L ctx tx a p m \<longleftrightarrow>
     approved K L ctx tx a (pApprovalPubKey p) m \<or> guardian_approved K L ctx tx a (pGuardianAddress p) m"

lemma find_member: "find P xs = Some x \<Longrightarrow> x \<in> set xs \<and> P x"
  by (auto simp: find_Some_iff)

lemma guardian_verified:
  assumes "verifyGuardianApproval K L ctx (AccString K a) p m (getTimeoutHeight tx) h signers = Inr True"
    and "messagesHash L (txMsgs tx) = Inr h" "signerSequences K ctx tx = Inr signers"
  shows "guardian_approved K L ctx tx a (pGuardianAddress p) m"
  using assms
  by (auto simp: verifyGuardianApproval_def guardian_approved_def guardian_bytes_def signed_by_iff rbind_eq_Inr
           split: option.splits if_splits prod.splits)

lemma verify_account_authorised:
  assumes run: "verify_account K L s ctx m (getTimeoutHeight tx) h signers (AccString K a, a) = Inr ()"
    and h: "messagesHash L (txMsgs tx) = Inr h" and ss: "signerSequences K ctx tx = Inr signers"
    and p: "GetPolicy K s a = Some p"
  shows "authorised K L ctx tx a p m"
proof (cases "approvalByAccount (fst (Approvals m)) (AccString K a)")
  case None
  with run p have "verifyGuardianApproval K L ctx (AccString K a) p m (getTimeoutHeight tx) h signers = Inr True"
    by (auto simp: verify_account_def rbind_eq_Inr)
  then show ?thesis using guardian_verified [OF _ h ss] by (simp add: authorised_def)
next
  case (Some ap)
  then have "ap \<in> set (fst (Approvals m))" "aAccount ap = AccString K a"
    using find_member by (fastforce simp: approvalByAccount_def)+
  moreover have "BlockTime ctx < aExpiresAt ap"
    "signed_by L (pApprovalPubKey p)
       (rbind (approvalPayload K L ctx tx (AccString K a) (aExpiresAt ap)) (ApprovalPayload_SignBytes L)) (aSignature ap)"
    using run p Some h ss
    by (auto simp: verify_account_def rbind_eq_Inr signed_by_iff approvalPayload_def)
  ultimately show ?thesis by (auto simp: authorised_def approved_def list_ex_iff)
qed


lemma fold_res_unit: "fold_res (\<lambda>x _. f x) xs () = Inr () \<longleftrightarrow> (\<forall>x \<in> set xs. f x = Inr ())"
  by (induction xs) (auto simp: rbind_eq_Inr)

lemma approvals_verified:
  assumes run: "verifyApprovals K L rng s ctx tx required m = Inr ()"
    and rng: "\<forall>xs. set (rng xs) = set xs"
    and a: "holds K required a" and p: "GetPolicy K s a = Some p"
  shows "authorised K L ctx tx a p m"
proof -
  from run obtain h signers where h: "messagesHash L (txMsgs tx) = Inr h" and ss: "signerSequences K ctx tx = Inr signers"
    and "fold_res (\<lambda>r _. verify_account K L s ctx m (getTimeoutHeight tx) h signers r) (rng required) () = Inr ()"
    by (auto simp: verifyApprovals_def rbind_eq_Inr)
  moreover have "(AccString K a, a) \<in> set (rng required)"
    using a rng kv_get_member by (fastforce simp: holds_def)
  ultimately have "verify_account K L s ctx m (getTimeoutHeight tx) h signers (AccString K a, a) = Inr ()"
    unfolding fold_res_unit by blast
  from verify_account_authorised [OF this h ss p] show ?thesis .
qed

text \<open>Ante checks on the accounts with a policy: the map of required accounts.\<close>

lemma holds_with_policy: "holds K (accountsWithPolicy K s m) a \<longleftrightarrow> holds K m a \<and> GetPolicy K s a \<noteq> None"
  if "distinct (map fst m)"
proof -
  have "map_of (filter (\<lambda>(key, account). GetPolicy K s account \<noteq> None) m) k = Some b \<longleftrightarrow>
        map_of m k = Some b \<and> GetPolicy K s b \<noteq> None" for k b
    using that by (induction m) (auto simp: image_iff dest: map_of_SomeD)
  then show ?thesis by (auto simp: holds_def accountsWithPolicy_def kv_get_def)
qed

lemma holds_with_policyI:
  "holds K m a \<Longrightarrow> GetPolicy K s a \<noteq> None \<Longrightarrow> kv_ok m \<Longrightarrow> holds K (accountsWithPolicy K s m) a"
  by (simp add: holds_with_policy kv_ok_distinct)


lemma add_if_ok: "add_if K c addr m = Inr m' \<Longrightarrow> kv_ok m \<Longrightarrow> kv_ok m'"
  by (auto simp: add_if_def addAccount_def rbind_eq_Inr split: if_splits)

lemma multi_send_ok:
  "fold_res (\<lambda>(addr, coins). add_if K (containsDo K coins) addr) inputs m = Inr m' \<Longrightarrow> kv_ok m \<Longrightarrow> kv_ok m'"
  by (induction inputs arbitrary: m) (auto simp: rbind_eq_Inr intro: add_if_ok)

lemma protected_ok:
  "addProtectedAccounts K msg m = Inr m' \<Longrightarrow> kv_ok m \<Longrightarrow> kv_ok m'"
  "addProtectedMsgs K msgs m = Inr m' \<Longrightarrow> kv_ok m \<Longrightarrow> kv_ok m'"
  by (induction K msg m and K msgs m arbitrary: m' and m' rule: addProtectedAccounts_addProtectedMsgs.induct)
     (auto simp: rbind_eq_Inr dest: add_if_ok multi_send_ok)

text \<open>
  The control actions that need an approval: changing the key, removing the policy and changing the
  guardian. \<open>control_target\<close> is the account they name.
\<close>

definition control_target :: "sdk \<Rightarrow> MemoMFA \<Rightarrow> address \<Rightarrow> bool" where
  "control_target K m a \<longleftrightarrow>
     (\<exists>e. Enable m = Some e \<and> AccFromBech32 K (eAccount e) = Inr a) \<or>
     (\<exists>d. Disable m = Some d \<and> AccFromBech32 K d = Inr a) \<or>
     (\<exists>g. SetGuardian m = Some g \<and> AccFromBech32 K (gAccount g) = Inr a)"

lemma control_required:
  assumes K: "bech32 K" and run: "addControlRequirements K s m0 memo = Inr m1" and a: "addr_ok a"
  shows "holds K m0 a \<Longrightarrow> holds K m1 a"
    and "control_target K memo a \<Longrightarrow> GetPolicy K s a \<noteq> None \<Longrightarrow> holds K m1 a"
    and "kv_ok m0 \<Longrightarrow> kv_ok m1"
proof -
  note set = bech32.holds_set [OF K a] and ok = bech32.acc_write [OF K]
  from run obtain e1 d1 where
        e: "(case Enable memo of None \<Rightarrow> Inr m0 | Some e \<Rightarrow>
              rbind (control_account K (eAccount e)) (\<lambda>addr.
              Inr (if GetPolicy K s addr \<noteq> None then kv_set (AccString K addr) addr m0 else m0))) = Inr e1"
    and d: "(case Disable memo of None \<Rightarrow> Inr e1 | Some account \<Rightarrow>
              rbind (control_account K account) (\<lambda>addr.
              rbind (fail_if (GetPolicy K s addr = None) ErrInvalidMFAPolicy) (\<lambda>_.
              Inr (kv_set (AccString K addr) addr e1)))) = Inr d1"
    and g: "(case SetGuardian memo of None \<Rightarrow> Inr d1 | Some g \<Rightarrow>
              rbind (control_account K (gAccount g)) (\<lambda>addr.
              rbind (fail_if (GetPolicy K s addr = None) ErrInvalidMFAPolicy) (\<lambda>_.
              rbind (validateOptionalGuardianAddress K (gGuardianAddress g)) (\<lambda>_.
              Inr (kv_set (AccString K addr) addr d1))))) = Inr m1"
    by (auto simp: addControlRequirements_def rbind_eq_Inr)
  have e1: "holds K m0 a \<or> (\<exists>x. Enable memo = Some x \<and> AccFromBech32 K (eAccount x) = Inr a) \<and> GetPolicy K s a \<noteq> None \<Longrightarrow> holds K e1 a"
  proof (cases "Enable memo")
    case (Some x)
    with e obtain b where b: "AccFromBech32 K (eAccount x) = Inr b"
        and e1: "e1 = (if GetPolicy K s b \<noteq> None then kv_set (AccString K b) b m0 else m0)"
      by (auto simp: control_account_def rbind_eq_Inr)
    then show "?thesis" if "holds K m0 a \<or> (\<exists>x. Enable memo = Some x \<and> AccFromBech32 K (eAccount x) = Inr a) \<and> GetPolicy K s a \<noteq> None"
      using that ok [OF b] Some by (cases "GetPolicy K s b") (auto simp: set)
  qed (use e in simp)
  have d1: "holds K e1 a \<or> (\<exists>x. Disable memo = Some x \<and> AccFromBech32 K x = Inr a) \<Longrightarrow> holds K d1 a"
    using d ok by (auto simp: control_account_def rbind_eq_Inr set split: option.splits)
  have g1: "holds K d1 a \<or> (\<exists>x. SetGuardian memo = Some x \<and> AccFromBech32 K (gAccount x) = Inr a) \<Longrightarrow> holds K m1 a"
    using g ok by (auto simp: control_account_def rbind_eq_Inr set split: option.splits)
  show "holds K m0 a \<Longrightarrow> holds K m1 a" using e1 d1 g1 by blast
  show "control_target K memo a \<Longrightarrow> GetPolicy K s a \<noteq> None \<Longrightarrow> holds K m1 a"
    unfolding control_target_def using e1 d1 g1 by blast
  have "kv_ok m0 \<Longrightarrow> kv_ok e1" using e by (auto simp: rbind_eq_Inr split: option.splits if_splits)
  moreover have "kv_ok e1 \<Longrightarrow> kv_ok d1" using d by (auto simp: rbind_eq_Inr split: option.splits)
  moreover have "kv_ok d1 \<Longrightarrow> kv_ok m1" using g by (auto simp: rbind_eq_Inr split: option.splits)
  ultimately show "kv_ok m0 \<Longrightarrow> kv_ok m1" by blast
qed


definition spends :: "sdk \<Rightarrow> mfa_tx \<Rightarrow> address \<Rightarrow> bool" where
  "spends K tx a = list_ex (\<lambda>x. AccFromBech32 K x = Inr a) (concat (map (spenders K) (txMsgs tx)))"

lemma protected_holds:
  assumes "bech32 K" "protectedAccounts K (txMsgs tx) = Inr m"
  shows "kv_ok m" and "addr_ok a \<Longrightarrow> holds K m a \<longleftrightarrow> spends K tx a"
  using protected_ok(2) [of K "txMsgs tx" "[]" m] protected_adds(2) [of K "txMsgs tx" "[]" m] assms
  by (auto simp: protectedAccounts_def adds_def holds_def spends_def list_ex_iff)

text \<open>
  The transaction that carries a recovery: it holds no message at all, or one that sends one unit
  of the Do of \<open>a\<close> to \<open>a\<close> itself.
\<close>

definition recovery_carrier :: "sdk \<Rightarrow> mfa_tx \<Rightarrow> address \<Rightarrow> MemoMFA \<Rightarrow> bool" where
  "recovery_carrier K tx a m \<longleftrightarrow>
     recoveryBypassAccount K m = Inr (Some a) \<and>
     (case txMsgs tx of
        [] \<Rightarrow> True
      | [Bank_Send fromAddr toAddr amount] \<Rightarrow>
          fromAddr = AccString K a \<and> toAddr = AccString K a \<and> CoinsAmountOf K amount MicroDoDenom = 1
      | _ \<Rightarrow> False)"

lemma carrierI:
  "requireRecoveryControlCarrier K tx a = Inr () \<Longrightarrow> recoveryBypassAccount K m = Inr (Some a) \<Longrightarrow> recovery_carrier K tx a m"
  by (auto simp: requireRecoveryControlCarrier_def recovery_carrier_def rbind_eq_Inr
           split: list.splits mfa_msg.splits if_splits)

lemma required_holds:
  assumes K: "bech32 K" and run: "required_accounts K s tx mm = Inr req" and a: "addr_ok a"
    and p: "GetPolicy K s a \<noteq> None"
    and why: "spends K tx a \<or> (\<exists>m. mm = Some m \<and> control_target K m a)"
  shows "holds K req a \<or> (\<exists>m. mm = Some m \<and> recovery_carrier K tx a m)"
proof -
  from run obtain m0 where m0: "protectedAccounts K (txMsgs tx) = Inr m0" by (auto simp: required_accounts_def rbind_eq_Inr)
  note base = protected_holds [OF K m0]
  show ?thesis
  proof (cases mm)
    case None
    then show ?thesis using run m0 why base a p by (auto simp: required_accounts_def intro!: holds_with_policyI)
  next
    case (Some m)
    with run m0 obtain m1 bypass m2 where m1: "addControlRequirements K s m0 m = Inr m1"
      and bypass: "recoveryBypassAccount K m = Inr bypass"
      and m2: "(case bypass of None \<Rightarrow> Inr m1 | Some b \<Rightarrow>
            rbind (requireRecoveryControlCarrier K tx b) (\<lambda>_. Inr (kv_del (AccString K b) m1))) = Inr m2"
      and req: "req = accountsWithPolicy K s m2"
      by (auto simp: required_accounts_def rbind_eq_Inr)
    have h1: "holds K m1 a" "kv_ok m1"
      using control_required [OF K m1 a] why base a p Some by auto
    show ?thesis
    proof (cases bypass)
      case None
      with req m2 h1 p show ?thesis by (auto intro!: holds_with_policyI)
    next
      case b: (Some b)
      with m2 req have carrier: "requireRecoveryControlCarrier K tx b = Inr ()"
        and "req = accountsWithPolicy K s (kv_del (AccString K b) m1)" by (auto simp: rbind_eq_Inr)
      moreover have "addr_ok b"
        using bypass b bech32.acc_write [OF K]
        by (auto simp: recoveryBypassAccount_def control_account_def rbind_eq_Inr split: option.splits)
      ultimately have "a \<noteq> b \<Longrightarrow> holds K req a"
        using h1 p a by (auto intro!: holds_with_policyI simp: bech32.holds_del [OF K])
      then show ?thesis using Some bypass b carrierI [OF carrier, of m] by auto
    qed
  qed
qed

lemma do_needs_approval_lemma:
  assumes K: "bech32 K" and rng: "\<forall>xs. set (rng xs) = set xs"
    and run: "MFARequirement_AnteHandle K L rng False s ctx tx = Inr ()"
    and a: "addr_ok a" and p: "GetPolicy K s a = Some p"
    and why: "spends K tx a \<or> (\<exists>m. parseMFAMemo tx = Inr (Some m) \<and> control_target K m a)"
  shows "\<exists>m. parseMFAMemo tx = Inr (Some m) \<and> (authorised K L ctx tx a p m \<or> recovery_carrier K tx a m)"
proof -
  let ?mm = "memo_of (parseMFAMemo tx)"
  from run obtain req where req: "required_accounts K s tx ?mm = Inr req"
    and check: "(if req \<noteq> []
               then case parseMFAMemo tx of
                      Inl _ \<Rightarrow> Inl ErrInvalidMFAApproval
                    | Inr None \<Rightarrow> Inl ErrMFARequired
                    | Inr (Some m) \<Rightarrow> verifyApprovals K L rng s ctx tx req m
               else fail_if (isl (parseMFAMemo tx) \<and> containsMFAKey (getMemo tx)) ErrInvalidMFAApproval) = Inr ()"
    by (auto simp: MFARequirement_AnteHandle_def Let_def rbind_eq_Inr)
  have parsed: "?mm = Some m \<longleftrightarrow> parseMFAMemo tx = Inr (Some m)" for m
    by (auto simp: memo_of_def split: sum.splits)
  from required_holds [OF K req a] p why parsed
  consider "holds K req a" | m where "parseMFAMemo tx = Inr (Some m)" "recovery_carrier K tx a m" by auto
  then show ?thesis
  proof cases
    case 1
    then have "req \<noteq> []" by (auto simp: holds_def)
    with check obtain m where "parseMFAMemo tx = Inr (Some m)" "verifyApprovals K L rng s ctx tx req m = Inr ()"
      by (auto split: sum.splits option.splits)
    with approvals_verified [OF _ rng 1 p] show ?thesis by blast
  qed auto
qed



section \<open>Changes of a policy\<close>

definition mfa_ok :: "sdk \<Rightarrow> mfa_store \<Rightarrow> bool" where
  "mfa_ok K s \<longleftrightarrow> kv_ok s \<and> list_all (\<lambda>(k, p). k = PolicyKey (pAccount p) \<and> Policy_ValidateBasic K p = Inr ()) s"

definition signs :: "mfa_tx \<Rightarrow> address \<Rightarrow> bool" where
  "signs tx a = (case txSigners tx of Some (Inr as) \<Rightarrow> a \<in> set as | _ \<Rightarrow> False)"

text \<open>The policy of \<open>b\<close> becomes \<open>q\<close>; the other policies stay.\<close>

definition policy_becomes :: "sdk \<Rightarrow> mfa_store \<Rightarrow> address \<Rightarrow> Policy option \<Rightarrow> mfa_store \<Rightarrow> bool" where
  "policy_becomes K s b q s' \<longleftrightarrow> (\<forall>a. addr_ok a \<longrightarrow> GetPolicy K s' a = (if a = b then q else GetPolicy K s a))"

lemma mfa_ok_Nil: "mfa_ok K []"
  by (simp add: mfa_ok_def)

lemma set_kv_del: "set (kv_del k m) \<subseteq> set m"
  by (auto simp: kv_del_def)

lemma mfa_ok_Set: "SetPolicy K s p = Inr s' \<Longrightarrow> mfa_ok K s \<Longrightarrow> mfa_ok K s'"
  using set_kv_set_subset [of "PolicyKey (pAccount p)" p s] by (fastforce simp: SetPolicy_def mfa_ok_def rbind_eq_Inr list_all_iff)

lemma mfa_ok_Delete: "mfa_ok K s \<Longrightarrow> mfa_ok K (DeletePolicy K s a)"
  using set_kv_del [of "PolicyKey (AccString K a)" s] by (fastforce simp: DeletePolicy_def mfa_ok_def list_all_iff)

lemma GetPolicy_account: "mfa_ok K s \<Longrightarrow> GetPolicy K s a = Some p \<Longrightarrow> pAccount p = AccString K a \<and> pEnabled p"
  by (fastforce simp: GetPolicy_def mfa_ok_def list_all_iff PolicyKey_def split: option.splits if_splits dest: kv_get_member)

lemma requireTxSigner_signs: "requireTxSigner tx a = Inr () \<longleftrightarrow> signs tx a"
  by (auto simp: requireTxSigner_def signs_def rbind_eq_Inr wrap_err_def split: option.splits sum.splits)

context bech32
begin

lemma SetPolicy_becomes:
  "SetPolicy K s p = Inr s' \<Longrightarrow> pAccount p = AccString K b \<Longrightarrow> pEnabled p \<Longrightarrow> addr_ok b \<Longrightarrow> policy_becomes K s b (Some p) s'"
  using acc_inject by (auto simp: SetPolicy_def policy_becomes_def GetPolicy_def PolicyKey_def rbind_eq_Inr)

lemma DeletePolicy_becomes: "addr_ok b \<Longrightarrow> policy_becomes K s b None (DeletePolicy K s b)"
  using acc_inject by (auto simp: DeletePolicy_def policy_becomes_def GetPolicy_def PolicyKey_def)

end


lemmas apply_defs = apply_Enable_def apply_Disable_def apply_SetGuardian_def apply_RecoveryStart_def
  apply_RecoveryCancel_def apply_RecoveryExecute_def

text \<open>What a recovery leaves: no policy, or one with the key announced and the same guardian.\<close>

definition recovered :: "Policy \<Rightarrow> PendingRecovery \<Rightarrow> Policy option \<Rightarrow> bool" where
  "recovered p r q =
     (case q of
        None \<Rightarrow> rAction r = RecoveryActionDisable
      | Some q' \<Rightarrow> rAction r = RecoveryActionRotate \<and> pApprovalPubKey q' = rApprovalPubKey r \<and>
                  pGuardianAddress q' = pGuardianAddress p \<and> pPendingRecovery q' = None)"

lemma RecoveryExecute_cases:
  assumes run: "apply_RecoveryExecute K ctx tx x s = Inr s'"
  obtains b p r where "AccFromBech32 K x = Inr b" "signs tx b" "GetPolicy K s b = Some p" "pPendingRecovery p = Some r"
    "rExecuteAfter r \<le> BlockTime ctx"
    "rAction r = RecoveryActionDisable \<and> s' = DeletePolicy K s b \<or>
     rAction r = RecoveryActionRotate \<and>
     SetPolicy K s ((NewPolicy K b (rApprovalPubKey r))\<lparr>pGuardianAddress := pGuardianAddress p\<rparr>) = Inr s'"
proof -
  from run obtain b where b: "AccFromBech32 K x = Inr b" "signs tx b" and
    step: "(case GetPolicy K s b of
       None \<Rightarrow> Inl ErrInvalidMFAPolicy
     | Some policy \<Rightarrow>
         (case pPendingRecovery policy of
            None \<Rightarrow> Inl ErrInvalidMFAPolicy
          | Some r \<Rightarrow>
              rbind (fail_if (rExecuteAfter r > BlockTime ctx) ErrMFARequired) (\<lambda>_.
              if rAction r = RecoveryActionDisable then Inr (DeletePolicy K s b)
              else if rAction r = RecoveryActionRotate
              then wrap_err ErrInvalidMFAPolicy
                     (SetPolicy K s ((NewPolicy K b (rApprovalPubKey r))\<lparr>pGuardianAddress := pGuardianAddress policy\<rparr>))
              else Inl ErrInvalidMFAPolicy))) = Inr s'"
    by (auto simp: apply_RecoveryExecute_def control_account_def rbind_eq_Inr requireTxSigner_signs)
  from step obtain p where p: "GetPolicy K s b = Some p" by (cases "GetPolicy K s b") auto
  with step obtain r where r: "pPendingRecovery p = Some r" by (cases "pPendingRecovery p") auto
  from that [OF b p r] step p r show thesis by (auto simp: rbind_eq_Inr split: if_splits)
qed

lemma apply_ok:
  assumes "mfa_ok K s"
  shows "apply_Enable K tx e s = Inr s' \<Longrightarrow> mfa_ok K s'"
    and "apply_Disable K tx d s = Inr s' \<Longrightarrow> mfa_ok K s'"
    and "apply_SetGuardian K tx g s = Inr s' \<Longrightarrow> mfa_ok K s'"
    and "apply_RecoveryStart K ctx tx r s = Inr s' \<Longrightarrow> mfa_ok K s'"
    and "apply_RecoveryCancel K tx c s = Inr s' \<Longrightarrow> mfa_ok K s'"
    and "apply_RecoveryExecute K ctx tx x s = Inr s' \<Longrightarrow> mfa_ok K s'"
proof -
  show "apply_RecoveryExecute K ctx tx x s = Inr s' \<Longrightarrow> mfa_ok K s'"
    using assms by (elim RecoveryExecute_cases) (auto simp: mfa_ok_Delete dest: mfa_ok_Set)
qed (use assms in \<open>auto simp: apply_defs Let_def rbind_eq_Inr mfa_ok_Delete split: option.splits if_splits dest: mfa_ok_Set\<close>)

context bech32
begin

lemma Enable_effect:
  assumes "apply_Enable K tx e s = Inr s'"
  obtains b q where "AccFromBech32 K (eAccount e) = Inr b" "signs tx b"
    "DecodeApprovalPubKey (eApprovalPubKey e) = Inr (pApprovalPubKey q)" "policy_becomes K s b (Some q) s'"
proof -
  from assms obtain b key g where b: "AccFromBech32 K (eAccount e) = Inr b" and rest: "requireTxSigner tx b = Inr ()"
    "DecodeApprovalPubKey (eApprovalPubKey e) = Inr key" "SetPolicy K s ((NewPolicy K b key)\<lparr>pGuardianAddress := g\<rparr>) = Inr s'"
    by (auto simp: apply_Enable_def control_account_def rbind_eq_Inr Let_def)
  then show thesis
    using that [of b "(NewPolicy K b key)\<lparr>pGuardianAddress := g\<rparr>"] SetPolicy_becomes [OF rest(3), of b] acc_write [OF b]
    by (simp add: NewPolicy_def requireTxSigner_signs)
qed

lemma Disable_effect:
  assumes "apply_Disable K tx d s = Inr s'"
  obtains b where "AccFromBech32 K d = Inr b" "signs tx b" "policy_becomes K s b None s'"
  using assms acc_write DeletePolicy_becomes
  by (auto simp: apply_Disable_def control_account_def rbind_eq_Inr requireTxSigner_signs)

lemma SetGuardian_effect:
  assumes "apply_SetGuardian K tx g s = Inr s'" and ok: "mfa_ok K s"
  obtains b q where "AccFromBech32 K (gAccount g) = Inr b" "signs tx b" "GetPolicy K s b \<noteq> None" "policy_becomes K s b (Some q) s'"
proof -
  from assms obtain b p where b: "AccFromBech32 K (gAccount g) = Inr b" and rest: "requireTxSigner tx b = Inr ()"
    "GetPolicy K s b = Some p" "SetPolicy K s (p\<lparr>pGuardianAddress := gGuardianAddress g\<rparr>) = Inr s'"
    by (auto simp: apply_SetGuardian_def control_account_def rbind_eq_Inr split: option.splits)
  then show thesis
    using that [of b "p\<lparr>pGuardianAddress := gGuardianAddress g\<rparr>"] SetPolicy_becomes [OF rest(3), of b] acc_write [OF b]
      GetPolicy_account [OF ok rest(2)]
    by (simp add: requireTxSigner_signs)
qed

lemma RecoveryStart_effect:
  assumes "apply_RecoveryStart K ctx tx r s = Inr s'" and ok: "mfa_ok K s"
  obtains b p key where "AccFromBech32 K (sAccount r) = Inr b" "signs tx b" "GetPolicy K s b = Some p"
    "recoveryApprovalPubKey (sAction r) (sApprovalPubKey r) = Inr key"
    "policy_becomes K s b (Some (p\<lparr>pPendingRecovery := Some
       \<lparr>rAction = sAction r, rApprovalPubKey = key, rRequestedAt = BlockTime ctx,
        rExecuteAfter = i64 (BlockTime ctx + RecoveryDelaySeconds)\<rparr>\<rparr>)) s'"
proof -
  from assms obtain b p key where b: "AccFromBech32 K (sAccount r) = Inr b" and rest: "requireTxSigner tx b = Inr ()"
    "GetPolicy K s b = Some p" "recoveryApprovalPubKey (sAction r) (sApprovalPubKey r) = Inr key"
    "SetPolicy K s (p\<lparr>pPendingRecovery := Some
       \<lparr>rAction = sAction r, rApprovalPubKey = key, rRequestedAt = BlockTime ctx,
        rExecuteAfter = i64 (BlockTime ctx + RecoveryDelaySeconds)\<rparr>\<rparr>) = Inr s'"
    by (auto simp: apply_RecoveryStart_def control_account_def rbind_eq_Inr Let_def split: option.splits)
  then show thesis
    using that [of b p key] SetPolicy_becomes [OF rest(4), of b] acc_write [OF b] GetPolicy_account [OF ok rest(2)]
    by (simp add: requireTxSigner_signs)
qed

lemma RecoveryCancel_effect:
  assumes "apply_RecoveryCancel K tx c s = Inr s'" and ok: "mfa_ok K s"
  obtains b p where "AccFromBech32 K c = Inr b" "signs tx b" "GetPolicy K s b = Some p"
    "policy_becomes K s b (Some (p\<lparr>pPendingRecovery := None\<rparr>)) s'"
proof -
  from assms obtain b p where b: "AccFromBech32 K c = Inr b" and rest: "requireTxSigner tx b = Inr ()"
    "GetPolicy K s b = Some p" "SetPolicy K s (p\<lparr>pPendingRecovery := None\<rparr>) = Inr s'"
    by (auto simp: apply_RecoveryCancel_def control_account_def rbind_eq_Inr split: option.splits)
  then show thesis
    using that [of b p] SetPolicy_becomes [OF rest(3), of b] acc_write [OF b] GetPolicy_account [OF ok rest(2)]
    by (simp add: requireTxSigner_signs)
qed

lemma RecoveryExecute_effect:
  assumes "apply_RecoveryExecute K ctx tx x s = Inr s'" and ok: "mfa_ok K s"
  obtains b p r q where "AccFromBech32 K x = Inr b" "signs tx b" "GetPolicy K s b = Some p" "pPendingRecovery p = Some r"
    "rExecuteAfter r \<le> BlockTime ctx" "recovered p r q" "policy_becomes K s b q s'"
proof -
  from assms(1) obtain b p r where b: "AccFromBech32 K x = Inr b" and base: "signs tx b" "GetPolicy K s b = Some p"
      "pPendingRecovery p = Some r" "rExecuteAfter r \<le> BlockTime ctx"
    and run: "rAction r = RecoveryActionDisable \<and> s' = DeletePolicy K s b \<or>
         rAction r = RecoveryActionRotate \<and>
         SetPolicy K s ((NewPolicy K b (rApprovalPubKey r))\<lparr>pGuardianAddress := pGuardianAddress p\<rparr>) = Inr s'"
    by (rule RecoveryExecute_cases)
  have addr: "addr_ok b" using acc_write [OF b] by simp
  from run show thesis
  proof (elim disjE conjE)
    assume "rAction r = RecoveryActionDisable" "s' = DeletePolicy K s b"
    then show thesis using that [OF b base, of None] DeletePolicy_becomes [OF addr] by (simp add: recovered_def)
  next
    let ?q = "(NewPolicy K b (rApprovalPubKey r))\<lparr>pGuardianAddress := pGuardianAddress p\<rparr>"
    assume "rAction r = RecoveryActionRotate" "SetPolicy K s ?q = Inr s'"
    then show thesis using that [OF b base, of "Some ?q"] SetPolicy_becomes [of s ?q s' b] addr
      by (simp add: recovered_def NewPolicy_def)
  qed
qed

end


lemma rbind_return: "rbind r Inr = r"
  by (cases r) simp_all

lemma control_cases:
  assumes "validateControlActionCount m = Inr ()" and "applyControlActions K ctx tx m s = Inr s'"
  obtains (none) "s' = s" 
    | (enable) e where "Enable m = Some e" "apply_Enable K tx e s = Inr s'" "recoveryBypassAccount K m = Inr None"
    | (disable) d where "Disable m = Some d" "apply_Disable K tx d s = Inr s'" "recoveryBypassAccount K m = Inr None"
    | (guardian) g where "SetGuardian m = Some g" "apply_SetGuardian K tx g s = Inr s'" "recoveryBypassAccount K m = Inr None"
    | (start) r where "RecoveryStart m = Some r" "apply_RecoveryStart K ctx tx r s = Inr s'"
    | (cancel) c where "RecoveryCancel m = Some c" "apply_RecoveryCancel K tx c s = Inr s'"
    | (execute) x where "RecoveryExecute m = Some x" "apply_RecoveryExecute K ctx tx x s = Inr s'"
  using assms
  by (cases "Enable m"; cases "Disable m"; cases "SetGuardian m"; cases "RecoveryStart m"; cases "RecoveryCancel m";
      cases "RecoveryExecute m")
     (auto simp: validateControlActionCount_def applyControlActions_def opt_step_def recoveryBypassAccount_def rbind_return)

lemma mfa_ante_cases:
  assumes "mfa_ante K L rng ctx tx s = Inr s'"
  obtains "s' = s" "MFARequirement_AnteHandle K L rng False s ctx tx = Inr ()"
    | m where "parseMFAMemo tx = Inr (Some m)" "MFARequirement_AnteHandle K L rng False s ctx tx = Inr ()"
        "validateControlActionCount m = Inr ()" "applyControlActions K ctx tx m s = Inr s'"
  using assms
  by (auto simp: mfa_ante_def MFAControlApply_AnteHandle_def rbind_eq_Inr split: sum.splits option.splits if_splits)

lemma apply_control_ok:
  assumes "validateControlActionCount m = Inr ()" "applyControlActions K ctx tx m s = Inr s'" "mfa_ok K s"
  shows "mfa_ok K s'"
  using assms by (elim control_cases) (auto dest: apply_ok)

lemma mfa_ante_ok: "mfa_ante K L rng ctx tx s = Inr s' \<Longrightarrow> mfa_ok K s \<Longrightarrow> mfa_ok K s'"
  by (elim mfa_ante_cases) (auto dest: apply_control_ok)

text \<open>The first approval of an account without a policy: it is signed by the key it registers.\<close>

lemma initial_enable_approved:
  assumes "verifyInitialEnableApproval K L s ctx tx m = Inr ()" "Enable m = Some e"
    and "AccFromBech32 K (eAccount e) = Inr a" "GetPolicy K s a = None"
    and "DecodeApprovalPubKey (eApprovalPubKey e) = Inr key"
  shows "approved K L ctx tx a key m"
proof -
  from assms obtain ap where ap: "approvalForAccount (fst (Approvals m)) (AccString K a) = Some ap"
    and "BlockTime ctx < aExpiresAt ap"
    and "signed_by L key (rbind (approvalPayload K L ctx tx (AccString K a) (aExpiresAt ap)) (ApprovalPayload_SignBytes L)) (aSignature ap)"
    by (auto simp: verifyInitialEnableApproval_def control_account_def rbind_eq_Inr signed_by_iff split: option.splits)
  with find_member [OF ap [unfolded approvalForAccount_def]] show ?thesis by (auto simp: approved_def list_ex_iff)
qed

lemma requirement_initial:
  "MFARequirement_AnteHandle K L rng False s ctx tx = Inr () \<Longrightarrow> parseMFAMemo tx = Inr (Some m) \<Longrightarrow>
   verifyInitialEnableApproval K L s ctx tx m = Inr ()"
  by (auto simp: MFARequirement_AnteHandle_def Let_def memo_of_def rbind_eq_Inr)


text \<open>
  The ways a transaction may change the policy of \<open>a\<close> from \<open>old\<close> to \<open>new\<close>.
\<close>

definition policy_change ::
    "sdk \<Rightarrow> mfa_lib \<Rightarrow> mfa_ctx \<Rightarrow> mfa_tx \<Rightarrow> MemoMFA \<Rightarrow> address \<Rightarrow> Policy option \<Rightarrow> Policy option \<Rightarrow> bool" where
  "policy_change K L ctx tx m a old new =
     (case old of
        None \<Rightarrow> (case new of None \<Rightarrow> True | Some q \<Rightarrow> approved K L ctx tx a (pApprovalPubKey q) m)
      | Some p \<Rightarrow>
          authorised K L ctx tx a p m \<or>
          (case new of
             None \<Rightarrow> False
           | Some q \<Rightarrow>
               q = p\<lparr>pPendingRecovery := pPendingRecovery q\<rparr> \<and>
               (case pPendingRecovery q of None \<Rightarrow> True | Some r \<Rightarrow> rExecuteAfter r = i64 (BlockTime ctx + RecoveryDelaySeconds))) \<or>
          (case pPendingRecovery p of
             None \<Rightarrow> False
           | Some r \<Rightarrow> rExecuteAfter r \<le> BlockTime ctx \<and> recovered p r new))"

lemma becomes_changed:
  assumes "policy_becomes K s b q s'" "addr_ok a" "GetPolicy K s' a \<noteq> GetPolicy K s a"
  shows "a = b" and "GetPolicy K s' a = q"
  using assms by (auto simp: policy_becomes_def split: if_splits)

lemma recovery_changes:
  assumes K: "bech32 K" and ok: "mfa_ok K s" and a: "addr_ok a" and changed: "GetPolicy K s' a \<noteq> GetPolicy K s a"
    and run: "apply_RecoveryStart K ctx tx r s = Inr s' \<or> apply_RecoveryCancel K tx c s = Inr s' \<or>
              apply_RecoveryExecute K ctx tx x s = Inr s'"
  shows "signs tx a \<and> policy_change K L ctx tx m a (GetPolicy K s a) (GetPolicy K s' a)"
  using run
proof (elim disjE)
  note new = becomes_changed [OF _ a changed]
  assume "apply_RecoveryStart K ctx tx r s = Inr s'"
  from this ok obtain b p key where eff: "signs tx b" "GetPolicy K s b = Some p"
      "policy_becomes K s b (Some (p\<lparr>pPendingRecovery := Some
       \<lparr>rAction = sAction r, rApprovalPubKey = key, rRequestedAt = BlockTime ctx,
        rExecuteAfter = i64 (BlockTime ctx + RecoveryDelaySeconds)\<rparr>\<rparr>)) s'"
    by (rule bech32.RecoveryStart_effect [OF K])
  then show ?thesis using new [OF eff(3)] by (auto simp: policy_change_def)
next
  note new = becomes_changed [OF _ a changed]
  assume "apply_RecoveryCancel K tx c s = Inr s'"
  from this ok obtain b p where eff: "signs tx b" "GetPolicy K s b = Some p"
      "policy_becomes K s b (Some (p\<lparr>pPendingRecovery := None\<rparr>)) s'"
    by (rule bech32.RecoveryCancel_effect [OF K])
  then show ?thesis using new [OF eff(3)] by (auto simp: policy_change_def)
next
  note new = becomes_changed [OF _ a changed]
  assume "apply_RecoveryExecute K ctx tx x s = Inr s'"
  from this ok obtain b p r q where eff: "signs tx b" "GetPolicy K s b = Some p" "pPendingRecovery p = Some r"
      "rExecuteAfter r \<le> BlockTime ctx" "recovered p r q" "policy_becomes K s b q s'"
    by (rule bech32.RecoveryExecute_effect [OF K])
  then show ?thesis using new [OF eff(6)] by (auto simp: policy_change_def)
qed

lemma policy_changes:
  assumes K: "bech32 K" and rng: "\<forall>xs. set (rng xs) = set xs" and ok: "mfa_ok K s"
    and run: "mfa_ante K L rng ctx tx s = Inr s'"
    and a: "addr_ok a" and changed: "GetPolicy K s' a \<noteq> GetPolicy K s a"
  shows "signs tx a \<and> (\<exists>m. parseMFAMemo tx = Inr (Some m) \<and> policy_change K L ctx tx m a (GetPolicy K s a) (GetPolicy K s' a))"
proof -
  from run changed obtain m where m: "parseMFAMemo tx = Inr (Some m)"
    and req: "MFARequirement_AnteHandle K L rng False s ctx tx = Inr ()"
    and count: "validateControlActionCount m = Inr ()" and "apply": "applyControlActions K ctx tx m s = Inr s'"
    by (auto elim: mfa_ante_cases)
  note new = becomes_changed [OF _ a changed]
  have auth: "authorised K L ctx tx a p m"
    if "control_target K m a" "recoveryBypassAccount K m = Inr None" "GetPolicy K s a = Some p" for p
    using do_needs_approval_lemma [OF K rng req a that(3)] that m by (auto simp: recovery_carrier_def)
  from count "apply" show ?thesis
  proof (cases rule: control_cases)
    case (enable e)
    from enable(2) obtain b q where eff: "AccFromBech32 K (eAccount e) = Inr b" "signs tx b"
      "DecodeApprovalPubKey (eApprovalPubKey e) = Inr (pApprovalPubKey q)" "policy_becomes K s b (Some q) s'"
      by (rule bech32.Enable_effect [OF K])
    have "policy_change K L ctx tx m a (GetPolicy K s a) (Some q)"
      using initial_enable_approved [OF requirement_initial [OF req m] enable(1)] auth enable eff new [OF eff(4)]
      by (cases "GetPolicy K s a") (auto simp: policy_change_def control_target_def)
    then show ?thesis using eff new [OF eff(4)] m by auto
  next
    case (disable d)
    from disable(2) obtain b where eff: "AccFromBech32 K d = Inr b" "signs tx b" "policy_becomes K s b None s'"
      by (rule bech32.Disable_effect [OF K])
    then show ?thesis using auth disable new [OF eff(3)] m changed
      by (cases "GetPolicy K s a") (auto simp: policy_change_def control_target_def)
  next
    case (guardian g)
    from guardian(2) ok obtain b q where eff: "AccFromBech32 K (gAccount g) = Inr b" "signs tx b" "GetPolicy K s b \<noteq> None"
      "policy_becomes K s b (Some q) s'" by (rule bech32.SetGuardian_effect [OF K])
    then show ?thesis using auth guardian new [OF eff(4)] m by (auto simp: policy_change_def control_target_def)
  next
    case (start r)
    then show ?thesis using recovery_changes [OF K ok a changed] m by blast
  next
    case (cancel c)
    then show ?thesis using recovery_changes [OF K ok a changed] m by blast
  next
    case (execute x)
    then show ?thesis using recovery_changes [OF K ok a changed] m by blast
  qed (use changed in simp)
qed


text \<open>
  A sequence of transactions, each in its own context; a transaction that a decorator refuses
  leaves the store as it was.
\<close>

definition mfa_deliver ::
    "sdk \<Rightarrow> mfa_lib \<Rightarrow> (accounts \<Rightarrow> accounts) \<Rightarrow> mfa_ctx \<Rightarrow> mfa_tx \<Rightarrow> mfa_store \<Rightarrow> mfa_store" where
  "mfa_deliver K L rng ctx tx s = (case mfa_ante K L rng ctx tx s of Inl _ \<Rightarrow> s | Inr s' \<Rightarrow> s')"

definition mfa_run ::
    "sdk \<Rightarrow> mfa_lib \<Rightarrow> (accounts \<Rightarrow> accounts) \<Rightarrow> (mfa_ctx \<times> mfa_tx) list \<Rightarrow> mfa_store \<Rightarrow> mfa_store" where
  "mfa_run K L rng = fold (\<lambda>(ctx, tx). mfa_deliver K L rng ctx tx)"

lemma mfa_deliver_cases:
  obtains "mfa_deliver K L rng ctx tx s = s" | "mfa_ante K L rng ctx tx s = Inr (mfa_deliver K L rng ctx tx s)"
  by (cases "mfa_ante K L rng ctx tx s") (auto simp: mfa_deliver_def)

lemma mfa_deliver_ok: "mfa_ok K s \<Longrightarrow> mfa_ok K (mfa_deliver K L rng ctx tx s)"
  by (rule mfa_deliver_cases [of K L rng ctx tx s]) (auto intro: mfa_ante_ok)

definition unauthorised :: "sdk \<Rightarrow> mfa_lib \<Rightarrow> address \<Rightarrow> Policy \<Rightarrow> mfa_ctx \<Rightarrow> mfa_tx \<Rightarrow> bool" where
  "unauthorised K L a p ctx tx =
     (case parseMFAMemo tx of Inr (Some m) \<Rightarrow> \<not> authorised K L ctx tx a p m | _ \<Rightarrow> True)"

lemma authorised_pending: "authorised K L ctx tx a (p\<lparr>pPendingRecovery := r\<rparr>) m = authorised K L ctx tx a p m"
  by (simp add: authorised_def)

lemma mfa_run_ok: "mfa_ok K s \<Longrightarrow> mfa_ok K (mfa_run K L rng txs s)"
  by (induction txs arbitrary: s) (auto simp: mfa_run_def intro: mfa_deliver_ok)

text \<open>
  \<open>waiting\<close>: the policy of \<open>a\<close> is \<open>p\<close> up to the pending recovery, which executes after \<open>t\<close> at the earliest.
\<close>

definition waiting :: "sdk \<Rightarrow> address \<Rightarrow> Policy \<Rightarrow> int \<Rightarrow> mfa_store \<Rightarrow> bool" where
  "waiting K a p t s =
     (case GetPolicy K s a of
        None \<Rightarrow> False
      | Some q \<Rightarrow> q = p\<lparr>pPendingRecovery := pPendingRecovery q\<rparr> \<and>
                 (case pPendingRecovery q of None \<Rightarrow> True | Some r \<Rightarrow> t \<le> rExecuteAfter r))"

lemma waiting_step:
  assumes K: "bech32 K" and rng: "\<forall>xs. set (rng xs) = set xs" and ok: "mfa_ok K s"
    and run: "mfa_ante K L rng ctx tx s = Inr s'" and a: "addr_ok a" and w: "waiting K a p t s"
    and un: "unauthorised K L a p ctx tx" and late: "BlockTime ctx < t"
    and start: "t \<le> i64 (BlockTime ctx + RecoveryDelaySeconds)"
  shows "waiting K a p t s'"
proof (cases "GetPolicy K s' a = GetPolicy K s a")
  case False
  from policy_changes [OF K rng ok run a this] obtain m where m: "parseMFAMemo tx = Inr (Some m)"
    and change: "policy_change K L ctx tx m a (GetPolicy K s a) (GetPolicy K s' a)" by auto
  from w obtain q where q: "GetPolicy K s a = Some q" "q = p\<lparr>pPendingRecovery := pPendingRecovery q\<rparr>"
    and due: "\<And>r. pPendingRecovery q = Some r \<Longrightarrow> t \<le> rExecuteAfter r"
    by (auto simp: waiting_def split: option.splits)
  have "\<not> authorised K L ctx tx a q m"
    using un m by (subst q(2)) (simp add: authorised_pending unauthorised_def)
  with change q(1) due late obtain q' where q': "GetPolicy K s' a = Some q'" "q' = q\<lparr>pPendingRecovery := pPendingRecovery q'\<rparr>"
    "case pPendingRecovery q' of None \<Rightarrow> True | Some r \<Rightarrow> rExecuteAfter r = i64 (BlockTime ctx + RecoveryDelaySeconds)"
    by (force simp: policy_change_def split: option.splits)
  have "q' = p\<lparr>pPendingRecovery := pPendingRecovery q'\<rparr>" using q(2) q'(2) by (cases p; cases q; cases q') simp
  with q' start show ?thesis by (auto simp: waiting_def split: option.splits)
qed (use w in \<open>simp add: waiting_def\<close>)

lemma waiting_run:
  assumes K: "bech32 K" and rng: "\<forall>xs. set (rng xs) = set xs" and a: "addr_ok a"
    and "list_all (\<lambda>(ctx, tx). unauthorised K L a p ctx tx \<and> BlockTime ctx < t \<and>
           t \<le> i64 (BlockTime ctx + RecoveryDelaySeconds)) txs"
    and "mfa_ok K s" "waiting K a p t s"
  shows "waiting K a p t (mfa_run K L rng txs s)"
proof -
  have step: "waiting K a p t (mfa_deliver K L rng ctx tx s)"
    if "mfa_ok K s" "waiting K a p t s" "unauthorised K L a p ctx tx" "BlockTime ctx < t"
      "t \<le> i64 (BlockTime ctx + RecoveryDelaySeconds)" for ctx tx s
    using that by (cases rule: mfa_deliver_cases [of K L rng ctx tx s]) (auto intro: waiting_step [OF K rng _ _ a])
  show ?thesis using assms(4-6)
    by (induction txs arbitrary: s) (auto simp: mfa_run_def intro: step mfa_deliver_ok)
qed


text \<open>The memo of a recovery needs no approval when its transaction is the carrier.\<close>

lemma carrier_protected:
  assumes K: "bech32 K" and a: "addr_ok a" and c: "requireRecoveryControlCarrier K tx a = Inr ()"
  shows "\<exists>m. protectedAccounts K (txMsgs tx) = Inr m \<and> kv_del (AccString K a) m = []"
proof (cases "txMsgs tx")
  case (Cons msg msgs)
  with c obtain amount where "txMsgs tx = [Bank_Send (AccString K a) (AccString K a) amount]"
    by (auto simp: requireRecoveryControlCarrier_def rbind_eq_Inr split: list.splits mfa_msg.splits)
  then show ?thesis using bech32.acc_read [OF K a]
    by (auto simp: protectedAccounts_def add_if_def addAccount_def kv_del_def)
qed (simp add: protectedAccounts_def kv_del_def)

lemma recovery_requirement:
  assumes K: "bech32 K" and a: "addr_ok a" and c: "requireRecoveryControlCarrier K tx a = Inr ()"
    and m: "parseMFAMemo tx = Inr (Some m)" and count: "validateControlActionCount m = Inr ()"
    and control: "\<And>accounts. addControlRequirements K s accounts m = Inr accounts"
    and bypass: "recoveryBypassAccount K m = Inr (Some a)" and no_enable: "Enable m = None"
  shows "MFARequirement_AnteHandle K L rng False s ctx tx = Inr ()"
  using carrier_protected [OF K a c] assms
  by (auto simp: MFARequirement_AnteHandle_def required_accounts_def memo_of_def accountsWithPolicy_def
      verifyInitialEnableApproval_def)

lemma mfa_ok_valid:
  assumes "mfa_ok K s" "GetPolicy K s a = Some p" shows "Policy_ValidateBasic K p = Inr ()"
  using assms by (fastforce simp: mfa_ok_def list_all_iff GetPolicy_def split: option.splits if_splits dest: kv_get_member)

lemma recovery_key_length:
  "recoveryApprovalPubKey act key = Inr b \<Longrightarrow> (if act = RecoveryActionDisable then b = [] else length b = PubKeySize)"
  by (auto simp: recoveryApprovalPubKey_def rbind_eq_Inr split: if_splits)

definition start_memo :: "sdk \<Rightarrow> address \<Rightarrow> string \<Rightarrow> string \<Rightarrow> MemoMFA" where
  "start_memo K a act key =
     zero_mfa\<lparr>RecoveryStart := Some \<lparr>sAccount = AccString K a, sAction = act, sApprovalPubKey = key\<rparr>\<rparr>"

definition execute_memo :: "sdk \<Rightarrow> address \<Rightarrow> MemoMFA" where
  "execute_memo K a = zero_mfa\<lparr>RecoveryExecute := Some (AccString K a)\<rparr>"

lemmas memo_defs = start_memo_def execute_memo_def zero_mfa_def

lemma start_succeeds:
  assumes K: "bech32 K" and ok: "mfa_ok K s" and a: "addr_ok a" and p: "GetPolicy K s a = Some p"
    and m: "parseMFAMemo tx = Inr (Some (start_memo K a act key))" and c: "requireRecoveryControlCarrier K tx a = Inr ()"
    and signer: "signs tx a" and act: "IsRecoveryAction act" and key: "recoveryApprovalPubKey act key = Inr b"
    and t: "0 < BlockTime ctx" "BlockTime ctx + RecoveryDelaySeconds < 2 ^ 63"
  shows "\<exists>s'. mfa_ante K L rng ctx tx s = Inr s' \<and> mfa_ok K s' \<and>
     GetPolicy K s' a = Some (p\<lparr>pPendingRecovery := Some \<lparr>rAction = act, rApprovalPubKey = b,
        rRequestedAt = BlockTime ctx, rExecuteAfter = BlockTime ctx + RecoveryDelaySeconds\<rparr>\<rparr>)"
proof -
  let ?q = "p\<lparr>pPendingRecovery := Some \<lparr>rAction = act, rApprovalPubKey = b,
        rRequestedAt = BlockTime ctx, rExecuteAfter = BlockTime ctx + RecoveryDelaySeconds\<rparr>\<rparr>"
  have i: "i64 (BlockTime ctx + RecoveryDelaySeconds) = BlockTime ctx + RecoveryDelaySeconds"
    using t by (simp add: i64_def RecoveryDelaySeconds_def)
  have acc: "AccFromBech32 K (AccString K a) = Inr a" using bech32.acc_read [OF K a] .
  have "Policy_ValidateBasic K ?q = Inr ()"
    using mfa_ok_valid [OF ok p] recovery_key_length [OF key] act t i
    by (auto simp: Policy_ValidateBasic_def PendingRecovery_ValidateBasic_def rbind_eq_Inr IsRecoveryAction_def
        RecoveryActionDisable_def RecoveryActionRotate_def split: if_splits)
  then obtain s' where set: "SetPolicy K s ?q = Inr s'" by (simp add: SetPolicy_def)
  have "mfa_ante K L rng ctx tx s = Inr s'"
    using recovery_requirement [OF K a c m, of s L rng ctx] acc p act key signer [folded requireTxSigner_signs] set i m
    by (simp add: mfa_ante_def MFAControlApply_AnteHandle_def memo_defs validateControlActionCount_def addControlRequirements_def
        control_account_def recoveryBypassAccount_def validateRecoveryRequest_def applyControlActions_def opt_step_def
        apply_RecoveryStart_def Let_def)
  moreover have "mfa_ok K s'" using mfa_ok_Set [OF set ok] .
  moreover have "GetPolicy K s' a = Some ?q"
    using bech32.SetPolicy_becomes [OF K set, of a] GetPolicy_account [OF ok p] a by (simp add: policy_becomes_def)
  ultimately show ?thesis by blast
qed


lemma NewPolicy_valid:
  assumes "bech32 K" "addr_ok a" "length key = PubKeySize"
    and "g = [] \<or> (\<exists>x. AccFromBech32 K g = Inr x)"
  shows "Policy_ValidateBasic K ((NewPolicy K a key)\<lparr>pGuardianAddress := g\<rparr>) = Inr ()"
  using assms bech32.acc_read [of K a] by (auto simp: Policy_ValidateBasic_def NewPolicy_def)

lemma guardian_valid:
  "Policy_ValidateBasic K p = Inr () \<Longrightarrow> pEnabled p \<Longrightarrow> pGuardianAddress p = [] \<or> (\<exists>x. AccFromBech32 K (pGuardianAddress p) = Inr x)"
  by (auto simp: Policy_ValidateBasic_def rbind_eq_Inr split: if_splits)

lemma execute_succeeds:
  assumes K: "bech32 K" and ok: "mfa_ok K s" and a: "addr_ok a" and p: "GetPolicy K s a = Some p"
    and m: "parseMFAMemo tx = Inr (Some (execute_memo K a))" and c: "requireRecoveryControlCarrier K tx a = Inr ()"
    and signer: "signs tx a" and r: "pPendingRecovery p = Some r" and due: "rExecuteAfter r \<le> BlockTime ctx"
  shows "\<exists>s'. mfa_ante K L rng ctx tx s = Inr s' \<and>
     GetPolicy K s' a = (if rAction r = RecoveryActionDisable then None
       else Some ((NewPolicy K a (rApprovalPubKey r))\<lparr>pGuardianAddress := pGuardianAddress p\<rparr>))"
proof -
  have acc: "AccFromBech32 K (AccString K a) = Inr a" using bech32.acc_read [OF K a] .
  have valid: "IsRecoveryAction (rAction r)" "rAction r = RecoveryActionRotate \<Longrightarrow> length (rApprovalPubKey r) = PubKeySize"
    using mfa_ok_valid [OF ok p] r GetPolicy_account [OF ok p]
    by (auto simp: Policy_ValidateBasic_def PendingRecovery_ValidateBasic_def rbind_eq_Inr split: if_splits)
  have same: "mfa_ante K L rng ctx tx s = apply_RecoveryExecute K ctx tx (AccString K a) s"
    using recovery_requirement [OF K a c m, of s L rng ctx] acc p r m
    by (simp add: mfa_ante_def MFAControlApply_AnteHandle_def memo_defs validateControlActionCount_def addControlRequirements_def
        control_account_def recoveryBypassAccount_def applyControlActions_def opt_step_def)
  let ?q = "(NewPolicy K a (rApprovalPubKey r))\<lparr>pGuardianAddress := pGuardianAddress p\<rparr>"
  show ?thesis
  proof (cases "rAction r = RecoveryActionDisable")
    case True
    then have "mfa_ante K L rng ctx tx s = Inr (DeletePolicy K s a)"
      using same acc p r due signer [folded requireTxSigner_signs] by (simp add: apply_RecoveryExecute_def control_account_def)
    then show ?thesis using True bech32.DeletePolicy_becomes [OF K a, of s] a by (simp add: policy_becomes_def)
  next
    case False
    then have rot: "rAction r = RecoveryActionRotate" using valid(1) by (simp add: IsRecoveryAction_def)
    have "Policy_ValidateBasic K ?q = Inr ()"
      using NewPolicy_valid [OF K a valid(2) [OF rot] guardian_valid [OF mfa_ok_valid [OF ok p]]] GetPolicy_account [OF ok p] by simp
    then obtain s' where set: "SetPolicy K s ?q = Inr s'" by (simp add: SetPolicy_def)
    have "mfa_ante K L rng ctx tx s = Inr s'"
      using False rot same acc p r due set signer [folded requireTxSigner_signs] by (simp add: apply_RecoveryExecute_def control_account_def)
    then show ?thesis using False bech32.SetPolicy_becomes [OF K set, of a] a by (simp add: policy_becomes_def NewPolicy_def)
  qed
qed


lemma kv_set_same: "kv_ok m \<Longrightarrow> kv_get m k = Some v \<Longrightarrow> kv_set k v m = m"
  by (rule kv_ext) auto

text \<open>An approval names the messages and the signers; nothing in it depends on the rest of the memo.\<close>

lemma verifyApprovals_memo:
  assumes "GuardianApproval m = None" "GuardianApproval m' = None" "Approvals m' = Approvals m"
  shows "verifyApprovals K L rng s ctx (tx\<lparr>txMemo := x\<rparr>) req m' = verifyApprovals K L rng s ctx tx req m"
proof -
  have "verify_account K L s ctx m' h msgs signers r = verify_account K L s ctx m h msgs signers r" for h msgs signers r
    using assms by (simp add: verify_account_def verifyGuardianApproval_def cong: option.case_cong)
  then show ?thesis by (simp add: verifyApprovals_def signerSequences_def getTimeoutHeight_def)
qed

definition no_control :: "MemoMFA \<Rightarrow> bool" where
  "no_control m \<longleftrightarrow> Enable m = None \<and> Disable m = None \<and> SetGuardian m = None \<and> RecoveryStart m = None \<and>
     RecoveryCancel m = None \<and> RecoveryExecute m = None \<and> GuardianApproval m = None"

lemma disable_rides_along:
  assumes K: "bech32 K" and run: "MFARequirement_AnteHandle K L rng False s ctx tx = Inr ()"
    and m: "parseMFAMemo tx = Inr (Some m)" and none: "no_control m"
    and a: "addr_ok a" and sp: "spends K tx a" and p: "GetPolicy K s a = Some p" and signer: "signs tx a"
    and m': "parseMFAMemo (tx\<lparr>txMemo := Some memo\<rparr>) = Inr (Some (m\<lparr>Disable := Some (AccString K a)\<rparr>))"
  shows "\<exists>s'. mfa_ante K L rng ctx (tx\<lparr>txMemo := Some memo\<rparr>) s = Inr s' \<and> GetPolicy K s' a = None"
proof -
  let ?tx = "tx\<lparr>txMemo := Some memo\<rparr>" and ?m = "m\<lparr>Disable := Some (AccString K a)\<rparr>"
  have acc: "AccFromBech32 K (AccString K a) = Inr a" using bech32.acc_read [OF K a] .
  from run m none obtain m0 where m0: "protectedAccounts K (txMsgs tx) = Inr m0"
    by (auto simp: MFARequirement_AnteHandle_def required_accounts_def memo_of_def rbind_eq_Inr Let_def)
  have same: "kv_set (AccString K a) a m0 = m0"
    using protected_holds [OF K m0] sp a kv_set_same [of m0 "AccString K a" a] by (simp add: holds_def)
  have control: "required_accounts K s ?tx (Some ?m) = required_accounts K s tx (Some m)"
    using none m0 same acc p
    by (simp add: required_accounts_def no_control_def validateControlActionCount_def addControlRequirements_def
        control_account_def recoveryBypassAccount_def)
  have "MFARequirement_AnteHandle K L rng False s ctx ?tx = Inr ()"
    using run m m' none control verifyApprovals_memo [of m ?m K L rng s ctx "Some memo" tx]
    by (auto simp: MFARequirement_AnteHandle_def Let_def memo_of_def no_control_def verifyInitialEnableApproval_def rbind_eq_Inr
        split: if_splits)
  moreover have "requireTxSigner ?tx a = Inr ()" using signer by (simp add: requireTxSigner_signs signs_def)
  ultimately have "mfa_ante K L rng ctx ?tx s = Inr (DeletePolicy K s a)"
    using m' none acc
    by (simp add: mfa_ante_def MFAControlApply_AnteHandle_def no_control_def validateControlActionCount_def applyControlActions_def
        opt_step_def apply_Disable_def control_account_def)
  then show ?thesis using bech32.DeletePolicy_becomes [OF K a, of s] a by (simp add: policy_becomes_def)
qed



section \<open>Genesis\<close>

text \<open>
  \<open>stored_ok\<close>: besides being well formed, every stored policy is enabled and its account is in the
  form \<open>AccAddress.String\<close> writes.
\<close>

definition stored_ok :: "sdk \<Rightarrow> mfa_store \<Rightarrow> bool" where
  "stored_ok K s \<longleftrightarrow> mfa_ok K s \<and>
     list_all (\<lambda>(k, p). pEnabled p \<and> (case AccFromBech32 K (pAccount p) of Inl _ \<Rightarrow> False | Inr a \<Rightarrow> AccString K a = pAccount p)) s"

lemma stored_Set:
  assumes "SetPolicy K s p = Inr s'" "stored_ok K s" "bech32 K" "addr_ok a" "pAccount p = AccString K a" "pEnabled p"
  shows "stored_ok K s'"
  using assms mfa_ok_Set [OF assms(1)] bech32.acc_read [OF assms(3,4)] set_kv_set_subset [of "PolicyKey (pAccount p)" p s]
  by (fastforce simp: stored_ok_def SetPolicy_def rbind_eq_Inr list_all_iff)

lemma stored_Delete: "stored_ok K s \<Longrightarrow> stored_ok K (DeletePolicy K s a)"
  using mfa_ok_Delete [of K s a] set_kv_del [of "PolicyKey (AccString K a)" s]
  by (fastforce simp: stored_ok_def DeletePolicy_def list_all_iff)

lemma stored_apply:
  assumes K: "bech32 K" and st: "stored_ok K s" and count: "validateControlActionCount m = Inr ()"
    and run: "applyControlActions K ctx tx m s = Inr s'"
  shows "stored_ok K s'"
proof -
  have ok: "mfa_ok K s" using st by (simp add: stored_ok_def)
  note set = stored_Set [OF _ st K] and acc = bech32.acc_write [OF K, THEN conjunct2] and get = GetPolicy_account [OF ok]
  have keep: "stored_ok K s'"
    if "SetPolicy K s q = Inr s'" "GetPolicy K s b = Some p" "AccFromBech32 K t = Inr b" "pAccount q = pAccount p" "pEnabled q = pEnabled p"
    for q b t p
    using set [OF that(1) acc [OF that(3)]] get [OF that(2)] that by simp
  from count run show ?thesis
  proof (cases rule: control_cases)
    case (enable e)
    then show ?thesis
      by (auto simp: apply_Enable_def control_account_def rbind_eq_Inr Let_def NewPolicy_def intro: set acc)
  next
    case (disable d)
    then show ?thesis using st by (auto simp: apply_Disable_def control_account_def rbind_eq_Inr intro: stored_Delete)
  next
    case (guardian g)
    then show ?thesis
      by (auto simp: apply_SetGuardian_def control_account_def rbind_eq_Inr split: option.splits intro: keep)
  next
    case (start r)
    then obtain b p q where "SetPolicy K s q = Inr s'" "GetPolicy K s b = Some p" "AccFromBech32 K (sAccount r) = Inr b"
        "pAccount q = pAccount p" "pEnabled q = pEnabled p"
      by (auto simp: apply_RecoveryStart_def control_account_def rbind_eq_Inr Let_def split: option.splits)
    then show ?thesis by (rule keep)
  next
    case (cancel c)
    then show ?thesis
      by (auto simp: apply_RecoveryCancel_def control_account_def rbind_eq_Inr split: option.splits intro: keep)
  next
    case (execute x)
    from execute(2) show ?thesis using st
      by (elim RecoveryExecute_cases) (auto simp: NewPolicy_def intro: set acc stored_Delete)
  qed (use st in simp)
qed

lemma stored_run: "bech32 K \<Longrightarrow> stored_ok K s \<Longrightarrow> stored_ok K (mfa_run K L rng txs s)"
proof (induction txs arbitrary: s)
  case (Cons x txs)
  obtain ctx tx where x: "x = (ctx, tx)" by fastforce
  have "stored_ok K (mfa_deliver K L rng ctx tx s)"
    using Cons.prems
    by (cases rule: mfa_deliver_cases [of K L rng ctx tx s]) (auto elim!: mfa_ante_cases intro: stored_apply)
  with Cons show ?case by (simp add: x mfa_run_def)
qed (simp add: mfa_run_def)


lemma stored_export:
  assumes K: "bech32 K" and st: "stored_ok K s"
  shows "mfa_ExportGenesis K s = map snd s"
proof -
  have ok: "kv_ok s" using st by (simp add: stored_ok_def mfa_ok_def)
  have "(case AccFromBech32 K (tl k) of Inl _ \<Rightarrow> [] | Inr addr \<Rightarrow> (case GetPolicy K s addr of None \<Rightarrow> [] | Some policy \<Rightarrow> [policy])) = [p]"
    if "(k, p) \<in> set s" for k p
    using st that kv_get_iff [OF ok, of k p]
    by (fastforce simp: stored_ok_def mfa_ok_def list_all_iff PolicyKey_def GetPolicy_def split: sum.splits)
  then have "mfa_ExportGenesis K s = concat (map (\<lambda>(k, p). [p]) s)"
    unfolding mfa_ExportGenesis_def by (intro arg_cong [of _ _ concat] map_cong) auto
  also have "\<dots> = map snd s" by (induction s) auto
  finally show ?thesis .
qed

lemma genesis_accepts:
  assumes st: "stored_ok K s" shows "mfa_ValidateGenesis K (map snd s) = Inr ()"
proof -
  have keys: "map fst s = map (PolicyKey \<circ> pAccount \<circ> snd) s"
    using st by (auto simp: stored_ok_def mfa_ok_def list_all_iff)
  have "distinct (map (PolicyKey \<circ> pAccount \<circ> snd) s)"
    using kv_ok_distinct [of s] st keys by (simp add: stored_ok_def mfa_ok_def)
  then have dist: "distinct (map pAccount (map snd s))"
    by (simp add: distinct_map inj_on_def PolicyKey_def)
  have all: "list_all (\<lambda>p. Policy_ValidateBasic K p = Inr ()) (map snd s)"
    using st by (auto simp: stored_ok_def mfa_ok_def list_all_iff)
  have "\<exists>seen'. fold_res (\<lambda>policy seen.
        rbind (Policy_ValidateBasic K policy) (\<lambda>_.
        rbind (fail_if (pAccount policy \<in> set seen) (Text ''duplicate mfa policy for account'')) (\<lambda>_.
        Inr (pAccount policy # seen)))) ps seen = Inr seen'"
    if "distinct (map pAccount ps)" "list_all (\<lambda>p. Policy_ValidateBasic K p = Inr ()) ps" "set (map pAccount ps) \<inter> set seen = {}"
    for ps :: "Policy list" and seen
    using that by (induction ps arbitrary: seen) auto
  from this [of "map snd s" "[]"] dist all show ?thesis by (auto simp: mfa_ValidateGenesis_def)
qed

lemma genesis_restores:
  assumes K: "bech32 K" and st: "stored_ok K s"
  shows "mfa_InitGenesis K [] (mfa_ExportGenesis K s) = Inr s"
proof -
  have set: "must (SetPolicy K s0 (snd kp)) = Inr ((\<lambda>(k, p). kv_set k p) kp s0)" if "kp \<in> set s" for kp s0
    using st that by (auto simp: stored_ok_def mfa_ok_def list_all_iff SetPolicy_def)
  have "fold_res (\<lambda>policy s. must (SetPolicy K s policy)) (map snd s) [] = Inr (fold (\<lambda>(k, p). kv_set k p) s [])"
    unfolding fold_res_map by (rule fold_res_pure_on) (rule set)
  also have "fold (\<lambda>(k, p). kv_set k p) s [] = s"
    using kv_rebuild [of s] st by (simp add: stored_ok_def mfa_ok_def)
  finally show ?thesis using stored_export [OF K st] genesis_accepts [OF st] by (simp add: mfa_InitGenesis_def)
qed



section \<open>The promises\<close>

text \<open>An instance: keys sign by themselves, messages are written as their name.\<close>

definition sample_lib :: mfa_lib where
  "sample_lib = \<lparr>MarshalInterfaceJSON = (\<lambda>_. Inr ''{}''), MustSortJSON = Inr,
     VerifySignature = (\<lambda>key _ sig. sig = key), PubKeyAddress = (\<lambda>key. Inr (take 20 key))\<rparr>"

definition sample_key :: bytes where
  "sample_key = replicate 33 (CHR ''k'')"

definition sample_policy :: Policy where
  "sample_policy = NewPolicy ref_sdk ''aaaaaaaaaaaaaaaaaaaa'' sample_key"

definition sample_store :: mfa_store where
  "sample_store = [(PolicyKey ''do1aaaaaaaaaaaaaaaaaaaa'', sample_policy)]"

definition sample_ctx :: "int \<Rightarrow> mfa_ctx" where
  "sample_ctx t = \<lparr>BlockTime = t, ChainID = ''dochain-1'', Sequences = (\<lambda>_. Some 7)\<rparr>"

definition approve_memo :: MemoMFA where
  "approve_memo = zero_mfa\<lparr>Approvals :=
     ([\<lparr>aAccount = ''do1aaaaaaaaaaaaaaaaaaaa'', aExpiresAt = 1700000300, aSignature = EncodeApprovalSignature sample_key\<rparr>], [])\<rparr>"

definition send_tx :: "MemoMFA \<Rightarrow> mfa_tx" where
  "send_tx m = \<lparr>txMsgs = [Bank_Send ''do1aaaaaaaaaaaaaaaaaaaa'' ''do1bbbbbbbbbbbbbbbbbbbb'' [\<lparr>Denom = ''udo'', Amount = 5\<rparr>]], txMemo = Some (memo_text m),
     txTimeoutHeight = None, txSigners = Some (Inr [''aaaaaaaaaaaaaaaaaaaa''])\<rparr>"

definition self_tx :: "MemoMFA \<Rightarrow> mfa_tx" where
  "self_tx m = (send_tx m)\<lparr>txMsgs := [Bank_Send ''do1aaaaaaaaaaaaaaaaaaaa'' ''do1aaaaaaaaaaaaaaaaaaaa'' [\<lparr>Denom = ''udo'', Amount = 1\<rparr>]]\<rparr>"

lemma sample_addr: "addr_ok ''aaaaaaaaaaaaaaaaaaaa''" "AccString ref_sdk ''aaaaaaaaaaaaaaaaaaaa'' = ''do1aaaaaaaaaaaaaaaaaaaa''" "AccFromBech32 ref_sdk ''do1aaaaaaaaaaaaaaaaaaaa'' = Inr ''aaaaaaaaaaaaaaaaaaaa''"
  by (simp_all add: addr_ok_def ref_sdk_simps strip_def)

lemma sample_get: "GetPolicy ref_sdk sample_store ''aaaaaaaaaaaaaaaaaaaa'' = Some sample_policy"
  by (simp add: GetPolicy_def sample_addr sample_store_def kv_get_def sample_policy_def NewPolicy_def)

lemma sample_ok: "mfa_ok ref_sdk sample_store"
  by (simp add: mfa_ok_def sample_store_def kv_ok_def sample_policy_def NewPolicy_def strip_def Policy_ValidateBasic_def
      sample_key_def)

lemma sample_signature: "DecodeApprovalSignature (EncodeApprovalSignature b) = Inr b"
  by (simp add: DecodeApprovalSignature_def EncodeApprovalSignature_def b64_decode_encode)

lemma sample_spends: "spends ref_sdk (send_tx m) ''aaaaaaaaaaaaaaaaaaaa''"
  by (simp add: spends_def send_tx_def containsDo_def ref_sdk_simps strip_def ref_amount_of_def MicroDoDenom_def)

lemma approve_memo_plain: "memo_plain approve_memo"
proof -
  have "plain (EncodeApprovalSignature sample_key)" by code_simp
  then show ?thesis by (simp add: memo_plain_def approve_memo_def zero_mfa_def plain_def expiry_ok_def)
qed

lemma send_parsed: "memo_plain m \<Longrightarrow> parseMFAMemo (send_tx m) = Inr (Some m)"
  by (rule memo_parsed) (simp_all add: send_tx_def)

lemma self_parsed: "memo_plain m \<Longrightarrow> parseMFAMemo (self_tx m) = Inr (Some m)"
  by (rule memo_parsed) (simp_all add: self_tx_def send_tx_def)


lemma sample_requirement:
  "MFARequirement_AnteHandle ref_sdk sample_lib id False sample_store (sample_ctx 1700000000) (send_tx approve_memo) = Inr ()"
proof -
  have memo: "parseMFAMemo (send_tx approve_memo) = Inr (Some approve_memo)"
    by (rule send_parsed [OF approve_memo_plain])
  have req: "required_accounts ref_sdk sample_store (send_tx approve_memo) (Some approve_memo) = Inr [(''do1aaaaaaaaaaaaaaaaaaaa'', ''aaaaaaaaaaaaaaaaaaaa'')]"
    by (simp add: required_accounts_def protectedAccounts_def send_tx_def add_if_def addAccount_def containsDo_def
        strip_def ref_amount_of_def MicroDoDenom_def validateControlActionCount_def addControlRequirements_def
        recoveryBypassAccount_def approve_memo_def zero_mfa_def accountsWithPolicy_def sample_get)
  obtain h where h: "messagesHash sample_lib (txMsgs (send_tx approve_memo)) = Inr h"
    by (simp add: messagesHash_def sample_lib_def send_tx_def)
  have "verifyApprovals ref_sdk sample_lib id sample_store (sample_ctx 1700000000) (send_tx approve_memo)
      [(''do1aaaaaaaaaaaaaaaaaaaa'', ''aaaaaaaaaaaaaaaaaaaa'')] approve_memo = Inr ()"
    using h
    by (simp add: verifyApprovals_def signerSequences_def send_tx_def verify_account_def sample_get approvalByAccount_def
        approve_memo_def sample_ctx_def sample_signature ApprovalPayload_SignBytes_def sample_lib_def sample_policy_def NewPolicy_def)
  then show ?thesis using memo req
    by (simp add: MFARequirement_AnteHandle_def Let_def memo_of_def verifyInitialEnableApproval_def approve_memo_def zero_mfa_def)
qed

text \<open>
  C1: Do never leaves an account with a policy without an approval. If the requirement decorator
  lets a transaction pass in which the account \<open>a\<close> spends Do, in a bank send or multi-send, by
  undelegating or redelegating, by an IBC transfer, with a contract call or a swap, directly or in
  an authz execution, then its memo carries an unexpired approval of exactly these messages and
  signer sequences by the key of the policy, or one of the guardian for the control action of the
  memo; the only exception is the transaction that carries a recovery of \<open>a\<close>, which sends one
  unit from \<open>a\<close> to \<open>a\<close>. The order in which Go ranges over the required accounts does not matter.
\<close>

theorem do_needs_approval:
  assumes "bech32 K" and "\<forall>xs. set (rng xs) = set xs"
    and "MFARequirement_AnteHandle K L rng False s ctx tx = Inr ()"
    and "addr_ok a" and "spends K tx a" and "GetPolicy K s a = Some p"
  shows "\<exists>m. parseMFAMemo tx = Inr (Some m) \<and> (authorised K L ctx tx a p m \<or> recovery_carrier K tx a m)"
  using do_needs_approval_lemma [OF assms(1-4) assms(6)] assms(5) by blast

theorem do_needs_approval_witness:
  "spends ref_sdk (send_tx approve_memo) ''aaaaaaaaaaaaaaaaaaaa'' \<and>
   (\<exists>m. parseMFAMemo (send_tx approve_memo) = Inr (Some m) \<and>
      (authorised ref_sdk sample_lib (sample_ctx 1700000000) (send_tx approve_memo) ''aaaaaaaaaaaaaaaaaaaa'' sample_policy m \<or>
       recovery_carrier ref_sdk (send_tx approve_memo) ''aaaaaaaaaaaaaaaaaaaa'' m))"
  using do_needs_approval [OF ref.bech32_axioms _ sample_requirement sample_addr(1) sample_spends sample_get] sample_spends
  by simp

text \<open>
  C8: a policy changes only when its account signs and one of these holds: an account without a
  policy gets one, approved by the key it registers; the old key or the guardian approved; only the
  pending recovery changed, with an execution time of three days from now; or a recovery is
  executed that was due, which removes the policy or installs the announced key and keeps the
  guardian. No transaction changes the policy of another account.
\<close>

theorem policy_change_authorised:
  assumes "bech32 K" and "\<forall>xs. set (rng xs) = set xs" and "mfa_ok K s"
    and "mfa_ante K L rng ctx tx s = Inr s'"
    and "addr_ok a" and "GetPolicy K s' a \<noteq> GetPolicy K s a"
  shows "signs tx a \<and> (\<exists>m. parseMFAMemo tx = Inr (Some m) \<and> policy_change K L ctx tx m a (GetPolicy K s a) (GetPolicy K s' a))"
  by (rule policy_changes [OF assms])

text \<open>
  C3: an attacker who has the key of an account but no approval cannot loosen its policy within
  three days. From a state in which \<open>a\<close> has a policy without a pending recovery, after any sequence
  of transactions whose block times lie within the recovery delay, none of which carries an approval
  of the key or of the guardian of the policy, the policy still has the same key and guardian.
\<close>

theorem policy_survives_delay:
  assumes "bech32 K" and "\<forall>xs. set (rng xs) = set xs" and "mfa_ok K s" and "addr_ok a"
    and "GetPolicy K s a = Some p" and "pPendingRecovery p = None"
    and "0 \<le> t" and "t + 2 * RecoveryDelaySeconds < 2 ^ 63"
    and "list_all (\<lambda>(ctx, tx). unauthorised K L a p ctx tx \<and> t \<le> BlockTime ctx \<and>
           BlockTime ctx < t + RecoveryDelaySeconds) txs"
  shows "\<exists>r. GetPolicy K (mfa_run K L rng txs s) a = Some (p\<lparr>pPendingRecovery := r\<rparr>)"
proof -
  have times: "list_all (\<lambda>(ctx, tx). unauthorised K L a p ctx tx \<and> BlockTime ctx < t + RecoveryDelaySeconds \<and>
      t + RecoveryDelaySeconds \<le> i64 (BlockTime ctx + RecoveryDelaySeconds)) txs"
    using assms(7-9) by (fastforce simp: list_all_iff i64_def RecoveryDelaySeconds_def)
  have "p = p\<lparr>pPendingRecovery := None\<rparr>" using assms(6) by (cases p) simp
  then have "waiting K a p (t + RecoveryDelaySeconds) s" using assms(5,6) by (auto simp: waiting_def)
  from waiting_run [OF assms(1,2,4) times assms(3) this] show ?thesis
    by (auto simp: waiting_def split: option.splits)
qed


lemma sample_carrier: "requireRecoveryControlCarrier ref_sdk (self_tx m) ''aaaaaaaaaaaaaaaaaaaa'' = Inr ()"
  by (simp add: requireRecoveryControlCarrier_def self_tx_def ref_amount_of_def MicroDoDenom_def) code_simp

lemma sample_signs: "signs (self_tx m) ''aaaaaaaaaaaaaaaaaaaa''" "signs (send_tx m) ''aaaaaaaaaaaaaaaaaaaa''"
  by (simp_all add: signs_def self_tx_def send_tx_def)

definition recover_memo :: MemoMFA where
  "recover_memo = start_memo ref_sdk ''aaaaaaaaaaaaaaaaaaaa'' RecoveryActionDisable []"

lemma recover_parsed: "parseMFAMemo (self_tx recover_memo) = Inr (Some (start_memo ref_sdk ''aaaaaaaaaaaaaaaaaaaa'' RecoveryActionDisable []))"
  unfolding recover_memo_def
  by (rule self_parsed) (simp add: memo_plain_def start_memo_def zero_mfa_def plain_def RecoveryActionDisable_def)

lemma execute_parsed: "parseMFAMemo (self_tx (execute_memo ref_sdk ''aaaaaaaaaaaaaaaaaaaa'')) = Inr (Some (execute_memo ref_sdk ''aaaaaaaaaaaaaaaaaaaa''))"
  by (rule self_parsed) (simp add: memo_plain_def execute_memo_def zero_mfa_def plain_def)

lemma disable_key: "recoveryApprovalPubKey RecoveryActionDisable [] = Inr []" "IsRecoveryAction RecoveryActionDisable"
  by (simp_all add: recoveryApprovalPubKey_def IsRecoveryAction_def)

lemma sample_start:
  assumes "0 < t" "t < 2000000000"
  obtains s' where "mfa_ante ref_sdk sample_lib id (sample_ctx t) (self_tx recover_memo) sample_store = Inr s'"
    "GetPolicy ref_sdk s' ''aaaaaaaaaaaaaaaaaaaa'' \<noteq> GetPolicy ref_sdk sample_store ''aaaaaaaaaaaaaaaaaaaa''"
proof -
  from start_succeeds [OF ref.bech32_axioms sample_ok sample_addr(1) sample_get recover_parsed sample_carrier sample_signs(1)
      disable_key(2,1), of "sample_ctx t" sample_lib id]
  obtain s' r where "mfa_ante ref_sdk sample_lib id (sample_ctx t) (self_tx recover_memo) sample_store = Inr s'"
    "GetPolicy ref_sdk s' ''aaaaaaaaaaaaaaaaaaaa'' = Some (sample_policy\<lparr>pPendingRecovery := Some r\<rparr>)"
    using assms by (auto simp: sample_ctx_def RecoveryDelaySeconds_def)
  then show thesis using that by (simp add: sample_get sample_policy_def NewPolicy_def)
qed

theorem policy_change_authorised_witness:
  "mfa_ok ref_sdk sample_store \<and>
   (\<exists>s' m. mfa_ante ref_sdk sample_lib id (sample_ctx 1700000000) (self_tx recover_memo) sample_store = Inr s' \<and>
      policy_change ref_sdk sample_lib (sample_ctx 1700000000) (self_tx recover_memo) m ''aaaaaaaaaaaaaaaaaaaa'' (Some sample_policy)
        (GetPolicy ref_sdk s' ''aaaaaaaaaaaaaaaaaaaa''))"
proof -
  obtain s' where s': "mfa_ante ref_sdk sample_lib id (sample_ctx 1700000000) (self_tx recover_memo) sample_store = Inr s'"
    "GetPolicy ref_sdk s' ''aaaaaaaaaaaaaaaaaaaa'' \<noteq> GetPolicy ref_sdk sample_store ''aaaaaaaaaaaaaaaaaaaa''" by (rule sample_start [of 1700000000]) simp_all
  have "\<forall>xs. set (id xs) = set (xs :: accounts)" by simp
  from policy_change_authorised [OF ref.bech32_axioms this sample_ok s'(1) sample_addr(1) s'(2)] s'(1) sample_ok
  show ?thesis by (auto simp: sample_get)
qed

lemma sample_unauthorised: "unauthorised ref_sdk sample_lib ''aaaaaaaaaaaaaaaaaaaa'' sample_policy ctx (self_tx recover_memo)"
  by (simp add: unauthorised_def recover_parsed authorised_def approved_def guardian_approved_def start_memo_def zero_mfa_def)

theorem policy_survives_delay_witness:
  "\<exists>r. GetPolicy ref_sdk (mfa_run ref_sdk sample_lib id [(sample_ctx 1700000000, self_tx recover_memo)] sample_store) ''aaaaaaaaaaaaaaaaaaaa'' =
     Some (sample_policy\<lparr>pPendingRecovery := r\<rparr>)"
proof (rule policy_survives_delay [OF ref.bech32_axioms _ sample_ok sample_addr(1) sample_get])
  show "\<forall>xs. set (id xs) = set (xs :: accounts)" by simp
  show "list_all (\<lambda>(ctx, tx). unauthorised ref_sdk sample_lib ''aaaaaaaaaaaaaaaaaaaa'' sample_policy ctx tx \<and> 1700000000 \<le> BlockTime ctx \<and>
      BlockTime ctx < 1700000000 + RecoveryDelaySeconds) [(sample_ctx 1700000000, self_tx recover_memo)]"
    by (simp add: sample_unauthorised sample_ctx_def RecoveryDelaySeconds_def)
qed (simp_all add: sample_policy_def NewPolicy_def RecoveryDelaySeconds_def)


text \<open>
  C13: the owner who has lost the approval key is never locked out. A transaction signed by the
  account that carries a recovery request succeeds without any approval and leaves the policy
  pending; a second one after the three days succeeds too, and then the policy is gone or holds the
  announced key, with the guardian it had.
\<close>

theorem recovery_completes:
  assumes "bech32 K" and "mfa_ok K s" and "addr_ok a" and "GetPolicy K s a = Some p"
    and "IsRecoveryAction act" and "recoveryApprovalPubKey act key = Inr b"
    and "parseMFAMemo tx1 = Inr (Some (start_memo K a act key))" and "requireRecoveryControlCarrier K tx1 a = Inr ()" and "signs tx1 a"
    and "parseMFAMemo tx2 = Inr (Some (execute_memo K a))" and "requireRecoveryControlCarrier K tx2 a = Inr ()" and "signs tx2 a"
    and "0 < BlockTime ctx1" and "BlockTime ctx1 + RecoveryDelaySeconds < 2 ^ 63"
    and "BlockTime ctx1 + RecoveryDelaySeconds \<le> BlockTime ctx2"
  shows "\<exists>s1 s2. mfa_ante K L rng ctx1 tx1 s = Inr s1 \<and> mfa_ante K L rng ctx2 tx2 s1 = Inr s2 \<and>
     GetPolicy K s2 a = (if act = RecoveryActionDisable then None
       else Some ((NewPolicy K a b)\<lparr>pGuardianAddress := pGuardianAddress p\<rparr>))"
proof -
  from start_succeeds [OF assms(1-4) assms(7-9) assms(5,6) assms(13,14), of L rng]
  obtain s1 where s1: "mfa_ante K L rng ctx1 tx1 s = Inr s1" "mfa_ok K s1"
    and p1: "GetPolicy K s1 a = Some (p\<lparr>pPendingRecovery := Some \<lparr>rAction = act, rApprovalPubKey = b,
        rRequestedAt = BlockTime ctx1, rExecuteAfter = BlockTime ctx1 + RecoveryDelaySeconds\<rparr>\<rparr>)" by blast
  from execute_succeeds [OF assms(1) s1(2) assms(3) p1 assms(10-12), of _ ctx2 L rng] assms(15)
  obtain s2 where "mfa_ante K L rng ctx2 tx2 s1 = Inr s2"
    "GetPolicy K s2 a = (if act = RecoveryActionDisable then None
       else Some ((NewPolicy K a b)\<lparr>pGuardianAddress := pGuardianAddress p\<rparr>))" by auto
  with s1 show ?thesis by blast
qed

theorem recovery_completes_witness:
  "\<exists>s1 s2. mfa_ante ref_sdk sample_lib id (sample_ctx 1700000000) (self_tx recover_memo) sample_store = Inr s1 \<and>
     mfa_ante ref_sdk sample_lib id (sample_ctx 1700259200) (self_tx (execute_memo ref_sdk ''aaaaaaaaaaaaaaaaaaaa'')) s1 = Inr s2 \<and>
     GetPolicy ref_sdk s2 ''aaaaaaaaaaaaaaaaaaaa'' = None"
  using recovery_completes [OF ref.bech32_axioms sample_ok sample_addr(1) sample_get disable_key(2,1) recover_parsed sample_carrier
      sample_signs(1) execute_parsed sample_carrier sample_signs(1), of "sample_ctx 1700000000" "sample_ctx 1700259200" sample_lib id]
  by (simp add: sample_ctx_def RecoveryDelaySeconds_def)

text \<open>
  C36: an approval is bound to the messages and the signers but not to the rest of the memo. When a
  transaction that spends the Do of \<open>a\<close> passes with the approvals of a memo without any control
  action, the same transaction with an action to disable the policy of \<open>a\<close> added to that memo
  passes too, with the same approvals, and removes the policy: whoever holds the account key can
  turn the approval of one payment into the end of all approvals.
\<close>

theorem approval_ignores_control:
  assumes "bech32 K" and "MFARequirement_AnteHandle K L rng False s ctx tx = Inr ()"
    and "parseMFAMemo tx = Inr (Some m)" and "no_control m"
    and "addr_ok a" and "spends K tx a" and "GetPolicy K s a = Some p" and "signs tx a"
    and "parseMFAMemo (tx\<lparr>txMemo := Some memo\<rparr>) = Inr (Some (m\<lparr>Disable := Some (AccString K a)\<rparr>))"
  shows "\<exists>s'. mfa_ante K L rng ctx (tx\<lparr>txMemo := Some memo\<rparr>) s = Inr s' \<and> GetPolicy K s' a = None"
  by (rule disable_rides_along [OF assms])

theorem approval_ignores_control_witness:
  "\<exists>s'. mfa_ante ref_sdk sample_lib id (sample_ctx 1700000000)
        (send_tx approve_memo\<lparr>txMemo := Some (memo_text (approve_memo\<lparr>Disable := Some ''do1aaaaaaaaaaaaaaaaaaaa''\<rparr>))\<rparr>) sample_store = Inr s' \<and>
      GetPolicy ref_sdk s' ''aaaaaaaaaaaaaaaaaaaa'' = None"
proof (rule approval_ignores_control [OF ref.bech32_axioms sample_requirement send_parsed [OF approve_memo_plain] _ sample_addr(1)
      sample_spends sample_get sample_signs(2)])
  show "no_control approve_memo" by (simp add: no_control_def approve_memo_def zero_mfa_def)
  have "memo_plain (approve_memo\<lparr>Disable := Some ''do1aaaaaaaaaaaaaaaaaaaa''\<rparr>)"
    using approve_memo_plain by (simp add: memo_plain_def plain_def)
  then show "parseMFAMemo (send_tx approve_memo\<lparr>txMemo := Some (memo_text (approve_memo\<lparr>Disable := Some ''do1aaaaaaaaaaaaaaaaaaaa''\<rparr>))\<rparr>) =
      Inr (Some (approve_memo\<lparr>Disable := Some (AccString ref_sdk ''aaaaaaaaaaaaaaaaaaaa'')\<rparr>))"
    by (simp add: memo_parsed sample_addr)
qed

text \<open>
  Exporting the policies and starting a new chain from them restores the store: after any
  sequence of transactions from a store of enabled policies, such as the empty one,
  \<open>ExportGenesis\<close> lists every policy, \<open>ValidateGenesis\<close> accepts the list and \<open>InitGenesis\<close> rebuilds
  the same store.
\<close>

lemma mfa_genesis_round_trip:
  assumes "bech32 K" and "stored_ok K s"
  shows "mfa_InitGenesis K [] (mfa_ExportGenesis K (mfa_run K L rng txs s)) = Inr (mfa_run K L rng txs s)"
  by (rule genesis_restores [OF assms(1) stored_run [OF assms]])

lemma mfa_genesis_round_trip_example:
  "stored_ok ref_sdk sample_store \<and>
   mfa_InitGenesis ref_sdk [] (mfa_ExportGenesis ref_sdk (mfa_run ref_sdk sample_lib id [(sample_ctx 5, self_tx recover_memo)] sample_store)) =
     Inr (mfa_run ref_sdk sample_lib id [(sample_ctx 5, self_tx recover_memo)] sample_store)"
proof -
  have "stored_ok ref_sdk sample_store"
    using sample_ok by (simp add: stored_ok_def sample_store_def sample_policy_def NewPolicy_def strip_def)
  with mfa_genesis_round_trip [OF ref.bech32_axioms this] show ?thesis by blast
qed

end
