(* ===== verification/Ante.thy ===== *)
theory Ante
  imports Mempool Treasury Dyncomm Mfa_Safety
begin

text \<open>
  \<open>src/custom/auth/ante\<close>: what happens to a transaction before its messages run. The decorators
  of the repository (memo length, oracle spamming, IBC transfer limits, initial deposits, fees, and
  those of \<open>x/mfa\<close> and \<open>x/dyncomm\<close>) are modelled one by one and composed in the order of
  \<open>NewAnteHandler\<close>; the decorators of the SDK, wasmd and IBC that stand between them are
  parameters that act on the world of the SDK keepers.

  The decorator against oracle spamming keeps its two maps in memory: unlike the stores they are
  not rolled back when a later decorator refuses the transaction, so the model returns them beside
  the result.
\<close>


section \<open>Transactions\<close>

text \<open>
  The messages the decorators tell apart. \<open>Protected\<close> holds those of \<open>x/mfa\<close>, \<open>Staking\<close> those of
  \<open>x/dyncomm\<close>, an authz execution being both: \<open>Nested\<close> keeps the nested messages in either view. The
  last argument of the messages of other modules is what no decorator reads, in its encoding.
\<close>

datatype ante_msg =
    Prevote MsgAggregateDoRatePrevote
  | Vote MsgAggregateDoRateVote
  | Transfer string coin string string bytes
  | Submit_v1beta1 "coin list" bytes
  | Submit_v1 "coin list" bytes
  | Protected mfa_msg
  | Staking tx_msg bytes
  | Nested "mfa_msg list option" "tx_msg list option" bytes

record fee_tx =
  txFee :: "coin list"
  txGas :: int
  txFeePayer :: address
  txFeeGranter :: "address option"

text \<open>\<open>atFee\<close> is \<open>None\<close> when the transaction is no \<open>FeeTx\<close>; memo, timeout height and signers as in \<open>mfa_tx\<close>.\<close>

record ante_tx =
  atMsgs :: "ante_msg list"
  atFee :: "fee_tx option"
  atMemo :: "string option"
  atTimeoutHeight :: "int option"
  atSigners :: "address list result option"

record ante_ctx =
  BlockHeight :: int
  IsCheckTx :: bool
  IsReCheckTx :: bool
  MinGasPrices :: "deccoin list"
  acTime :: int
  acChainID :: string

text \<open>
  The messages as \<open>x/mfa\<close> sees them. The requirement decorator hashes every message, those it does
  not inspect too: they are kept as the bytes \<open>enc\<close> of their encoding, to which the receiver and the
  memo of a transfer belong as well.
\<close>

fun mfa_view :: "(ante_msg \<Rightarrow> bytes) \<Rightarrow> ante_msg \<Rightarrow> mfa_msg" where
  "mfa_view enc (Transfer sender tok receiver memo rest) = Ibc_Transfer sender tok (enc (Transfer sender tok receiver memo rest))"
| "mfa_view enc (Protected m) = m"
| "mfa_view enc (Nested inner _ rest) = Exec_msg inner rest"
| "mfa_view enc m = Other_msg (enc m)"

fun dyncomm_view :: "ante_msg \<Rightarrow> tx_msg" where
  "dyncomm_view (Staking m _) = m"
| "dyncomm_view (Nested _ inner _) = MsgExec inner"
| "dyncomm_view _ = OtherMsg"

fun pool_view :: "ante_msg \<Rightarrow> pool_msg" where
  "pool_view (Prevote m) = Prevote_msg m"
| "pool_view (Vote m) = Vote_msg m"
| "pool_view _ = Plain_msg []"

definition mfa_tx_of :: "(ante_msg \<Rightarrow> bytes) \<Rightarrow> ante_tx \<Rightarrow> mfa_tx" where
  "mfa_tx_of enc tx = \<lparr>txMsgs = map (mfa_view enc) (atMsgs tx), txMemo = atMemo tx, txTimeoutHeight = atTimeoutHeight tx,
     txSigners = atSigners tx\<rparr>"

definition oracle_tx :: "ante_tx \<Rightarrow> bool" where
  "oracle_tx tx = IsOracleTx (map pool_view (atMsgs tx))"


section \<open>The memo (mfa_memo.go)\<close>

definition maxMFAMemoCharacters :: nat where "maxMFAMemoCharacters = 4096"

definition isAllowedMFAMemo :: "string \<Rightarrow> bool" where
  "isAllowedMFAMemo memo =
     (if length memo > maxMFAMemoCharacters then False
      else case unmarshal_keys memo of None \<Rightarrow> False | Some ks \<Rightarrow> ''dochain_mfa'' \<in> set ks)"

definition ValidateMemo_AnteHandle :: "nat \<Rightarrow> ante_tx \<Rightarrow> unit result" where
  "ValidateMemo_AnteHandle maxMemoCharacters tx =
     (case atMemo tx of
        None \<Rightarrow> Inl (Sdk ''ErrTxDecode'')
      | Some memo \<Rightarrow>
          if length memo > 0
          then fail_if (length memo > maxMemoCharacters \<and> \<not> isAllowedMFAMemo memo) (Sdk ''ErrMemoTooLarge'')
          else Inr ())"


section \<open>Oracle spamming (spamming_prevention.go)\<close>

definition MaxOracleGasLimit :: int where "MaxOracleGasLimit = 1000000"

record spam_maps =
  oraclePrevoteMap :: "string \<rightharpoonup> int"
  oracleVoteMap :: "string \<rightharpoonup> int"

fun is_oracle :: "ante_msg \<Rightarrow> bool" where
  "is_oracle (Prevote _) = True"
| "is_oracle (Vote _) = True"
| "is_oracle _ = False"

definition containsOracleMsg :: "ante_msg list \<Rightarrow> bool" where
  "containsOracleMsg msgs = list_ex is_oracle msgs"

text \<open>The part the two cases share: who may feed for the validator.\<close>

definition check_feeder :: "sdk \<Rightarrow> 'w keepers \<Rightarrow> 'w \<Rightarrow> oracle_store \<Rightarrow> string \<Rightarrow> string \<Rightarrow> unit result" where
  "check_feeder K N w s feeder validator =
     rbind (AccFromBech32 K feeder) (\<lambda>feederAddr.
     rbind (ValFromBech32 K validator) (\<lambda>valAddr.
     ValidateFeeder N w s feederAddr valAddr))"

fun CheckOracleSpamming ::
    "sdk \<Rightarrow> 'w keepers \<Rightarrow> 'w \<Rightarrow> oracle_store \<Rightarrow> int \<Rightarrow> ante_msg list \<Rightarrow> spam_maps \<Rightarrow> spam_maps \<times> unit result" where
  "CheckOracleSpamming K N w s curHeight [] sp = (sp, Inr ())"
| "CheckOracleSpamming K N w s curHeight (Prevote m # msgs) sp =
     (case check_feeder K N w s (prevoteFeeder m) (prevoteValidator m) of
        Inl e \<Rightarrow> (sp, Inl e)
      | Inr _ \<Rightarrow>
          if oraclePrevoteMap sp (prevoteValidator m) = Some curHeight then (sp, Inl (Sdk ''ErrInvalidRequest''))
          else CheckOracleSpamming K N w s curHeight msgs
                 (sp\<lparr>oraclePrevoteMap := (oraclePrevoteMap sp)(prevoteValidator m \<mapsto> curHeight)\<rparr>))"
| "CheckOracleSpamming K N w s curHeight (Vote m # msgs) sp =
     (case check_feeder K N w s (voteFeeder m) (voteValidator m) of
        Inl e \<Rightarrow> (sp, Inl e)
      | Inr _ \<Rightarrow>
          if oracleVoteMap sp (voteValidator m) = Some curHeight then (sp, Inl (Sdk ''ErrInvalidRequest''))
          else CheckOracleSpamming K N w s curHeight msgs
                 (sp\<lparr>oracleVoteMap := (oracleVoteMap sp)(voteValidator m \<mapsto> curHeight)\<rparr>))"
| "CheckOracleSpamming K N w s curHeight (_ # msgs) sp = (sp, Inr ())"

definition oracle_gas_check :: "ante_tx \<Rightarrow> unit result" where
  "oracle_gas_check tx =
     (if containsOracleMsg (atMsgs tx)
      then case atFee tx of
             None \<Rightarrow> Inl (Sdk ''ErrTxDecode'')
           | Some f \<Rightarrow> fail_if (txGas f > MaxOracleGasLimit) (Sdk ''ErrInvalidGasLimit'')
      else Inr ())"

definition Spamming_AnteHandle ::
    "sdk \<Rightarrow> 'w keepers \<Rightarrow> 'w \<Rightarrow> oracle_store \<Rightarrow> ante_ctx \<Rightarrow> bool \<Rightarrow> ante_tx \<Rightarrow> spam_maps \<Rightarrow> spam_maps \<times> unit result" where
  "Spamming_AnteHandle K N w s ctx simulate tx sp =
     (if IsReCheckTx ctx then (sp, Inr ())
      else if \<not> simulate \<and> IsCheckTx ctx
      then case oracle_gas_check tx of
             Inl e \<Rightarrow> (sp, Inl e)
           | Inr _ \<Rightarrow> CheckOracleSpamming K N w s (BlockHeight ctx) (atMsgs tx) sp
      else (sp, Inr ()))"


section \<open>IBC transfers (ibc_spamming_prevention.go)\<close>

definition DefaultMaxMemoLength :: nat where "DefaultMaxMemoLength = 1024"
definition DefaultMaxReceiverLength :: nat where "DefaultMaxReceiverLength = 128"

abbreviation ErrReceiverTooLong :: error where "ErrReceiverTooLong \<equiv> Registered ''ibcspamprevention'' 11"
abbreviation ErrMemoTooLong :: error where "ErrMemoTooLong \<equiv> Registered ''ibcspamprevention'' 12"

fun transfer_check :: "ante_msg \<Rightarrow> unit result" where
  "transfer_check (Transfer sender tok receiver memo rest) =
     rbind (fail_if (length memo > DefaultMaxMemoLength) ErrMemoTooLong) (\<lambda>_.
     fail_if (length receiver > DefaultMaxReceiverLength) ErrReceiverTooLong)"
| "transfer_check _ = Inr ()"

definition IBCTransferSpam_AnteHandle :: "ante_ctx \<Rightarrow> ante_tx \<Rightarrow> unit result" where
  "IBCTransferSpam_AnteHandle ctx tx =
     (if IsReCheckTx ctx then Inr () else fold_res (\<lambda>m _. transfer_check m) (atMsgs tx) ())"


section \<open>Initial deposits (min_initial_deposit.go)\<close>

fun IsMsgSubmitProposal :: "ante_msg \<Rightarrow> bool" where
  "IsMsgSubmitProposal (Submit_v1beta1 _ _) = True"
| "IsMsgSubmitProposal (Submit_v1 _ _) = True"
| "IsMsgSubmitProposal _ = False"

definition GetMinInitialDepositRatio :: "treasury_store \<Rightarrow> dec" where
  "GetMinInitialDepositRatio s = MinInitialDepositRatio (tparams s)"

fun initial_deposit :: "ante_msg \<Rightarrow> coin list result" where
  "initial_deposit (Submit_v1beta1 cs _) = Inr cs"
| "initial_deposit (Submit_v1 cs _) = Inr cs"
| "initial_deposit _ = Inl (Text ''could not dereference msg as MsgSubmitProposal'')"

text \<open>\<open>minDeposit\<close> is what \<open>govKeeper.Params.Get\<close> returns.\<close>

definition required_deposit :: "sdk \<Rightarrow> coin \<Rightarrow> treasury_store \<Rightarrow> coin list result" where
  "required_deposit K c s =
     rbind (dMul K (Amount c * PREC) (GetMinInitialDepositRatio s)) (\<lambda>r.
     rbind (dTruncateInt K r) (\<lambda>requiredAmount.
     rbind (NewCoin K (Denom c) requiredAmount) (\<lambda>c'. NewCoins K [c'])))"

definition HandleCheckMinInitialDeposit ::
    "sdk \<Rightarrow> coin list result \<Rightarrow> treasury_store \<Rightarrow> ante_msg \<Rightarrow> unit result" where
  "HandleCheckMinInitialDeposit K minDeposit s msg =
     rbind (initial_deposit msg) (\<lambda>initialDepositCoins.
     rbind minDeposit (\<lambda>deposits.
     case deposits of
       [] \<Rightarrow> Inl (Text ''governance min deposit is not configured'')
     | c # _ \<Rightarrow>
         rbind (required_deposit K c s) (\<lambda>requiredDepositCoins.
         fail_if (\<not> CoinsIsAllGTE K initialDepositCoins requiredDepositCoins)
           (Text ''not enough initial deposit provided''))))"

definition MinInitialDeposit_AnteHandle ::
    "sdk \<Rightarrow> coin list result \<Rightarrow> treasury_store \<Rightarrow> bool \<Rightarrow> ante_tx \<Rightarrow> unit result" where
  "MinInitialDeposit_AnteHandle K minDeposit s simulate tx =
     (if simulate then Inr ()
      else fold_res (\<lambda>msg _.
             if IsMsgSubmitProposal msg
             then wrap_err (Sdk ''ErrUnauthorized'') (HandleCheckMinInitialDeposit K minDeposit s msg)
             else Inr ()) (atMsgs tx) ())"



section \<open>Fees (fee.go, fee_tax.go)\<close>

text \<open>The auth and feegrant keepers: the account stored under an address, and the use of an allowance.\<close>

record 'w fee_keepers =
  GetAccount :: "'w \<Rightarrow> address \<Rightarrow> address option"
  UseGrantedFees :: "('w \<Rightarrow> address \<Rightarrow> address \<Rightarrow> coin list \<Rightarrow> ante_msg list \<Rightarrow> 'w result) option"

definition FilterMsgAndComputeTax :: "ante_msg list \<Rightarrow> coin list \<times> coin list" where
  "FilterMsgAndComputeTax msgs = ([], [])"

definition DeductFees :: "sdk \<Rightarrow> 'w keepers \<Rightarrow> 'w \<Rightarrow> address \<Rightarrow> coin list \<Rightarrow> 'w result" where
  "DeductFees K N w acc fees =
     rbind (fail_if (\<not> CoinsIsValid K fees) (Sdk ''ErrInsufficientFee'')) (\<lambda>_.
     wrap_err (Sdk ''ErrInsufficientFunds'') (SendCoinsFromAccountToModule N w acc ''fee_collector'' fees))"

definition fee_payer :: "ante_tx \<Rightarrow> fee_tx \<Rightarrow> address result" where
  "fee_payer tx f =
     (if txFeePayer f = []
      then case atSigners tx of
             None \<Rightarrow> Inl (Text ''fee payer address not found and cannot cast to SigVerifiableTx'')
           | Some signers \<Rightarrow>
               rbind (wrap_err (Text ''fee payer address not found and cannot get signers'') signers) (\<lambda>as.
               case as of
                 [] \<Rightarrow> Inl (Text ''fee payer address not found and no signers available'')
               | a # _ \<Rightarrow> Inr a)
      else Inr (txFeePayer f))"

text \<open>\<open>charged\<close>: the account that pays, after the allowance of the granter has been used.\<close>

definition charged ::
    "'w fee_keepers \<Rightarrow> 'w \<Rightarrow> ante_tx \<Rightarrow> fee_tx \<Rightarrow> coin list \<Rightarrow> address \<Rightarrow> ('w \<times> address) result" where
  "charged F w tx f fee feePayer =
     (case txFeeGranter f of
        None \<Rightarrow> Inr (w, feePayer)
      | Some feeGranter \<Rightarrow>
          (case UseGrantedFees F of
             None \<Rightarrow> Inl (Sdk ''ErrInvalidRequest'')
           | Some use \<Rightarrow>
               if feeGranter \<noteq> feePayer
               then rbind (use w feeGranter feePayer fee (atMsgs tx)) (\<lambda>w'. Inr (w', feeGranter))
               else Inr (w, feeGranter)))"

definition checkDeductFee ::
    "sdk \<Rightarrow> 'w keepers \<Rightarrow> 'w fee_keepers \<Rightarrow> 'w \<Rightarrow> ante_tx \<Rightarrow> fee_tx \<Rightarrow> coin list \<Rightarrow> bool \<Rightarrow> 'w result" where
  "checkDeductFee K N F w tx f taxes simulate =
     rbind (fail_if (GetModuleAddress N ''fee_collector'' = None)
              (Text ''fee collector module account has not been set'')) (\<lambda>_.
     let fee = (if oracle_tx tx then [] else txFee f) in
     rbind (fee_payer tx f) (\<lambda>feePayer.
     rbind (charged F w tx f fee feePayer) (\<lambda>(w1, deductFeesFrom).
     case GetAccount F w1 deductFeesFrom of
       None \<Rightarrow> Inl (Sdk ''ErrUnknownAddress'')
     | Some acc \<Rightarrow>
         let feesToDeduct = (if simulate \<and> CoinsIsZero K fee then taxes else fee)
         in if CoinsIsZero K feesToDeduct then Inr w1 else DeductFees K N w1 acc feesToDeduct)))"

definition required_fees :: "sdk \<Rightarrow> deccoin list \<Rightarrow> int \<Rightarrow> coin list result" where
  "required_fees K minGasPrices gas =
     (let glDec = i64 gas * PREC
      in map_res (\<lambda>gp.
           rbind (dMul K (DAmount gp) glDec) (\<lambda>fee.
           rbind (dCeil K fee) (\<lambda>c.
           rbind (dRoundInt K c) (\<lambda>n. NewCoin K (DDenom gp) n)))) minGasPrices)"

definition tx_priority :: "sdk \<Rightarrow> coin list \<Rightarrow> int \<Rightarrow> int result" where
  "tx_priority K feeCoins gas =
     fold_res (\<lambda>c priority.
       rbind (iQuo K (Amount c) (i64 gas)) (\<lambda>gasPrice.
       Inr (if - (2 ^ 63) \<le> gasPrice \<and> gasPrice < 2 ^ 63 \<and> gasPrice > priority then gasPrice else priority))) feeCoins 0"

definition checkTxFee :: "sdk \<Rightarrow> deccoin list \<Rightarrow> ante_tx \<Rightarrow> int result" where
  "checkTxFee K minGasPrices tx =
     (case atFee tx of
        None \<Rightarrow> Inl (Sdk ''ErrTxDecode'')
      | Some f \<Rightarrow>
          rbind (if \<not> oracle_tx tx \<and> \<not> DecCoinsIsZero K minGasPrices
                 then rbind (required_fees K minGasPrices (txGas f)) (\<lambda>requiredFees.
                      fail_if (\<not> CoinsIsAnyGTE K (txFee f) requiredFees) (Sdk ''ErrInsufficientFee''))
                 else Inr ()) (\<lambda>_.
          tx_priority K (txFee f) (txGas f)))"

definition Fee_AnteHandle ::
    "sdk \<Rightarrow> 'w keepers \<Rightarrow> 'w fee_keepers \<Rightarrow> ante_ctx \<Rightarrow> bool \<Rightarrow> ante_tx \<Rightarrow> 'w \<Rightarrow> ('w \<times> int) result" where
  "Fee_AnteHandle K N F ctx simulate tx w =
     (case atFee tx of
        None \<Rightarrow> Inl (Sdk ''ErrTxDecode'')
      | Some f \<Rightarrow>
          rbind (fail_if (\<not> simulate \<and> BlockHeight ctx > 0 \<and> txGas f = 0) (Sdk ''ErrInvalidGasLimit'')) (\<lambda>_.
          let taxes = fst (FilterMsgAndComputeTax (atMsgs tx)) in
          rbind (if simulate then Inr 0 else checkTxFee K (MinGasPrices ctx) tx) (\<lambda>priority.
          rbind (checkDeductFee K N F w tx f taxes simulate) (\<lambda>w'. Inr (w', priority)))))"


section \<open>The chain (ante.go)\<close>

text \<open>
  What the decorators read: parameters, the stores of other modules, the encoding of messages, and
  the SDK's own decorators.
\<close>

record 'w ante_env =
  maxMemo :: nat
  gov_deposit :: "coin list result"
  env_oracle :: oracle_store
  env_treasury :: treasury_store
  env_dyncomm :: dyncomm_store
  sequences :: "'w \<Rightarrow> address \<Rightarrow> int option"
  msg_bytes :: "ante_msg \<Rightarrow> bytes"
  setup_decorators :: "ante_ctx \<Rightarrow> bool \<Rightarrow> ante_tx \<Rightarrow> 'w \<Rightarrow> 'w result"
  size_decorator :: "ante_ctx \<Rightarrow> bool \<Rightarrow> ante_tx \<Rightarrow> 'w \<Rightarrow> 'w result"
  signature_decorators :: "ante_ctx \<Rightarrow> bool \<Rightarrow> ante_tx \<Rightarrow> 'w \<Rightarrow> 'w result"
  final_decorators :: "ante_ctx \<Rightarrow> bool \<Rightarrow> ante_tx \<Rightarrow> 'w \<Rightarrow> 'w result"

definition mfa_ctx_of :: "'w ante_env \<Rightarrow> ante_ctx \<Rightarrow> 'w \<Rightarrow> mfa_ctx" where
  "mfa_ctx_of E ctx w = \<lparr>BlockTime = acTime ctx, ChainID = acChainID ctx, Sequences = sequences E w\<rparr>"

text \<open>The decorators before and after the one that keeps its maps in memory.\<close>

definition ante_before ::
    "'w ante_env \<Rightarrow> ante_ctx \<Rightarrow> bool \<Rightarrow> ante_tx \<Rightarrow> 'w \<Rightarrow> 'w result" where
  "ante_before E ctx simulate tx w =
     rbind (setup_decorators E ctx simulate tx w) (\<lambda>w1.
     rbind (ValidateMemo_AnteHandle (maxMemo E) tx) (\<lambda>_. Inr w1))"

definition ante_after ::
    "sdk \<Rightarrow> mfa_lib \<Rightarrow> (accounts \<Rightarrow> accounts) \<Rightarrow> 'w keepers \<Rightarrow> 'w fee_keepers \<Rightarrow> 'w ante_env \<Rightarrow> ante_ctx \<Rightarrow> bool \<Rightarrow> ante_tx \<Rightarrow>
     'w \<times> mfa_store \<Rightarrow> ('w \<times> mfa_store) result" where
  "ante_after K L rng N F E ctx simulate tx ws =
     (let (w, s) = ws in
      rbind (IBCTransferSpam_AnteHandle ctx tx) (\<lambda>_.
      rbind (MinInitialDeposit_AnteHandle K (gov_deposit E) (env_treasury E) simulate tx) (\<lambda>_.
      rbind (MFARequirement_AnteHandle K L rng False s (mfa_ctx_of E ctx w) (mfa_tx_of (msg_bytes E) tx)) (\<lambda>_.
      rbind (size_decorator E ctx simulate tx w) (\<lambda>w1.
      rbind (Fee_AnteHandle K N F ctx simulate tx w1) (\<lambda>(w2, priority).
      rbind (ante_FilterMsgsAndProcessMsgs (env_dyncomm E) (map dyncomm_view (atMsgs tx))) (\<lambda>_.
      rbind (signature_decorators E ctx simulate tx w2) (\<lambda>w3.
      rbind (MFAControlApply_AnteHandle K False (mfa_ctx_of E ctx w3) (mfa_tx_of (msg_bytes E) tx) s) (\<lambda>s'.
      rbind (final_decorators E ctx simulate tx w3) (\<lambda>w4.
      Inr (w4, s')))))))))))"

definition anteHandler ::
    "sdk \<Rightarrow> mfa_lib \<Rightarrow> (accounts \<Rightarrow> accounts) \<Rightarrow> 'w keepers \<Rightarrow> 'w fee_keepers \<Rightarrow> 'w ante_env \<Rightarrow> ante_ctx \<Rightarrow> bool \<Rightarrow> ante_tx \<Rightarrow>
     'w \<times> mfa_store \<Rightarrow> spam_maps \<Rightarrow> spam_maps \<times> ('w \<times> mfa_store) result" where
  "anteHandler K L rng N F E ctx simulate tx ws sp =
     (case ante_before E ctx simulate tx (fst ws) of
        Inl e \<Rightarrow> (sp, Inl e)
      | Inr w1 \<Rightarrow>
          (case Spamming_AnteHandle K N w1 (env_oracle E) ctx simulate tx sp of
             (sp1, Inl e) \<Rightarrow> (sp1, Inl e)
           | (sp1, Inr _) \<Rightarrow> (sp1, ante_after K L rng N F E ctx simulate tx (w1, snd ws))))"

text \<open>\<open>NewAnteHandler\<close>: which of the required options are set.\<close>

record HandlerOptions =
  hasAccountKeeper :: bool
  hasBankKeeper :: bool
  hasOracleKeeper :: bool
  hasTreasuryKeeper :: bool
  hasSignModeHandler :: bool
  hasWasmConfig :: bool
  hasTXCounterStore :: bool

definition NewAnteHandler ::
    "HandlerOptions \<Rightarrow> sdk \<Rightarrow> mfa_lib \<Rightarrow> (accounts \<Rightarrow> accounts) \<Rightarrow> 'w keepers \<Rightarrow> 'w fee_keepers \<Rightarrow> 'w ante_env \<Rightarrow>
     (ante_ctx \<Rightarrow> bool \<Rightarrow> ante_tx \<Rightarrow> 'w \<times> mfa_store \<Rightarrow> spam_maps \<Rightarrow> spam_maps \<times> ('w \<times> mfa_store) result) result" where
  "NewAnteHandler opts K L rng N F E =
     rbind (fail_if (\<not> hasAccountKeeper opts) (Sdk ''ErrLogic'')) (\<lambda>_.
     rbind (fail_if (\<not> hasBankKeeper opts) (Sdk ''ErrLogic'')) (\<lambda>_.
     rbind (fail_if (\<not> hasOracleKeeper opts) (Sdk ''ErrLogic'')) (\<lambda>_.
     rbind (fail_if (\<not> hasTreasuryKeeper opts) (Sdk ''ErrLogic'')) (\<lambda>_.
     rbind (fail_if (\<not> hasSignModeHandler opts) (Sdk ''ErrLogic'')) (\<lambda>_.
     rbind (fail_if (\<not> hasWasmConfig opts) (Sdk ''ErrLogic'')) (\<lambda>_.
     rbind (fail_if (\<not> hasTXCounterStore opts) (Sdk ''ErrLogic'')) (\<lambda>_.
     Inr (anteHandler K L rng N F E))))))))"



section \<open>Fees are taken exactly\<close>

text \<open>
  The feegrant module keeps allowances, not balances, and an account is stored under its address.
\<close>

locale feegrants =
  fixes N :: "'w keepers" and F :: "'w fee_keepers"
  assumes grant_bal: "UseGrantedFees F = Some use \<Longrightarrow> use w g p cs ms = Inr w' \<Longrightarrow> bal N w' x d = bal N w x d"
    and grant_supply: "UseGrantedFees F = Some use \<Longrightarrow> use w g p cs ms = Inr w' \<Longrightarrow> total_supply N w' d = total_supply N w d"
    and account_addr: "GetAccount F w a = Some b \<Longrightarrow> b = a"
begin

lemma charged_kept:
  assumes "charged F w tx f fee payer = Inr (w1, a)"
  shows "bal N w1 x d = bal N w x d" "total_supply N w1 d = total_supply N w d"
    and "a = (case txFeeGranter f of None \<Rightarrow> payer | Some g \<Rightarrow> g)"
  using assms by (auto simp: charged_def rbind_eq_Inr split: option.splits if_splits intro: grant_bal grant_supply)

end

definition ref_fee_keepers :: "ref_world fee_keepers" where
  "ref_fee_keepers = \<lparr>GetAccount = (\<lambda>w a. Some a), UseGrantedFees = Some (\<lambda>w g p cs ms. Inr w)\<rparr>"

interpretation ref: feegrants ref_keepers ref_fee_keepers
  by unfold_locales (auto simp: ref_fee_keepers_def)

text \<open>The account that pays the fee of a transaction.\<close>

definition payer_of :: "ante_tx \<Rightarrow> fee_tx \<Rightarrow> address result" where
  "payer_of tx f = rbind (fee_payer tx f) (\<lambda>p. Inr (case txFeeGranter f of None \<Rightarrow> p | Some g \<Rightarrow> g))"

definition due_fee :: "ante_tx \<Rightarrow> fee_tx \<Rightarrow> coin list" where
  "due_fee tx f = (if oracle_tx tx then [] else txFee f)"

lemma moved_nothing:
  "(\<And>x d. bal N w' x d = bal N w x d) \<Longrightarrow> (\<And>d. total_supply N w' d = total_supply N w d) \<Longrightarrow>
   (\<And>d. AmountOf cs d = 0) \<Longrightarrow> moved N w w' a b cs"
  by (simp add: moved_def)

lemma AmountOf_zero: "\<forall>c \<in> set cs. Amount c = 0 \<Longrightarrow> AmountOf cs d = 0"
  by (induction cs) auto

lemma deduct_moves:
  assumes N: "bank N" and G: "feegrants N F" and K: "coin_order K"
    and run: "checkDeductFee K N F w tx f [] simulate = Inr w'"
  shows "\<exists>a c. payer_of tx f = Inr a \<and> GetModuleAddress N ''fee_collector'' = Some c \<and> moved N w w' a c (due_fee tx f)"
proof -
  from run obtain payer w1 a where p: "fee_payer tx f = Inr payer" and ch: "charged F w tx f (due_fee tx f) payer = Inr (w1, a)"
    and c: "GetModuleAddress N ''fee_collector'' \<noteq> None"
    and rest: "(case GetAccount F w1 a of
       None \<Rightarrow> Inl (Sdk ''ErrUnknownAddress'')
     | Some acc \<Rightarrow>
         let feesToDeduct = (if simulate \<and> CoinsIsZero K (due_fee tx f) then [] else due_fee tx f)
         in if CoinsIsZero K feesToDeduct then Inr w1 else DeductFees K N w1 acc feesToDeduct) = Inr w'"
    by (auto simp: checkDeductFee_def due_fee_def [symmetric] rbind_eq_Inr Let_def [of "due_fee tx f"])
  note kept = feegrants.charged_kept [OF G ch]
  from rest obtain acc where acc: "GetAccount F w1 a = Some acc" by (cases "GetAccount F w1 a") auto
  have payer: "payer_of tx f = Inr a" using p kept(3) by (simp add: payer_of_def)
  show ?thesis
  proof (cases "CoinsIsZero K (due_fee tx f)")
    case True
    have "CoinsIsZero K []" using coin_order.coins_zero [OF K, of "[]"] by simp
    with True rest acc have "w' = w1" by (auto simp: Let_def split: if_splits)
    moreover have "AmountOf (due_fee tx f) d = 0" for d
      using True coin_order.coins_zero [OF K] by (intro AmountOf_zero) blast
    ultimately have "moved N w w' a b (due_fee tx f)" for b using kept(1,2) by (intro moved_nothing) auto
    with payer c show ?thesis by auto
  next
    case False
    with rest acc have "SendCoinsFromAccountToModule N w1 acc ''fee_collector'' (due_fee tx f) = Inr w'"
      by (auto simp: DeductFees_def rbind_eq_Inr Let_def)
    with bank.account_to_module [OF N] feegrants.account_addr [OF G acc]
    obtain b where "GetModuleAddress N ''fee_collector'' = Some b" "moved N w1 w' a b (due_fee tx f)" by blast
    with payer kept show ?thesis by (auto simp: moved_def)
  qed
qed



section \<open>The minimum gas price\<close>

lemma map_res_member: "map_res f xs = Inr ys \<Longrightarrow> y \<in> set ys \<Longrightarrow> \<exists>x \<in> set xs. f x = Inr y"
  by (induction xs arbitrary: ys) (auto simp: rbind_eq_Inr)

lemma map_res_keys:
  "map_res f xs = Inr ys \<Longrightarrow> (\<And>x y. x \<in> set xs \<Longrightarrow> f x = Inr y \<Longrightarrow> g y = h x) \<Longrightarrow> map g ys = map h xs"
  by (induction xs arbitrary: ys) (auto simp: rbind_eq_Inr)

lemma near_exact: "2 * \<bar>r * PREC - m * PREC\<bar> \<le> PREC \<Longrightarrow> r = m"
  by (rule near_multiple_unique [of r PREC m]) auto

context coin_order
begin

lemma required_fee:
  assumes run: "rbind (dMul K (DAmount gp) (g * PREC)) (\<lambda>fee. rbind (dCeil K fee) (\<lambda>c.
      rbind (dRoundInt K c) (\<lambda>n. NewCoin K (DDenom gp) n))) = Inr c"
  shows "Denom c = DDenom gp" and "DAmount gp * g \<le> Amount c * PREC"
proof -
  from run obtain r u n where r: "dMul K (DAmount gp) (g * PREC) = Inr r" and u: "dCeil K r = Inr u"
    and n: "dRoundInt K u = Inr n" and c: "NewCoin K (DDenom gp) n = Inr c" by (auto simp: rbind_eq_Inr)
  have "r = DAmount gp * g" using mul_near [OF r] by (intro near_exact) (simp add: ac_simps)
  moreover obtain k where "u = k * PREC" using ceil [OF u] by (auto simp: dvd_def mult.commute)
  moreover from this n have "n = k" using round_exact by blast
  ultimately show "DAmount gp * g \<le> Amount c * PREC" "Denom c = DDenom gp"
    using ceil [OF u] c new_coin by (auto split: if_splits)
qed

lemma gas_price_paid_lemma:
  assumes run: "required_fees K prices gas = Inr req" and gas: "0 \<le> gas" "gas < 2 ^ 63"
    and sorted: "sorted_wrt (\<le>) (map DDenom prices)" and any: "CoinsIsAnyGTE K fee req"
  shows "\<exists>c \<in> set fee. \<exists>gp \<in> set prices. DDenom gp = Denom c \<and> DAmount gp * gas \<le> Amount c * PREC"
proof -
  have g: "i64 gas = gas" using gas by (simp add: i64_def)
  note step = required_fee [where g = gas]
  have "map Denom req = map DDenom prices"
    using run step(1) by (intro map_res_keys [of _ prices]) (auto simp: required_fees_def Let_def g)
  with sorted have sreq: "sorted_wrt (\<le>) (map Denom req)" by simp
  from any obtain c where c: "c \<in> set fee" "CoinsAmountOf K req (Denom c) \<noteq> 0" "CoinsAmountOf K req (Denom c) \<le> Amount c"
    using any_gte by blast
  have "Denom c \<in> Denom ` set req" using amount_of_none c(2) by blast
  from amount_of_some [OF sreq this] obtain q where q: "q \<in> set req" "Denom q = Denom c" "CoinsAmountOf K req (Denom c) = Amount q"
    by blast
  from map_res_member [OF run [unfolded required_fees_def Let_def g] q(1)]
  obtain gp where gp: "gp \<in> set prices" and "rbind (dMul K (DAmount gp) (gas * PREC)) (\<lambda>fee. rbind (dCeil K fee) (\<lambda>c.
      rbind (dRoundInt K c) (\<lambda>n. NewCoin K (DDenom gp) n))) = Inr q" by blast
  with step [of gp q] q c have "DDenom gp = Denom c" "DAmount gp * gas \<le> Amount q * PREC" "Amount q \<le> Amount c" by auto
  then have "DAmount gp * gas \<le> Amount c * PREC"
    by linarith
  with c(1) gp \<open>DDenom gp = Denom c\<close> show ?thesis by blast
qed

lemma deposit_covers:
  assumes run: "HandleCheckMinInitialDeposit K (Inr (c # cs)) s msg = Inr ()"
    and dep: "initial_deposit msg = Inr deposit" and pos: "0 \<le> Amount c" "0 \<le> GetMinInitialDepositRatio s"
    and fit: "fits_dec (Amount c * GetMinInitialDepositRatio s)"
  shows "Amount c * GetMinInitialDepositRatio s div PREC = 0 \<or>
     Amount c * GetMinInitialDepositRatio s div PREC \<le> CoinsAmountOf K deposit (Denom c)"
proof -
  let ?n = "Amount c * GetMinInitialDepositRatio s div PREC"
  from run dep obtain r n q req where r: "dMul K (Amount c * PREC) (GetMinInitialDepositRatio s) = Inr r"
    and n: "dTruncateInt K r = Inr n" and q: "NewCoin K (Denom c) n = Inr q" and req: "NewCoins K [q] = Inr req"
    and all: "CoinsIsAllGTE K deposit req"
    by (auto simp: HandleCheckMinInitialDeposit_def required_deposit_def rbind_eq_Inr)
  have "r = Amount c * GetMinInitialDepositRatio s" using mul_near [OF r] by (intro near_exact) (simp add: ac_simps)
  then have n: "n = ?n" using truncate [OF fit] n pos by (simp add: tquot_nonneg)
  with q new_coin have q: "q = \<lparr>Denom = Denom c, Amount = ?n\<rparr>" by (auto split: if_splits)
  show ?thesis
  proof (cases "?n = 0")
    case True
    then show ?thesis by simp
  next
    case False
    with req q new_coins_one have "req = [q]" by (auto split: if_splits)
    with all q all_gte show ?thesis by auto
  qed
qed

end

end
