(* ===== verification/Ante_Safety.thy ===== *)
theory Ante_Safety
  imports Ante
begin

text \<open>
  What the chain of decorators of \<open>src/custom/auth/ante\<close> promises: fees, gas prices and deposits,
  one oracle vote per validator text and height, and what holds of every accepted transaction.
\<close>


section \<open>Oracle votes\<close>

text \<open>
  The validators whose prevotes and votes the decorator looks at: it stops at the first message
  of another kind.
\<close>

fun prevoted :: "ante_msg list \<Rightarrow> string list" where
  "prevoted (Prevote m # msgs) = prevoteValidator m # prevoted msgs"
| "prevoted (Vote m # msgs) = prevoted msgs"
| "prevoted msgs = []"

fun voted :: "ante_msg list \<Rightarrow> string list" where
  "voted (Prevote m # msgs) = voted msgs"
| "voted (Vote m # msgs) = voteValidator m # voted msgs"
| "voted msgs = []"

definition fresh :: "int \<Rightarrow> (string \<rightharpoonup> int) \<Rightarrow> string list \<Rightarrow> (string \<rightharpoonup> int) \<Rightarrow> bool" where
  "fresh h m vs m' \<longleftrightarrow> distinct vs \<and> (\<forall>v \<in> set vs. m v \<noteq> Some h \<and> m' v = Some h)"

lemma spam_keeps:
  "CheckOracleSpamming K N w s h msgs sp = (sp', r) \<Longrightarrow>
   (oraclePrevoteMap sp v = Some h \<longrightarrow> oraclePrevoteMap sp' v = Some h) \<and>
   (oracleVoteMap sp v = Some h \<longrightarrow> oracleVoteMap sp' v = Some h)"
  by (induction K N w s h msgs sp rule: CheckOracleSpamming.induct) (auto split: sum.splits if_splits)

lemma spam_fresh:
  "CheckOracleSpamming K N w s h msgs sp = (sp', Inr ()) \<Longrightarrow>
   fresh h (oraclePrevoteMap sp) (prevoted msgs) (oraclePrevoteMap sp') \<and>
   fresh h (oracleVoteMap sp) (voted msgs) (oracleVoteMap sp')"
proof (induction K N w s h msgs sp rule: CheckOracleSpamming.induct)
  case (2 K N w s h m msgs sp)
  then obtain u where u: "check_feeder K N w s (prevoteFeeder m) (prevoteValidator m) = Inr u"
    and new: "oraclePrevoteMap sp (prevoteValidator m) \<noteq> Some h"
    and run: "CheckOracleSpamming K N w s h msgs
       (sp\<lparr>oraclePrevoteMap := (oraclePrevoteMap sp)(prevoteValidator m \<mapsto> h)\<rparr>) = (sp', Inr ())"
    by (auto split: sum.splits if_splits)
  from 2(1) [OF u new run] spam_keeps [OF run, of "prevoteValidator m"] new show ?case
    by (auto simp: fresh_def split: if_splits)
next
  case (3 K N w s h m msgs sp)
  then obtain u where u: "check_feeder K N w s (voteFeeder m) (voteValidator m) = Inr u"
    and new: "oracleVoteMap sp (voteValidator m) \<noteq> Some h"
    and run: "CheckOracleSpamming K N w s h msgs
       (sp\<lparr>oracleVoteMap := (oracleVoteMap sp)(voteValidator m \<mapsto> h)\<rparr>) = (sp', Inr ())"
    by (auto split: sum.splits if_splits)
  from 3(1) [OF u new run] spam_keeps [OF run, of "voteValidator m"] new show ?case
    by (auto simp: fresh_def split: if_splits)
qed (auto simp: fresh_def)

text \<open>The transactions a node admits to its mempool at one height, one check after the other.\<close>

fun admit ::
    "sdk \<Rightarrow> mfa_lib \<Rightarrow> (accounts \<Rightarrow> accounts) \<Rightarrow> 'w keepers \<Rightarrow> 'w fee_keepers \<Rightarrow> 'w ante_env \<Rightarrow> ante_ctx \<Rightarrow>
     ante_tx list \<Rightarrow> 'w \<times> mfa_store \<Rightarrow> spam_maps \<Rightarrow> ante_tx list" where
  "admit K L rng N F E ctx [] ws sp = []"
| "admit K L rng N F E ctx (tx # ts) ws sp =
     (case anteHandler K L rng N F E ctx False tx ws sp of
        (sp', Inl _) \<Rightarrow> admit K L rng N F E ctx ts ws sp'
      | (sp', Inr ws') \<Rightarrow> tx # admit K L rng N F E ctx ts ws' sp')"

lemma spamming_cases:
  assumes "Spamming_AnteHandle K N w s ctx False tx sp = (sp', q)" "IsCheckTx ctx" "\<not> IsReCheckTx ctx"
  shows "sp' = sp \<and> isl q \<or> CheckOracleSpamming K N w s (BlockHeight ctx) (atMsgs tx) sp = (sp', q)"
proof (cases "oracle_gas_check tx")
  case (Inl e)
  then have "Spamming_AnteHandle K N w s ctx False tx sp = (sp, Inl e)" using assms(2,3) by (simp add: Spamming_AnteHandle_def)
  with assms(1) have "q = Inl e" "sp' = sp" by simp_all
  then show ?thesis by simp
next
  case (Inr u)
  then show ?thesis using assms by (simp add: Spamming_AnteHandle_def)
qed

lemma handler_spam:
  assumes run: "anteHandler K L rng N F E ctx False tx ws sp = (sp', r)" and ctx: "IsCheckTx ctx" "\<not> IsReCheckTx ctx"
  shows "oraclePrevoteMap sp v = Some (BlockHeight ctx) \<Longrightarrow> oraclePrevoteMap sp' v = Some (BlockHeight ctx)"
    and "oracleVoteMap sp v = Some (BlockHeight ctx) \<Longrightarrow> oracleVoteMap sp' v = Some (BlockHeight ctx)"
    and "r = Inr ws' \<Longrightarrow> fresh (BlockHeight ctx) (oraclePrevoteMap sp) (prevoted (atMsgs tx)) (oraclePrevoteMap sp') \<and>
      fresh (BlockHeight ctx) (oracleVoteMap sp) (voted (atMsgs tx)) (oracleVoteMap sp')"
proof -
  have cases: "sp' = sp \<and> isl r \<or>
    (\<exists>w q. CheckOracleSpamming K N w (env_oracle E) (BlockHeight ctx) (atMsgs tx) sp = (sp', q) \<and> (isl q \<longrightarrow> isl r))"
  proof (cases "ante_before E ctx False tx (fst ws)")
    case (Inr w1)
    obtain sp1 q where q: "Spamming_AnteHandle K N w1 (env_oracle E) ctx False tx sp = (sp1, q)" by fastforce
    with run Inr have "sp1 = sp'" "isl q \<longrightarrow> isl r" by (auto simp: anteHandler_def split: sum.splits)
    with spamming_cases [OF q ctx] show ?thesis by blast
  qed (use run in \<open>auto simp: anteHandler_def\<close>)
  then show "oraclePrevoteMap sp v = Some (BlockHeight ctx) \<Longrightarrow> oraclePrevoteMap sp' v = Some (BlockHeight ctx)"
    and "oracleVoteMap sp v = Some (BlockHeight ctx) \<Longrightarrow> oracleVoteMap sp' v = Some (BlockHeight ctx)"
    using spam_keeps by metis+
  assume "r = Inr ws'"
  with cases obtain w q where q: "CheckOracleSpamming K N w (env_oracle E) (BlockHeight ctx) (atMsgs tx) sp = (sp', q)" "\<not> isl q"
    by auto
  then have "q = Inr ()" by (cases q) auto
  with q have "CheckOracleSpamming K N w (env_oracle E) (BlockHeight ctx) (atMsgs tx) sp = (sp', Inr ())" by simp
  from spam_fresh [OF this] show "fresh (BlockHeight ctx) (oraclePrevoteMap sp) (prevoted (atMsgs tx)) (oraclePrevoteMap sp') \<and>
      fresh (BlockHeight ctx) (oracleVoteMap sp) (voted (atMsgs tx)) (oracleVoteMap sp')"
.
qed

lemma admit_fresh:
  assumes ctx: "IsCheckTx ctx" "\<not> IsReCheckTx ctx"
  defines "h \<equiv> BlockHeight ctx"
  shows "distinct (concat (map (prevoted \<circ> atMsgs) (admit K L rng N F E ctx ts ws sp))) \<and>
     distinct (concat (map (voted \<circ> atMsgs) (admit K L rng N F E ctx ts ws sp))) \<and>
     (\<forall>tx \<in> set (admit K L rng N F E ctx ts ws sp).
        (\<forall>v \<in> set (prevoted (atMsgs tx)). oraclePrevoteMap sp v \<noteq> Some h) \<and>
        (\<forall>v \<in> set (voted (atMsgs tx)). oracleVoteMap sp v \<noteq> Some h))"
proof (induction ts arbitrary: ws sp)
  case (Cons tx ts)
  obtain sp' r where run: "anteHandler K L rng N F E ctx False tx ws sp = (sp', r)" by fastforce
  note keep = handler_spam(1,2) [OF run ctx, folded h_def]
  show ?case
  proof (cases r)
    case (Inl e)
    then show ?thesis using Cons [of ws sp'] keep run by fastforce
  next
    case (Inr ws')
    note fr = handler_spam(3) [OF run ctx Inr, folded h_def]
    show ?thesis using Cons [of ws' sp'] keep run Inr fr by (fastforce simp: fresh_def)
  qed
qed simp



section \<open>Accepted transactions\<close>

lemma ante_accepted:
  assumes "anteHandler K L rng N F E ctx simulate tx (w, s) sp = (sp', Inr (w', s'))"
  obtains w1 w2 w3 priority w4 where
    "setup_decorators E ctx simulate tx w = Inr w1" "ValidateMemo_AnteHandle (maxMemo E) tx = Inr ()"
    "IBCTransferSpam_AnteHandle ctx tx = Inr ()"
    "MinInitialDeposit_AnteHandle K (gov_deposit E) (env_treasury E) simulate tx = Inr ()"
    "MFARequirement_AnteHandle K L rng False s (mfa_ctx_of E ctx w1) (mfa_tx_of (msg_bytes E) tx) = Inr ()"
    "size_decorator E ctx simulate tx w1 = Inr w2"
    "Fee_AnteHandle K N F ctx simulate tx w2 = Inr (w3, priority)"
    "ante_FilterMsgsAndProcessMsgs (env_dyncomm E) (map dyncomm_view (atMsgs tx)) = Inr ()"
    "signature_decorators E ctx simulate tx w3 = Inr w4"
    "MFAControlApply_AnteHandle K False (mfa_ctx_of E ctx w4) (mfa_tx_of (msg_bytes E) tx) s = Inr s'"
    "final_decorators E ctx simulate tx w4 = Inr w'"
proof -
  from assms obtain w1 where before: "ante_before E ctx simulate tx w = Inr w1"
    and after: "ante_after K L rng N F E ctx simulate tx (w1, s) = Inr (w', s')"
    by (auto simp: anteHandler_def split: sum.splits prod.splits)
  from before have 1: "setup_decorators E ctx simulate tx w = Inr w1" "ValidateMemo_AnteHandle (maxMemo E) tx = Inr ()"
    by (auto simp: ante_before_def rbind_eq_Inr)
  from after that [OF 1] show thesis by (auto simp: ante_after_def rbind_eq_Inr)
qed

lemma memo_bound:
  assumes "ValidateMemo_AnteHandle n tx = Inr ()"
  shows "\<exists>memo. atMemo tx = Some memo \<and> (length memo \<le> n \<or> length memo \<le> 4096 \<and> containsMFAKey memo)"
  using assms
  by (auto simp: ValidateMemo_AnteHandle_def isAllowedMFAMemo_def maxMFAMemoCharacters_def containsMFAKey_def MemoKey_def
      split: option.splits if_splits)

lemma fee_moved:
  assumes "bank N" "feegrants N F" "coin_order K" "Fee_AnteHandle K N F ctx simulate tx w = Inr (w', priority)"
  shows "\<exists>f a c. atFee tx = Some f \<and> payer_of tx f = Inr a \<and> GetModuleAddress N ''fee_collector'' = Some c \<and>
     moved N w w' a c (due_fee tx f)"
proof -
  from assms(4) obtain f where f: "atFee tx = Some f" and "checkDeductFee K N F w tx f [] simulate = Inr w'"
    by (auto simp: Fee_AnteHandle_def FilterMsgAndComputeTax_def rbind_eq_Inr Let_def split: option.splits)
  from deduct_moves [OF assms(1-3) this(2)] f show ?thesis by blast
qed

text \<open>Only the block time of the context matters to the control actions.\<close>

lemma control_apply_ctx:
  "BlockTime c = BlockTime c' \<Longrightarrow> MFAControlApply_AnteHandle K b c tx s = MFAControlApply_AnteHandle K b c' tx s"
proof -
  assume t: "BlockTime c = BlockTime c'"
  have "apply_RecoveryStart K c = apply_RecoveryStart K c'" "apply_RecoveryExecute K c = apply_RecoveryExecute K c'"
    unfolding fun_eq_iff apply_RecoveryStart_def apply_RecoveryExecute_def t by simp_all
  then have same: "applyControlActions K c tx m s = applyControlActions K c' tx m s" for m
    by (simp add: applyControlActions_def)
  show ?thesis unfolding MFAControlApply_AnteHandle_def same by (rule refl)
qed

lemma handler_mfa:
  assumes "anteHandler K L rng N F E ctx simulate tx (w, s) sp = (sp', Inr (w', s'))"
  shows "\<exists>w1. setup_decorators E ctx simulate tx w = Inr w1 \<and> mfa_ante K L rng (mfa_ctx_of E ctx w1) (mfa_tx_of (msg_bytes E) tx) s = Inr s'"
proof -
  from assms obtain w1 w4 where w1: "setup_decorators E ctx simulate tx w = Inr w1"
      "MFARequirement_AnteHandle K L rng False s (mfa_ctx_of E ctx w1) (mfa_tx_of (msg_bytes E) tx) = Inr ()"
    and "apply": "MFAControlApply_AnteHandle K False (mfa_ctx_of E ctx w4) (mfa_tx_of (msg_bytes E) tx) s = Inr s'"
    by (rule ante_accepted)
  have "MFAControlApply_AnteHandle K False (mfa_ctx_of E ctx w1) (mfa_tx_of (msg_bytes E) tx) s = Inr s'"
    using "apply" control_apply_ctx [of "mfa_ctx_of E ctx w1" "mfa_ctx_of E ctx w4"] by (simp add: mfa_ctx_of_def)
  with w1 show ?thesis by (simp add: mfa_ante_def)
qed

text \<open>
  What a transaction that was accepted has shown: \<open>ws\<close> are the worlds before the fee, after it and
  after the signatures.
\<close>

definition paid_and_signed ::
    "'w keepers \<Rightarrow> 'w ante_env \<Rightarrow> ante_ctx \<Rightarrow> bool \<Rightarrow> ante_tx \<Rightarrow> 'w \<times> 'w \<times> 'w \<Rightarrow> bool" where
  "paid_and_signed N E ctx simulate tx ws =
     (case ws of (w2, w3, w4) \<Rightarrow>
        (\<exists>f a c. atFee tx = Some f \<and> payer_of tx f = Inr a \<and> GetModuleAddress N ''fee_collector'' = Some c \<and>
           moved N w2 w3 a c (due_fee tx f)) \<and>
        signature_decorators E ctx simulate tx w3 = Inr w4)"

text \<open>The Do of every account with a policy is covered by an approval or spent by the carrier of a recovery.\<close>

definition do_protected ::
    "sdk \<Rightarrow> mfa_lib \<Rightarrow> mfa_ctx \<Rightarrow> mfa_tx \<Rightarrow> mfa_store \<Rightarrow> bool" where
  "do_protected K L ctx tx s \<longleftrightarrow>
     (\<forall>a p. addr_ok a \<and> spends K tx a \<and> GetPolicy K s a = Some p \<longrightarrow>
        (\<exists>m. parseMFAMemo tx = Inr (Some m) \<and> (authorised K L ctx tx a p m \<or> recovery_carrier K tx a m)))"

lemma accepted_lemma:
  assumes laws: "bech32 K" "coin_order K" "bank N" "feegrants N F" and rng: "\<forall>xs. set (rng xs) = set xs"
    and run: "anteHandler K L rng N F E ctx simulate tx (w, s) sp = (sp', Inr (w', s'))"
  shows "\<exists>w1 w2 w3 w4. setup_decorators E ctx simulate tx w = Inr w1 \<and> size_decorator E ctx simulate tx w1 = Inr w2 \<and>
     paid_and_signed N E ctx simulate tx (w2, w3, w4) \<and> final_decorators E ctx simulate tx w4 = Inr w' \<and>
     do_protected K L (mfa_ctx_of E ctx w1) (mfa_tx_of (msg_bytes E) tx) s"
    and "\<exists>memo. atMemo tx = Some memo \<and> (length memo \<le> maxMemo E \<or> length memo \<le> 4096 \<and> containsMFAKey memo)"
    and "list_all (\<lambda>(v, r). GetDynCommissionRate (env_dyncomm E) v \<le> r) (edits (map dyncomm_view (atMsgs tx)))"
proof -
  from run obtain w1 w2 w3 priority w4 where 1: "setup_decorators E ctx simulate tx w = Inr w1"
    and memo: "ValidateMemo_AnteHandle (maxMemo E) tx = Inr ()"
    and mfa: "MFARequirement_AnteHandle K L rng False s (mfa_ctx_of E ctx w1) (mfa_tx_of (msg_bytes E) tx) = Inr ()"
    and 2: "size_decorator E ctx simulate tx w1 = Inr w2"
    and fee: "Fee_AnteHandle K N F ctx simulate tx w2 = Inr (w3, priority)"
    and dyn: "ante_FilterMsgsAndProcessMsgs (env_dyncomm E) (map dyncomm_view (atMsgs tx)) = Inr ()"
    and sig: "signature_decorators E ctx simulate tx w3 = Inr w4" and final: "final_decorators E ctx simulate tx w4 = Inr w'"
    by (rule ante_accepted)
  have "paid_and_signed N E ctx simulate tx (w2, w3, w4)"
    using fee_moved [OF laws(3,4,2) fee] sig by (simp add: paid_and_signed_def)
  moreover have "do_protected K L (mfa_ctx_of E ctx w1) (mfa_tx_of (msg_bytes E) tx) s"
    using do_needs_approval_lemma [OF laws(1) rng mfa] by (auto simp: do_protected_def)
  ultimately show "\<exists>w1 w2 w3 w4. setup_decorators E ctx simulate tx w = Inr w1 \<and> size_decorator E ctx simulate tx w1 = Inr w2 \<and>
     paid_and_signed N E ctx simulate tx (w2, w3, w4) \<and> final_decorators E ctx simulate tx w4 = Inr w' \<and>
     do_protected K L (mfa_ctx_of E ctx w1) (mfa_tx_of (msg_bytes E) tx) s" using 1 2 final by blast
  show "\<exists>memo. atMemo tx = Some memo \<and> (length memo \<le> maxMemo E \<or> length memo \<le> 4096 \<and> containsMFAKey memo)"
    by (rule memo_bound [OF memo])
  show "list_all (\<lambda>(v, r). GetDynCommissionRate (env_dyncomm E) v \<le> r) (edits (map dyncomm_view (atMsgs tx)))"
    using ante_accepts_edits dyn by (fastforce simp: list_all_iff ante_FilterMsgsAndProcessMsgs_def)
qed


text \<open>The first vote of a transaction takes the slot of its validator.\<close>

lemma vote_takes_slot:
  assumes ctx: "IsCheckTx ctx" "\<not> IsReCheckTx ctx"
    and forged: "atMsgs tx = Vote m # msgs" "oracle_gas_check tx = Inr ()" "ante_before E ctx False tx w = Inr w1"
      "check_feeder K N w1 (env_oracle E) (voteFeeder m) (voteValidator m) = Inr ()"
    and run: "anteHandler K L rng N F E ctx False tx (w, s) sp = (sp', r)"
  shows "oracleVoteMap sp' (voteValidator m) = Some (BlockHeight ctx)"
proof -
  obtain q where q: "CheckOracleSpamming K N w1 (env_oracle E) (BlockHeight ctx) (Vote m # msgs) sp = (sp', q)"
    using run forged ctx by (auto simp: anteHandler_def Spamming_AnteHandle_def split: sum.splits prod.splits)
  show ?thesis
  proof (cases "oracleVoteMap sp (voteValidator m) = Some (BlockHeight ctx)")
    case False
    let ?sp = "sp\<lparr>oracleVoteMap := (oracleVoteMap sp)(voteValidator m \<mapsto> BlockHeight ctx)\<rparr>"
    have "CheckOracleSpamming K N w1 (env_oracle E) (BlockHeight ctx) msgs ?sp = (sp', q)" using q forged(4) False by simp
    from spam_keeps [OF this, of "voteValidator m"] show ?thesis by simp
  qed (use spam_keeps [OF q, of "voteValidator m"] in blast)
qed

lemma refused_signature:
  assumes "\<And>w. isl (signature_decorators E ctx simulate tx w)"
    and "anteHandler K L rng N F E ctx simulate tx (w, s) sp = (sp', r)"
  shows "isl r"
proof (cases r)
  case (Inr ws)
  obtain w2 s2 where ws: "ws = (w2, s2)" by fastforce
  from assms(2) [unfolded Inr ws] obtain w3 w4 where "signature_decorators E ctx simulate tx w3 = Inr w4" by (rule ante_accepted)
  with assms(1) [of w3] show ?thesis by simp
qed simp



section \<open>The promises\<close>

text \<open>
  C2: what holds of every transaction the chain of decorators accepts, in simulation or not: the
  decorators of the SDK before the fee accepted it, then exactly the fee it states, nothing for a
  pure oracle transaction, moved from its payer (the granter if there is one, else the fee payer or
  the first signer) to the fee collector and no other balance changed, then it was
  accepted by the SDK's signature decorators (parameters of the model, which verify nothing in a
  simulation), and only then the rest ran; for every account with a policy whose Do it spends, its
  memo has a valid approval of that account, or the transaction is the carrier of a recovery of that
  account, a transfer of one udo to itself; the memo has the allowed length; every commission edit in
  it, those in authorisations and in interchain-account packets that decode as protobuf included, is
  at least the minimum stored under the text that names the validator. The text the chain writes has
  the validator's minimum; the same text in capitals, which names the same validator, has none.
\<close>

theorem accepted_transaction:
  assumes "bech32 K" "coin_order K" "bank N" "feegrants N F" and "\<forall>xs. set (rng xs) = set xs"
    and "anteHandler K L rng N F E ctx simulate tx (w, s) sp = (sp', Inr (w', s'))"
  shows "(\<exists>w1 w2 w3 w4. setup_decorators E ctx simulate tx w = Inr w1 \<and> size_decorator E ctx simulate tx w1 = Inr w2 \<and>
       paid_and_signed N E ctx simulate tx (w2, w3, w4) \<and> final_decorators E ctx simulate tx w4 = Inr w' \<and>
       do_protected K L (mfa_ctx_of E ctx w1) (mfa_tx_of (msg_bytes E) tx) s) \<and>
     (\<exists>memo. atMemo tx = Some memo \<and> (length memo \<le> maxMemo E \<or> length memo \<le> 4096 \<and> containsMFAKey memo)) \<and>
     list_all (\<lambda>(v, r). GetDynCommissionRate (env_dyncomm E) v \<le> r) (edits (map dyncomm_view (atMsgs tx)))"
  using accepted_lemma [OF assms] by blast

definition sample_env :: "ref_world ante_env" where
  "sample_env = \<lparr>maxMemo = 256, gov_deposit = Inr [\<lparr>Denom = ''udo'', Amount = 1000\<rparr>], env_oracle = ex_oracle,
     env_treasury = ex_treasury, env_dyncomm = ex_dyncomm, sequences = (\<lambda>_ _. Some 7), msg_bytes = (\<lambda>_. ''edit''),
     setup_decorators = (\<lambda>_ _ _ w. Inr w), size_decorator = (\<lambda>_ _ _ w. Inr w),
     signature_decorators = (\<lambda>_ _ _ w. Inr w), final_decorators = (\<lambda>_ _ _ w. Inr w)\<rparr>"

definition sample_ante_ctx :: ante_ctx where
  "sample_ante_ctx = \<lparr>BlockHeight = 9, IsCheckTx = True, IsReCheckTx = False,
     MinGasPrices = [\<lparr>DDenom = ''udo'', DAmount = 25000000000000000\<rparr>], acTime = 1700000000, acChainID = ''dochain-1''\<rparr>"

definition plain_tx :: ante_tx where
  "plain_tx = \<lparr>atMsgs = [Staking (MsgEditValidator (''dovaloper1'' @ alice) (Some 60000000000000000)) []],
     atFee = Some \<lparr>txFee = [\<lparr>Denom = ''udo'', Amount = 5000\<rparr>], txGas = 200000, txFeePayer = bob, txFeeGranter = None\<rparr>,
     atMemo = Some [], atTimeoutHeight = None, atSigners = Some (Inr [bob])\<rparr>"

definition no_spam :: spam_maps where
  "no_spam = \<lparr>oraclePrevoteMap = (\<lambda>_. None), oracleVoteMap = (\<lambda>_. None)\<rparr>"

definition rich_bob :: ref_world where
  "rich_bob = ex_world [(bob, ''udo'', 9000)] [(alice, 10)]"

lemma id_order: "\<forall>xs. set (id xs) = set (xs :: accounts)"
  by simp

lemma sample_accepts:
  obtains sp' w' s' where
    "anteHandler ref_sdk sample_lib id ref_keepers ref_fee_keepers sample_env sample_ante_ctx False plain_tx (rich_bob, []) no_spam =
       (sp', Inr (w', s'))"
proof -
  define r where "r = anteHandler ref_sdk sample_lib id ref_keepers ref_fee_keepers sample_env sample_ante_ctx False plain_tx
    (rich_bob, []) no_spam"
  have "map_sum id (\<lambda>_. ()) (snd r) = Inr ()" unfolding r_def by code_simp
  then obtain ws where "snd r = Inr ws" by (cases "snd r") auto
  then show thesis using that by (cases r; cases ws) (auto simp: r_def)
qed

theorem accepted_transaction_witness:
  "\<exists>w1 w2 w3 w4. paid_and_signed ref_keepers sample_env sample_ante_ctx False plain_tx (w2, w3, w4) \<and>
     do_protected ref_sdk sample_lib (mfa_ctx_of sample_env sample_ante_ctx w1) (mfa_tx_of (msg_bytes sample_env) plain_tx) []"
proof -
  obtain sp' w' s' where "anteHandler ref_sdk sample_lib id ref_keepers ref_fee_keepers sample_env sample_ante_ctx False plain_tx
     (rich_bob, []) no_spam = (sp', Inr (w', s'))" by (rule sample_accepts)
  from accepted_transaction [OF ref.bech32_axioms ref.coin_order_axioms ref.bank_axioms ref.feegrants_axioms id_order this]
  show ?thesis by blast
qed


text \<open>
  C14: a node admits at most one prevote and one vote per validator and height. Of all transactions
  it checks at one height, however many there are and whatever the state of its maps, no two of the
  admitted ones prevote, or vote, for the same validator text, and none does so twice, among the
  messages up to the first one of another kind; nor for one recorded before at this height.
\<close>

theorem one_vote_per_height:
  assumes "IsCheckTx ctx" and "\<not> IsReCheckTx ctx"
  shows "distinct (concat (map (prevoted \<circ> atMsgs) (admit K L rng N F E ctx ts ws sp))) \<and>
     distinct (concat (map (voted \<circ> atMsgs) (admit K L rng N F E ctx ts ws sp))) \<and>
     list_all (\<lambda>tx. list_all (\<lambda>v. oraclePrevoteMap sp v \<noteq> Some (BlockHeight ctx)) (prevoted (atMsgs tx)) \<and>
                    list_all (\<lambda>v. oracleVoteMap sp v \<noteq> Some (BlockHeight ctx)) (voted (atMsgs tx)))
       (admit K L rng N F E ctx ts ws sp)"
  using admit_fresh [OF assms, of K L rng N F E ts ws sp] by (simp add: list_all_iff)

definition vote_msg :: MsgAggregateDoRateVote where
  "vote_msg = \<lparr>voteSalt = ''s'', voteExchangeRates = ''2.5uusd'', voteFeeder = ''do1'' @ alice, voteValidator = ''dovaloper1'' @ alice\<rparr>"

definition vote_tx :: ante_tx where
  "vote_tx = plain_tx\<lparr>atMsgs := [Vote vote_msg]\<rparr>"

theorem one_vote_per_height_witness:
  "map (voted \<circ> atMsgs) (admit ref_sdk sample_lib id ref_keepers ref_fee_keepers sample_env sample_ante_ctx
       [vote_tx, vote_tx, plain_tx] (rich_bob, []) no_spam) = [[''dovaloper1'' @ alice], []] \<and>
   distinct (concat (map (voted \<circ> atMsgs) (admit ref_sdk sample_lib id ref_keepers ref_fee_keepers sample_env sample_ante_ctx
       [vote_tx, vote_tx, plain_tx] (rich_bob, []) no_spam)))"
proof -
  have "map (voted \<circ> atMsgs) (admit ref_sdk sample_lib id ref_keepers ref_fee_keepers sample_env sample_ante_ctx
       [vote_tx, vote_tx, plain_tx] (rich_bob, []) no_spam) = [[''dovaloper1'' @ alice], []]" by code_simp
  moreover have "IsCheckTx sample_ante_ctx" "\<not> IsReCheckTx sample_ante_ctx" by (simp_all add: sample_ante_ctx_def)
  ultimately show ?thesis
    using one_vote_per_height [of sample_ante_ctx ref_sdk sample_lib id ref_keepers ref_fee_keepers sample_env
      "[vote_tx, vote_tx, plain_tx]" "(rich_bob, [])" no_spam] by blast
qed

text \<open>
  C37: the slot of a validator is taken before any signature is verified. Take a transaction that
  starts with a vote for a validator text and passes the checks before the signatures: the gas limit
  of oracle transactions, the decorators before, and that the feeder it names may vote for that
  validator. Even when its signature is refused, so that the transaction is, none of the transactions
  this node checks afterwards at the same height, however many and in whatever states of the stores,
  is admitted with a vote for that validator text before its first message of another kind: anyone
  can keep the votes of a validator, in the text its feeder uses, out of the mempool.
\<close>

theorem forged_vote_blocks:
  assumes "IsCheckTx ctx" "\<not> IsReCheckTx ctx"
    and "atMsgs tx = Vote m # msgs" "oracle_gas_check tx = Inr ()" "ante_before E ctx False tx w = Inr w1"
    and "check_feeder K N w1 (env_oracle E) (voteFeeder m) (voteValidator m) = Inr ()"
    and "\<And>w. isl (signature_decorators E ctx False tx w)"
    and "anteHandler K L rng N F E ctx False tx (w, s) sp = (sp', r)"
  shows "isl r \<and> list_all (\<lambda>tx'. voteValidator m \<notin> set (voted (atMsgs tx'))) (admit K L rng N F E ctx ts ws sp')"
  using refused_signature [OF assms(7,8)] vote_takes_slot [OF assms(1-6,8)] admit_fresh [OF assms(1,2), of K L rng N F E ts ws sp']
  by (auto simp: list_all_iff)

definition forged_tx :: ante_tx where
  "forged_tx = vote_tx\<lparr>atSigners := Some (Inr [''mallory''])\<rparr>"

text \<open>In this environment only the signatures of \<open>bob\<close> verify.\<close>

definition strict_env :: "ref_world ante_env" where
  "strict_env = sample_env\<lparr>signature_decorators := (\<lambda>_ _ tx w. if atSigners tx = Some (Inr [bob]) then Inr w else Inl (Sdk ''ErrUnauthorized''))\<rparr>"

theorem forged_vote_blocks_witness:
  "admit ref_sdk sample_lib id ref_keepers ref_fee_keepers strict_env sample_ante_ctx [vote_tx] (rich_bob, []) no_spam = [vote_tx] \<and>
   list_all (\<lambda>tx'. voteValidator vote_msg \<notin> set (voted (atMsgs tx')))
     (admit ref_sdk sample_lib id ref_keepers ref_fee_keepers strict_env sample_ante_ctx [vote_tx, plain_tx, vote_tx] (rich_bob, [])
       (fst (anteHandler ref_sdk sample_lib id ref_keepers ref_fee_keepers strict_env sample_ante_ctx False forged_tx (rich_bob, []) no_spam)))"
proof -
  obtain sp' r where run: "anteHandler ref_sdk sample_lib id ref_keepers ref_fee_keepers strict_env sample_ante_ctx False forged_tx
    (rich_bob, []) no_spam = (sp', r)" by fastforce
  have "list_all (\<lambda>tx'. voteValidator vote_msg \<notin> set (voted (atMsgs tx')))
     (admit ref_sdk sample_lib id ref_keepers ref_fee_keepers strict_env sample_ante_ctx [vote_tx, plain_tx, vote_tx] (rich_bob, []) sp')"
    by (rule forged_vote_blocks [where m = vote_msg and ?w1.0 = rich_bob, OF _ _ _ _ _ _ _ run, THEN conjunct2])
       (simp_all add: sample_ante_ctx_def forged_tx_def vote_tx_def strict_env_def sample_env_def ante_before_def
          ValidateMemo_AnteHandle_def plain_tx_def oracle_gas_check_def containsOracleMsg_def MaxOracleGasLimit_def bob_def, code_simp)
  moreover have "admit ref_sdk sample_lib id ref_keepers ref_fee_keepers strict_env sample_ante_ctx [vote_tx] (rich_bob, []) no_spam = [vote_tx]"
    by code_simp
  ultimately show ?thesis using run by simp
qed

text \<open>
  The fee covers the minimum gas price of the node. When the fee check accepts a transaction
  that is not a pure oracle transaction, on a node with a minimum gas price, some coin of the fee is
  at least the price of its denom times the gas limit, exactly, for a gas limit below \<open>2^63\<close>.
\<close>

lemma gas_price_paid:
  assumes "coin_order K" and "checkTxFee K prices tx = Inr priority" and "atFee tx = Some f"
    and "\<not> oracle_tx tx" and "\<not> DecCoinsIsZero K prices" and "sorted_wrt (\<le>) (map DDenom prices)"
    and "0 \<le> txGas f" and "txGas f < 2 ^ 63"
  shows "\<exists>c \<in> set (txFee f). \<exists>gp \<in> set prices. DDenom gp = Denom c \<and> DAmount gp * txGas f \<le> Amount c * PREC"
proof -
  from assms(2-5) obtain req where "required_fees K prices (txGas f) = Inr req" "CoinsIsAnyGTE K (txFee f) req"
    by (auto simp: checkTxFee_def rbind_eq_Inr)
  with coin_order.gas_price_paid_lemma [OF assms(1)] assms(6-8) show ?thesis by blast
qed

lemma gas_price_paid_example:
  "list_ex (\<lambda>c. list_ex (\<lambda>gp. DDenom gp = Denom c \<and> DAmount gp * 200000 \<le> Amount c * PREC) (MinGasPrices sample_ante_ctx))
     (txFee (the (atFee plain_tx)))"
proof -
  define r where "r = checkTxFee ref_sdk (MinGasPrices sample_ante_ctx) plain_tx"
  have "r = Inr 0" unfolding r_def by code_simp
  then have run: "checkTxFee ref_sdk (MinGasPrices sample_ante_ctx) plain_tx = Inr 0" by (simp add: r_def)
  have other: "\<not> oracle_tx plain_tx" by code_simp
  from gas_price_paid [OF ref.coin_order_axioms run _ other, of "the (atFee plain_tx)"] show ?thesis
    by (simp add: plain_tx_def sample_ante_ctx_def list_ex_iff)
qed


text \<open>
  A proposal starts with the required share of the deposit. When the deposit decorator accepts
  a transaction outside simulation, every proposal it submits, of either version of the governance
  messages, deposits at least the minimum deposit times the treasury's ratio, rounded down, unless
  that is nothing.
\<close>

lemma initial_deposit_required:
  assumes "coin_order K" and "MinInitialDeposit_AnteHandle K (Inr (c # cs)) s False tx = Inr ()"
    and "0 \<le> Amount c" "0 \<le> GetMinInitialDepositRatio s" "fits_dec (Amount c * GetMinInitialDepositRatio s)"
    and "msg \<in> set (atMsgs tx)" "initial_deposit msg = Inr deposit"
  shows "Amount c * GetMinInitialDepositRatio s div PREC = 0 \<or>
     Amount c * GetMinInitialDepositRatio s div PREC \<le> CoinsAmountOf K deposit (Denom c)"
proof -
  have "IsMsgSubmitProposal msg" using assms(7) by (cases msg) auto
  with assms(2,6) have "HandleCheckMinInitialDeposit K (Inr (c # cs)) s msg = Inr ()"
    by (auto simp: MinInitialDeposit_AnteHandle_def fold_res_unit dest!: bspec)
  from coin_order.deposit_covers [OF assms(1) this assms(7,3,4,5)] show ?thesis .
qed

definition ratio_store :: treasury_store where
  "ratio_store = empty_treasury (treasury_DefaultParams\<lparr>MinInitialDepositRatio := 200000000000000000\<rparr>)"

definition submit_tx :: ante_tx where
  "submit_tx = plain_tx\<lparr>atMsgs := [Submit_v1 [\<lparr>Denom = ''udo'', Amount = 250\<rparr>] []]\<rparr>"

lemma initial_deposit_required_example:
  "MinInitialDeposit_AnteHandle ref_sdk (Inr [\<lparr>Denom = ''udo'', Amount = 1000\<rparr>]) ratio_store False submit_tx = Inr () \<and>
   200 \<le> CoinsAmountOf ref_sdk [\<lparr>Denom = ''udo'', Amount = 250\<rparr>] ''udo''"
proof -
  have run: "MinInitialDeposit_AnteHandle ref_sdk (Inr [\<lparr>Denom = ''udo'', Amount = 1000\<rparr>]) ratio_store False submit_tx = Inr ()"
    by code_simp
  have fit: "fits_dec (Amount \<lparr>Denom = ''udo'', Amount = 1000\<rparr> * GetMinInitialDepositRatio ratio_store)" by code_simp
  from initial_deposit_required [OF ref.coin_order_axioms run _ _ fit, of "Submit_v1 [\<lparr>Denom = ''udo'', Amount = 250\<rparr>] []"
      "[\<lparr>Denom = ''udo'', Amount = 250\<rparr>]"] run
  show ?thesis by (simp add: submit_tx_def GetMinInitialDepositRatio_def ratio_store_def empty_treasury_def)
qed

end
