(* ===== verification/Wasm_Legacy.thy ===== *)
theory Wasm_Legacy
  imports Core_Types "HOL-Library.Sublist"
begin

text \<open>
  \<open>custom/wasm/legacy_store.go\<close>, \<open>query_handler.go\<close> and \<open>query_server.go\<close>: queries about a
  height before the migration of the wasm module's keys run on a read-only store that
  translates keys and values of the present layout to those the database then held.

  The database is an association list in byte order. What the module takes from packages
  outside the repository or from generated code is in the record \<open>wasm_lib\<close>: the protobuf codecs of the
  old and new values, and \<open>PrefixEndBytes\<close>, whose documented behaviour is the locale
  \<open>prefix_ranges\<close>. A Go slice that may be nil is an option.

  Shown here: the key maps are inverse as far as the old layout allows, the iterator delivers the
  translated entries of its range and stops, reading a contract's key gives its value, and listing
  a contract gives all its entries; and where that fails, for 32-byte addresses and for addresses
  that end in the byte 255.
\<close>


section \<open>The store behind\<close>

record wasm_lib =
  PrefixEndBytes :: "bytes \<Rightarrow> bytes option"
  LegacyCodeInfo_Unmarshal :: "bytes \<Rightarrow> (bytes \<times> string) result"
  CodeInfo_Marshal :: "bytes \<Rightarrow> string \<Rightarrow> bytes result"
  LegacyContractInfo_Unmarshal :: "bytes \<Rightarrow> (nat \<times> string \<times> string) result"
  ContractInfo_Marshal :: "nat \<Rightarrow> string \<Rightarrow> string \<Rightarrow> bytes result"

definition rangeOK :: "bytes \<Rightarrow> bytes option \<Rightarrow> bytes option \<Rightarrow> bool" where
  "rangeOK k start end =
     (if start \<noteq> None \<and> k < the start then False
      else if end \<noteq> None \<and> k \<ge> the end then False
      else True)"

definition parent_Iterator :: "bytes kv \<Rightarrow> bytes option \<Rightarrow> bytes option \<Rightarrow> bytes kv" where
  "parent_Iterator s start end = filter (\<lambda>(k, v). rangeOK k start end) s"

definition parent_ReverseIterator :: "bytes kv \<Rightarrow> bytes option \<Rightarrow> bytes option \<Rightarrow> bytes kv" where
  "parent_ReverseIterator s start end = rev (parent_Iterator s start end)"


section \<open>Keys\<close>

definition newToOldSimple :: "char \<Rightarrow> char option" where
  "newToOldSimple c = map_of [(CHR 0x01, CHR 0x03), (CHR 0x02, CHR 0x04), (CHR 0x03, CHR 0x05),
                              (CHR 0x05, CHR 0x06), (CHR 0x06, CHR 0x10)] c"

definition oldToNewSimple :: "char \<Rightarrow> char option" where
  "oldToNewSimple c = map_of [(CHR 0x03, CHR 0x01), (CHR 0x04, CHR 0x02), (CHR 0x05, CHR 0x03),
                              (CHR 0x06, CHR 0x05), (CHR 0x10, CHR 0x06)] c"

definition seqPrefixNew :: char where
  "seqPrefixNew = CHR 0x04"

definition lastCodeIDKey :: bytes where
  "lastCodeIDKey = ''lastCodeId''"

definition lastContractIDKey :: bytes where
  "lastContractIDKey = ''lastContractId''"

definition legacyParamsOld :: char where
  "legacyParamsOld = CHR 0x11"

definition legacyParamsNew :: char where
  "legacyParamsNew = CHR 0x10"

definition buildLenVariants :: "char \<Rightarrow> bytes \<Rightarrow> bytes list" where
  "buildLenVariants basePrefix r =
     [basePrefix # r]
     @ (if length r \<ge> 20 then [(basePrefix # CHR 20 # take 20 r) @ drop 20 r] else [])
     @ (if length r \<ge> 32 then [(basePrefix # CHR 32 # take 32 r) @ drop 32 r] else [])"

definition translateNewToOld :: "bytes \<Rightarrow> bytes list" where
  "translateNewToOld newKey =
     (case newKey of
        [] \<Rightarrow> [newKey]
      | c # body \<Rightarrow>
          if c = seqPrefixNew \<and> newKey = seqPrefixNew # lastCodeIDKey then [[CHR 0x01]]
          else if c = seqPrefixNew \<and> newKey = seqPrefixNew # lastContractIDKey then [[CHR 0x02]]
          else if c = legacyParamsNew \<and> length newKey = 1 then [[legacyParamsOld]]
          else (case newToOldSimple c of
                  Some oldPref \<Rightarrow>
                    if c = CHR 0x02 \<or> c = CHR 0x03 then buildLenVariants oldPref body
                    else [oldPref # body]
                | None \<Rightarrow> [newKey]))"

definition rebuildContractStoreBody :: "bytes \<Rightarrow> bytes" where
  "rebuildContractStoreBody rest =
     (case rest of
        [] \<Rightarrow> rest
      | c # r \<Rightarrow>
          if (c = CHR 20 \<or> c = CHR 32) \<and> length rest \<ge> 1 + of_char c then r else rest)"

definition stripLegacyLenPrefix :: "bytes \<Rightarrow> bytes" where
  "stripLegacyLenPrefix b =
     (if length b \<ge> 21 \<and> b ! 0 = CHR 20 \<and> of_char (b ! 0) = length b - 1 then tl b else b)"

definition mapOldToNew :: "bytes \<Rightarrow> bytes option" where
  "mapOldToNew old =
     (case old of
        [] \<Rightarrow> None
      | c # body \<Rightarrow>
          if c = CHR 0x01 \<and> length old = 1 then Some (seqPrefixNew # lastCodeIDKey)
          else if c = CHR 0x02 \<and> length old = 1 then Some (seqPrefixNew # lastContractIDKey)
          else if c = legacyParamsOld \<and> length old = 1 then Some [legacyParamsNew]
          else (case oldToNewSimple c of
                  Some newPref \<Rightarrow>
                    Some (newPref #
                      (if c = CHR 0x04 then stripLegacyLenPrefix body
                       else if c = CHR 0x05 then rebuildContractStoreBody body
                       else body))
                | None \<Rightarrow> None))"


section \<open>Values\<close>

definition translateLegacyCodeInfoValue :: "wasm_lib \<Rightarrow> bytes \<Rightarrow> bytes" where
  "translateLegacyCodeInfoValue L value =
     (case LegacyCodeInfo_Unmarshal L value of
        Inl _ \<Rightarrow> value
      | Inr (codeHash, creator) \<Rightarrow>
          (case CodeInfo_Marshal L codeHash creator of Inl _ \<Rightarrow> value | Inr marshaled \<Rightarrow> marshaled))"

definition translateLegacyContractInfoValue :: "wasm_lib \<Rightarrow> bytes \<Rightarrow> bytes" where
  "translateLegacyContractInfoValue L value =
     (case LegacyContractInfo_Unmarshal L value of
        Inl _ \<Rightarrow> value
      | Inr (codeID, creator, admin) \<Rightarrow>
          (case ContractInfo_Marshal L codeID creator admin of
             Inl _ \<Rightarrow> value | Inr marshaled \<Rightarrow> marshaled))"

definition translateLegacyValueForKey :: "wasm_lib \<Rightarrow> bytes \<Rightarrow> bytes \<Rightarrow> bytes" where
  "translateLegacyValueForKey L newKey value =
     (case newKey of
        [] \<Rightarrow> value
      | c # _ \<Rightarrow>
          if c = CHR 0x01 then translateLegacyCodeInfoValue L value
          else if c = CHR 0x02 then translateLegacyContractInfoValue L value
          else value)"


section \<open>The legacy store\<close>

fun get_first :: "bytes kv \<Rightarrow> bytes list \<Rightarrow> bytes option" where
  "get_first s [] = None"
| "get_first s (c # cs) = (case kv_get s c of Some bz \<Rightarrow> Some bz | None \<Rightarrow> get_first s cs)"

definition legacy_Get :: "wasm_lib \<Rightarrow> bytes kv \<Rightarrow> bytes \<Rightarrow> bytes option" where
  "legacy_Get L s key =
     (case get_first s (translateNewToOld key) of
        Some bz \<Rightarrow> Some (translateLegacyValueForKey L key bz)
      | None \<Rightarrow> None)"

definition legacy_Has :: "bytes kv \<Rightarrow> bytes \<Rightarrow> bool" where
  "legacy_Has s key = list_ex (\<lambda>c. kv_get s c \<noteq> None) (translateNewToOld key)"

definition legacy_Set :: "bytes kv \<Rightarrow> bytes \<Rightarrow> bytes \<Rightarrow> bytes kv" where
  "legacy_Set s _ _ = s"

definition legacy_Delete :: "bytes kv \<Rightarrow> bytes \<Rightarrow> bytes kv" where
  "legacy_Delete s _ = s"

definition getAddressLengthPrefix :: "wasm_lib \<Rightarrow> bytes kv \<Rightarrow> bytes \<Rightarrow> char option" where
  "getAddressLengthPrefix L s body =
     (if length body < 20 then None
      else
        let key20 = [CHR 0x05, CHR 0x14] @ take 20 body
        in if parent_Iterator s (Some key20) (PrefixEndBytes L key20) \<noteq> [] then Some (CHR 0x14)
           else if length body \<ge> 32 \<and>
                   (let key32 = [CHR 0x05, CHR 0x20] @ take 32 body
                    in parent_Iterator s (Some key32) (PrefixEndBytes L key32) \<noteq> [])
           then Some (CHR 0x20)
           else Some (CHR 0x14))"

text \<open>A bound that is nil and one that is empty have length 0.\<close>

definition blen :: "bytes option \<Rightarrow> nat" where
  "blen b = (case b of None \<Rightarrow> 0 | Some k \<Rightarrow> length k)"

definition least_candidate :: "bytes list \<Rightarrow> bytes" where
  "least_candidate cs = fold (\<lambda>c m. if c < m then c else m) (tl cs) (hd cs)"

definition greatest_candidate :: "bytes list \<Rightarrow> bytes" where
  "greatest_candidate cs = fold (\<lambda>c m. if c > m then c else m) (tl cs) (hd cs)"

definition translateBoundsForIteration ::
  "wasm_lib \<Rightarrow> bytes kv \<Rightarrow> bytes option \<Rightarrow> bytes option \<Rightarrow> bytes option \<times> bytes option"
where
  "translateBoundsForIteration L s start end =
     (if blen start = 0 \<and> blen end = 0 then (None, None)
      else if blen start > 0 \<and> the start ! 0 = CHR 0x03 then
        (let body = tl (the start)
         in case getAddressLengthPrefix L s body of
              None \<Rightarrow> (Some [CHR 0x05, CHR 0xff], Some [CHR 0x05, CHR 0xff])
            | Some lenPrefix \<Rightarrow>
                (let oldStart = [CHR 0x05, lenPrefix] @ body
                 in if blen end > 0 \<and> the end ! 0 = CHR 0x03 then
                      (let bodyEnd = tl (the end)
                       in case getAddressLengthPrefix L s bodyEnd of
                            None \<Rightarrow> (Some oldStart, Some oldStart)
                          | Some lenPrefix' \<Rightarrow> (Some oldStart, Some ([CHR 0x05, lenPrefix'] @ bodyEnd)))
                    else (Some oldStart, None)))
      else
        (if blen start > 0 then Some (least_candidate (translateNewToOld (the start))) else None,
         if blen end > 0 then Some (greatest_candidate (translateNewToOld (the end))) else None))"


section \<open>The iterator\<close>

record legacyIterator =
  under :: "bytes kv"
  it_start :: "bytes option"
  it_end :: "bytes option"
  valid :: bool
  it_key :: bytes
  it_val :: bytes

fun advance_loop :: "wasm_lib \<Rightarrow> legacyIterator \<Rightarrow> bytes kv \<Rightarrow> legacyIterator" where
  "advance_loop L it [] = it\<lparr>under := [], valid := False\<rparr>"
| "advance_loop L it ((oldKey, v) # u) =
     (case mapOldToNew oldKey of
        None \<Rightarrow> advance_loop L it u
      | Some newKey \<Rightarrow>
          if \<not> rangeOK newKey (it_start it) (it_end it) then advance_loop L it u
          else it\<lparr>it_key := newKey, it_val := translateLegacyValueForKey L newKey v,
                  valid := True, under := u\<rparr>)"

definition legacy_advance :: "wasm_lib \<Rightarrow> legacyIterator \<Rightarrow> legacyIterator" where
  "legacy_advance L it = advance_loop L it (under it)"

definition newLegacyIterator :: "wasm_lib \<Rightarrow> bytes kv \<Rightarrow> bytes option \<Rightarrow> bytes option \<Rightarrow> legacyIterator" where
  "newLegacyIterator L u start end =
     legacy_advance L \<lparr>under = u, it_start = start, it_end = end, valid = False, it_key = [], it_val = []\<rparr>"

definition legacy_Iterator :: "wasm_lib \<Rightarrow> bytes kv \<Rightarrow> bytes option \<Rightarrow> bytes option \<Rightarrow> legacyIterator" where
  "legacy_Iterator L s start end =
     (let (oldStart, oldEnd) = translateBoundsForIteration L s start end
      in newLegacyIterator L (parent_Iterator s oldStart oldEnd) start end)"

definition legacy_ReverseIterator :: "wasm_lib \<Rightarrow> bytes kv \<Rightarrow> bytes option \<Rightarrow> bytes option \<Rightarrow> legacyIterator" where
  "legacy_ReverseIterator L s start end =
     (let (oldStart, oldEnd) = translateBoundsForIteration L s start end
      in newLegacyIterator L (parent_ReverseIterator s oldStart oldEnd) start end)"

text \<open>The loop of a client: \<open>for ; it.Valid(); it.Next()\<close>. It ends, as every \<open>Next\<close> that leaves the
  iterator valid has read at least one more entry.\<close>

lemma advance_loop_shrinks: "valid (advance_loop L it u) \<Longrightarrow> length (under (advance_loop L it u)) < length u"
  by (induction L it u rule: advance_loop.induct) (auto split: option.splits if_splits intro: less_SucI)

lemma advance_loop_done: "\<not> valid (advance_loop L it u) \<Longrightarrow> under (advance_loop L it u) = []"
  by (induction L it u rule: advance_loop.induct) (auto split: option.splits if_splits)

lemma advance_decreases:
  "valid it \<Longrightarrow>
     length (under (legacy_advance L it)) + of_bool (valid (legacy_advance L it)) < length (under it) + of_bool (valid it)"
  using advance_loop_shrinks [of L it "under it"] advance_loop_done [of L it "under it"]
  by (cases "valid (legacy_advance L it)") (auto simp: legacy_advance_def)

function drained :: "wasm_lib \<Rightarrow> legacyIterator \<Rightarrow> bytes kv" where
  "drained L it = (if valid it then (it_key it, it_val it) # drained L (legacy_advance L it) else [])"
  by pat_completeness auto
termination
  by (relation "measure (\<lambda>(L, it). length (under it) + of_bool (valid it))") (use advance_decreases in auto)

declare drained.simps [simp del]


section \<open>Prefix ranges\<close>

text \<open>
  \<open>PrefixEndBytes\<close> of the store package: the bytes that end a range query over all keys with a
  prefix, nil when no bytes do.
\<close>

locale prefix_ranges =
  fixes prefix_end :: "bytes \<Rightarrow> bytes option"
  assumes range_iff_prefix: "rangeOK k (Some p) (prefix_end p) \<longleftrightarrow> prefix p k"

fun ref_PrefixEndBytes :: "bytes \<Rightarrow> bytes option" where
  "ref_PrefixEndBytes [] = None"
| "ref_PrefixEndBytes (c # p) =
     (case ref_PrefixEndBytes p of
        Some e \<Rightarrow> Some (c # e)
      | None \<Rightarrow> if c = CHR 0xff then None else Some [char_of (Suc (of_char c))])"

lemma char_le_255: "\<not> CHR 0xff < (c :: char)"
proof -
  have "\<not> (255 :: nat) < of_char c" using nat_of_char_less_256 [of c] by linarith
  then show ?thesis by (simp add: less_char_def)
qed

lemma char_less_Suc: "c \<noteq> CHR 0xff \<Longrightarrow> d < char_of (Suc (of_char c)) \<longleftrightarrow> d \<le> (c :: char)"
proof -
  assume c: "c \<noteq> CHR 0xff"
  have "(of_char c :: nat) \<noteq> of_char (CHR 0xff)" using c by (simp only: of_char_eq_iff not_False_eq_True)
  then have "(of_char c :: nat) \<noteq> 255" by simp
  then have "(of_char c :: nat) < 255" using nat_of_char_less_256 [of c] by linarith
  then show ?thesis by (simp add: less_char_def less_eq_char_def of_char_of less_Suc_eq_le)
qed

lemma rangeOK_iff:
  "rangeOK k start end \<longleftrightarrow>
     (case start of None \<Rightarrow> True | Some s \<Rightarrow> s \<le> k) \<and> (case end of None \<Rightarrow> True | Some e \<Rightarrow> k < e)"
  by (auto simp: rangeOK_def not_less not_le split: option.splits)

lemma range_empty: "e \<le> b \<Longrightarrow> \<not> rangeOK k (Some b) (Some e)"
  by (auto simp: rangeOK_iff not_less intro: order.trans)

lemma ref_range: "rangeOK k (Some p) (ref_PrefixEndBytes p) \<longleftrightarrow> prefix p k"
proof (induction p arbitrary: k)
  case Nil
  then show ?case by (simp add: rangeOK_iff)
next
  case (Cons c p)
  show ?case
  proof (cases k)
    case Nil
    then show ?thesis by (simp add: rangeOK_iff)
  next
    case (Cons d k')
    show ?thesis
    proof (cases "ref_PrefixEndBytes p")
      case None
      then show ?thesis
        using Cons Cons.IH [of k'] char_le_255 [of d] char_less_Suc [of c d] by (auto simp: rangeOK_iff)
    next
      case (Some e)
      then show ?thesis using Cons Cons.IH [of k'] by (auto simp: rangeOK_iff)
    qed
  qed
qed

interpretation store_ranges: prefix_ranges ref_PrefixEndBytes
  by unfold_locales (rule ref_range)

context prefix_ranges
begin

lemma end_above: "prefix_end p = Some e \<Longrightarrow> p \<le> e \<and> \<not> prefix p e"
  using range_iff_prefix [of p p] range_iff_prefix [of e p] by (auto simp: rangeOK_iff)

text \<open>The documented behaviour leaves no choice.\<close>

lemma prefix_end_unique: "prefix_end p = ref_PrefixEndBytes p"
proof -
  have *: "x \<le> y"
    if x: "\<And>k. rangeOK k (Some p) (Some x) \<longleftrightarrow> prefix p k" and y: "p \<le> y" "\<not> prefix p y" for x y
    using x [of y] y by (simp add: rangeOK_iff)
  show ?thesis
  proof (cases "prefix_end p"; cases "ref_PrefixEndBytes p")
    fix e
    assume "prefix_end p = None" "ref_PrefixEndBytes p = Some e"
    then show ?thesis using store_ranges.end_above [of p e] range_iff_prefix [of e p] by (simp add: rangeOK_iff)
  next
    fix e
    assume "prefix_end p = Some e" "ref_PrefixEndBytes p = None"
    then show ?thesis using end_above [of p e] ref_range [of e p] by (simp add: rangeOK_iff)
  next
    fix e e'
    assume e: "prefix_end p = Some e" "ref_PrefixEndBytes p = Some e'"
    then have "e \<le> e'" "e' \<le> e"
      using * [of e e'] * [of e' e] range_iff_prefix [where p = p] ref_range [where p = p]
        end_above [of p e] store_ranges.end_above [of p e'] by auto
    then show ?thesis using e by simp
  qed simp
qed

end


section \<open>The iterator delivers the translated entries of its range\<close>

text \<open>What the client of an iterator should see of the entries below.\<close>

definition translated :: "wasm_lib \<Rightarrow> bytes option \<Rightarrow> bytes option \<Rightarrow> bytes kv \<Rightarrow> bytes kv" where
  "translated L start end u =
     List.map_filter (\<lambda>(k, v).
       case mapOldToNew k of
         Some n \<Rightarrow> if rangeOK n start end then Some (n, translateLegacyValueForKey L n v) else None
       | None \<Rightarrow> None) u"

lemma translated_simps [simp]:
  "translated L start end [] = []"
  "translated L start end ((k, v) # u) =
     (case mapOldToNew k of
        Some n \<Rightarrow> if rangeOK n start end then (n, translateLegacyValueForKey L n v) # translated L start end u
                   else translated L start end u
      | None \<Rightarrow> translated L start end u)"
  by (auto simp: translated_def map_filter_simps split: option.splits)

lemma drained_loop: "drained L (advance_loop L it u) = translated L (it_start it) (it_end it) u"
proof (induction "length u" arbitrary: it u rule: less_induct)
  case less
  show ?case
  proof (cases u)
    case Nil
    then show ?thesis by (simp add: drained.simps)
  next
    case (Cons kv u')
    obtain k v where kv: "kv = (k, v)" by (cases kv)
    have IH: "drained L (advance_loop L it' u') = translated L (it_start it') (it_end it') u'" for it' :: legacyIterator
      using less Cons by simp
    show ?thesis
      by (auto simp: Cons kv IH drained.simps [of L "_\<lparr>valid := True\<rparr>"] drained.simps [of L "_\<lparr>valid := True, under := _\<rparr>"] legacy_advance_def split: option.splits)
  qed
qed

lemma drained_new: "drained L (newLegacyIterator L u start end) = translated L start end u"
  by (simp add: newLegacyIterator_def legacy_advance_def drained_loop)


section \<open>Old and new keys\<close>

lemma length_ge_split: "n \<le> length r \<Longrightarrow> take n r @ drop n r = r"
  by simp

lemma buildLenVariants_set:
  "set (buildLenVariants p r) =
     {p # r} \<union> (if length r \<ge> 20 then {p # CHR 20 # r} else {}) \<union> (if length r \<ge> 32 then {p # CHR 32 # r} else {})"
  by (auto simp: buildLenVariants_def)

lemma stripped_variant: "b' = stripLegacyLenPrefix b \<Longrightarrow> p # b \<in> set (buildLenVariants p b')"
  by (cases b) (auto simp: buildLenVariants_set stripLegacyLenPrefix_def)

lemma rebuilt_variant: "b' = rebuildContractStoreBody b \<Longrightarrow> p # b \<in> set (buildLenVariants p b')"
  by (cases b) (auto simp: buildLenVariants_set rebuildContractStoreBody_def)

lemmas key_constants =
  seqPrefixNew_def lastCodeIDKey_def lastContractIDKey_def legacyParamsOld_def legacyParamsNew_def
  newToOldSimple_def oldToNewSimple_def

lemma old_key_found: "mapOldToNew k = Some n \<Longrightarrow> k \<in> set (translateNewToOld n)"
  using stripped_variant [of _ "tl k" "CHR 0x04"] rebuilt_variant [of _ "tl k" "CHR 0x05"]
  by (cases k) (auto simp: mapOldToNew_def translateNewToOld_def key_constants split: if_splits)

lemma get_first_None: "get_first s cs = None \<longleftrightarrow> (\<forall>c \<in> set cs. kv_get s c = None)"
  by (induction cs) (auto split: option.splits)

lemma Has_iff_Get: "legacy_Has s n \<longleftrightarrow> legacy_Get L s n \<noteq> None"
  using get_first_None [of s "translateNewToOld n"]
  by (auto simp: legacy_Has_def legacy_Get_def list_ex_iff split: option.splits)

text \<open>
  A database of the old layout all of whose contracts have addresses of 20 bytes: an address is
  preceded by its length, 20. (The general layout, with addresses of 32 bytes too, is \<open>old_layout\<close> of
  \<open>Wasm_Migration\<close>.)
\<close>

definition layout20 :: "bytes kv \<Rightarrow> bool" where
  "layout20 s \<longleftrightarrow>
     list_all (\<lambda>(k, v). (take 1 k = [CHR 0x04] \<longrightarrow> length k = 22 \<and> k ! 1 = CHR 20) \<and>
                        (take 1 k = [CHR 0x05] \<longrightarrow> length k \<ge> 22 \<and> k ! 1 = CHR 20)) s"

lemma layout20_entry:
  assumes "layout20 s" and "kv_get s (c # b) = Some v"
  shows "(c = CHR 0x04 \<longrightarrow> length b = 21 \<and> b ! 0 = CHR 20) \<and> (c = CHR 0x05 \<longrightarrow> length b \<ge> 21 \<and> b ! 0 = CHR 20)"
  using assms(1) kv_get_member [OF assms(2)] by (auto simp: layout20_def list_all_iff)

lemma layout20_absent:
  "layout20 s \<Longrightarrow> length b = 20 \<Longrightarrow> kv_get s (CHR 0x04 # b) = None"
  "layout20 s \<Longrightarrow> b \<noteq> [] \<Longrightarrow> hd b \<noteq> CHR 20 \<Longrightarrow> kv_get s (CHR 0x05 # b) = None"
  using layout20_entry [of s _ b] by (force simp: hd_conv_nth)+

lemma read_contract_key:
  assumes "layout20 s" and "length a = 20" and "hd a \<noteq> CHR 20"
  shows "legacy_Get L s (CHR 0x03 # a @ k) = kv_get s (CHR 0x05 # CHR 20 # a @ k)"
proof -
  have a: "a \<noteq> []" "take 20 (a @ k) = a" "drop 20 (a @ k) = k" using assms(2) by auto
  have "kv_get s (CHR 0x05 # a @ k) = None" and "kv_get s (CHR 0x05 # CHR 32 # b) = None" for b
    using layout20_absent(2) [OF assms(1)] a(1) assms(3) by simp_all
  then show ?thesis
    using a assms(2)
    by (auto simp: legacy_Get_def translateNewToOld_def key_constants buildLenVariants_def
        translateLegacyValueForKey_def split: option.splits)
qed

lemma read_contract_info:
  assumes "layout20 s" and "length a = 20"
  shows "legacy_Get L s (CHR 0x02 # a) =
           map_option (translateLegacyContractInfoValue L) (kv_get s (CHR 0x04 # CHR 20 # a))"
  using assms layout20_absent(1) [OF assms]
  by (simp add: legacy_Get_def translateNewToOld_def key_constants buildLenVariants_def
      translateLegacyValueForKey_def split: option.splits)

lemma read_code_info:
  "legacy_Get L s (CHR 0x01 # i) = map_option (translateLegacyCodeInfoValue L) (kv_get s (CHR 0x03 # i))"
  by (simp add: legacy_Get_def translateNewToOld_def key_constants
      translateLegacyValueForKey_def split: option.splits)


section \<open>Listing a contract\<close>

lemma append_le_cancel: "p @ x \<le> p @ y \<longleftrightarrow> x \<le> (y :: bytes)"
  by (induction p) auto

lemma range_append:
  "rangeOK k (Some (p @ x)) (ref_PrefixEndBytes p) \<longleftrightarrow> prefix p k \<and> x \<le> drop (length p) k"
proof -
  have "p \<le> p @ x" using append_le_cancel [of p "[]" x] by simp
  then have "rangeOK k (Some (p @ x)) (ref_PrefixEndBytes p) \<longleftrightarrow> prefix p k \<and> p @ x \<le> k"
    using ref_range [of k p] by (auto simp: rangeOK_iff)
  also have "\<dots> \<longleftrightarrow> prefix p k \<and> x \<le> drop (length p) k"
    by (auto simp: prefix_def append_le_cancel)
  finally show ?thesis .
qed

lemma ref_PrefixEnd_length:
  "a \<noteq> [] \<Longrightarrow> last a \<noteq> CHR 0xff \<Longrightarrow> \<exists>e. ref_PrefixEndBytes a = Some e \<and> length e = length a"
  by (induction a) (auto split: option.splits if_splits)

lemma ref_PrefixEnd_shorter:
  "a \<noteq> [] \<Longrightarrow> last a = CHR 0xff \<Longrightarrow> ref_PrefixEndBytes a = Some e \<Longrightarrow> length e < length a"
  by (induction a arbitrary: e) (auto split: option.splits if_splits)

lemma map_contract_key: "length a = 20 \<Longrightarrow> mapOldToNew (CHR 0x05 # CHR 20 # a @ r) = Some (CHR 0x03 # a @ r)"
  by (simp add: mapOldToNew_def key_constants rebuildContractStoreBody_def)

text \<open>The entries of a contract with a 20-byte address from a storage key on, in old and in new keys.\<close>

definition contract_entries :: "bytes kv \<Rightarrow> bytes \<Rightarrow> bytes \<Rightarrow> bytes kv" where
  "contract_entries s a k = filter (\<lambda>(old, v). prefix (CHR 0x05 # CHR 20 # a) old \<and> k \<le> drop 22 old) s"

definition renamed :: "bytes kv \<Rightarrow> bytes kv" where
  "renamed u = map (\<lambda>(old, v). (CHR 0x03 # drop 2 old, v)) u"

lemma translated_contract:
  assumes "length a = 20" and "\<And>old v. (old, v) \<in> set u \<Longrightarrow> prefix (CHR 0x05 # CHR 20 # a) old \<and> k \<le> drop 22 old"
  shows "translated L (Some (CHR 0x03 # a @ k)) (ref_PrefixEndBytes (CHR 0x03 # a)) u = renamed u"
  using assms(2)
proof (induction u)
  case Nil
  then show ?case by (simp add: renamed_def)
next
  case (Cons p u)
  obtain old v where p: "p = (old, v)" by (cases p)
  obtain r where r: "old = CHR 0x05 # CHR 20 # a @ r" "k \<le> r" using Cons.prems [of old v] p assms(1) by (auto simp: prefix_def)
  have "rangeOK (CHR 0x03 # a @ r) (Some (CHR 0x03 # a @ k)) (ref_PrefixEndBytes (CHR 0x03 # a))"
    using range_append [of "CHR 0x03 # a @ r" "CHR 0x03 # a" k] r(2) by simp
  moreover have "translated L (Some (CHR 0x03 # a @ k)) (ref_PrefixEndBytes (CHR 0x03 # a)) u = renamed u"
    by (rule Cons.IH) (use Cons.prems in auto)
  ultimately show ?case
    using p r(1) map_contract_key [OF assms(1), of r]
    by (simp add: renamed_def translateLegacyValueForKey_def del: ref_PrefixEndBytes.simps)
qed

lemma length_prefix_cases:
  assumes "prefix_ranges (PrefixEndBytes L)" and "length a = 20"
  shows "getAddressLengthPrefix L s (a @ k) = Some (CHR 0x14) \<or>
         getAddressLengthPrefix L s (a @ k) = Some (CHR 0x20) \<and> contract_entries s a k = []"
proof -
  have "parent_Iterator s (Some p) (PrefixEndBytes L p) = filter (\<lambda>(old, v). prefix p old) s" for p
    using prefix_ranges.range_iff_prefix [OF assms(1)] by (simp add: parent_Iterator_def)
  then show ?thesis
    using assms(2) by (auto simp: getAddressLengthPrefix_def Let_def contract_entries_def filter_empty_conv)
qed

lemma short_address_prefix: "20 \<le> length e \<Longrightarrow> length e < 32 \<Longrightarrow> getAddressLengthPrefix L s e = Some (CHR 0x14)"
  by (simp add: getAddressLengthPrefix_def Let_def)

lemma contract_bounds:
  assumes "prefix_ranges (PrefixEndBytes L)" and "length a = 20" and "last a \<noteq> CHR 0xff"
    and "translateBoundsForIteration L s (Some (CHR 0x03 # a @ k)) (PrefixEndBytes L (CHR 0x03 # a)) = (oldStart, oldEnd)"
  shows "parent_Iterator s oldStart oldEnd = contract_entries s a k"
proof -
  have P: "PrefixEndBytes L p = ref_PrefixEndBytes p" for p
    by (rule prefix_ranges.prefix_end_unique [OF assms(1)])
  obtain e where e: "ref_PrefixEndBytes a = Some e" "length e = 20"
    using ref_PrefixEnd_length [of a] assms(2,3) by (cases a) auto
  have E: "ref_PrefixEndBytes (CHR 0x03 # a) = Some (CHR 0x03 # e)"
    "ref_PrefixEndBytes (CHR 0x05 # CHR 0x14 # a) = Some (CHR 0x05 # CHR 0x14 # e)" using e by simp_all
  have b: "(oldStart, oldEnd) =
      (Some (CHR 0x05 # the (getAddressLengthPrefix L s (a @ k)) # a @ k), Some (CHR 0x05 # CHR 0x14 # e))"
    using assms(4) length_prefix_cases [OF assms(1,2), of s k] short_address_prefix [of e L s] e
    by (auto simp: translateBoundsForIteration_def P blen_def E(1) Let_def simp del: ref_PrefixEndBytes.simps)
  show ?thesis
  proof (cases "getAddressLengthPrefix L s (a @ k) = Some (CHR 0x14)")
    case True
    then show ?thesis
      using b range_append [of _ "CHR 0x05 # CHR 0x14 # a" k] assms(2)
      by (simp add: parent_Iterator_def contract_entries_def E(2) del: ref_PrefixEndBytes.simps)
  next
    case False
    then have "getAddressLengthPrefix L s (a @ k) = Some (CHR 0x20)" "contract_entries s a k = []"
      using length_prefix_cases [OF assms(1,2), of s k] by auto
    moreover have "\<not> rangeOK old (Some (CHR 0x05 # CHR 0x20 # a @ k)) (Some (CHR 0x05 # CHR 0x14 # e))" for old
      by (rule range_empty) simp
    ultimately show ?thesis using b by (simp add: parent_Iterator_def)
  qed
qed

text \<open>
  C11: a query about an old height can list a contract. For a contract with a 20-byte address that
  does not end in the byte 255, iterating the translating store from a storage key to the end of the
  contract's prefix, which is what the paginated queries do, delivers exactly the contract's
  entries from that key on, each once, under their new keys, with their values, in order, and
  in the opposite order when it is iterated in reverse.
\<close>

theorem contract_listing:
  assumes "prefix_ranges (PrefixEndBytes L)" and "length a = 20" and "last a \<noteq> CHR 0xff"
  shows "drained L (legacy_Iterator L s (Some (CHR 0x03 # a @ k)) (PrefixEndBytes L (CHR 0x03 # a))) =
           renamed (contract_entries s a k) \<and>
         drained L (legacy_ReverseIterator L s (Some (CHR 0x03 # a @ k)) (PrefixEndBytes L (CHR 0x03 # a))) =
           rev (renamed (contract_entries s a k))"
proof -
  have P: "PrefixEndBytes L (CHR 0x03 # a) = ref_PrefixEndBytes (CHR 0x03 # a)"
    by (rule prefix_ranges.prefix_end_unique [OF assms(1)])
  have "translated L (Some (CHR 0x03 # a @ k)) (ref_PrefixEndBytes (CHR 0x03 # a)) u = renamed u"
    if "set u \<subseteq> set (contract_entries s a k)" for u
    by (rule translated_contract [OF assms(2)]) (use that in \<open>auto simp: contract_entries_def\<close>)
  then show ?thesis
    using contract_bounds [OF assms, of s k]
    by (auto simp: legacy_Iterator_def legacy_ReverseIterator_def drained_new parent_ReverseIterator_def P
        renamed_def rev_map simp del: ref_PrefixEndBytes.simps split: prod.splits)
qed

definition sample_lib :: wasm_lib where
  "sample_lib = \<lparr>PrefixEndBytes = ref_PrefixEndBytes, LegacyCodeInfo_Unmarshal = (\<lambda>b. Inr (b, [])),
     CodeInfo_Marshal = (\<lambda>h c. Inr h), LegacyContractInfo_Unmarshal = (\<lambda>b. Inr (1, b, [])),
     ContractInfo_Marshal = (\<lambda>i c a. Inr c)\<rparr>"

definition sample_address :: bytes where
  "sample_address = replicate 20 (CHR 0x07)"

definition sample_db :: "bytes kv" where
  "sample_db =
     [(CHR 0x04 # CHR 20 # sample_address, ''info''),
      (CHR 0x05 # CHR 20 # replicate 20 (CHR 0x06) @ ''k'', ''x''),
      (CHR 0x05 # CHR 20 # sample_address @ ''a'', ''1''),
      (CHR 0x05 # CHR 20 # sample_address @ ''b'', ''2''),
      (CHR 0x05 # CHR 20 # sample_address @ ''c'', ''3'')]"

theorem contract_listing_witness:
  "drained sample_lib (legacy_Iterator sample_lib sample_db (Some (CHR 0x03 # sample_address @ ''b''))
     (PrefixEndBytes sample_lib (CHR 0x03 # sample_address))) =
   [(CHR 0x03 # sample_address @ ''b'', ''2''), (CHR 0x03 # sample_address @ ''c'', ''3'')]"
proof -
  have "renamed (contract_entries sample_db sample_address ''b'') =
      [(CHR 0x03 # sample_address @ ''b'', ''2''), (CHR 0x03 # sample_address @ ''c'', ''3'')]" by code_simp
  moreover have "prefix_ranges (PrefixEndBytes sample_lib)"
    by (simp add: sample_lib_def store_ranges.prefix_ranges_axioms)
  moreover have "length sample_address = 20" "last sample_address \<noteq> CHR 0xff" by code_simp+
  ultimately show ?thesis using contract_listing [of sample_lib sample_address sample_db "''b''"] by simp
qed

text \<open>
  A query about an old height reads the right values. On a database in the layout the code
  describes, where an address is preceded by its length 20, a contract's storage key gives the
  value stored for it, a contract's record and a code's record give the stored record translated,
  and \<open>Has\<close> agrees with \<open>Get\<close>, provided the address does not itself begin with the byte 20.
\<close>

lemma legacy_reads:
  assumes "layout20 s" and "length a = 20" and "hd a \<noteq> CHR 20"
  shows "legacy_Get L s (CHR 0x03 # a @ k) = kv_get s (CHR 0x05 # CHR 20 # a @ k) \<and>
         legacy_Get L s (CHR 0x02 # a) =
           map_option (translateLegacyContractInfoValue L) (kv_get s (CHR 0x04 # CHR 20 # a)) \<and>
         legacy_Get L s (CHR 0x01 # i) = map_option (translateLegacyCodeInfoValue L) (kv_get s (CHR 0x03 # i)) \<and>
         (legacy_Has s n \<longleftrightarrow> legacy_Get L s n \<noteq> None)"
  using read_contract_key [OF assms] read_contract_info [OF assms(1,2)] read_code_info Has_iff_Get by blast

lemma legacy_reads_example:
  "legacy_Get sample_lib sample_db (CHR 0x03 # sample_address @ ''a'') = Some ''1'' \<and>
   legacy_Get sample_lib sample_db (CHR 0x02 # sample_address) = Some ''info''"
proof -
  have "layout20 sample_db" "length sample_address = 20" "hd sample_address \<noteq> CHR 20" by code_simp+
  moreover have "kv_get sample_db (CHR 0x05 # CHR 20 # sample_address @ ''a'') = Some ''1''"
    "map_option (translateLegacyContractInfoValue sample_lib) (kv_get sample_db (CHR 0x04 # CHR 20 # sample_address)) =
       Some ''info''" by code_simp+
  ultimately show ?thesis
    using legacy_reads [of sample_db sample_address sample_lib "''a''"] by simp
qed


section \<open>Where the translation fails\<close>

text \<open>
  An address that ends in 255, but is not 255 throughout: the end of its prefix is shorter than 20
  bytes, the translation of the bound takes it for a malformed address, and nothing is listed.
\<close>

lemma ref_PrefixEnd_None: "ref_PrefixEndBytes a = None \<longleftrightarrow> a = replicate (length a) (CHR 0xff)"
  by (induction a) (auto split: option.splits)

lemma listing_lost_255:
  assumes "prefix_ranges (PrefixEndBytes L)" and "length a = 20" and "last a = CHR 0xff"
    and "a \<noteq> replicate 20 (CHR 0xff)"
  shows "drained L (legacy_Iterator L s (Some (CHR 0x03 # a @ k)) (PrefixEndBytes L (CHR 0x03 # a))) = []"
proof -
  have P: "PrefixEndBytes L p = ref_PrefixEndBytes p" for p
    by (rule prefix_ranges.prefix_end_unique [OF assms(1)])
  obtain e where e: "ref_PrefixEndBytes a = Some e"
    using ref_PrefixEnd_None [of a] assms(2,4) by (cases "ref_PrefixEndBytes a") auto
  have "length e < 20" using ref_PrefixEnd_shorter [of a e] e assms(2,3) by (cases a) auto
  then have n: "getAddressLengthPrefix L s e = None" by (simp add: getAddressLengthPrefix_def)
  obtain c where "getAddressLengthPrefix L s (a @ k) = Some c"
    using length_prefix_cases [OF assms(1,2), of s k] by auto
  then have "translateBoundsForIteration L s (Some (CHR 0x03 # a @ k)) (PrefixEndBytes L (CHR 0x03 # a)) =
      (Some (CHR 0x05 # c # a @ k), Some (CHR 0x05 # c # a @ k))"
    using n e by (simp add: translateBoundsForIteration_def P blen_def Let_def)
  then show ?thesis
    using range_empty [of "CHR 0x05 # c # a @ k" "CHR 0x05 # c # a @ k"]
    by (simp add: legacy_Iterator_def drained_new parent_Iterator_def)
qed

text \<open>
  A 32-byte address: the length of the end bound is looked up in the database under the following
  address, where there is no contract, and the default of 20 puts the end before the start. The
  contract has an entry, and nothing is listed.
\<close>

definition absent :: "bytes kv \<Rightarrow> bytes \<Rightarrow> bool" where
  "absent s p \<longleftrightarrow> list_all (\<lambda>(k, v). \<not> prefix p k) s"

lemma listing_lost_32:
  assumes "prefix_ranges (PrefixEndBytes L)" and "length a = 32"
    and "PrefixEndBytes L a = Some e" and "length e = 32"
    and "\<not> absent s (CHR 0x05 # CHR 0x20 # a)" and "absent s (CHR 0x05 # CHR 0x14 # take 20 a)"
    and "absent s (CHR 0x05 # CHR 0x20 # e)"
  shows "drained L (legacy_Iterator L s (Some (CHR 0x03 # a @ k)) (PrefixEndBytes L (CHR 0x03 # a))) = []"
proof -
  have P: "PrefixEndBytes L p = ref_PrefixEndBytes p" for p
    by (rule prefix_ranges.prefix_end_unique [OF assms(1)])
  have I: "parent_Iterator s (Some p) (PrefixEndBytes L p) = [] \<longleftrightarrow> absent s p" for p
    using prefix_ranges.range_iff_prefix [OF assms(1)]
    by (auto simp: parent_Iterator_def absent_def list_all_iff filter_empty_conv)
  have "getAddressLengthPrefix L s (a @ k) = Some (CHR 0x20)"
    using assms by (simp add: getAddressLengthPrefix_def I)
  moreover have "getAddressLengthPrefix L s e = Some (CHR 0x14)"
    using assms by (simp add: getAddressLengthPrefix_def I)
  ultimately have "translateBoundsForIteration L s (Some (CHR 0x03 # a @ k)) (PrefixEndBytes L (CHR 0x03 # a)) =
      (Some (CHR 0x05 # CHR 0x20 # a @ k), Some (CHR 0x05 # CHR 0x14 # e))"
    using assms(3) by (simp add: translateBoundsForIteration_def P blen_def Let_def)
  moreover have "\<not> rangeOK old (Some (CHR 0x05 # CHR 0x20 # a @ k)) (Some (CHR 0x05 # CHR 0x14 # e))" for old
    by (rule range_empty) simp
  ultimately show ?thesis by (simp add: legacy_Iterator_def drained_new parent_Iterator_def)
qed

lemma listing_lost_32_example:
  "drained sample_lib (legacy_Iterator sample_lib [(CHR 0x05 # CHR 0x20 # replicate 32 (CHR 0x07) @ ''a'', ''1'')]
     (Some (CHR 0x03 # replicate 32 (CHR 0x07))) (PrefixEndBytes sample_lib (CHR 0x03 # replicate 32 (CHR 0x07)))) = []"
proof -
  have "prefix_ranges (PrefixEndBytes sample_lib)"
    by (simp add: sample_lib_def store_ranges.prefix_ranges_axioms)
  then show ?thesis
    by (rule listing_lost_32 [where k = "[]" and e = "replicate 31 (CHR 0x07) @ [CHR 0x08]", simplified append_Nil2]) code_simp+
qed

text \<open>An address that begins with the byte 20: another contract's value is read in its place.\<close>

definition confused_db :: "bytes kv" where
  "confused_db =
     [(CHR 0x05 # CHR 20 # replicate 19 (CHR 0x01) @ [CHR 0x09], ''of another contract''),
      (CHR 0x05 # CHR 20 # CHR 20 # replicate 19 (CHR 0x01) @ [CHR 0x09], ''its own'')]"

lemma read_confused:
  "legacy_Get sample_lib confused_db (CHR 0x03 # (CHR 20 # replicate 19 (CHR 0x01)) @ [CHR 0x09]) =
     Some ''of another contract'' \<and>
   layout20 confused_db \<and> kv_ok confused_db"
  by code_simp

text \<open>The record of a contract with a 32-byte address is listed with the length byte in its key.\<close>

lemma contract_record_kept_32:
  "length a = 32 \<Longrightarrow> mapOldToNew (CHR 0x04 # CHR 0x20 # a) = Some (CHR 0x02 # CHR 0x20 # a)"
  by (simp add: mapOldToNew_def key_constants stripLegacyLenPrefix_def)

section \<open>Queries about old heights\<close>

text \<open>
  \<open>query_handler.go\<close> and \<open>query_server.go\<close>. A context is reduced to what the wrapping reads and
  replaces: the chain, the height, the block time in nanoseconds and the stores by name. The
  query server that is wrapped and the keeper's smart query are parameters.
\<close>

datatype kvstore = Plain "bytes kv" | LegacyStore kvstore

record wasm_ctx =
  ChainID :: string
  BlockHeight :: int
  BlockTime :: int
  KVStore :: "string \<Rightarrow> kvstore"

definition wasmMigrationHeightMainnet :: int where
  "wasmMigrationHeightMainnet = 25619230"

definition wasmMigrationHeightTestnet :: int where
  "wasmMigrationHeightTestnet = 26888496"

definition wasmMigrationHeightLocal :: int where
  "wasmMigrationHeightLocal = 0"

definition isPreWasmKeyMigration :: "string \<Rightarrow> int \<Rightarrow> bool" where
  "isPreWasmKeyMigration chainID height =
     (if height \<le> 0 then False
      else if chainID = ColumbusChainID then height < wasmMigrationHeightMainnet
      else if chainID = RebelChainID then height < wasmMigrationHeightTestnet
      else if chainID = ''localdo'' \<or> chainID = ''localdo-legacy'' then height < wasmMigrationHeightLocal
      else False)"

definition prepareLegacyWasmContext :: "wasm_ctx \<Rightarrow> string option \<Rightarrow> wasm_ctx \<times> bool" where
  "prepareLegacyWasmContext ctx wasmKey =
     (case wasmKey of
        None \<Rightarrow> (ctx, False)
      | Some n \<Rightarrow>
          if \<not> isPreWasmKeyMigration (ChainID ctx) (BlockHeight ctx) then (ctx, False)
          else (ctx\<lparr>KVStore := (KVStore ctx)(n := LegacyStore (KVStore ctx n))\<rparr>, True))"

definition HandleQuery :: "(wasm_ctx \<Rightarrow> 'c \<Rightarrow> 'r \<Rightarrow> bytes result) \<Rightarrow> string option \<Rightarrow> wasm_ctx \<Rightarrow> 'c \<Rightarrow> 'r \<Rightarrow> bytes result" where
  "HandleQuery nxt storeKey ctx caller request =
     (let preMigration = isPreWasmKeyMigration (ChainID ctx) (BlockHeight ctx);
          ctx' = (if preMigration
                  then (let (wrappedCtx, ok) = prepareLegacyWasmContext ctx storeKey
                        in if ok then wrappedCtx else ctx)
                  else ctx)
      in nxt ctx' caller request)"

definition ensureLegacyWasm :: "string option \<Rightarrow> wasm_ctx \<Rightarrow> wasm_ctx \<times> bool" where
  "ensureLegacyWasm storeKey ctx =
     (let preMigration = isPreWasmKeyMigration (ChainID ctx) (BlockHeight ctx)
      in if preMigration
         then (let (wrappedCtx, ok) = prepareLegacyWasmContext ctx storeKey
               in if ok then (wrappedCtx, True) else (ctx, False))
         else (ctx, False))"

text \<open>\<open>ContractInfo\<close>, \<open>ContractHistory\<close>, \<open>ContractsByCode\<close>, \<open>AllContractState\<close>,
  \<open>RawContractState\<close>, \<open>Code\<close>, \<open>Codes\<close>, \<open>PinnedCodes\<close> and \<open>Params\<close> have this body.\<close>

definition legacy_query :: "(wasm_ctx \<Rightarrow> 'req \<Rightarrow> 'res result) \<Rightarrow> string option \<Rightarrow> wasm_ctx \<Rightarrow> 'req \<Rightarrow> 'res result" where
  "legacy_query server storeKey ctx req = server (fst (ensureLegacyWasm storeKey ctx)) req"

record SmartQuery =
  sqAddress :: string
  sqData :: bytes

text \<open>\<open>time.Date(2022, 1, 1, 0, 0, 0, 0, time.UTC)\<close> and \<open>time.Minute\<close>, in nanoseconds.\<close>

definition baseTime :: int where
  "baseTime = 1640995200 * 10 ^ 9"

definition Minute :: int where
  "Minute = 60 * 10 ^ 9"

text \<open>A block time \<open>t\<close> with \<open>t.Unix() <= 0\<close>; the zero time is one of them.\<close>

definition hasTimeIssue :: "int \<Rightarrow> bool" where
  "hasTimeIssue t \<longleftrightarrow> t div 10 ^ 9 \<le> 0"

definition SmartContractState ::
  "sdk \<Rightarrow> (wasm_ctx \<Rightarrow> SmartQuery \<Rightarrow> bytes result) \<Rightarrow> (wasm_ctx \<Rightarrow> address \<Rightarrow> bytes \<Rightarrow> bytes result) \<Rightarrow>
   string option \<Rightarrow> wasm_ctx \<Rightarrow> SmartQuery option \<Rightarrow> bytes result"
where
  "SmartContractState K server QuerySmart storeKey ctx req =
     (case req of
        None \<Rightarrow> Inl (Registered ''wasm'' 12)
      | Some r \<Rightarrow>
          if \<not> isPreWasmKeyMigration (ChainID ctx) (BlockHeight ctx) then server ctx r
          else
            (let (sdkCtx, legacyUsed) = ensureLegacyWasm storeKey ctx;
                 effectiveCtx =
                   (if hasTimeIssue (BlockTime sdkCtx)
                    then sdkCtx\<lparr>BlockTime := baseTime + i64 (i64 (BlockHeight sdkCtx) * Minute)\<rparr>
                    else sdkCtx)
             in rbind (must (AccFromBech32 K (sqAddress r))) (\<lambda>addr. QuerySmart effectiveCtx addr (sqData r))))"


text \<open>Outside the window before the migration of its chain a query is not touched.\<close>

lemma query_untouched:
  assumes "\<not> isPreWasmKeyMigration (ChainID ctx) (BlockHeight ctx)"
  shows "HandleQuery nxt storeKey ctx c r = nxt ctx c r" "legacy_query server storeKey ctx q = server ctx q"
    "SmartContractState K smart QuerySmart storeKey ctx (Some sq) = smart ctx sq"
  using assms by (simp_all add: HandleQuery_def legacy_query_def ensureLegacyWasm_def SmartContractState_def)

text \<open>The wrapping for local networks is never in force: their migration height is 0.\<close>

lemma local_never_legacy: "\<not> isPreWasmKeyMigration ''localdo'' h" "\<not> isPreWasmKeyMigration ''localdo-legacy'' h"
  by (simp_all add: isPreWasmKeyMigration_def ColumbusChainID_def RebelChainID_def wasmMigrationHeightLocal_def)

lemma pre_height: "isPreWasmKeyMigration c h \<Longrightarrow> 0 < h \<and> h < 26888496"
  by (auto simp: isPreWasmKeyMigration_def wasmMigrationHeightMainnet_def wasmMigrationHeightTestnet_def
      wasmMigrationHeightLocal_def split: if_splits)

text \<open>
  A smart query inside the window sees the legacy store in place of the wasm module's, every other
  store as it was, and a block time after 1970: its own if it has one, else one made from the
  height, whose computation in 64 bits does not overflow.
\<close>

lemma smart_query_context:
  assumes pre: "isPreWasmKeyMigration (ChainID ctx) (BlockHeight ctx)" and addr: "AccFromBech32 K (sqAddress r) = Inr a"
  shows "\<exists>t. SmartContractState K server QuerySmart (Some n) ctx (Some r) =
               QuerySmart (ctx\<lparr>KVStore := (KVStore ctx)(n := LegacyStore (KVStore ctx n)), BlockTime := t\<rparr>) a (sqData r) \<and>
             t = (if hasTimeIssue (BlockTime ctx) then baseTime + BlockHeight ctx * Minute else BlockTime ctx) \<and>
             \<not> hasTimeIssue t"
proof -
  let ?h = "BlockHeight ctx"
  have h: "0 < ?h" "?h < 26888496" using pre_height [OF pre] by simp_all
  have w: "i64 (i64 ?h * Minute) = ?h * Minute"
    using h by (simp add: i64_def Minute_def)
  have "(baseTime + ?h * Minute) div 10 ^ 9 = 1640995200 + ?h * 60"
    by (simp add: baseTime_def Minute_def)
  then have "\<not> hasTimeIssue (baseTime + ?h * Minute)" using h by (simp add: hasTimeIssue_def)
  then show ?thesis
    using pre addr w by (auto simp: SmartContractState_def ensureLegacyWasm_def prepareLegacyWasmContext_def must_def)
qed

text \<open>An address that does not parse makes such a query panic.\<close>

lemma smart_query_panics:
  assumes "isPreWasmKeyMigration (ChainID ctx) (BlockHeight ctx)" and "AccFromBech32 K (sqAddress r) = Inl e"
  shows "SmartContractState K server QuerySmart storeKey ctx (Some r) = Inl Panic"
  using assms by (simp add: SmartContractState_def must_def split: prod.splits)

end
