(* ===== verification/Wasm_Migration.thy ===== *)
theory Wasm_Migration
  imports Wasm_Legacy
begin

text \<open>
  The upgrade \<open>v13\<close> (\<open>app/upgrades/v13/upgrades.go\<close>): the keys of the wasm module are rewritten in place
  from the old layout to the present one, prefix by prefix. The prefixes overlap, so the order of the
  steps matters: each step writes under a prefix that an earlier one has emptied.

  An iterator of the store sees the entries that were there when it was made, which is what
  the loops rely on. \<open>VerifyAddressFormat\<close> of the SDK is the parameter \<open>verify\<close>; the application sets it
  to accept addresses of 20 and of 32 bytes.

  Shown here: on a database in the old layout, with contract addresses of 20 and of 32 bytes, every
  entry survives under its new key, and a query on the migrated store sees what the translating
  store of \<open>Wasm_Legacy\<close> shows of the old one.
\<close>


section \<open>The steps\<close>

definition removeLengthPrefixIfNeeded :: "(bytes \<Rightarrow> bool) \<Rightarrow> bytes \<Rightarrow> bytes \<times> bool" where
  "removeLengthPrefixIfNeeded verify b =
     (if verify b then (b, False)
      else if length b > 1 \<and> of_char (b ! 0) = length b - 1 \<and> verify (tl b) then (tl b, True)
      else (b, False))"

definition rebuildCompositeKey :: "(bytes \<Rightarrow> bool) \<Rightarrow> bytes \<Rightarrow> bytes" where
  "rebuildCompositeKey verify originalKey =
     (if length originalKey > 1 \<and> of_char (originalKey ! 0) + 1 \<le> length originalKey
      then let candidateLen = of_char (originalKey ! 0) + 1;
               (unprefHead, stripped) = removeLengthPrefixIfNeeded verify (take candidateLen originalKey)
           in if stripped then unprefHead @ drop candidateLen originalKey else originalKey
      else originalKey)"

text \<open>The entries of \<open>prefix.NewStore(store, p)\<close>, and the loop that moves them.\<close>

definition prefix_entries :: "char \<Rightarrow> bytes kv \<Rightarrow> bytes kv" where
  "prefix_entries p s = map (\<lambda>(k, v). (tl k, v)) (filter (\<lambda>(k, v). prefix [p] k) s)"

definition move_entry :: "char \<Rightarrow> char \<Rightarrow> (bytes \<Rightarrow> bytes) \<Rightarrow> bytes \<times> bytes \<Rightarrow> bytes kv \<Rightarrow> bytes kv" where
  "move_entry oldPrefix newPrefix f e s =
     kv_del (oldPrefix # fst e) (kv_set (newPrefix # f (fst e)) (snd e) s)"

definition migratePrefix :: "char \<Rightarrow> char \<Rightarrow> (bytes \<Rightarrow> bytes) \<Rightarrow> bytes kv \<Rightarrow> bytes kv" where
  "migratePrefix oldPrefix newPrefix f s =
     fold (move_entry oldPrefix newPrefix f) (prefix_entries oldPrefix s) s"

definition migrateContractKeys :: "(bytes \<Rightarrow> bool) \<Rightarrow> bytes kv \<Rightarrow> bytes kv" where
  "migrateContractKeys verify s = migratePrefix (CHR 0x04) (CHR 0x02) (\<lambda>k. fst (removeLengthPrefixIfNeeded verify k)) s"

definition migrateCodeKeys :: "bytes kv \<Rightarrow> bytes kv" where
  "migrateCodeKeys s = migratePrefix (CHR 0x03) (CHR 0x01) id s"

definition migrateContractStoreKeys :: "(bytes \<Rightarrow> bool) \<Rightarrow> bytes kv \<Rightarrow> bytes kv" where
  "migrateContractStoreKeys verify s = migratePrefix (CHR 0x05) (CHR 0x03) (rebuildCompositeKey verify) s"

definition migrateContractHistoryKey :: "bytes kv \<Rightarrow> bytes kv" where
  "migrateContractHistoryKey s = migratePrefix (CHR 0x06) (CHR 0x05) id s"

definition migrateSecondaryIndexKeys :: "bytes kv \<Rightarrow> bytes kv" where
  "migrateSecondaryIndexKeys s = migratePrefix (CHR 0x10) (CHR 0x06) id s"

record sequenceKeys =
  codeIDValue :: "bytes option"
  instanceIDValue :: "bytes option"

definition take_key :: "bytes \<Rightarrow> bytes kv \<Rightarrow> bytes option \<times> bytes kv" where
  "take_key k s = (case kv_get s k of None \<Rightarrow> (None, s) | Some v \<Rightarrow> (Some v, kv_del k s))"

definition saveSequenceKeys :: "bytes kv \<Rightarrow> sequenceKeys \<times> bytes kv" where
  "saveSequenceKeys s =
     (let (c, s1) = take_key [CHR 0x01] s; (i, s2) = take_key [CHR 0x02] s1
      in (\<lparr>codeIDValue = c, instanceIDValue = i\<rparr>, s2))"

definition put_sequence :: "bytes \<Rightarrow> bytes option \<Rightarrow> bytes kv \<Rightarrow> bytes kv" where
  "put_sequence newKey v s =
     (if kv_get s newKey = None
      then kv_set newKey (case v of None \<Rightarrow> replicate 8 (CHR 0x00) | Some x \<Rightarrow> x) s else s)"

definition migrateSequenceKeys :: "sequenceKeys \<Rightarrow> bytes kv \<Rightarrow> bytes kv" where
  "migrateSequenceKeys seq s =
     put_sequence (seqPrefixNew # lastContractIDKey) (instanceIDValue seq)
       (put_sequence (seqPrefixNew # lastCodeIDKey) (codeIDValue seq) s)"

definition migrateParamsKey :: "bytes kv \<Rightarrow> bytes kv" where
  "migrateParamsKey s =
     (case kv_get s [CHR 0x11] of
        None \<Rightarrow> s
      | Some value \<Rightarrow> kv_del [CHR 0x11] (kv_set [CHR 0x10] value s))"

definition migrateWasmKeys :: "(bytes \<Rightarrow> bool) \<Rightarrow> bytes kv \<Rightarrow> bytes kv" where
  "migrateWasmKeys verify s =
     (let (seq, s1) = saveSequenceKeys s;
          s2 = migrateContractKeys verify s1;
          s3 = migrateSequenceKeys seq s2;
          s4 = migrateCodeKeys s3;
          s5 = migrateContractStoreKeys verify s4;
          s6 = migrateContractHistoryKey s5;
          s7 = migrateSecondaryIndexKeys s6
      in migrateParamsKey s7)"

text \<open>The handler of the upgrade; the migrations of the other modules are a parameter.\<close>

definition CreateV13UpgradeHandler ::
  "(bytes \<Rightarrow> bool) \<Rightarrow> (bytes kv \<Rightarrow> 'vm \<Rightarrow> ('vm \<times> bytes kv) result) \<Rightarrow> bytes kv \<Rightarrow> 'vm \<Rightarrow> ('vm \<times> bytes kv) result"
where
  "CreateV13UpgradeHandler verify RunMigrations s fromVM = RunMigrations (migrateWasmKeys verify s) fromVM"


section \<open>One prefix\<close>

lemma kv_ok_migratePrefix [simp]: "kv_ok s \<Longrightarrow> kv_ok (migratePrefix p q f s)"
proof -
  have "kv_ok (fold (move_entry p q f) es t)" if "kv_ok t" for es t
    using that by (induction es arbitrary: t) (simp_all add: move_entry_def)
  then show "kv_ok s \<Longrightarrow> kv_ok (migratePrefix p q f s)" by (simp add: migratePrefix_def)
qed

lemma move_entries_get:
  assumes "p \<noteq> q" and "distinct (map (\<lambda>e. f (fst e)) es)"
  shows "kv_get (fold (move_entry p q f) es t) k =
     (case map_of (map (\<lambda>e. (q # f (fst e), snd e)) es) k of
        Some v \<Rightarrow> Some v
      | None \<Rightarrow> if k \<in> (\<lambda>e. p # fst e) ` set es then None else kv_get t k)"
  using assms(2)
proof (induction es arbitrary: t)
  case (Cons e es)
  have "map_of (map (\<lambda>e. (q # f (fst e), snd e)) es) (q # f (fst e)) = None"
    using Cons.prems by (force simp: map_of_eq_None_iff)
  then show ?case
    using Cons assms(1) by (auto simp: move_entry_def split: option.splits)
qed simp

lemma first_byte: "prefix [c] k \<longleftrightarrow> (\<exists>r. k = c # r)"
  by (cases k) auto

lemma prefix_entries_iff:
  assumes "kv_ok s"
  shows "(r, v) \<in> set (prefix_entries p s) \<longleftrightarrow> kv_get s (p # r) = Some v"
proof -
  have "(r, v) \<in> set (prefix_entries p s) \<longleftrightarrow> (\<exists>k. (k, v) \<in> set s \<and> prefix [p] k \<and> r = tl k)"
    by (auto simp: prefix_entries_def)
  then show ?thesis by (auto simp: first_byte kv_get_iff [OF assms])
qed

lemma prefix_entries_distinct:
  assumes "kv_ok s"
  shows "distinct (map fst (prefix_entries p s))"
proof -
  let ?t = "filter (\<lambda>(k, v). prefix [p] k) s"
  have "map fst (prefix_entries p s) = map tl (map fst ?t)"
    by (simp add: prefix_entries_def comp_def case_prod_unfold)
  moreover have "distinct (map fst ?t)" using kv_ok_distinct [OF assms] by (simp add: distinct_map_filter)
  moreover have "inj_on tl (fst ` set ?t)"
    by (rule inj_onI) (auto simp: first_byte)
  ultimately show ?thesis by (simp add: distinct_map comp_inj_on)
qed

text \<open>\<open>g\<close> undoes \<open>f\<close> on the keys that are moved.\<close>

lemma migratePrefix_get:
  assumes ok: "kv_ok s" and pq: "p \<noteq> q" and empty: "\<And>x. kv_get s (q # x) = None"
    and gf: "\<And>r v. kv_get s (p # r) = Some v \<Longrightarrow> g (f r) = r"
    and fg: "\<And>x v. kv_get s (p # g x) = Some v \<Longrightarrow> f (g x) = x"
  shows "kv_get (migratePrefix p q f s) (c # x) =
     (if c = q then kv_get s (p # g x) else if c = p then None else kv_get s (c # x))"
proof -
  let ?es = "prefix_entries p s"
  have inj: "inj_on f (set (map fst ?es))"
  proof (rule inj_onI)
    fix a b
    assume ab: "a \<in> set (map fst ?es)" "b \<in> set (map fst ?es)" "f a = f b"
    have "g (f r) = r" if "r \<in> set (map fst ?es)" for r
      using that gf by (auto simp: prefix_entries_iff [OF ok])
    then show "a = b" using ab by metis
  qed
  then have d: "distinct (map (\<lambda>e. f (fst e)) ?es)"
    using prefix_entries_distinct [OF ok, of p] by (simp add: distinct_map comp_def inj_on_def)
  have keys: "(c # x \<in> (\<lambda>e. p # fst e) ` set ?es) \<longleftrightarrow> c = p \<and> kv_get s (p # x) \<noteq> None"
  proof -
    have "(c # x \<in> (\<lambda>e. p # fst e) ` set ?es) \<longleftrightarrow> c = p \<and> (\<exists>v. (x, v) \<in> set ?es)" by force
    then show ?thesis by (simp add: prefix_entries_iff [OF ok])
  qed
  have "distinct (map fst (map (\<lambda>e. (q # f (fst e), snd e)) ?es))"
    using d by (simp add: comp_def distinct_map inj_on_def)
  have new: "map_of (map (\<lambda>e. (q # f (fst e), snd e)) ?es) (c # x) = Some v \<longleftrightarrow>
      c = q \<and> (\<exists>r. kv_get s (p # r) = Some v \<and> f r = x)" for v
  proof -
    have "map_of (map (\<lambda>e. (q # f (fst e), snd e)) ?es) (c # x) = Some v \<longleftrightarrow>
        (\<exists>r. (r, v) \<in> set ?es \<and> c = q \<and> f r = x)"
      unfolding map_of_eq_Some_iff [OF \<open>distinct (map fst (map (\<lambda>e. (q # f (fst e), snd e)) ?es))\<close>] by force
    then show ?thesis by (auto simp: prefix_entries_iff [OF ok])
  qed
  then have "map_of (map (\<lambda>e. (q # f (fst e), snd e)) ?es) (c # x) = (if c = q then kv_get s (p # g x) else None)"
  proof (cases "map_of (map (\<lambda>e. (q # f (fst e), snd e)) ?es) (c # x)")
    case None
    then show ?thesis using new fg by (cases "kv_get s (p # g x)") auto
  next
    case (Some v)
    then show ?thesis using new [of v] gf by auto
  qed
  then show ?thesis
    using pq keys empty by (auto simp: migratePrefix_def move_entries_get [OF pq d] split: option.splits)
qed


section \<open>All of them\<close>

text \<open>
  What is under the prefixes of the old sequence keys is these two keys, as in the old layout.
\<close>

definition old_sequences :: "bytes kv \<Rightarrow> bool" where
  "old_sequences s \<longleftrightarrow> list_all (\<lambda>(k, v). prefix [CHR 0x01] k \<or> prefix [CHR 0x02] k \<longrightarrow> length k = 1) s"

definition lengths_20_32 :: "(bytes \<Rightarrow> bool) \<Rightarrow> bool" where
  "lengths_20_32 verify \<longleftrightarrow> (\<forall>b. verify b \<longleftrightarrow> length b = 20 \<or> length b = 32)"

lemma take_key_get: "kv_get (snd (take_key k s)) k' = (if k' = k then None else kv_get s k')" "fst (take_key k s) = kv_get s k"
  by (auto simp: take_key_def split: option.splits)

lemma take_key_ok: "kv_ok s \<Longrightarrow> kv_ok (snd (take_key k s))"
  by (auto simp: take_key_def split: option.splits)

lemma sequences_taken:
  assumes "kv_ok s" and "old_sequences s" and "saveSequenceKeys s = (seq, s1)"
  shows "kv_ok s1" and "codeIDValue seq = kv_get s [CHR 0x01]" and "instanceIDValue seq = kv_get s [CHR 0x02]"
    and "kv_get s1 (c # x) = (if c \<in> {CHR 0x01, CHR 0x02} then None else kv_get s (c # x))"
proof -
  have e: "s1 = snd (take_key [CHR 0x02] (snd (take_key [CHR 0x01] s)))"
    "seq = \<lparr>codeIDValue = fst (take_key [CHR 0x01] s), instanceIDValue = fst (take_key [CHR 0x02] (snd (take_key [CHR 0x01] s)))\<rparr>"
    using assms(3) by (auto simp: saveSequenceKeys_def Let_def split: prod.splits)
  show "kv_ok s1" by (simp add: e take_key_ok assms(1))
  show "codeIDValue seq = kv_get s [CHR 0x01]" "instanceIDValue seq = kv_get s [CHR 0x02]"
    by (simp_all add: e take_key_get)
  have "kv_get s (c # x) = None" if "c \<in> {CHR 0x01, CHR 0x02}" "x \<noteq> []"
    using that assms(2) kv_get_member [of s "c # x"]
    by (cases "kv_get s (c # x)") (fastforce simp: old_sequences_def list_all_iff)+
  then show "kv_get s1 (c # x) = (if c \<in> {CHR 0x01, CHR 0x02} then None else kv_get s (c # x))"
    by (auto simp: e take_key_get)
qed

text \<open>
  The old layout: the address of a contract is preceded by its length, 20 or 32, in the key of its
  record and in the keys of its storage.
\<close>

definition prefixed_address :: "bytes \<Rightarrow> bool" where
  "prefixed_address r = (case r of [] \<Rightarrow> False | l # a \<Rightarrow> l = CHR 20 \<and> length a = 20 \<or> l = CHR 32 \<and> length a = 32)"

definition prefixed_key :: "bytes \<Rightarrow> bool" where
  "prefixed_key r = (case r of [] \<Rightarrow> False | l # a \<Rightarrow> l = CHR 20 \<and> 20 \<le> length a \<or> l = CHR 32 \<and> 32 \<le> length a)"

definition old_layout :: "bytes kv \<Rightarrow> bool" where
  "old_layout s \<longleftrightarrow>
     list_all (\<lambda>(k, v). (take 1 k = [CHR 0x04] \<longrightarrow> prefixed_address (drop 1 k)) \<and>
                        (take 1 k = [CHR 0x05] \<longrightarrow> prefixed_key (drop 1 k))) s"

text \<open>
  The new keys have no length. No storage key of a contract with a 20-byte address is, behind its
  length, also one of a contract with a 32-byte address.
\<close>

definition no_clash :: "bytes kv \<Rightarrow> bool" where
  "no_clash s \<longleftrightarrow> list_all (\<lambda>(k, v). take 2 k = [CHR 0x05, CHR 20] \<longrightarrow> kv_get s (CHR 0x05 # CHR 32 # drop 2 k) = None) s"

lemma old_layout_record: "old_layout s \<Longrightarrow> kv_get s (CHR 0x04 # r) = Some v \<Longrightarrow> prefixed_address r"
  using kv_get_member [of s "CHR 0x04 # r" v] by (fastforce simp: old_layout_def list_all_iff)

lemma old_layout_store: "old_layout s \<Longrightarrow> kv_get s (CHR 0x05 # r) = Some v \<Longrightarrow> prefixed_key r"
  using kv_get_member [of s "CHR 0x05 # r" v] by (fastforce simp: old_layout_def list_all_iff)

lemma no_clash_keys: "no_clash s \<Longrightarrow> kv_get s (CHR 0x05 # CHR 20 # r) = Some v \<Longrightarrow> kv_get s (CHR 0x05 # CHR 32 # r) = None"
  using kv_get_member [of s "CHR 0x05 # CHR 20 # r" v] by (fastforce simp: no_clash_def list_all_iff)

lemma stripped_record:
  "lengths_20_32 verify \<Longrightarrow> prefixed_address r \<Longrightarrow> removeLengthPrefixIfNeeded verify r = (tl r, True)"
  by (auto simp: lengths_20_32_def removeLengthPrefixIfNeeded_def prefixed_address_def split: list.splits)

lemma stripped_store_key:
  assumes "lengths_20_32 verify" and "prefixed_key r"
  shows "rebuildCompositeKey verify r = tl r"
proof -
  obtain l a where r: "r = l # a" "l = CHR 20 \<and> 20 \<le> length a \<or> l = CHR 32 \<and> 32 \<le> length a"
    using assms(2) by (cases r) (auto simp: prefixed_key_def)
  have "prefixed_address (l # take (of_char l) a)" using r(2) by (auto simp: prefixed_address_def)
  note strip = stripped_record [OF assms(1) this]
  have "a \<noteq> []" "of_char l \<le> length a" using r(2) by auto
  then show ?thesis using strip by (simp add: r(1) rebuildCompositeKey_def)
qed

text \<open>Which of the two lengths stands before an address in the old database.\<close>

definition orig :: "bytes kv \<Rightarrow> char \<Rightarrow> bytes \<Rightarrow> bytes" where
  "orig s p x = (if kv_get s (p # CHR 20 # x) \<noteq> None then CHR 20 # x else CHR 32 # x)"

lemma orig_tl [simp]: "tl (orig s p x) = x"
  by (simp add: orig_def)

lemma orig_record: "old_layout s \<Longrightarrow> kv_get s (CHR 0x04 # r) = Some v \<Longrightarrow> orig s (CHR 0x04) (tl r) = r"
  using old_layout_record [of s r v] old_layout_record [of s "CHR 20 # tl r"]
  by (cases r) (auto simp: orig_def prefixed_address_def split: if_splits)

lemma orig_store: "old_layout s \<Longrightarrow> no_clash s \<Longrightarrow> kv_get s (CHR 0x05 # r) = Some v \<Longrightarrow> orig s (CHR 0x05) (tl r) = r"
  using old_layout_store [of s r v] no_clash_keys [of s "tl r"]
  by (cases r) (auto simp: orig_def prefixed_key_def split: if_splits)

lemma params_get:
  "kv_get (migrateParamsKey s) k =
     (if kv_get s [CHR 0x11] \<noteq> None \<and> k = [CHR 0x10] then kv_get s [CHR 0x11]
      else if k = [CHR 0x11] then None else kv_get s k)"
  by (auto simp: migrateParamsKey_def split: option.splits)

lemma put_sequence_get:
  "kv_get s k = None \<Longrightarrow> kv_get (put_sequence k v s) k' =
     (if k' = k then Some (case v of None \<Rightarrow> replicate 8 (CHR 0x00) | Some x \<Rightarrow> x) else kv_get s k')"
  by (simp add: put_sequence_def)

lemma sequences_ok: "kv_ok s \<Longrightarrow> kv_ok (migrateSequenceKeys seq s)"
  by (simp add: migrateSequenceKeys_def put_sequence_def)

definition sequence_value :: "bytes option \<Rightarrow> bytes option" where
  "sequence_value v = Some (case v of None \<Rightarrow> replicate 8 (CHR 0x00) | Some x \<Rightarrow> x)"

lemma sequences_get:
  assumes "\<And>x. kv_get s (CHR 0x04 # x) = None"
  shows "kv_get (migrateSequenceKeys seq s) (c # x) =
     (if c = CHR 0x04 then
        (if x = lastCodeIDKey then sequence_value (codeIDValue seq)
         else if x = lastContractIDKey then sequence_value (instanceIDValue seq) else None)
      else kv_get s (c # x))"
  using assms
  by (simp add: migrateSequenceKeys_def put_sequence_get seqPrefixNew_def lastCodeIDKey_def lastContractIDKey_def
      sequence_value_def)

text \<open>Where a key of the present layout comes from.\<close>

definition migrated_view :: "bytes kv \<Rightarrow> char \<Rightarrow> bytes \<Rightarrow> bytes option" where
  "migrated_view s c x =
     (if c = CHR 0x01 then kv_get s (CHR 0x03 # x)
      else if c = CHR 0x02 then kv_get s (CHR 0x04 # orig s (CHR 0x04) x)
      else if c = CHR 0x03 then kv_get s (CHR 0x05 # orig s (CHR 0x05) x)
      else if c = CHR 0x04 then
        (if x = lastCodeIDKey then sequence_value (kv_get s [CHR 0x01])
         else if x = lastContractIDKey then sequence_value (kv_get s [CHR 0x02]) else None)
      else if c = CHR 0x05 then kv_get s (CHR 0x06 # x)
      else if c = CHR 0x06 then kv_get s (CHR 0x10 # x)
      else if c = CHR 0x10 then (if x = [] then kv_get s [CHR 0x11] else None)
      else if c = CHR 0x11 \<and> x = [] then None
      else kv_get s (c # x))"

lemma migrated_get:
  assumes ok: "kv_ok s" and seqs: "old_sequences s" and lay: "old_layout s" "no_clash s" and ver: "lengths_20_32 verify"
  shows "kv_get (migrateWasmKeys verify s) (c # x) = migrated_view s c x"
proof -
  obtain seq s1 where s1: "saveSequenceKeys s = (seq, s1)" by (cases "saveSequenceKeys s")
  define s2 where "s2 = migrateContractKeys verify s1"
  define s3 where "s3 = migrateSequenceKeys seq s2"
  define s4 where "s4 = migrateCodeKeys s3"
  define s5 where "s5 = migrateContractStoreKeys verify s4"
  define s6 where "s6 = migrateContractHistoryKey s5"
  define s7 where "s7 = migrateSecondaryIndexKeys s6"
  note defs = migrateContractKeys_def migrateCodeKeys_def migrateContractStoreKeys_def
    migrateContractHistoryKey_def migrateSecondaryIndexKeys_def
  note t = sequences_taken [OF ok seqs s1]
  have ok': "kv_ok s2" "kv_ok s3" "kv_ok s4" "kv_ok s5" "kv_ok s6"
    by (simp_all add: s2_def s3_def s4_def s5_def s6_def defs sequences_ok t(1))
  have g2: "kv_get s2 (c # x) = (if c = CHR 0x02 then kv_get s1 (CHR 0x04 # orig s (CHR 0x04) x)
      else if c = CHR 0x04 then None else kv_get s1 (c # x))" for c x
    unfolding s2_def migrateContractKeys_def
    by (rule migratePrefix_get [where g = "orig s (CHR 0x04)"])
      (auto simp: t stripped_record [OF ver old_layout_record [OF lay(1)]] orig_record [OF lay(1)])
  have g3: "kv_get s3 (c # x) = (if c = CHR 0x04 then
        (if x = lastCodeIDKey then sequence_value (kv_get s [CHR 0x01])
         else if x = lastContractIDKey then sequence_value (kv_get s [CHR 0x02]) else None)
      else kv_get s2 (c # x))" for c x
    unfolding s3_def by (simp add: sequences_get g2 t(2,3))
  have g4: "kv_get s4 (c # x) = (if c = CHR 0x01 then kv_get s3 (CHR 0x03 # x)
      else if c = CHR 0x03 then None else kv_get s3 (c # x))" for c x
    unfolding s4_def migrateCodeKeys_def
    by (subst migratePrefix_get [where g = id]) (simp_all add: ok' g3 g2 t(4))
  have g5: "kv_get s5 (c # x) = (if c = CHR 0x03 then kv_get s4 (CHR 0x05 # orig s (CHR 0x05) x)
      else if c = CHR 0x05 then None else kv_get s4 (c # x))" for c x
    unfolding s5_def migrateContractStoreKeys_def
    by (rule migratePrefix_get [where g = "orig s (CHR 0x05)"])
      (auto simp: ok' g4 g3 g2 t(4) stripped_store_key [OF ver old_layout_store [OF lay(1)]] orig_store [OF lay])
  have g6: "kv_get s6 (c # x) = (if c = CHR 0x05 then kv_get s5 (CHR 0x06 # x)
      else if c = CHR 0x06 then None else kv_get s5 (c # x))" for c x
    unfolding s6_def migrateContractHistoryKey_def
    by (subst migratePrefix_get [where g = id]) (simp_all add: ok' g5)
  have g7: "kv_get s7 (c # x) = (if c = CHR 0x06 then kv_get s6 (CHR 0x10 # x)
      else if c = CHR 0x10 then None else kv_get s6 (c # x))" for c x
    unfolding s7_def migrateSecondaryIndexKeys_def
    by (subst migratePrefix_get [where g = id]) (simp_all add: ok' g6)
  have "migrateWasmKeys verify s = migrateParamsKey s7"
    by (simp add: migrateWasmKeys_def s1 s2_def s3_def s4_def s5_def s6_def s7_def Let_def)
  then show ?thesis
    by (auto simp: params_get g7 g6 g5 g4 g3 g2 t(4) migrated_view_def)
qed

text \<open>The place of an old key in the present layout.\<close>

definition present_key :: "bytes \<Rightarrow> bytes option" where
  "present_key k =
     (case k of
        [] \<Rightarrow> None
      | p # b \<Rightarrow>
          if k = [CHR 0x01] then Some (CHR 0x04 # lastCodeIDKey)
          else if k = [CHR 0x02] then Some (CHR 0x04 # lastContractIDKey)
          else if k = [CHR 0x11] then Some [CHR 0x10]
          else if p = CHR 0x03 then Some (CHR 0x01 # b)
          else if p = CHR 0x04 then (if prefixed_address b then Some (CHR 0x02 # tl b) else None)
          else if p = CHR 0x05 then (if prefixed_key b then Some (CHR 0x03 # tl b) else None)
          else if p = CHR 0x06 then Some (CHR 0x05 # b)
          else if p = CHR 0x10 then Some (CHR 0x06 # b)
          else None)"

lemma entry_moved:
  assumes lay: "old_layout s" "no_clash s" and v: "kv_get s k = Some v" and n: "present_key k = Some n"
  shows "n \<noteq> [] \<and> migrated_view s (hd n) (tl n) = Some v"
proof -
  obtain p b where k: "k = p # b" using n by (cases k) (auto simp: present_key_def)
  have "orig s (CHR 0x04) (tl b) = b" if "p = CHR 0x04" using orig_record [OF lay(1)] v k that by simp
  moreover have "orig s (CHR 0x05) (tl b) = b" if "p = CHR 0x05" using orig_store [OF lay] v k that by simp
  ultimately show ?thesis
    using v n by (auto simp: k present_key_def migrated_view_def sequence_value_def lastCodeIDKey_def lastContractIDKey_def split: if_splits)
qed

lemma entry_came_from:
  assumes lay: "old_layout s" and v: "migrated_view s c x = Some v"
    and c: "c \<in> set [CHR 0x01, CHR 0x02, CHR 0x03, CHR 0x05, CHR 0x06]"
  shows "\<exists>k. kv_get s k = Some v \<and> present_key k = Some (c # x)"
proof -
  have r: "kv_get s (CHR 0x04 # orig s (CHR 0x04) x) = Some v \<Longrightarrow> prefixed_address (orig s (CHR 0x04) x)"
    "kv_get s (CHR 0x05 # orig s (CHR 0x05) x) = Some v \<Longrightarrow> prefixed_key (orig s (CHR 0x05) x)"
    using old_layout_record [OF lay] old_layout_store [OF lay] by blast+
  define k where "k = (if c = CHR 0x01 then CHR 0x03 # x else if c = CHR 0x02 then CHR 0x04 # orig s (CHR 0x04) x
      else if c = CHR 0x03 then CHR 0x05 # orig s (CHR 0x05) x else if c = CHR 0x05 then CHR 0x06 # x else CHR 0x10 # x)"
  have "kv_get s k = Some v" using v c by (auto simp: migrated_view_def k_def)
  moreover have "present_key k = Some (c # x)"
    using v c r by (auto simp: migrated_view_def k_def present_key_def)
  ultimately show ?thesis by blast
qed

lemma read_storage:
  assumes lay: "old_layout s" and x: "x \<noteq> []" "hd x \<noteq> CHR 20" "hd x \<noteq> CHR 32"
  shows "legacy_Get L s (CHR 0x03 # x) = kv_get s (CHR 0x05 # orig s (CHR 0x05) x)"
proof -
  have absent: "kv_get s (CHR 0x05 # r) = None" if "\<not> prefixed_key r" for r
    using old_layout_store [OF lay] that by (cases "kv_get s (CHR 0x05 # r)") auto
  have "\<not> prefixed_key x" using x by (cases x) (auto simp: prefixed_key_def)
  moreover have "\<not> prefixed_key (CHR 20 # x)" if "length x < 20" using that by (simp add: prefixed_key_def)
  moreover have "\<not> prefixed_key (CHR 32 # x)" if "length x < 32" using that by (simp add: prefixed_key_def)
  ultimately show ?thesis using absent
    by (auto simp: legacy_Get_def translateNewToOld_def key_constants buildLenVariants_def orig_def not_le
        translateLegacyValueForKey_def split: option.splits)
qed

text \<open>
  C38: the migration keeps the state of the wasm module. On a database in the old layout, whose
  contracts have addresses of 20 or of 32 bytes, every entry that has a place in the present layout
  is there afterwards with its value; under the prefixes for codes, contracts, their storage, history
  and index there is nothing else; and a query about a storage key after the migration gets what the
  translating store answers before it. Two restrictions: no storage key of a 20-byte contract may,
  without its length, be one of a 32-byte contract too (one would overwrite the other), and the last
  part is about addresses that do not begin with the byte 20 or 32 (there the translating store can
  answer with the entry of another contract).
\<close>

theorem migration_keeps_state:
  assumes "kv_ok s" and "old_sequences s" and "old_layout s" "no_clash s" and "lengths_20_32 verify"
  shows "(kv_get s k = Some v \<longrightarrow> present_key k = Some n \<longrightarrow> kv_get (migrateWasmKeys verify s) n = Some v) \<and>
         (kv_get (migrateWasmKeys verify s) (c # x) = Some v \<longrightarrow>
            c \<in> set [CHR 0x01, CHR 0x02, CHR 0x03, CHR 0x05, CHR 0x06] \<longrightarrow>
            (\<exists>k. kv_get s k = Some v \<and> present_key k = Some (c # x))) \<and>
         (y \<noteq> [] \<longrightarrow> hd y \<notin> set [CHR 20, CHR 32] \<longrightarrow>
            kv_get (migrateWasmKeys verify s) (CHR 0x03 # y) = legacy_Get L s (CHR 0x03 # y))"
proof -
  note m = migrated_get [OF assms]
  have "kv_get (migrateWasmKeys verify s) n = Some v" if "kv_get s k = Some v" "present_key k = Some n"
    using entry_moved [OF assms(3,4) that] m [of "hd n" "tl n"] by simp
  moreover have "\<exists>k. kv_get s k = Some v \<and> present_key k = Some (c # x)"
    if "kv_get (migrateWasmKeys verify s) (c # x) = Some v" "c \<in> set [CHR 0x01, CHR 0x02, CHR 0x03, CHR 0x05, CHR 0x06]"
    using entry_came_from [OF assms(3) _ that(2)] that(1) by (simp add: m)
  moreover have "kv_get (migrateWasmKeys verify s) (CHR 0x03 # y) = legacy_Get L s (CHR 0x03 # y)"
    if "y \<noteq> []" "hd y \<notin> set [CHR 20, CHR 32]"
    using read_storage [OF assms(3) that(1)] that(2) by (simp add: m migrated_view_def)
  ultimately show ?thesis by blast
qed

text \<open>A database with a contract of 20 bytes and, last, one of 32 bytes.\<close>

definition sample_long :: address where
  "sample_long = ''llllllllllllllllllllllllllllllll''"

definition sample_old :: "bytes kv" where
  "sample_old = ([CHR 0x01], ''seq'') # (CHR 0x03 # ''code1'', ''code'') # sample_db @ [(CHR 0x05 # CHR 32 # sample_long @ ''k'', ''w'')]"

theorem migration_keeps_state_witness:
  "kv_get (migrateWasmKeys (\<lambda>b. length b = 20 \<or> length b = 32) sample_old) (CHR 0x03 # sample_address @ ''b'') = Some ''2'' \<and>
   kv_get (migrateWasmKeys (\<lambda>b. length b = 20 \<or> length b = 32) sample_old) (CHR 0x03 # sample_long @ ''k'') = Some ''w'' \<and>
   kv_get (migrateWasmKeys (\<lambda>b. length b = 20 \<or> length b = 32) sample_old) (CHR 0x01 # ''code1'') = Some ''code''"
proof -
  have h: "kv_ok sample_old" "old_sequences sample_old" "old_layout sample_old" "no_clash sample_old" by code_simp+
  have l: "lengths_20_32 (\<lambda>b. length b = 20 \<or> length b = 32)" by (simp add: lengths_20_32_def)
  note moved = migration_keeps_state [OF h l, THEN conjunct1, rule_format]
  have e: "kv_get sample_old (CHR 0x05 # CHR 20 # sample_address @ ''b'') = Some ''2''"
    "present_key (CHR 0x05 # CHR 20 # sample_address @ ''b'') = Some (CHR 0x03 # sample_address @ ''b'')"
    "kv_get sample_old (CHR 0x05 # CHR 32 # sample_long @ ''k'') = Some ''w''"
    "present_key (CHR 0x05 # CHR 32 # sample_long @ ''k'') = Some (CHR 0x03 # sample_long @ ''k'')"
    "kv_get sample_old (CHR 0x03 # ''code1'') = Some ''code''"
    "present_key (CHR 0x03 # ''code1'') = Some (CHR 0x01 # ''code1'')" by code_simp+
  show ?thesis using moved [OF e(1,2)] moved [OF e(3,4)] moved [OF e(5,6)] by blast
qed

end
