(* ===== verification/Wasm_Bindings.thy ===== *)
theory Wasm_Bindings
  imports Treasury Go_Json
begin

text \<open>
  What a wasm contract can ask of the chain: \<open>custom/wasm/keeper/handler_plugin.go\<close>, which runs the
  SDK messages a contract emits, \<open>src/wasmbinding\<close>, its swap messages and its queries about swaps,
  rates and taxes, and the messages of the module before its migration
  (\<open>custom/wasm/types/legacy/msgs.go\<close>).

  Parameters: the encoders and the router, what a message implements, the messenger that is wrapped,
  the JSON form of \<open>math.Int\<close>, and the text of a decimal. JSON is read and written by the model of
  \<open>encoding/json\<close>; amounts that the text of a coin leaves out are nil.
\<close>


section \<open>Messages of a contract (handler\_plugin.go)\<close>

text \<open>
  \<open>HasValidateBasic\<close> and \<open>LegacySigners\<close> are \<open>None\<close> when the message does not implement
  \<open>sdk.HasValidateBasic\<close> or \<open>sdk.LegacyMsg\<close>. A handler returns its data and events and the new state.
\<close>

record ('m, 'w, 'e) msg_router =
  HasValidateBasic :: "'m \<Rightarrow> unit result option"
  LegacySigners :: "'m \<Rightarrow> address list result option"
  Handler :: "'m \<Rightarrow> ('w \<Rightarrow> ((bytes \<times> 'e list) \<times> 'w) result) option"

definition handleSdkMessage :: "('m, 'w, 'e) msg_router \<Rightarrow> address \<Rightarrow> 'm \<Rightarrow> 'w \<Rightarrow> ((bytes \<times> 'e list) \<times> 'w) result" where
  "handleSdkMessage H contractAddr msg w =
     rbind (case HasValidateBasic H msg of Some r \<Rightarrow> r | None \<Rightarrow> Inr ()) (\<lambda>_.
     rbind (case LegacySigners H msg of
              Some r \<Rightarrow> rbind r (\<lambda>accts. fail_if (list_ex (\<lambda>acct. acct \<noteq> contractAddr) accts) (Sdk ''ErrUnauthorized''))
            | None \<Rightarrow> Inr ()) (\<lambda>_.
     case Handler H msg of Some handler \<Rightarrow> handler w | None \<Rightarrow> Inl (Sdk ''ErrUnknownRequest'')))"

definition DispatchMsg ::
  "('m, 'w, 'e) msg_router \<Rightarrow> (address \<Rightarrow> 'c \<Rightarrow> 'm list result) \<Rightarrow> address \<Rightarrow> 'c \<Rightarrow> 'w \<Rightarrow>
   (('e list \<times> bytes list) \<times> 'w) result"
where
  "DispatchMsg H Encode contractAddr msg w =
     rbind (Encode contractAddr msg) (\<lambda>sdkMsgs.
     fold_res (\<lambda>sdkMsg ((events, data), w).
         rbind (handleSdkMessage H contractAddr sdkMsg w) (\<lambda>((d, evs), w').
         Inr ((events @ evs, data @ [d]), w')))
       sdkMsgs (([], []), w))"


section \<open>Bindings (bindings/msg.go, bindings/query.go)\<close>

record json_coin =
  jDenom :: string
  jAmount :: "int option"

record Swap =
  sOfferCoin :: json_coin
  sAskDenom :: string

record SwapSend =
  ssToAddress :: string
  ssOfferCoin :: json_coin
  ssAskDenom :: string

record DoMsg =
  mSwap :: "Swap option"
  mSwapSend :: "SwapSend option"

record ExchangeRateQueryParams =
  BaseDenom :: string
  QuoteDenoms :: "string slice"

record DoQuery =
  qSwap :: "Swap option"
  qExchangeRates :: "ExchangeRateQueryParams option"
  qTaxRate :: "unit option"
  qTaxCap :: "string option"

text \<open>\<open>intJSON\<close> is \<open>math.Int\<close>'s \<open>UnmarshalJSON\<close>.\<close>

definition coin_fields :: "(json \<Rightarrow> int option) \<Rightarrow> json_coin fields" where
  "coin_fields intJSON =
     [(''denom'', str_field jDenom (\<lambda>x. jDenom_update (\<lambda>_. x))),
      (''amount'', \<lambda>j s. map_option (\<lambda>x. s\<lparr>jAmount := Some x\<rparr>) (intJSON j))]"

definition zero_coin :: json_coin where
  "zero_coin = \<lparr>jDenom = [], jAmount = None\<rparr>"

definition swap_fields :: "(json \<Rightarrow> int option) \<Rightarrow> Swap fields" where
  "swap_fields intJSON =
     [(''offer_coin'', \<lambda>j s. map_option (\<lambda>x. s\<lparr>sOfferCoin := x\<rparr>) (decode_struct (coin_fields intJSON) j (sOfferCoin s))),
      (''ask_denom'', str_field sAskDenom (\<lambda>x. sAskDenom_update (\<lambda>_. x)))]"

definition zero_swap :: Swap where
  "zero_swap = \<lparr>sOfferCoin = zero_coin, sAskDenom = []\<rparr>"

definition swap_send_fields :: "(json \<Rightarrow> int option) \<Rightarrow> SwapSend fields" where
  "swap_send_fields intJSON =
     [(''to_address'', str_field ssToAddress (\<lambda>x. ssToAddress_update (\<lambda>_. x))),
      (''offer_coin'', \<lambda>j s. map_option (\<lambda>x. s\<lparr>ssOfferCoin := x\<rparr>) (decode_struct (coin_fields intJSON) j (ssOfferCoin s))),
      (''ask_denom'', str_field ssAskDenom (\<lambda>x. ssAskDenom_update (\<lambda>_. x)))]"

definition DoMsg_fields :: "(json \<Rightarrow> int option) \<Rightarrow> DoMsg fields" where
  "DoMsg_fields intJSON =
     [(''swap'', ptr_field (swap_fields intJSON) zero_swap mSwap (\<lambda>x. mSwap_update (\<lambda>_. x))),
      (''swap_send'', ptr_field (swap_send_fields intJSON)
         \<lparr>ssToAddress = [], ssOfferCoin = zero_coin, ssAskDenom = []\<rparr> mSwapSend (\<lambda>x. mSwapSend_update (\<lambda>_. x)))]"

definition zero_DoMsg :: DoMsg where
  "zero_DoMsg = \<lparr>mSwap = None, mSwapSend = None\<rparr>"

definition rate_fields :: "ExchangeRateQueryParams fields" where
  "rate_fields =
     [(''base_denom'', str_field BaseDenom (\<lambda>x. BaseDenom_update (\<lambda>_. x))),
      (''quote_denoms'', \<lambda>j s. map_option (\<lambda>x. s\<lparr>QuoteDenoms := x\<rparr>) (decode_slice decode_string [] j (QuoteDenoms s)))]"

definition DoQuery_fields :: "(json \<Rightarrow> int option) \<Rightarrow> DoQuery fields" where
  "DoQuery_fields intJSON =
     [(''swap'', ptr_field (swap_fields intJSON) zero_swap qSwap (\<lambda>x. qSwap_update (\<lambda>_. x))),
      (''exchange_rates'', ptr_field rate_fields \<lparr>BaseDenom = [], QuoteDenoms = ([], [])\<rparr>
         qExchangeRates (\<lambda>x. qExchangeRates_update (\<lambda>_. x))),
      (''tax_rate'', ptr_field [] () qTaxRate (\<lambda>x. qTaxRate_update (\<lambda>_. x))),
      (''tax_cap'', ptr_field [(''denom'', str_field id (\<lambda>x _. x))] [] qTaxCap (\<lambda>x. qTaxCap_update (\<lambda>_. x)))]"

definition zero_DoQuery :: DoQuery where
  "zero_DoQuery = \<lparr>qSwap = None, qExchangeRates = None, qTaxRate = None, qTaxCap = None\<rparr>"


section \<open>Swaps of a contract (message\_plugin.go)\<close>

text \<open>
  A coin from JSON in a message: \<open>ValidateBasic\<close> compares its amount, which panics when it is nil.
\<close>

definition sdk_coin :: "json_coin \<Rightarrow> coin result" where
  "sdk_coin c = (case jAmount c of None \<Rightarrow> Inl Panic | Some n \<Rightarrow> Inr \<lparr>Denom = jDenom c, Amount = n\<rparr>)"

definition PerformSwap ::
  "sdk \<Rightarrow> 'w keepers \<Rightarrow> price_source \<Rightarrow> int \<Rightarrow> address \<Rightarrow> Swap option \<Rightarrow> market_store \<times> 'w \<Rightarrow>
   ((coin \<times> coin) \<times> market_store \<times> 'w) result"
where
  "PerformSwap K N Q height contractAddr contractMsg sw =
     (case contractMsg of
        None \<Rightarrow> Inl (Sdk ''InvalidRequest'')
      | Some m \<Rightarrow>
          rbind (wrap_err (Sdk ''ErrInvalidAddress'') (AccFromBech32 K (AccString K contractAddr))) (\<lambda>_.
          rbind (sdk_coin (sOfferCoin m)) (\<lambda>offer.
          let msgSwap = \<lparr>Trader = AccString K contractAddr, OfferCoin = offer, AskDenom = sAskDenom m\<rparr>
          in rbind (swap_ValidateBasic K msgSwap) (\<lambda>_. Swap_msg K N Q height msgSwap sw))))"

definition PerformSwapSend ::
  "sdk \<Rightarrow> 'w keepers \<Rightarrow> price_source \<Rightarrow> int \<Rightarrow> address \<Rightarrow> SwapSend option \<Rightarrow> market_store \<times> 'w \<Rightarrow>
   ((coin \<times> coin) \<times> market_store \<times> 'w) result"
where
  "PerformSwapSend K N Q height contractAddr contractMsg sw =
     (case contractMsg of
        None \<Rightarrow> Inl (Sdk ''InvalidRequest'')
      | Some m \<Rightarrow>
          rbind (AccFromBech32 K (ssToAddress m)) (\<lambda>toAddr.
          rbind (wrap_err (Sdk ''ErrInvalidAddress'') (AccFromBech32 K (AccString K contractAddr))) (\<lambda>_.
          rbind (wrap_err (Sdk ''ErrInvalidAddress'') (AccFromBech32 K (AccString K toAddr))) (\<lambda>_.
          rbind (sdk_coin (ssOfferCoin m)) (\<lambda>offer.
          let msgSwapSend = \<lparr>FromAddress = AccString K contractAddr, ToAddress = AccString K toAddr,
                             SendOfferCoin = offer, SendAskDenom = ssAskDenom m\<rparr>
          in rbind (swapsend_ValidateBasic K msgSwapSend) (\<lambda>_. SwapSend_msg K N Q height msgSwapSend sw))))))"

definition coin_json :: "coin \<Rightarrow> string" where
  "coin_json c =
     write_obj ((if Denom c = [] then [] else [(''denom'', quote (Denom c))]) @ [(''amount'', quote (int_digits (Amount c)))])"

definition swap_response :: "coin \<times> coin \<Rightarrow> bytes" where
  "swap_response r = write_obj [(''swap_coin'', coin_json (fst r)), (''swap_fee'', coin_json (snd r))]"

text \<open>
  \<open>CustomMessenger.DispatchMsg\<close>: \<open>custom\<close> is the field \<open>Custom\<close> of the message, nil when the message is
  of another kind, which goes to the wrapped messenger.
\<close>

definition Custom_DispatchMsg ::
  "sdk \<Rightarrow> 'w keepers \<Rightarrow> price_source \<Rightarrow> int \<Rightarrow> (json \<Rightarrow> int option) \<Rightarrow>
   (address \<Rightarrow> 'c \<Rightarrow> market_store \<times> 'w \<Rightarrow> (('e list \<times> bytes list) \<times> market_store \<times> 'w) result) \<Rightarrow>
   ('c \<Rightarrow> bytes option) \<Rightarrow> address \<Rightarrow> 'c \<Rightarrow> market_store \<times> 'w \<Rightarrow> (('e list \<times> bytes list) \<times> market_store \<times> 'w) result"
where
  "Custom_DispatchMsg K N Q height intJSON wrapped custom contractAddr msg sw =
     (case custom msg of
        None \<Rightarrow> wrapped contractAddr msg sw
      | Some bz \<Rightarrow>
          (case unmarshal_struct (DoMsg_fields intJSON) zero_DoMsg bz of
             None \<Rightarrow> Inl (Text ''do msg'')
           | Some contractMsg \<Rightarrow>
               if mSwap contractMsg \<noteq> None then
                 rbind (PerformSwap K N Q height contractAddr (mSwap contractMsg) sw) (\<lambda>(res, sw').
                 Inr (([], [swap_response res]), sw'))
               else if mSwapSend contractMsg \<noteq> None then
                 rbind (PerformSwapSend K N Q height contractAddr (mSwapSend contractMsg) sw) (\<lambda>(res, sw').
                 Inr (([], [swap_response res]), sw'))
               else Inl (Sdk ''UnsupportedRequest'')))"


section \<open>Queries of a contract (query\_plugin.go, stargate\_whitelist.go)\<close>

datatype whitelisted = QuerySwapResponse | QueryTaxCapResponse | QueryTaxRateResponse | QueryExchangeRateResponse

definition stargateWhitelist :: "string \<Rightarrow> whitelisted option" where
  "stargateWhitelist path =
     map_of [(''/do.market.v1beta1.Query/Swap'', QuerySwapResponse),
             (''/do.treasury.v1beta1.Query/TaxCap'', QueryTaxCapResponse),
             (''/do.treasury.v1beta1.Query/TaxRate'', QueryTaxRateResponse),
             (''/do.oracle.v1beta1.Query/ExchangeRate'', QueryExchangeRateResponse)] path"

definition GetWhitelistedQuery :: "string \<Rightarrow> whitelisted result" where
  "GetWhitelistedQuery queryPath =
     (case stargateWhitelist queryPath of
        None \<Rightarrow> Inl (Sdk ''UnsupportedRequest'')
      | Some protoResponseType \<Rightarrow> Inr protoResponseType)"

definition StargateQuerier ::
  "(string \<Rightarrow> (bytes \<Rightarrow> bytes result) option) \<Rightarrow> (whitelisted \<Rightarrow> bytes \<Rightarrow> bytes result) \<Rightarrow> string \<Rightarrow> bytes \<Rightarrow> bytes result"
where
  "StargateQuerier Route ConvertProtoToJSON path data =
     rbind (GetWhitelistedQuery path) (\<lambda>protoResponseType.
     case Route path of
       None \<Rightarrow> Inl (Sdk ''UnsupportedRequest'')
     | Some route \<Rightarrow> rbind (route data) (\<lambda>res. ConvertProtoToJSON protoResponseType res))"

text \<open>
  \<open>normalizeLegacyRoutedQueryJSON\<close>, as the JSON value that the text it returns reads as. A map is
  its members, the newest first.
\<close>

record legacyRouted =
  Route :: string
  QueryData :: "(string \<times> json) list"

fun decode_raw_map :: "json \<Rightarrow> (string \<times> json) list \<Rightarrow> (string \<times> json) list option" where
  "decode_raw_map (JObj ms) m = Some (rev ms @ m)"
| "decode_raw_map JNull m = Some []"
| "decode_raw_map _ m = None"

definition routed_fields :: "legacyRouted fields" where
  "routed_fields =
     [(''route'', str_field Route (\<lambda>x. Route_update (\<lambda>_. x))),
      (''query_data'', \<lambda>j s. map_option (\<lambda>x. s\<lparr>QueryData := x\<rparr>) (decode_raw_map j (QueryData s)))]"

definition routed_query :: "legacyRouted \<Rightarrow> json option" where
  "routed_query lr =
     (if Route lr = ''treasury'' then
        (if map_of (QueryData lr) ''tax_rate'' \<noteq> None then Some (JObj [(''tax_rate'', JObj [])])
         else map_option (\<lambda>capRaw. JObj [(''tax_cap'', capRaw)]) (map_of (QueryData lr) ''tax_cap''))
      else if Route lr = ''oracle'' then
        map_option (\<lambda>er. JObj [(''exchange_rates'', er)]) (map_of (QueryData lr) ''exchange_rates'')
      else if Route lr = ''market'' then
        map_option (\<lambda>sw. JObj [(''swap'', sw)]) (map_of (QueryData lr) ''swap'')
      else None)"

definition normalizeLegacyRoutedQueryJSON :: "bytes \<Rightarrow> json option" where
  "normalizeLegacyRoutedQueryJSON request =
     (if length request > 64 * 1024 then json_read request
      else case unmarshal_struct routed_fields \<lparr>Route = [], QueryData = []\<rparr> request of
             None \<Rightarrow> json_read request
           | Some lr \<Rightarrow>
               if Route lr = [] then json_read request
               else (case routed_query lr of Some j \<Rightarrow> Some j | None \<Rightarrow> json_read request))"

definition exchange_items :: "sdk \<Rightarrow> oracle_store \<Rightarrow> dec \<Rightarrow> string list \<Rightarrow> (dec \<times> string) list result" where
  "exchange_items K os base quotes =
     fold_res (\<lambda>quoteDenom items.
        case GetDoExchangeRate os quoteDenom of
          Inl _ \<Rightarrow> Inr items
        | Inr r \<Rightarrow> rbind (dQuo K r base) (\<lambda>q. Inr (items @ [(q, quoteDenom)])))
       quotes []"

text \<open>A nil slice is written as \<open>null\<close>; \<open>decString\<close> is the text of a decimal, \<open>coinString\<close> of a coin.\<close>

definition rates_response :: "(dec \<Rightarrow> string) \<Rightarrow> string \<Rightarrow> (dec \<times> string) list \<Rightarrow> bytes" where
  "rates_response decString base items =
     write_obj
       [(''exchange_rates'',
           if items = [] then ''null''
           else write_arr (map (\<lambda>(r, d). write_obj [(''exchange_rate'', quote (decString r)), (''quote_denom'', quote d)]) items)),
        (''base_denom'', quote base)]"

definition answer_query ::
  "sdk \<Rightarrow> (dec \<Rightarrow> string) \<Rightarrow> (json_coin \<Rightarrow> string) \<Rightarrow> (string \<Rightarrow> coin result) \<Rightarrow>
   oracle_store \<Rightarrow> market_store \<Rightarrow> treasury_store \<Rightarrow> DoQuery \<Rightarrow> bytes result"
where
  "answer_query K decString coinString parseCoin os ms ts q =
     (case qSwap q of
        Some p \<Rightarrow>
          rbind (market_query_Swap K parseCoin (oracle_view os) ms (coinString (sOfferCoin p)) (sAskDenom p)) (\<lambda>retCoin.
          Inr (write_obj [(''receive'', write_obj [(''denom'', quote (Denom retCoin)), (''amount'', quote (int_digits (Amount retCoin)))])]))
      | None \<Rightarrow>
     (case qExchangeRates q of
        Some p \<Rightarrow>
          rbind (GetDoExchangeRate os (BaseDenom p)) (\<lambda>base.
          rbind (exchange_items K os base (fst (QuoteDenoms p))) (\<lambda>items.
          Inr (rates_response decString (BaseDenom p) items)))
      | None \<Rightarrow>
     if qTaxRate q \<noteq> None then Inr (write_obj [(''rate'', quote (decString (GetTaxRate ts)))])
     else (case qTaxCap q of
             Some denom \<Rightarrow> Inr (write_obj [(''cap'', quote (int_digits (GetTaxCap ts denom)))])
           | None \<Rightarrow> Inl (Sdk ''UnsupportedRequest''))))"

definition CustomQuerier ::
  "sdk \<Rightarrow> (dec \<Rightarrow> string) \<Rightarrow> (json_coin \<Rightarrow> string) \<Rightarrow> (string \<Rightarrow> coin result) \<Rightarrow> (json \<Rightarrow> int option) \<Rightarrow>
   oracle_store \<Rightarrow> market_store \<Rightarrow> treasury_store \<Rightarrow> bytes \<Rightarrow> bytes result"
where
  "CustomQuerier K decString coinString parseCoin intJSON os ms ts request =
     (case Option.bind (normalizeLegacyRoutedQueryJSON request) (\<lambda>j. decode_struct (DoQuery_fields intJSON) j zero_DoQuery) of
        None \<Rightarrow> Inl (Text ''do query'')
      | Some q \<Rightarrow> answer_query K decString coinString parseCoin os ms ts q)"


section \<open>Messages before the migration (legacy/msgs.go)\<close>

definition EnforcedMaxContractSize :: nat where
  "EnforcedMaxContractSize = 3000 * 1024"

definition EnforcedMaxContractMsgSize :: nat where
  "EnforcedMaxContractMsgSize = 20 * 1024"

record MsgStoreCode =
  scSender :: string
  scWASMByteCode :: bytes

record MsgMigrateCode =
  mcCodeID :: nat
  mcSender :: string
  mcWASMByteCode :: bytes

record MsgInstantiateContract =
  icSender :: string
  icAdmin :: string
  icCodeID :: nat
  icInitMsg :: bytes
  icInitCoins :: "coin list"

record MsgExecuteContract =
  ecSender :: string
  ecContract :: string
  ecExecuteMsg :: bytes
  ecCoins :: "coin list"

record MsgMigrateContract =
  mgAdmin :: string
  mgContract :: string
  mgNewCodeID :: nat
  mgMigrateMsg :: bytes

record MsgUpdateContractAdmin =
  uaAdmin :: string
  uaNewAdmin :: string
  uaContract :: string

record MsgClearContractAdmin =
  caAdmin :: string
  caContract :: string

definition address_ok :: "sdk \<Rightarrow> string \<Rightarrow> unit result" where
  "address_ok K s = rbind (wrap_err (Sdk ''ErrInvalidAddress'') (AccFromBech32 K s)) (\<lambda>_. Inr ())"

definition code_ok :: "bytes \<Rightarrow> unit result" where
  "code_ok wasmByteCode =
     rbind (fail_if (length wasmByteCode = 0) (Sdk ''ErrInvalidRequest'')) (\<lambda>_.
     fail_if (length wasmByteCode > EnforcedMaxContractSize) (Sdk ''ErrInvalidRequest''))"

definition contract_msg_ok :: "bytes \<Rightarrow> unit result" where
  "contract_msg_ok m =
     rbind (fail_if (length m > EnforcedMaxContractMsgSize) (Sdk ''ErrInvalidRequest'')) (\<lambda>_.
     fail_if (json_read m = None) (Sdk ''ErrInvalidRequest''))"

definition NewMsgStoreCode :: "sdk \<Rightarrow> address \<Rightarrow> bytes \<Rightarrow> MsgStoreCode" where
  "NewMsgStoreCode K sender wasmByteCode = \<lparr>scSender = AccString K sender, scWASMByteCode = wasmByteCode\<rparr>"

definition store_ValidateBasic :: "sdk \<Rightarrow> MsgStoreCode \<Rightarrow> unit result" where
  "store_ValidateBasic K msg = rbind (address_ok K (scSender msg)) (\<lambda>_. code_ok (scWASMByteCode msg))"

definition NewMsgMigrateCode :: "sdk \<Rightarrow> nat \<Rightarrow> address \<Rightarrow> bytes \<Rightarrow> MsgMigrateCode" where
  "NewMsgMigrateCode K codeID sender wasmByteCode =
     \<lparr>mcCodeID = codeID, mcSender = AccString K sender, mcWASMByteCode = wasmByteCode\<rparr>"

definition migrate_code_ValidateBasic :: "sdk \<Rightarrow> MsgMigrateCode \<Rightarrow> unit result" where
  "migrate_code_ValidateBasic K msg = rbind (address_ok K (mcSender msg)) (\<lambda>_. code_ok (mcWASMByteCode msg))"

definition NewMsgInstantiateContract ::
  "sdk \<Rightarrow> address \<Rightarrow> address \<Rightarrow> nat \<Rightarrow> bytes \<Rightarrow> coin list \<Rightarrow> MsgInstantiateContract" where
  "NewMsgInstantiateContract K sender admin codeID initMsg initCoins =
     \<lparr>icSender = AccString K sender, icAdmin = (if admin \<noteq> [] then AccString K admin else []),
      icCodeID = codeID, icInitMsg = initMsg, icInitCoins = initCoins\<rparr>"

definition instantiate_ValidateBasic :: "sdk \<Rightarrow> MsgInstantiateContract \<Rightarrow> unit result" where
  "instantiate_ValidateBasic K msg =
     rbind (address_ok K (icSender msg)) (\<lambda>_.
     rbind (if icAdmin msg \<noteq> [] then address_ok K (icAdmin msg) else Inr ()) (\<lambda>_.
     rbind (fail_if (\<not> CoinsIsValid K (icInitCoins msg)) (Sdk ''ErrInvalidCoins'')) (\<lambda>_.
     contract_msg_ok (icInitMsg msg))))"

definition NewMsgExecuteContract :: "sdk \<Rightarrow> address \<Rightarrow> address \<Rightarrow> bytes \<Rightarrow> coin list \<Rightarrow> MsgExecuteContract" where
  "NewMsgExecuteContract K sender contract execMsg coins =
     \<lparr>ecSender = AccString K sender, ecContract = AccString K contract, ecExecuteMsg = execMsg, ecCoins = coins\<rparr>"

definition execute_ValidateBasic :: "sdk \<Rightarrow> MsgExecuteContract \<Rightarrow> unit result" where
  "execute_ValidateBasic K msg =
     rbind (address_ok K (ecSender msg)) (\<lambda>_.
     rbind (address_ok K (ecContract msg)) (\<lambda>_.
     rbind (fail_if (\<not> CoinsIsValid K (ecCoins msg)) (Sdk ''ErrInvalidCoins'')) (\<lambda>_.
     contract_msg_ok (ecExecuteMsg msg))))"

definition NewMsgMigrateContract :: "sdk \<Rightarrow> address \<Rightarrow> address \<Rightarrow> nat \<Rightarrow> bytes \<Rightarrow> MsgMigrateContract" where
  "NewMsgMigrateContract K admin contract newCodeID migrateMsg =
     \<lparr>mgAdmin = AccString K admin, mgContract = AccString K contract, mgNewCodeID = newCodeID,
      mgMigrateMsg = migrateMsg\<rparr>"

definition migrate_ValidateBasic :: "sdk \<Rightarrow> MsgMigrateContract \<Rightarrow> unit result" where
  "migrate_ValidateBasic K msg =
     rbind (fail_if (mgNewCodeID msg = 0) (Sdk ''ErrInvalidRequest'')) (\<lambda>_.
     rbind (address_ok K (mgAdmin msg)) (\<lambda>_.
     rbind (address_ok K (mgContract msg)) (\<lambda>_.
     contract_msg_ok (mgMigrateMsg msg))))"

definition NewMsgUpdateContractAdmin :: "sdk \<Rightarrow> address \<Rightarrow> address \<Rightarrow> address \<Rightarrow> MsgUpdateContractAdmin" where
  "NewMsgUpdateContractAdmin K admin newAdmin contract =
     \<lparr>uaAdmin = AccString K admin, uaNewAdmin = AccString K newAdmin, uaContract = AccString K contract\<rparr>"

definition update_admin_ValidateBasic :: "sdk \<Rightarrow> MsgUpdateContractAdmin \<Rightarrow> unit result" where
  "update_admin_ValidateBasic K msg =
     rbind (address_ok K (uaAdmin msg)) (\<lambda>_.
     rbind (address_ok K (uaNewAdmin msg)) (\<lambda>_.
     address_ok K (uaContract msg)))"

definition NewMsgClearContractAdmin :: "sdk \<Rightarrow> address \<Rightarrow> address \<Rightarrow> MsgClearContractAdmin" where
  "NewMsgClearContractAdmin K admin contract =
     \<lparr>caAdmin = AccString K admin, caContract = AccString K contract\<rparr>"

definition clear_admin_ValidateBasic :: "sdk \<Rightarrow> MsgClearContractAdmin \<Rightarrow> unit result" where
  "clear_admin_ValidateBasic K msg = rbind (address_ok K (caAdmin msg)) (\<lambda>_. address_ok K (caContract msg))"

text \<open>The seven messages as one type, with the methods they share.\<close>

datatype legacy_msg =
    StoreCode MsgStoreCode
  | MigrateCode MsgMigrateCode
  | InstantiateContract MsgInstantiateContract
  | ExecuteContract MsgExecuteContract
  | MigrateContract MsgMigrateContract
  | UpdateContractAdmin MsgUpdateContractAdmin
  | ClearContractAdmin MsgClearContractAdmin

fun legacy_ValidateBasic :: "sdk \<Rightarrow> legacy_msg \<Rightarrow> unit result" where
  "legacy_ValidateBasic K (StoreCode m) = store_ValidateBasic K m"
| "legacy_ValidateBasic K (MigrateCode m) = migrate_code_ValidateBasic K m"
| "legacy_ValidateBasic K (InstantiateContract m) = instantiate_ValidateBasic K m"
| "legacy_ValidateBasic K (ExecuteContract m) = execute_ValidateBasic K m"
| "legacy_ValidateBasic K (MigrateContract m) = migrate_ValidateBasic K m"
| "legacy_ValidateBasic K (UpdateContractAdmin m) = update_admin_ValidateBasic K m"
| "legacy_ValidateBasic K (ClearContractAdmin m) = clear_admin_ValidateBasic K m"

definition signer :: "sdk \<Rightarrow> string \<Rightarrow> address list result" where
  "signer K s = rbind (must (AccFromBech32 K s)) (\<lambda>a. Inr [a])"

fun legacy_GetSigners :: "sdk \<Rightarrow> legacy_msg \<Rightarrow> address list result" where
  "legacy_GetSigners K (StoreCode m) = signer K (scSender m)"
| "legacy_GetSigners K (MigrateCode m) = signer K (mcSender m)"
| "legacy_GetSigners K (InstantiateContract m) = signer K (icSender m)"
| "legacy_GetSigners K (ExecuteContract m) = signer K (ecSender m)"
| "legacy_GetSigners K (MigrateContract m) = signer K (mgAdmin m)"
| "legacy_GetSigners K (UpdateContractAdmin m) = signer K (uaAdmin m)"
| "legacy_GetSigners K (ClearContractAdmin m) = signer K (caAdmin m)"

text \<open>The bytes a message carries, with their limit, and whether they have to be JSON.\<close>

fun payload :: "legacy_msg \<Rightarrow> (bytes \<times> nat \<times> bool) option" where
  "payload (StoreCode m) = Some (scWASMByteCode m, EnforcedMaxContractSize, False)"
| "payload (MigrateCode m) = Some (mcWASMByteCode m, EnforcedMaxContractSize, False)"
| "payload (InstantiateContract m) = Some (icInitMsg m, EnforcedMaxContractMsgSize, True)"
| "payload (ExecuteContract m) = Some (ecExecuteMsg m, EnforcedMaxContractMsgSize, True)"
| "payload (MigrateContract m) = Some (mgMigrateMsg m, EnforcedMaxContractMsgSize, True)"
| "payload _ = None"

lemmas legacy_validation =
  store_ValidateBasic_def migrate_code_ValidateBasic_def instantiate_ValidateBasic_def execute_ValidateBasic_def
  migrate_ValidateBasic_def update_admin_ValidateBasic_def clear_admin_ValidateBasic_def
  code_ok_def contract_msg_ok_def fail_if_def

lemma address_ok_Inr: "address_ok K s = Inr u \<longleftrightarrow> (\<exists>a. AccFromBech32 K s = Inr a)"
  by (cases "AccFromBech32 K s") (auto simp: address_ok_def wrap_err_def)

text \<open>A message that validates can be asked for its signer, and its payload is within its limit.\<close>

lemma validated_signer: "legacy_ValidateBasic K m = Inr () \<Longrightarrow> \<exists>a. legacy_GetSigners K m = Inr [a]"
  by (cases m) (auto simp: legacy_validation rbind_eq_Inr address_ok_Inr signer_def must_def split: if_splits)

lemma validated_payload:
  "legacy_ValidateBasic K m = Inr () \<Longrightarrow> payload m = Some (bz, limit, isJson) \<Longrightarrow>
     length bz \<le> limit \<and> (isJson \<longrightarrow> json_read bz \<noteq> None) \<and> (\<not> isJson \<longrightarrow> bz \<noteq> [])"
  by (cases m) (auto simp: legacy_validation rbind_eq_Inr split: if_splits)


section \<open>What a contract may do\<close>

text \<open>The signers a message reports are all the contract.\<close>

definition only_signer :: "('m, 'w, 'e) msg_router \<Rightarrow> address \<Rightarrow> 'm \<Rightarrow> bool" where
  "only_signer H a m \<longleftrightarrow>
     (case LegacySigners H m of
        None \<Rightarrow> True
      | Some r \<Rightarrow> (case r of Inl _ \<Rightarrow> False | Inr accts \<Rightarrow> list_all (\<lambda>x. x = a) accts))"

text \<open>
  The messages of a contract run one after the other: each is valid, names no signer but the
  contract, is routed to a handler, and the handler succeeds on the state the one before it left.
\<close>

inductive runs :: "('m, 'w, 'e) msg_router \<Rightarrow> address \<Rightarrow> 'm list \<Rightarrow> 'w \<Rightarrow> 'e list \<Rightarrow> bytes list \<Rightarrow> 'w \<Rightarrow> bool"
  for H :: "('m, 'w, 'e) msg_router" and a :: address where
  runs_none: "runs H a [] w [] [] w"
| runs_msg: "only_signer H a m \<Longrightarrow> HasValidateBasic H m \<in> {None, Some (Inr ())} \<Longrightarrow> Handler H m = Some handler \<Longrightarrow>
    handler w = Inr ((d, evs), w1) \<Longrightarrow> runs H a ms w1 events data w' \<Longrightarrow>
    runs H a (m # ms) w (evs @ events) (d # data) w'"

inductive_cases runs_NilE: "runs H a [] w events data w'"
inductive_cases runs_ConsE: "runs H a (m # ms) w events data w'"

lemma handled_iff:
  "handleSdkMessage H a m w = Inr r \<longleftrightarrow>
     only_signer H a m \<and> HasValidateBasic H m \<in> {None, Some (Inr ())} \<and> (\<exists>handler. Handler H m = Some handler \<and> handler w = Inr r)"
  by (auto simp: handleSdkMessage_def only_signer_def rbind_eq_Inr fail_if_def list_ex_iff list_all_iff
      split: option.splits if_splits sum.splits)

abbreviation dispatch_one :: "('m, 'w, 'e) msg_router \<Rightarrow> address \<Rightarrow> 'm \<Rightarrow> ('e list \<times> bytes list) \<times> 'w \<Rightarrow> (('e list \<times> bytes list) \<times> 'w) result" where
  "dispatch_one H a \<equiv> (\<lambda>m ((events, data), w). rbind (handleSdkMessage H a m w) (\<lambda>((d, evs), w').
     Inr ((events @ evs, data @ [d]), w')))"

lemma dispatch_runs:
  "fold_res (dispatch_one H a) ms ((ev, dt), w) = Inr ((ev', dt'), w') \<longleftrightarrow>
     (\<exists>events data. runs H a ms w events data w' \<and> ev' = ev @ events \<and> dt' = dt @ data)"
proof (induction ms arbitrary: ev dt w)
  case Nil
  show ?case by (auto intro: runs_none elim: runs_NilE)
next
  case (Cons m ms)
  show ?case (is "?l \<longleftrightarrow> ?r")
  proof
    assume ?l
    then obtain d evs w1 where h: "handleSdkMessage H a m w = Inr ((d, evs), w1)"
      and "fold_res (dispatch_one H a) ms ((ev @ evs, dt @ [d]), w1) = Inr ((ev', dt'), w')" by (auto simp: rbind_eq_Inr)
    then obtain events data where "runs H a ms w1 events data w'" "ev' = ev @ evs @ events" "dt' = dt @ d # data"
      using Cons.IH by auto
    then show ?r using h unfolding handled_iff by (blast intro: runs_msg)
  next
    assume ?r
    then obtain d evs w1 events data where "handleSdkMessage H a m w = Inr ((d, evs), w1)" "runs H a ms w1 events data w'"
        "ev' = ev @ evs @ events" "dt' = dt @ d # data"
      unfolding handled_iff by (blast elim: runs_ConsE)
    then show ?l using Cons.IH [of "ev @ evs" "dt @ [d]" w1] by auto
  qed
qed

text \<open>
  C9: a contract acts only for itself in every message that names its signers. A dispatch of the SDK
  messages of a contract succeeds exactly when all of them run in order: each is valid, every signer
  that it reports through \<open>GetSigners\<close> is the contract, it is routed and its handler succeeds on the
  state its predecessor left; the result has the events and the response of every message, in order,
  and the state of the last. One message that fails makes the whole dispatch fail with its error.
\<close>

theorem contract_acts_for_itself:
  "(DispatchMsg H Encode contractAddr msg w = Inr ((events, data), w') \<longleftrightarrow>
      (\<exists>ms. Encode contractAddr msg = Inr ms \<and> runs H contractAddr ms w events data w')) \<and>
   (Encode contractAddr msg = Inr (ms1 @ m # ms2) \<and> runs H contractAddr ms1 w events1 data1 w1 \<and>
      handleSdkMessage H contractAddr m w1 = Inl e \<longrightarrow> DispatchMsg H Encode contractAddr msg w = Inl e)"
proof
  show "DispatchMsg H Encode contractAddr msg w = Inr ((events, data), w') \<longleftrightarrow>
      (\<exists>ms. Encode contractAddr msg = Inr ms \<and> runs H contractAddr ms w events data w')"
    by (auto simp: DispatchMsg_def rbind_eq_Inr dispatch_runs)
  have "fold_res (dispatch_one H contractAddr) ms1 (([], []), w) = Inr ((events1, data1), w1)"
    if "runs H contractAddr ms1 w events1 data1 w1" using that by (simp add: dispatch_runs)
  then show "Encode contractAddr msg = Inr (ms1 @ m # ms2) \<and> runs H contractAddr ms1 w events1 data1 w1 \<and>
      handleSdkMessage H contractAddr m w1 = Inl e \<longrightarrow> DispatchMsg H Encode contractAddr msg w = Inl e"
    by (auto simp: DispatchMsg_def fold_res_append)
qed

text \<open>A router with one kind of message, a transfer between two addresses, that reports its sender.\<close>

definition sample_router :: "(address \<times> address, address list, unit) msg_router" where
  "sample_router =
     \<lparr>HasValidateBasic = (\<lambda>m. Some (fail_if (snd m = []) (Sdk ''ErrInvalidAddress''))),
      LegacySigners = (\<lambda>m. Some (Inr [fst m])),
      Handler = (\<lambda>m. Some (\<lambda>w. Inr ((''ok'', [()]), snd m # w)))\<rparr>"

theorem contract_acts_for_itself_witness:
  "runs sample_router ''wasm'' [(''wasm'', ''bob''), (''wasm'', ''carol'')] [] [(), ()] [''ok'', ''ok''] [''carol'', ''bob''] \<and>
   DispatchMsg sample_router (\<lambda>a c. Inr ([(a, c), (a, ''carol'')] @ [(''alice'', ''carol'')])) ''wasm'' ''bob'' [] = Inl (Sdk ''ErrUnauthorized'')"
proof -
  have "DispatchMsg sample_router (\<lambda>a c. Inr [(a, c), (a, ''carol'')]) ''wasm'' ''bob'' [] =
      Inr (([(), ()], [''ok'', ''ok'']), [''carol'', ''bob''])" by code_simp
  then have runs: "runs sample_router ''wasm'' [(''wasm'', ''bob''), (''wasm'', ''carol'')] [] [(), ()] [''ok'', ''ok''] [''carol'', ''bob'']"
    by (simp add: contract_acts_for_itself [THEN conjunct1])
  have "handleSdkMessage sample_router ''wasm'' (''alice'', ''carol'') [''carol'', ''bob''] = Inl (Sdk ''ErrUnauthorized'')" by code_simp
  then have "DispatchMsg sample_router (\<lambda>a c. Inr ([(a, c), (a, ''carol'')] @ [(''alice'', ''carol'')])) ''wasm'' ''bob'' [] =
      Inl (Sdk ''ErrUnauthorized'')"
    using runs by (intro contract_acts_for_itself [THEN conjunct2, rule_format, where ?ms1.0 = "[(''wasm'', ''bob''), (''wasm'', ''carol'')]"
        and m = "(''alice'', ''carol'')" and ?ms2.0 = "[]" and ?w1.0 = "[''carol'', ''bob'']"]) auto
  with runs show ?thesis by blast
qed

text \<open>
  A message that does not implement \<open>GetSigners\<close> is run whichever contract sends it: no signer is
  compared.
\<close>

lemma unsigned_unchecked:
  "LegacySigners H m = None \<Longrightarrow> handleSdkMessage H a m w = handleSdkMessage H b m w"
  by (simp add: handleSdkMessage_def)

lemma unsigned_transfer:
  "DispatchMsg (sample_router\<lparr>LegacySigners := \<lambda>_. None\<rparr>) (\<lambda>a c. Inr [(''alice'', c)]) ''wasm'' ''bob'' [] =
     Inr (([()], [''ok'']), [''bob''])"
  by code_simp


section \<open>Swaps of a contract\<close>

lemma contract_trader:
  assumes "bech32 K" and "addr_ok a"
  shows "AccFromBech32 K (AccString K a) = Inr a"
  by (rule bech32.acc_read [OF assms])

lemma PerformSwap_eq:
  assumes "bech32 K" and "addr_ok a"
  shows "PerformSwap K N Q h a (Some m) sw =
           rbind (sdk_coin (sOfferCoin m)) (\<lambda>offer.
           rbind (offer_ok offer (sAskDenom m)) (\<lambda>_. handleSwapRequest K N Q h a a offer (sAskDenom m) sw))"
  by (simp add: PerformSwap_def contract_trader [OF assms] swap_ValidateBasic_def Swap_msg_def wrap_err_def)

lemma PerformSwapSend_eq:
  assumes "bech32 K" and "addr_ok a"
  shows "PerformSwapSend K N Q h a (Some m) sw =
           rbind (AccFromBech32 K (ssToAddress m)) (\<lambda>b.
           rbind (sdk_coin (ssOfferCoin m)) (\<lambda>offer.
           rbind (offer_ok offer (ssAskDenom m)) (\<lambda>_. handleSwapRequest K N Q h a b offer (ssAskDenom m) sw)))"
proof (cases "AccFromBech32 K (ssToAddress m)")
  case (Inr b)
  then have "addr_ok b" using bech32.acc_write [OF assms(1)] by blast
  then show ?thesis
    using Inr by (simp add: PerformSwapSend_def contract_trader [OF assms(1)] assms(2) swapsend_ValidateBasic_def
        SwapSend_msg_def wrap_err_def)
qed (simp add: PerformSwapSend_def)

text \<open>
  C10: a custom message of a contract is a swap of the contract's own coins, as the message says. If
  it is dispatched, it decodes as a swap or a \<open>swap_send\<close>, the contract is the trader of a valid market
  swap of exactly the coin the message offers for the denom it asks for, which went through; the
  proceeds go to the contract for a swap and to the address the message names for a \<open>swap_send\<close>, and
  the response tells the coins received and the fee.
\<close>

theorem contract_swaps_own_coins:
  assumes "bech32 K" and "addr_ok contractAddr" and "custom msg = Some bz"
    and "Custom_DispatchMsg K N Q h intJSON wrapped custom contractAddr msg sw = Inr ((events, data), sw')"
  shows "\<exists>dm coins. unmarshal_struct (DoMsg_fields intJSON) zero_DoMsg bz = Some dm \<and>
           events = [] \<and> data = [swap_response coins] \<and>
           (case mSwap dm of
              Some m \<Rightarrow> \<exists>offer. sdk_coin (sOfferCoin m) = Inr offer \<and> offer_ok offer (sAskDenom m) = Inr () \<and>
                handleSwapRequest K N Q h contractAddr contractAddr offer (sAskDenom m) sw = Inr (coins, sw')
            | None \<Rightarrow> \<exists>m receiver offer. mSwapSend dm = Some m \<and> AccFromBech32 K (ssToAddress m) = Inr receiver \<and>
                sdk_coin (ssOfferCoin m) = Inr offer \<and> offer_ok offer (ssAskDenom m) = Inr () \<and>
                handleSwapRequest K N Q h contractAddr receiver offer (ssAskDenom m) sw = Inr (coins, sw'))"
  using assms(3,4)
  by (auto simp: Custom_DispatchMsg_def PerformSwap_eq [OF assms(1,2)] PerformSwapSend_eq [OF assms(1,2)]
      rbind_eq_Inr split: option.splits if_splits)

definition sample_int :: "json \<Rightarrow> int option" where
  "sample_int j = (case j of JStr s \<Rightarrow> Some (digits_value s) | _ \<Rightarrow> None)"

definition sample_swap_json :: json where
  "sample_swap_json =
     JObj [(''swap'', JObj [(''offer_coin'', JObj [(''denom'', JStr ''udo''), (''amount'', JStr ''1000003'')]),
                            (''ask_denom'', JStr ''uusd'')])]"

lemma sample_swap_decoded:
  "unmarshal_struct (DoMsg_fields sample_int) zero_DoMsg (write_json sample_swap_json) =
     Some \<lparr>mSwap = Some \<lparr>sOfferCoin = \<lparr>jDenom = ''udo'', jAmount = Some 1000003\<rparr>, sAskDenom = ''uusd''\<rparr>, mSwapSend = None\<rparr>"
proof -
  have "json_read (write_json sample_swap_json) = Some sample_swap_json"
    by (rule json_read_write) code_simp+
  moreover have "decode_struct (DoMsg_fields sample_int) sample_swap_json zero_DoMsg =
     Some \<lparr>mSwap = Some \<lparr>sOfferCoin = \<lparr>jDenom = ''udo'', jAmount = Some 1000003\<rparr>, sAskDenom = ''uusd''\<rparr>, mSwapSend = None\<rparr>"
    by code_simp
  ultimately show ?thesis by (simp add: unmarshal_struct_def)
qed

lemma sample_swap_run:
  "\<exists>sw'. handleSwapRequest ref_sdk ref_keepers ex_prices 7 alice alice ex_offer ''uusd'' (ex_market, ex_traders) =
     Inr ((\<lparr>Denom = ''uusd'', Amount = 2450007\<rparr>, \<lparr>Denom = ''uusd'', Amount = 50000\<rparr>), sw')"
proof -
  define run where "run = handleSwapRequest ref_sdk ref_keepers ex_prices 7 alice alice ex_offer ''uusd'' (ex_market, ex_traders)"
  have "map_sum id fst run = Inr (\<lparr>Denom = ''uusd'', Amount = 2450007\<rparr>, \<lparr>Denom = ''uusd'', Amount = 50000\<rparr>)"
    unfolding run_def by code_simp
  then show ?thesis unfolding run_def [symmetric] by (cases run) (auto simp: prod_eq_iff)
qed

theorem contract_swaps_own_coins_witness:
  "\<exists>sw' coins. Custom_DispatchMsg ref_sdk ref_keepers ex_prices 7 sample_int (\<lambda>_ _ _. Inl Panic) Some alice
       (write_json sample_swap_json) (ex_market, ex_traders) = Inr (([] :: unit list, [swap_response coins]), sw') \<and>
     handleSwapRequest ref_sdk ref_keepers ex_prices 7 alice alice ex_offer ''uusd'' (ex_market, ex_traders) = Inr (coins, sw')"
proof -
  obtain sw' where run: "handleSwapRequest ref_sdk ref_keepers ex_prices 7 alice alice ex_offer ''uusd'' (ex_market, ex_traders) =
     Inr ((\<lparr>Denom = ''uusd'', Amount = 2450007\<rparr>, \<lparr>Denom = ''uusd'', Amount = 50000\<rparr>), sw')"
    using sample_swap_run by blast
  have ok: "bech32 ref_sdk" "addr_ok alice" by (rule ref.bech32_axioms) code_simp
  have offer: "sdk_coin \<lparr>jDenom = ''udo'', jAmount = Some 1000003\<rparr> = Inr ex_offer" "offer_ok ex_offer ''uusd'' = Inr ()"
    by code_simp+
  have d: "Custom_DispatchMsg ref_sdk ref_keepers ex_prices 7 sample_int (\<lambda>_ _ _. Inl Panic) Some alice
       (write_json sample_swap_json) (ex_market, ex_traders) =
     Inr (([] :: unit list, [swap_response (\<lparr>Denom = ''uusd'', Amount = 2450007\<rparr>, \<lparr>Denom = ''uusd'', Amount = 50000\<rparr>)]), sw')"
    using run offer by (simp add: Custom_DispatchMsg_def sample_swap_decoded PerformSwap_eq [OF ok])
  from contract_swaps_own_coins [OF ok refl d, unfolded sample_swap_decoded]
  obtain coins where "[swap_response (\<lparr>Denom = ''uusd'', Amount = 2450007\<rparr>, \<lparr>Denom = ''uusd'', Amount = 50000\<rparr>)] = [swap_response coins]"
    "handleSwapRequest ref_sdk ref_keepers ex_prices 7 alice alice ex_offer ''uusd'' (ex_market, ex_traders) = Inr (coins, sw')"
    using offer(1) by auto
  with d show ?thesis by metis
qed


section \<open>Queries of a contract\<close>

lemma exchange_items_loop:
  assumes "fold_res (\<lambda>quoteDenom items. case GetDoExchangeRate os quoteDenom of Inl _ \<Rightarrow> Inr items
      | Inr r \<Rightarrow> rbind (dQuo K r base) (\<lambda>q. Inr (items @ [(q, quoteDenom)]))) quotes acc = Inr items"
  shows "\<exists>new. items = acc @ new \<and>
     map snd new = filter (\<lambda>d. \<exists>r. GetDoExchangeRate os d = Inr r) quotes \<and>
     list_all (\<lambda>(q, d). \<exists>r. GetDoExchangeRate os d = Inr r \<and> dQuo K r base = Inr q) new"
  using assms
proof (induction quotes arbitrary: acc)
  case (Cons d ds)
  show ?case
  proof (cases "GetDoExchangeRate os d")
    case (Inl e)
    then show ?thesis using Cons by simp
  next
    case (Inr r)
    then obtain q where "dQuo K r base = Inr q" using Cons.prems by (auto simp: rbind_eq_Inr)
    then show ?thesis using Cons.IH [of "acc @ [(q, d)]"] Cons.prems Inr by auto
  qed
qed simp

text \<open>The answer lists, in the order asked, the denoms that have a rate, each with its rate over the base's.\<close>

lemma exchange_items_correct:
  assumes "exchange_items K os base quotes = Inr items"
  shows "map snd items = filter (\<lambda>d. \<exists>r. GetDoExchangeRate os d = Inr r) quotes"
    and "list_all (\<lambda>(q, d). \<exists>r. GetDoExchangeRate os d = Inr r \<and> dQuo K r base = Inr q) items"
  using exchange_items_loop [OF assms [unfolded exchange_items_def]] by auto

definition routed_pair :: "string \<Rightarrow> string \<Rightarrow> bool" where
  "routed_pair route name \<longleftrightarrow>
     (route, name) \<in> set [(''treasury'', ''tax_cap''), (''oracle'', ''exchange_rates''), (''market'', ''swap'')]"

lemma folded_names:
  "foldName ''route'' = ''ROUTE''" "foldName ''query_data'' = ''QUERY_DATA''" "foldName ''tax_cap'' = ''TAX_CAP''"
  "foldName ''exchange_rates'' = ''EXCHANGE_RATES''" "foldName ''swap'' = ''SWAP''"
  by code_simp+

lemma other_member: "routed_pair route name \<Longrightarrow> decode_member routed_fields (name, arg) s = Some s"
  unfolding routed_pair_def set_simps by (elim insertE) (simp_all add: decode_member_def routed_fields_def folded_names)

lemma modern_not_routed:
  assumes "json_read request = Some (JObj [(name, arg)])" and "routed_pair route name"
  shows "normalizeLegacyRoutedQueryJSON request = Some (JObj [(name, arg)])"
proof -
  have "unmarshal_struct routed_fields \<lparr>Route = [], QueryData = []\<rparr> request = Some \<lparr>Route = [], QueryData = []\<rparr>"
    using assms(1) by (simp add: unmarshal_struct_def other_member [OF assms(2)])
  then show ?thesis using assms(1) by (simp add: normalizeLegacyRoutedQueryJSON_def)
qed

text \<open>
  Queries in the shape of the old chain are answered like the present ones. A request
  \<open>{"route": r, "query_data": {name: arg}}\<close> of at most 64 KiB for a tax cap, exchange rates or a swap
  gets, on every state of the three modules, the answer that \<open>{name: arg}\<close> gets.
\<close>

lemma legacy_query_shape:
  assumes "json_read old = Some (JObj [(''route'', JStr route), (''query_data'', JObj [(name, arg)])])"
    and "length old \<le> 64 * 1024" and "routed_pair route name"
    and "json_read new = Some (JObj [(name, arg)])"
  shows "CustomQuerier K decString coinString parseCoin intJSON os ms ts old =
         CustomQuerier K decString coinString parseCoin intJSON os ms ts new"
proof -
  have "unmarshal_struct routed_fields \<lparr>Route = [], QueryData = []\<rparr> old =
      Some \<lparr>Route = route, QueryData = [(name, arg)]\<rparr>"
    using assms(1) by (simp add: unmarshal_struct_def routed_fields_def decode_member_def str_field_def)
  moreover have "routed_query \<lparr>Route = route, QueryData = [(name, arg)]\<rparr> = Some (JObj [(name, arg)])" "route \<noteq> []"
    using assms(3) by (auto simp: routed_query_def routed_pair_def)
  ultimately have "normalizeLegacyRoutedQueryJSON old = Some (JObj [(name, arg)])"
    using assms(2) by (simp add: normalizeLegacyRoutedQueryJSON_def)
  then show ?thesis using modern_not_routed [OF assms(4,3)] by (simp add: CustomQuerier_def)
qed

definition sample_cap_json :: json where
  "sample_cap_json = JObj [(''tax_cap'', JObj [(''denom'', JStr ''uusd'')])]"

definition sample_routed_json :: json where
  "sample_routed_json =
     JObj [(''route'', JStr ''treasury''), (''query_data'', JObj [(''tax_cap'', JObj [(''denom'', JStr ''uusd'')])])]"

lemma legacy_query_shape_example:
  "CustomQuerier ref_sdk (\<lambda>_. []) (\<lambda>_. []) (\<lambda>_. Inl Panic) sample_int ex_oracle ex_market ex_treasury (write_json sample_routed_json) =
     Inr (write_obj [(''cap'', quote (int_digits (GetTaxCap ex_treasury ''uusd'')))])"
proof -
  have r: "json_read (write_json sample_routed_json) = Some sample_routed_json"
    "json_read (write_json sample_cap_json) = Some sample_cap_json"
    by (rule json_read_write; code_simp)+
  have d: "decode_struct (DoQuery_fields sample_int) sample_cap_json zero_DoQuery =
      Some \<lparr>qSwap = None, qExchangeRates = None, qTaxRate = None, qTaxCap = Some ''uusd''\<rparr>" by code_simp
  have l: "length (write_json sample_routed_json) \<le> 64 * 1024" by code_simp
  have p: "routed_pair ''treasury'' ''tax_cap''" by code_simp
  have n: "normalizeLegacyRoutedQueryJSON (write_json sample_cap_json) = Some sample_cap_json"
    using modern_not_routed [OF r(2) [unfolded sample_cap_json_def] p] by (simp add: sample_cap_json_def)
  show ?thesis
    unfolding legacy_query_shape [OF r(1) [unfolded sample_routed_json_def] l [unfolded sample_routed_json_def] p
        r(2) [unfolded sample_cap_json_def], folded sample_routed_json_def sample_cap_json_def]
    by (simp add: CustomQuerier_def n d answer_query_def)
qed

end
