(* ===== verification/Staking_Hooks.thy ===== *)
theory Staking_Hooks
  imports Core_Types
begin

text \<open>
  \<open>custom/staking\<close> and \<open>custom/upgrade/legacy\<close>: the hook that keeps a validator of the main
  network from growing past a fifth of the bonded power, the end of a block, which gives every
  validator of the consensus engine the same power, and the query server that gives queries about old
  heights the parameters of their time.

  The staking keeper is the record of \<open>Sdk_Keepers\<close>; \<open>GetAllValidators\<close> is a parameter because
  the hook handles its failure.
\<close>


section \<open>The power limit (hook.go)\<close>

definition add_power :: "sdk \<Rightarrow> int \<Rightarrow> validator \<Rightarrow> int \<Rightarrow> int result" where
  "add_power K powerReduction val totalPower =
     (if IsBonded val
      then rbind (TokensToConsensusPower K (Tokens val) powerReduction) (\<lambda>valPower. Inr (i64 (totalPower + valPower)))
      else Inr totalPower)"

text \<open>An error that the hook swallows; a panic is not caught.\<close>

definition swallow :: "error \<Rightarrow> unit result" where
  "swallow e = (if e = Panic then Inl Panic else Inr ())"

definition AfterDelegationModified ::
  "sdk \<Rightarrow> 'w keepers \<Rightarrow> ('w \<Rightarrow> validator list result) \<Rightarrow> string \<Rightarrow> int \<Rightarrow> address \<Rightarrow> 'w \<Rightarrow> unit result"
where
  "AfterDelegationModified K N GetAllValidators chainID height valAddr w =
     (if chainID \<noteq> ColumbusChainID then Inr ()
      else if height = 0 then Inr ()
      else
        case Validator N w valAddr of
          Inl e \<Rightarrow> swallow e
        | Inr None \<Rightarrow> Inr ()
        | Inr (Some validator) \<Rightarrow>
            rbind (TokensToConsensusPower K (Tokens validator) (PowerReduction N w)) (\<lambda>validatorPower.
            case GetAllValidators w of
              Inl e \<Rightarrow> swallow e
            | Inr allValidators \<Rightarrow>
                rbind (fold_res (add_power K (PowerReduction N w)) allValidators 0) (\<lambda>totalPower.
                if totalPower = 0 then Inr ()
                else rbind (dQuo K (NewDec validatorPower) (NewDec totalPower)) (\<lambda>percent.
                     fail_if (NewDecWithPrec 20 2 < percent) (Text ''validator power is over the allowed limit'')))))"

text \<open>The other hooks do nothing.\<close>

definition other_hook :: "'a \<Rightarrow> unit result" where
  "other_hook _ = Inr ()"


section \<open>Equal consensus power (module.go)\<close>

record ValidatorUpdate =
  uPubKey :: bytes
  uPower :: int

text \<open>What \<open>EndBlock\<close> calls of the staking keeper, and the consensus key of a validator.\<close>

record 'w staking_end =
  staking_EndBlocker :: "'w \<Rightarrow> (ValidatorUpdate list \<times> 'w) result"
  GetBondedValidatorsByPower :: "'w \<Rightarrow> validator list result"
  GetValidatorUpdates :: "'w \<Rightarrow> ValidatorUpdate list result"
  SetValidatorUpdates :: "'w \<Rightarrow> ValidatorUpdate list \<Rightarrow> 'w result"
  TmConsPublicKey :: "validator \<Rightarrow> bytes result"

definition EqualValidatorConsensusPower :: int where
  "EqualValidatorConsensusPower = 1"

definition replayWriteOptimizationActive :: "int \<Rightarrow> bool" where
  "replayWriteOptimizationActive height \<longleftrightarrow> height \<ge> ReplayWriteOptimizationHeight"

definition equalPowerValidatorUpdate :: "'w staking_end \<Rightarrow> validator \<Rightarrow> ValidatorUpdate result" where
  "equalPowerValidatorUpdate B validator =
     rbind (TmConsPublicKey B validator) (\<lambda>pubKey. Inr \<lparr>uPubKey = pubKey, uPower = EqualValidatorConsensusPower\<rparr>)"

definition fullEqualValidatorPowerUpdates :: "'w staking_end \<Rightarrow> 'w \<Rightarrow> ValidatorUpdate list \<Rightarrow> ValidatorUpdate list result" where
  "fullEqualValidatorPowerUpdates B w standardUpdates =
     rbind (GetBondedValidatorsByPower B w) (\<lambda>activeValidators.
     rbind (map_res (equalPowerValidatorUpdate B) activeValidators) (\<lambda>equal.
     Inr (filter (\<lambda>update. uPower update = 0) standardUpdates @ equal)))"

definition compactEqualValidatorPowerUpdates :: "ValidatorUpdate list \<Rightarrow> ValidatorUpdate list" where
  "compactEqualValidatorPowerUpdates standardUpdates =
     map (\<lambda>update. if uPower update > 0 then update\<lparr>uPower := EqualValidatorConsensusPower\<rparr> else update) standardUpdates"

definition staking_EndBlock :: "'w staking_end \<Rightarrow> int \<Rightarrow> 'w \<Rightarrow> (ValidatorUpdate list \<times> 'w) result" where
  "staking_EndBlock B height w =
     rbind (staking_EndBlocker B w) (\<lambda>(standardUpdates, w1).
     rbind (fullEqualValidatorPowerUpdates B w1 standardUpdates) (\<lambda>storedUpdates.
     rbind (if replayWriteOptimizationActive height \<and> length standardUpdates = 0
            then rbind (GetValidatorUpdates B w1) (\<lambda>existingUpdates. Inr (length existingUpdates > 0))
            else Inr False) (\<lambda>done.
     if done then Inr ([], w1)
     else rbind (SetValidatorUpdates B w1 storedUpdates) (\<lambda>w2.
          Inr (compactEqualValidatorPowerUpdates standardUpdates, w2)))))"

text \<open>
  The validator set of the consensus engine: an update with power zero removes a validator, any other
  sets its power.
\<close>

definition comet_apply :: "ValidatorUpdate \<Rightarrow> (bytes \<rightharpoonup> int) \<Rightarrow> (bytes \<rightharpoonup> int)" where
  "comet_apply u m = m(uPubKey u := (if uPower u = 0 then None else Some (uPower u)))"

definition equalised :: "(bytes \<rightharpoonup> int) \<Rightarrow> (bytes \<rightharpoonup> int)" where
  "equalised m = (\<lambda>k. map_option (\<lambda>_. EqualValidatorConsensusPower) (m k))"

text \<open>
  The compacted updates lead to the validator set of the standard updates, every power being one:
  the members stay the same.
\<close>

lemma compact_equalises:
  assumes "\<forall>u \<in> set us. 0 \<le> uPower u"
  shows "fold comet_apply (compactEqualValidatorPowerUpdates us) (equalised m) = equalised (fold comet_apply us m)"
  using assms
proof (induction us arbitrary: m)
  case (Cons u us)
  have "comet_apply (if uPower u > 0 then u\<lparr>uPower := EqualValidatorConsensusPower\<rparr> else u) (equalised m) = equalised (comet_apply u m)"
    using Cons.prems by (auto simp: comet_apply_def equalised_def fun_eq_iff EqualValidatorConsensusPower_def)
  then show ?case using Cons.IH [of "comet_apply u m"] Cons.prems
    by (simp add: compactEqualValidatorPowerUpdates_def)
qed (simp add: compactEqualValidatorPowerUpdates_def)

text \<open>What the end of a block returns is the compacted form of the standard updates, stored or not.\<close>

lemma EndBlock_returns:
  assumes "staking_EndBlock B h w = Inr (us, w')"
  shows "\<exists>standard w1. staking_EndBlocker B w = Inr (standard, w1) \<and> us = compactEqualValidatorPowerUpdates standard"
  using assms by (auto simp: staking_EndBlock_def rbind_eq_Inr compactEqualValidatorPowerUpdates_def split: if_splits)

lemma EndBlock_equal_power:
  assumes "staking_EndBlock B h w = Inr (us, w')"
    and "\<And>w standard w1. staking_EndBlocker B w = Inr (standard, w1) \<Longrightarrow> \<forall>u \<in> set standard. 0 \<le> uPower u"
  shows "\<exists>standard w1. staking_EndBlocker B w = Inr (standard, w1) \<and>
    fold comet_apply us (equalised m) = equalised (fold comet_apply standard m)"
  using EndBlock_returns [OF assms(1)] assms(2) compact_equalises by metis

text \<open>
  What is stored: the removals, then every bonded validator with power one; from the optimisation
  height on it is left as it is when nothing changed and something is stored.
\<close>

lemma EndBlock_stores:
  assumes "staking_EndBlock B h w = Inr (us, w')"
  shows "\<exists>standard w1 full. staking_EndBlocker B w = Inr (standard, w1) \<and> fullEqualValidatorPowerUpdates B w1 standard = Inr full \<and>
    (SetValidatorUpdates B w1 full = Inr w' \<or>
     ReplayWriteOptimizationHeight \<le> h \<and> standard = [] \<and> w' = w1 \<and> (\<exists>old. GetValidatorUpdates B w1 = Inr old \<and> old \<noteq> []))"
  using assms by (auto simp: staking_EndBlock_def rbind_eq_Inr replayWriteOptimizationActive_def split: if_splits)

lemma full_updates_equal:
  assumes "fullEqualValidatorPowerUpdates B w standard = Inr full" and "u \<in> set full"
  shows "uPower u = 0 \<or> uPower u = EqualValidatorConsensusPower"
proof -
  obtain vs eq where "map_res (equalPowerValidatorUpdate B) vs = Inr eq" "full = filter (\<lambda>u. uPower u = 0) standard @ eq"
    using assms(1) by (auto simp: fullEqualValidatorPowerUpdates_def rbind_eq_Inr)
  moreover have "map_res (equalPowerValidatorUpdate B) vs = Inr eq \<Longrightarrow> x \<in> set eq \<Longrightarrow> uPower x = EqualValidatorConsensusPower" for vs eq x
    by (induction vs arbitrary: eq) (auto simp: rbind_eq_Inr equalPowerValidatorUpdate_def)
  ultimately show ?thesis using assms(2) by auto
qed


section \<open>Parameters of old heights (upgrade/legacy, query\_server.go)\<close>

datatype LegacyHandlingVersion = LegacyHandlingNone | LegacyHandlingV1 | LegacyHandlingV2

definition between :: "int \<Rightarrow> int \<Rightarrow> int \<Rightarrow> LegacyHandlingVersion" where
  "between v1 v2 h = (if h < v1 then LegacyHandlingV1 else if h < v2 then LegacyHandlingV2 else LegacyHandlingNone)"

definition GetLegacyHandling :: "string \<Rightarrow> int \<Rightarrow> LegacyHandlingVersion" where
  "GetLegacyHandling chainID blockHeight =
     (if blockHeight = 0 then LegacyHandlingNone
      else if chainID = ColumbusChainID then between 13215800 18303000 blockHeight
      else if chainID = RebelChainID then between 14584970 19354000 blockHeight
      else if chainID = ''localdo-legacy'' then between 0 70 blockHeight
      else LegacyHandlingNone)"

record LegacyStakingParams =
  lpUnbondingTime :: int
  lpMaxValidators :: int
  lpMaxEntries :: int
  lpHistoricalEntries :: int
  lpBondDenom :: string

record StakingParams =
  spUnbondingTime :: int
  spMaxValidators :: int
  spMaxEntries :: int
  spHistoricalEntries :: int
  spBondDenom :: string
  spMinCommissionRate :: dec

text \<open>
  The parameters the wrapped query server finds: \<open>v1\<close> and \<open>v2\<close> are what the legacy subspace holds,
  read with the key table of the time, and \<open>current\<close> is what the keeper holds.
\<close>

definition ensureLegacyParams ::
  "string \<Rightarrow> int \<Rightarrow> LegacyStakingParams \<Rightarrow> StakingParams \<Rightarrow> StakingParams \<Rightarrow> StakingParams"
where
  "ensureLegacyParams chainID height v1 v2 current =
     (case GetLegacyHandling chainID height of
        LegacyHandlingV1 \<Rightarrow>
          \<lparr>spUnbondingTime = lpUnbondingTime v1, spMaxValidators = lpMaxValidators v1, spMaxEntries = lpMaxEntries v1,
           spHistoricalEntries = lpHistoricalEntries v1, spBondDenom = lpBondDenom v1, spMinCommissionRate = 0\<rparr>
      | LegacyHandlingV2 \<Rightarrow> v2
      | LegacyHandlingNone \<Rightarrow> current)"

text \<open>The heights after the last upgrade of each chain, and other chains, are not touched.\<close>

lemma legacy_params_window:
  "19354000 \<le> height \<or> height = 0 \<or> chainID \<notin> {ColumbusChainID, RebelChainID, ''localdo-legacy''} \<Longrightarrow>
     ensureLegacyParams chainID height v1 v2 current = current"
  by (auto simp: ensureLegacyParams_def GetLegacyHandling_def between_def)


section \<open>The limit is a fifth\<close>

definition powers :: "sdk \<Rightarrow> int \<Rightarrow> validator list \<Rightarrow> int list result" where
  "powers K powerReduction vs =
     map_res (\<lambda>v. TokensToConsensusPower K (Tokens v) powerReduction) (filter IsBonded vs)"

lemma total_power:
  assumes "powers K r vs = Inr ps" and "list_all (\<lambda>p. 0 \<le> p) ps" and "0 \<le> acc" and "acc + sum_list ps < 2 ^ 63"
  shows "fold_res (add_power K r) vs acc = Inr (acc + sum_list ps)"
  using assms
proof (induction vs arbitrary: ps acc)
  case (Cons v vs)
  show ?case
  proof (cases "IsBonded v")
    case True
    then obtain p qs where p: "TokensToConsensusPower K (Tokens v) r = Inr p" "powers K r vs = Inr qs" "ps = p # qs"
      using Cons.prems(1) by (auto simp: powers_def rbind_eq_Inr)
    have "0 \<le> sum_list qs" using Cons.prems(2) p(3) by (auto simp: list_all_iff intro: sum_list_nonneg)
    then have "i64 (acc + p) = acc + p" "0 \<le> acc + p" "acc + p + sum_list qs < 2 ^ 63"
      using Cons.prems p(3) by (auto simp: i64_def)
    then show ?thesis using Cons.IH [OF p(2)] Cons.prems(2) p True by (simp add: add_power_def add.assoc)
  next
    case False
    then show ?thesis using Cons by (simp add: add_power_def powers_def)
  qed
qed (simp add: powers_def)

lemma fifth_exact:
  assumes "dec_math K" and "dQuo K (NewDec p) (NewDec t) = Inr q" and "0 < t" and "t < PREC div 5"
  shows "NewDecWithPrec 20 2 < q \<longleftrightarrow> t < 5 * p"
proof -
  have "\<bar>(q * t - p * PREC) * PREC\<bar> < t * PREC"
    using dec_math.quo_near [OF assms(1) _ assms(2)] assms(3) by (simp add: NewDec_def algebra_simps)
  then have near: "\<bar>q * t - p * PREC\<bar> < t" by (simp add: abs_mult)
  have "200000000000000000 < q \<longleftrightarrow> t < 5 * p"
  proof (cases "200000000000000000 < q")
    case True
    then have "200000000000000001 * t \<le> q * t" using assms(3) by (intro mult_right_mono) auto
    then have "t < 5 * p" using near by linarith
    then show ?thesis using True by simp
  next
    case False
    then have "q * t \<le> 200000000000000000 * t" using assms(3) by (intro mult_right_mono) auto
    then have "\<not> t < 5 * p" using near assms(4) by linarith
    then show ?thesis using False by simp
  qed
  then show ?thesis by (simp add: NewDecWithPrec_def)
qed

text \<open>
  C12: on the main network, after genesis, a change of a delegation is refused exactly when the
  validator would hold more than a fifth of the power of the bonded validators, as long as the
  bonded power is below two hundred quadrillion, where the rounding of the quotient cannot decide.
  This is for a validator and a list of validators that can be looked up and a positive bonded
  power; otherwise the hook accepts the change.
\<close>

theorem delegation_limited_to_fifth:
  assumes "dec_math K" and "height \<noteq> 0"
    and "Validator N w valAddr = Inr (Some v)" and "GetAllValidators w = Inr vs"
    and "TokensToConsensusPower K (Tokens v) (PowerReduction N w) = Inr p" and "0 \<le> p" and "p < 2 ^ 63"
    and "powers K (PowerReduction N w) vs = Inr ps" and "list_all (\<lambda>x. 0 \<le> x) ps"
    and "0 < sum_list ps" and "sum_list ps < PREC div 5"
  shows "AfterDelegationModified K N GetAllValidators ColumbusChainID height valAddr w =
           (if sum_list ps < 5 * p then Inl (Text ''validator power is over the allowed limit'') else Inr ())"
proof -
  have "sum_list ps < 2 ^ 63" using assms(11) by (simp add:)
  then have t: "fold_res (add_power K (PowerReduction N w)) vs 0 = Inr (sum_list ps)"
    using total_power [OF assms(8,9), of 0] by simp
  have "\<bar>NewDec p\<bar> * PREC < (2 ^ 315 - 1) * \<bar>NewDec (sum_list ps)\<bar>"
  proof -
    have "p * PREC < 2 ^ 315 - 1" using assms(7) by (simp add:)
    moreover have "2 ^ 315 - 1 \<le> (2 ^ 315 - 1) * sum_list ps" using assms(10) by simp
    ultimately have "p * PREC * PREC < (2 ^ 315 - 1) * sum_list ps * PREC" by (simp add:)
    then show ?thesis using assms(6,10) by (simp add: NewDec_def)
  qed
  then obtain q where q: "dQuo K (NewDec p) (NewDec (sum_list ps)) = Inr q"
    using dec_math.quo_total [OF assms(1), of "NewDec (sum_list ps)" "NewDec p"] assms(10)
    by (auto simp: NewDec_def)
  then show ?thesis
    using assms t fifth_exact [OF assms(1) q assms(10,11)] by (simp add: AfterDelegationModified_def fail_if_def)
qed

definition sample_validator :: "string \<Rightarrow> int \<Rightarrow> validator" where
  "sample_validator a p =
     \<lparr>OperatorAddress = a, IsBonded = True, IsJailed = False, Tokens = p * 1000000, ConsAddr = Inr a,
      CommissionRate = 0, MaxRate = 0, MaxChangeRate = 0, UpdateTime = 0\<rparr>"

definition sample_staking :: "int \<Rightarrow> ref_world" where
  "sample_staking p =
     \<lparr>rw_denoms = [], rw_balances = (\<lambda>_. 0), rw_supplies = (\<lambda>_. 0), rw_meta = (\<lambda>_. None),
      rw_vals = [(''a'', sample_validator ''a'' p), (''b'', sample_validator ''b'' 40), (''c'', sample_validator ''c'' 40)],
      rw_slashes = [], rw_outstanding = [], rw_pool = [], rw_last_power = 0, rw_delegations = (\<lambda>_. [])\<rparr>"

theorem delegation_limited_to_fifth_witness:
  "AfterDelegationModified ref_sdk ref_keepers (\<lambda>w. Inr (AllValidators ref_keepers w)) ColumbusChainID 7 ''a'' (sample_staking 20) = Inr () \<and>
   AfterDelegationModified ref_sdk ref_keepers (\<lambda>w. Inr (AllValidators ref_keepers w)) ColumbusChainID 7 ''a'' (sample_staking 21) =
     Inl (Text ''validator power is over the allowed limit'')"
proof -
  have eq: "AfterDelegationModified ref_sdk ref_keepers (\<lambda>w. Inr (AllValidators ref_keepers w)) ColumbusChainID 7 ''a'' (sample_staking p) =
      (if sum_list [p, 40, 40] < 5 * p then Inl (Text ''validator power is over the allowed limit'') else Inr ())"
    if p: "p \<in> {20, 21}" for p
  proof (rule delegation_limited_to_fifth)
    show "dec_math ref_sdk" by (rule ref.dec_math_axioms)
    show "powers ref_sdk (PowerReduction ref_keepers (sample_staking p)) (map snd (rw_vals (sample_staking p))) = Inr [p, 40, 40]"
      using p by (auto simp: powers_def sample_staking_def sample_validator_def tquot_nonneg in_i64_def)
  qed (use p in \<open>auto simp: sample_staking_def sample_validator_def ref_validator_def tquot_nonneg in_i64_def\<close>)
  show ?thesis using eq [of 20] eq [of 21] by simp
qed

end
