(* ===== verification/Go_Value.thy ===== *)
theory Go_Value
  imports Go_Json
begin

text \<open>
  JSON read into \<open>interface{}\<close>: a \<open>json\<close> value whose objects are maps, kept as key-value lists in the
  order in which Go writes them, so that the last of several members with one name counts. Numbers
  become floats: the parameter \<open>num_text\<close> is how such a number is written again, if it is in range.
\<close>


section \<open>Values\<close>

fun go_value :: "(string \<Rightarrow> string option) \<Rightarrow> json \<Rightarrow> json option" where
  "go_value num_text (JNum x) = map_option JNum (num_text x)"
| "go_value num_text (JArr js) = map_option JArr (those (map (go_value num_text) js))"
| "go_value num_text (JObj ms) =
     map_option (\<lambda>kvs. JObj (fold (\<lambda>kv m. kv_set (fst kv) (snd kv) m) kvs []))
       (those (map (\<lambda>kv. map_option (Pair (fst kv)) (go_value num_text (snd kv))) ms))"
| "go_value num_text j = Some j"

type_synonym go_map = "json kv"

text \<open>Type assertions on a member of a map.\<close>

definition as_array :: "json option \<Rightarrow> json list option" where
  "as_array j = (case j of Some (JArr js) \<Rightarrow> Some js | _ \<Rightarrow> None)"

definition as_string :: "json option \<Rightarrow> string option" where
  "as_string j = (case j of Some (JStr s) \<Rightarrow> Some s | _ \<Rightarrow> None)"

definition as_map :: "json option \<Rightarrow> go_map option" where
  "as_map j = (case j of Some (JObj m) \<Rightarrow> Some m | _ \<Rightarrow> None)"

end
