(* ===== verification/Tx_Logs.thy ===== *)
theory Tx_Logs
  imports Go_Value "HOL-Library.Multiset"
begin

text \<open>
  The HTTP middlewares of the API server (\<open>server/middleware.go\<close>, \<open>server/tx_logs_middleware.go\<close>): one turns
  the query parameter \<open>height\<close> into a header, the other rebuilds the field \<open>logs\<close> of a transaction
  response from its events, which it groups by the index of their message.

  Numbers in JSON become floats (\<open>Go_Value\<close>); \<open>num_int\<close> is the conversion of one to \<open>int\<close>. A handler is the sequence of calls it makes on its writer.

  Shown here: the logs are the events sorted by their message, none lost or repeated, as long as
  no event has a negative index; responses the middleware does not transform are passed on as
  they are; and an event decides how much memory the node asks for.
\<close>


section \<open>Numbers\<close>

text \<open>\<open>strconv.Atoi\<close>.\<close>

definition Atoi :: "string \<Rightarrow> int option" where
  "Atoi s = (case s of
     c # ds \<Rightarrow> if c = CHR ''+'' then (if list_all digit ds then parse_int64 ds else None) else parse_int64 s
   | [] \<Rightarrow> None)"

definition toInt :: "(string \<Rightarrow> int) \<Rightarrow> json \<Rightarrow> int" where
  "toInt num_int v = (case v of
     JNum x \<Rightarrow> num_int x
   | JStr s \<Rightarrow> (case Atoi s of Some i \<Rightarrow> i | None \<Rightarrow> 0)
   | _ \<Rightarrow> 0)"


section \<open>Events\<close>

fun first_index :: "(string \<Rightarrow> int) \<Rightarrow> json list \<Rightarrow> int" where
  "first_index num_int [] = 0"
| "first_index num_int (attr # attrs) =
     (case as_map (Some attr) of
        None \<Rightarrow> first_index num_int attrs
      | Some attrMap \<Rightarrow>
          (case kv_get attrMap ''msg_index'' of
             Some msgIndex \<Rightarrow> toInt num_int msgIndex
           | None \<Rightarrow>
               (case (if as_string (kv_get attrMap ''key'') = Some ''msg_index''
                      then Option.bind (as_string (kv_get attrMap ''value'')) Atoi else None) of
                  Some idx \<Rightarrow> idx
                | None \<Rightarrow> first_index num_int attrs)))"

definition extractMsgIndex :: "(string \<Rightarrow> int) \<Rightarrow> go_map \<Rightarrow> int" where
  "extractMsgIndex num_int event =
     (case as_array (kv_get event ''attributes'') of
        None \<Rightarrow> 0
      | Some attributes \<Rightarrow> first_index num_int attributes)"

definition copy_attr :: "json \<Rightarrow> json list" where
  "copy_attr attr =
     (case as_map (Some attr) of
        None \<Rightarrow> []
      | Some attrMap \<Rightarrow>
          [JObj ((case as_string (kv_get attrMap ''key'') of Some key \<Rightarrow> [(''key'', JStr key)] | None \<Rightarrow> []) @
                 (case kv_get attrMap ''value'' of Some value \<Rightarrow> [(''value'', value)] | None \<Rightarrow> []))])"

definition copyEventForLogs :: "go_map \<Rightarrow> json" where
  "copyEventForLogs event =
     JObj ((case as_array (kv_get event ''attributes'') of
              Some attributes \<Rightarrow> [(''attributes'', JArr (concat (map copy_attr attributes)))] | None \<Rightarrow> []) @
           (case as_string (kv_get event ''type'') of Some t \<Rightarrow> [(''type'', JStr t)] | None \<Rightarrow> []))"

text \<open>The events that are objects, with their index and their copy.\<close>

definition indexed :: "(string \<Rightarrow> int) \<Rightarrow> json list \<Rightarrow> (int \<times> json) list" where
  "indexed num_int events =
     concat (map (\<lambda>event. case as_map (Some event) of
                            None \<Rightarrow> []
                          | Some m \<Rightarrow> [(extractMsgIndex num_int m, copyEventForLogs m)]) events)"

definition group :: "(int \<times> json) list \<Rightarrow> int \<Rightarrow> json list" where
  "group es i = map snd (filter (\<lambda>e. fst e = i) es)"

definition max_index :: "(int \<times> json) list \<Rightarrow> int" where
  "max_index es = fold (\<lambda>e m. if fst e > m then fst e else m) es 0"

text \<open>
  \<open>make([]T, 0, n)\<close> of pointers panics when \<open>n\<close> is negative or the memory exceeds the address space
  of \<open>2 ^ 48\<close> bytes. Below that bound the model lets it succeed; on a machine with less memory the
  runtime stops the process instead, which no program can recover from.
\<close>

definition make_slice :: "int \<Rightarrow> unit result" where
  "make_slice n = fail_if (n < 0 \<or> 8 * n > 2 ^ 48) Panic"

definition build_logs :: "(int \<times> json) list \<Rightarrow> (int \<times> json list) list" where
  "build_logs es =
     map (\<lambda>i. (i, group es i)) (filter (\<lambda>i. group es i \<noteq> []) [0..max_index es])"

definition log_json :: "int \<times> json list \<Rightarrow> json" where
  "log_json l = JObj [(''events'', JArr (snd l)), (''log'', JStr []), (''msg_index'', JNum (int_digits (fst l)))]"

definition reconstructLogs :: "(string \<Rightarrow> int) \<Rightarrow> go_map \<Rightarrow> go_map result" where
  "reconstructLogs num_int txResponse =
     (if (case as_array (kv_get txResponse ''logs'') of Some logs \<Rightarrow> logs \<noteq> [] | None \<Rightarrow> False) then Inr txResponse
      else case as_array (kv_get txResponse ''events'') of
             None \<Rightarrow> Inr txResponse
           | Some events \<Rightarrow>
               if events = [] then Inr txResponse
               else
                 (let es = indexed num_int events
                  in rbind (make_slice (i64 (max_index es + 1))) (\<lambda>_.
                     Inr (if build_logs es \<noteq> []
                          then kv_set ''logs'' (JArr (map log_json (build_logs es))) txResponse
                          else txResponse))))"

definition transform_responses :: "(string \<Rightarrow> int) \<Rightarrow> go_map \<Rightarrow> go_map result" where
  "transform_responses num_int response =
     rbind (case as_map (kv_get response ''tx_response'') of
              None \<Rightarrow> Inr response
            | Some txResponse \<Rightarrow>
                rbind (reconstructLogs num_int txResponse) (\<lambda>r. Inr (kv_set ''tx_response'' (JObj r) response)))
       (\<lambda>response'.
     case as_array (kv_get response' ''tx_responses'') of
       None \<Rightarrow> Inr response'
     | Some txResponses \<Rightarrow>
         rbind (map_res (\<lambda>t. case as_map (Some t) of
                               None \<Rightarrow> Inr t
                             | Some m \<Rightarrow> rbind (reconstructLogs num_int m) (\<lambda>r. Inr (JObj r))) txResponses) (\<lambda>ts.
         Inr (kv_set ''tx_responses'' (JArr ts) response')))"

definition transformTxResponse :: "(string \<Rightarrow> string option) \<Rightarrow> (string \<Rightarrow> int) \<Rightarrow> bytes \<Rightarrow> bytes result" where
  "transformTxResponse num_text num_int body =
     (case Option.bind (json_read body) (go_value num_text) of
        Some (JObj response) \<Rightarrow> rbind (transform_responses num_int response) (\<lambda>r. Inr (write_json (JObj r)))
      | Some JNull \<Rightarrow> Inr (write_json JNull)
      | _ \<Rightarrow> Inl (Text ''json''))"

definition isTxQueryEndpoint :: "string \<Rightarrow> bool" where
  "isTxQueryEndpoint path \<longleftrightarrow> prefix ''/cosmos/tx/v1beta1/txs'' path"



section \<open>Requests and responses\<close>

record request =
  req_method :: string
  path :: string
  height_param :: string
  req_headers :: "string list kv"

text \<open>
  The calls of a handler on its writer. \<open>Set\<close> writes the header map it gets from \<open>Header()\<close>.
\<close>

datatype wcall = Set string "string list" | WriteHeader int | Write bytes

record response =
  statusCode :: int
  headers :: "string list kv"
  resp_body :: bytes

text \<open>
  \<open>http.ResponseWriter\<close> of \<open>net/http\<close>: the first \<open>WriteHeader\<close> sends status and headers, a \<open>Write\<close>
  before it sends \<open>200\<close>, and what comes too late is ignored. The flag says whether the headers are sent.
\<close>

fun send :: "wcall \<Rightarrow> bool \<times> response \<Rightarrow> bool \<times> response" where
  "send (Set k v) (sent, r) = (sent, if sent then r else r\<lparr>headers := kv_set k v (headers r)\<rparr>)"
| "send (WriteHeader n) (sent, r) = (True, if sent then r else r\<lparr>statusCode := n\<rparr>)"
| "send (Write b) (sent, r) = (True, r\<lparr>resp_body := resp_body r @ b\<rparr>)"

definition new_response :: response where
  "new_response = \<lparr>statusCode = 200, headers = [], resp_body = []\<rparr>"

definition serve :: "wcall list \<Rightarrow> response" where
  "serve cs = snd (fold send cs (False, new_response))"

text \<open>\<open>responseRecorder\<close>.\<close>

fun record_call :: "wcall \<Rightarrow> response \<Rightarrow> response" where
  "record_call (Set k v) r = r\<lparr>headers := kv_set k v (headers r)\<rparr>"
| "record_call (WriteHeader n) r = r\<lparr>statusCode := n\<rparr>"
| "record_call (Write b) r = r\<lparr>resp_body := resp_body r @ b\<rparr>"

definition forward :: "response \<Rightarrow> wcall list" where
  "forward r = map (\<lambda>(k, v). Set k v) (headers r) @ [WriteHeader (statusCode r), Write (resp_body r)]"

definition TxLogsMiddleware ::
  "(string \<Rightarrow> string option) \<Rightarrow> (string \<Rightarrow> int) \<Rightarrow> (request \<Rightarrow> wcall list) \<Rightarrow> request \<Rightarrow> wcall list result" where
  "TxLogsMiddleware num_text num_int next r =
     (if req_method r \<noteq> ''GET'' \<or> \<not> isTxQueryEndpoint (path r) then Inr (next r)
      else
        (let recorder = fold record_call (next r) new_response
         in if statusCode recorder \<noteq> 200 then Inr (forward recorder)
            else
              (case transformTxResponse num_text num_int (resp_body recorder) of
                 Inl Panic \<Rightarrow> Inl Panic
               | Inl _ \<Rightarrow> Inr (forward recorder)
               | Inr transformed \<Rightarrow>
                   Inr (map (\<lambda>(k, v). Set k v) (filter (\<lambda>(k, v). k \<noteq> ''Content-Length'') (headers recorder)) @
                        [Set ''Content-Type'' [''application/json''],
                         Set ''Content-Length'' [nat_digits (length transformed)],
                         WriteHeader (statusCode recorder),
                         Write transformed]))))"

definition writeErrorResponse :: "int \<Rightarrow> string \<Rightarrow> wcall list" where
  "writeErrorResponse status err =
     [Set ''Content-Type'' [''application/json''], WriteHeader status, Write (write_obj [(''error'', quote err)])]"

definition BlockHeightMiddleware :: "(request \<Rightarrow> wcall list) \<Rightarrow> request \<Rightarrow> wcall list" where
  "BlockHeightMiddleware next r =
     (if height_param r = [] then next r
      else
        (case Atoi (height_param r) of
           None \<Rightarrow> writeErrorResponse 400 ''syntax error''
         | Some height \<Rightarrow>
             if height < 0 then writeErrorResponse 400 ''height must be equal or greater than zero''
             else if height > 0
             then next (r\<lparr>req_headers := kv_set ''X-Cosmos-Block-Height'' [height_param r] (req_headers r)\<rparr>)
             else next r))"

text \<open>The order in which \<open>RegisterAPIRoutes\<close> installs them.\<close>

definition api_middlewares ::
  "(string \<Rightarrow> string option) \<Rightarrow> (string \<Rightarrow> int) \<Rightarrow> (request \<Rightarrow> wcall list) \<Rightarrow> request \<Rightarrow> wcall list result" where
  "api_middlewares num_text num_int next r =
     TxLogsMiddleware num_text num_int (BlockHeightMiddleware next) r"


section \<open>Grouping\<close>

lemma max_index_Max: "max_index es = Max (insert 0 (fst ` set es))"
proof -
  have "max_index es = fold max (map fst es) 0"
    by (simp add: max_index_def fold_map comp_def max_def) (rule fold_cong, auto)
  then show ?thesis using Max.set_eq_fold [of 0 "map fst es"] by simp
qed

lemma max_index_ge: "e \<in> set es \<Longrightarrow> fst e \<le> max_index es"
  by (simp add: max_index_Max)

lemma max_index_nonneg: "0 \<le> max_index es"
  by (simp add: max_index_Max)

lemma max_index_less: "\<forall>e \<in> set es. fst e < n \<Longrightarrow> 0 < n \<Longrightarrow> max_index es < n"
  by (simp add: max_index_Max)

text \<open>The logs with every event under its index.\<close>

definition flatten :: "(int \<times> json list) list \<Rightarrow> (int \<times> json) list" where
  "flatten ls = concat (map (\<lambda>(i, g). map (Pair i) g) ls)"

lemma concat_map_nonempty: "concat (map f (filter (\<lambda>i. map snd (f i) \<noteq> []) is)) = concat (map f is)"
  by (induction "is") auto

lemma flatten_all: "flatten (build_logs es) = concat (map (\<lambda>i. filter (\<lambda>e. fst e = i) es) [0..max_index es])"
proof -
  have "map (Pair i) (group es i) = filter (\<lambda>e. fst e = i) es" for i
    by (induction es) (auto simp: group_def)
  then have "map (\<lambda>(i, g). map (Pair i) g) (build_logs es) =
      map (\<lambda>i. filter (\<lambda>e. fst e = i) es) (filter (\<lambda>i. group es i \<noteq> []) [0..max_index es])"
    by (simp add: build_logs_def)
  also have "concat \<dots> = concat (map (\<lambda>i. filter (\<lambda>e. fst e = i) es) [0..max_index es])"
    unfolding group_def by (rule concat_map_nonempty)
  finally show ?thesis by (simp add: flatten_def)
qed

lemma filter_classes:
  "distinct is \<Longrightarrow> filter (\<lambda>e. fst e = k) (concat (map (\<lambda>i. filter (\<lambda>e. fst e = i) es) is)) =
     (if k \<in> set is then filter (\<lambda>e. fst e = k) es else [])"
  by (induction "is") (auto simp: filter_empty_conv intro: filter_cong)

lemma sorted_filter_const: "sorted (map fst (filter (\<lambda>e. fst e = i) es))"
  by (induction es) auto

lemma sorted_classes: "sorted is \<Longrightarrow> sorted (map fst (concat (map (\<lambda>i. filter (\<lambda>e. fst e = i) es) is)))"
  by (induction "is") (auto simp: sorted_append sorted_filter_const)

lemma flatten_sorted:
  assumes "\<forall>e \<in> set es. 0 \<le> fst e"
  shows "flatten (build_logs es) = sort_key fst es"
proof -
  let ?ys = "concat (map (\<lambda>i. filter (\<lambda>e. fst e = i) es) [0..max_index es])"
  have cls: "filter (\<lambda>e. fst e = k) ?ys = filter (\<lambda>e. fst e = k) es" for k
    using filter_classes [of "[0..max_index es]" k es] assms max_index_ge [of _ es]
    by (auto simp: filter_empty_conv eq_commute [of "[]"])
  have "mset ?ys = mset es"
  proof (rule multiset_eqI)
    fix e :: "int \<times> json"
    have "count (mset zs) e = count (mset (filter (\<lambda>z. fst z = fst e) zs)) e" for zs by simp
    then show "count (mset ?ys) e = count (mset es) e" by (metis cls)
  qed
  moreover have "filter (\<lambda>x. fst k = fst x) ?ys = filter (\<lambda>x. fst k = fst x) es" for k :: "int \<times> json"
    using cls [of "fst k"] by (simp add: eq_commute)
  ultimately have "sort_key fst es = ?ys" by (intro properties_for_sort_key) (simp_all add: sorted_classes)
  then show ?thesis by (simp add: flatten_all)
qed


lemma build_logs_nonempty: "\<forall>e \<in> set es. 0 \<le> fst e \<Longrightarrow> build_logs es = [] \<longleftrightarrow> es = []"
  using flatten_sorted [of es] by (auto simp: flatten_def build_logs_def group_def) (metis empty_set set_empty set_sort)

lemma build_logs_indexes: "sorted_wrt (<) (map fst (build_logs es))"
proof -
  have "sorted_wrt (<) [0..max_index es]" by (simp add: strict_sorted_iff)
  then show ?thesis by (simp add: build_logs_def comp_def sorted_wrt_filter)
qed

lemma build_logs_groups: "(i, g) \<in> set (build_logs es) \<Longrightarrow> g \<noteq> []"
  by (auto simp: build_logs_def)

text \<open>A response whose logs are missing and that has events.\<close>

definition needs_logs :: "go_map \<Rightarrow> json list \<Rightarrow> bool" where
  "needs_logs txResponse events \<longleftrightarrow>
     as_array (kv_get txResponse ''logs'') \<in> {None, Some []} \<and>
     as_array (kv_get txResponse ''events'') = Some events \<and> events \<noteq> []"

lemma reconstruct_needed:
  assumes "needs_logs tx events"
  shows "reconstructLogs num_int tx =
    rbind (make_slice (i64 (max_index (indexed num_int events) + 1))) (\<lambda>_.
      Inr (if build_logs (indexed num_int events) \<noteq> []
           then kv_set ''logs'' (JArr (map log_json (build_logs (indexed num_int events)))) tx else tx))"
  using assms by (auto simp: needs_logs_def reconstructLogs_def Let_def)

lemma make_slice_ok: "0 \<le> n \<Longrightarrow> n < 2 ^ 45 \<Longrightarrow> make_slice (i64 (n + 1)) = Inr ()"
  by (simp add: make_slice_def i64_def)

lemma make_slice_panic: "2 ^ 45 \<le> n \<Longrightarrow> n < 2 ^ 63 \<Longrightarrow> make_slice (i64 (n + 1)) = Inl Panic"
  by (cases "n = 2 ^ 63 - 1") (simp_all add: make_slice_def i64_def)

text \<open>
  C39: the logs of a transaction are its events sorted by message. When the middleware rebuilds the logs
  of a response and every event has an index from zero below two to the 45, it sets the field \<open>logs\<close>
  and nothing else; there is one log for each message that has events, in ascending order, and
  reading the logs one after the other gives exactly the copies of the events in the order of a stable sort
  by index: none is lost, repeated or put under another message. A second pass changes nothing.
\<close>

theorem logs_sort_events:
  assumes "needs_logs tx events"
    and "indexed num_int events \<noteq> []"
    and "\<forall>e \<in> set (indexed num_int events). 0 \<le> fst e \<and> fst e < 2 ^ 45"
  shows "\<exists>ls tx'. reconstructLogs num_int tx = Inr tx' \<and>
    tx' = kv_set ''logs'' (JArr (map log_json ls)) tx \<and>
    sorted_wrt (<) (map fst ls) \<and> [] \<notin> snd ` set ls \<and>
    flatten ls = sort_key fst (indexed num_int events) \<and>
    reconstructLogs num_int tx' = Inr tx'"
proof -
  let ?es = "indexed num_int events"
  let ?tx = "kv_set ''logs'' (JArr (map log_json (build_logs ?es))) tx"
  have nonneg: "\<forall>e \<in> set ?es. 0 \<le> fst e" using assms(3) by blast
  have "make_slice (i64 (max_index ?es + 1)) = Inr ()"
    using assms(3) by (intro make_slice_ok max_index_nonneg max_index_less) auto
  moreover have ne: "build_logs ?es \<noteq> []" using nonneg assms(2) by (simp add: build_logs_nonempty)
  ultimately have "reconstructLogs num_int tx = Inr ?tx" by (simp add: reconstruct_needed [OF assms(1)])
  moreover have "reconstructLogs num_int ?tx = Inr ?tx" using ne by (simp add: reconstructLogs_def as_array_def)
  ultimately show ?thesis
    using build_logs_indexes build_logs_groups flatten_sorted [OF nonneg] by fastforce
qed

text \<open>The memory asked for is decided by the largest index, that is, by an attribute of an event.\<close>

lemma logs_panic:
  assumes "needs_logs tx events" and "in_i64 (max_index (indexed num_int events))"
  shows "reconstructLogs num_int tx = Inl Panic \<longleftrightarrow> 2 ^ 45 \<le> max_index (indexed num_int events)"
  using make_slice_ok [OF max_index_nonneg] make_slice_panic [of "max_index (indexed num_int events)"] assms(2)
  by (cases "2 ^ 45 \<le> max_index (indexed num_int events)") (simp_all add: reconstruct_needed [OF assms(1)] in_i64_def)

text \<open>An event with a negative index is in no log.\<close>

lemma negative_index_dropped: "(i, g) \<in> set (build_logs es) \<Longrightarrow> 0 \<le> i"
  by (auto simp: build_logs_def)


definition example_event :: "string \<Rightarrow> string \<Rightarrow> json" where
  "example_event t i =
     JObj [(''attributes'', JArr [JObj [(''key'', JStr ''msg_index''), (''value'', JStr i)]]), (''type'', JStr t)]"

definition example_tx :: go_map where
  "example_tx = [(''events'', JArr [example_event ''b'' ''2'', example_event ''a'' ''0'', example_event ''c'' ''2''])]"

definition example_events :: "json list" where
  "example_events = [example_event ''b'' ''2'', example_event ''a'' ''0'', example_event ''c'' ''2'']"

lemma example_indexed:
  "indexed (\<lambda>_. 0) example_events =
     [(2, example_event ''b'' ''2''), (0, example_event ''a'' ''0''), (2, example_event ''c'' ''2'')]"
  by code_simp

lemma example_needs: "needs_logs example_tx example_events"
  by (simp add: needs_logs_def example_tx_def example_events_def as_array_def kv_get_def)

theorem logs_sort_events_witness:
  "\<exists>ls. reconstructLogs (\<lambda>_. 0) example_tx = Inr (kv_set ''logs'' (JArr (map log_json ls)) example_tx) \<and>
    flatten ls = [(0, example_event ''a'' ''0''), (2, example_event ''b'' ''2''), (2, example_event ''c'' ''2'')]"
  using logs_sort_events [OF example_needs, of "\<lambda>_. 0"] by (auto simp: example_indexed)


section \<open>Middlewares\<close>

text \<open>A handler that sets its headers, then the status, then writes the body.\<close>

definition orderly :: "string list kv \<Rightarrow> int \<Rightarrow> bytes list \<Rightarrow> wcall list" where
  "orderly hs n bs = map (\<lambda>(k, v). Set k v) hs @ WriteHeader n # map Write bs"

lemma serve_orderly:
  "serve (orderly hs n bs) =
     \<lparr>statusCode = n, headers = fold (\<lambda>(k, v) m. kv_set k v m) hs [], resp_body = concat bs\<rparr>"
proof -
  have sets: "fold send (map (\<lambda>(k, v). Set k v) hs) (False, r) =
      (False, r\<lparr>headers := fold (\<lambda>(k, v) m. kv_set k v m) hs (headers r)\<rparr>)" for r
    by (induction hs arbitrary: r) auto
  have writes: "fold send (map Write bs) (True, r) = (True, r\<lparr>resp_body := resp_body r @ concat bs\<rparr>)" for r
    by (induction bs arbitrary: r) auto
  show ?thesis by (simp add: serve_def orderly_def sets writes new_response_def)
qed

lemma record_orderly:
  "fold record_call (orderly hs n bs) new_response =
     \<lparr>statusCode = n, headers = fold (\<lambda>(k, v) m. kv_set k v m) hs [], resp_body = concat bs\<rparr>"
proof -
  have sets: "fold record_call (map (\<lambda>(k, v). Set k v) hs) r =
      r\<lparr>headers := fold (\<lambda>(k, v) m. kv_set k v m) hs (headers r)\<rparr>" for r
    by (induction hs arbitrary: r) auto
  have writes: "fold record_call (map Write bs) r = r\<lparr>resp_body := resp_body r @ concat bs\<rparr>" for r
    by (induction bs arbitrary: r) auto
  show ?thesis by (simp add: orderly_def sets writes new_response_def)
qed

lemma fold_kv_ok: "kv_ok m \<Longrightarrow> kv_ok (fold (\<lambda>(k, v) m. kv_set k v m) hs m)"
  by (induction hs arbitrary: m) auto

text \<open>Forwarding what was recorded sends what the handler would have sent.\<close>

lemma forward_same: "serve (forward (fold record_call (orderly hs n bs) new_response)) = serve (orderly hs n bs)"
proof -
  let ?hs = "fold (\<lambda>(k, v) m. kv_set k v m) hs []"
  have "forward (fold record_call (orderly hs n bs) new_response) = orderly ?hs n [concat bs]"
    by (simp add: forward_def record_orderly) (simp add: orderly_def)
  then show ?thesis by (simp add: serve_orderly kv_rebuild fold_kv_ok)
qed

lemma middleware_transparent:
  assumes "next r = orderly hs n bs"
    and "req_method r \<noteq> ''GET'' \<or> \<not> isTxQueryEndpoint (path r) \<or> n \<noteq> 200 \<or>
         (\<exists>e. e \<noteq> Panic \<and> transformTxResponse num_text num_int (concat bs) = Inl e)"
  shows "\<exists>cs. TxLogsMiddleware num_text num_int next r = Inr cs \<and> serve cs = serve (next r)"
  using assms forward_same [of hs n bs]
  by (auto simp: TxLogsMiddleware_def Let_def record_orderly split: error.splits)

text \<open>A transformed response announces its own length, whatever the handler announced.\<close>

lemma middleware_length:
  assumes "next r = orderly hs 200 bs" and "req_method r = ''GET''" and "isTxQueryEndpoint (path r)"
    and "transformTxResponse num_text num_int (concat bs) = Inr b"
  shows "\<exists>cs. TxLogsMiddleware num_text num_int next r = Inr cs \<and> resp_body (serve cs) = b \<and>
    statusCode (serve cs) = 200 \<and> kv_get (headers (serve cs)) ''Content-Length'' = Some [nat_digits (length b)]"
proof -
  let ?hs = "filter (\<lambda>(k, v). k \<noteq> ''Content-Length'') (fold (\<lambda>(k, v) m. kv_set k v m) hs [])"
  let ?all = "?hs @ [(''Content-Type'', [''application/json'']), (''Content-Length'', [nat_digits (length b)])]"
  have "TxLogsMiddleware num_text num_int next r = Inr (orderly ?all 200 [b])"
    using assms by (simp add: TxLogsMiddleware_def Let_def record_orderly) (simp add: orderly_def)
  then show ?thesis by (simp add: serve_orderly)
qed

text \<open>Through both middlewares a height that is no number, or negative, is an error of the client.\<close>

lemma bad_height_refused:
  assumes "height_param r \<noteq> []" and "Atoi (height_param r) = None \<or> (\<exists>h < 0. Atoi (height_param r) = Some h)"
  shows "\<exists>cs. api_middlewares num_text num_int next r = Inr cs \<and> statusCode (serve cs) = 400"
proof -
  obtain err where "BlockHeightMiddleware next r = writeErrorResponse 400 err"
    using assms by (auto simp: BlockHeightMiddleware_def)
  then have o: "BlockHeightMiddleware next r =
      orderly [(''Content-Type'', [''application/json''])] 400 [write_obj [(''error'', quote err)]]"
    by (simp add: writeErrorResponse_def orderly_def)
  show ?thesis
    using middleware_transparent [of "BlockHeightMiddleware next" r, OF o, of num_text num_int]
    by (auto simp: api_middlewares_def o serve_orderly)
qed

end
