(* ===== verification/App_Genesis.thy ===== *)
theory App_Genesis
  imports Go_Value
begin

text \<open>
  \<open>app/genesis.go\<close>: the defaults for the launch of the main network that are written into a generated
  genesis. The genesis is a map from modules to JSON texts; each patch reads the text of a module,
  changes members of it and writes it again. The nested maps that \<open>ensureObject\<close> returns are changed in
  place, which is the function \<open>ensureObject\<close> below applied to what the code does with the map.

  Shown here: which members have which values afterwards, that everything else stays, and that the bank
  has the metadata of every denom of the network.
\<close>


section \<open>Helpers\<close>

definition ensureObject :: "string \<Rightarrow> (go_map \<Rightarrow> go_map) \<Rightarrow> go_map \<Rightarrow> go_map" where
  "ensureObject key f parent =
     kv_set key (JObj (f (case as_map (kv_get parent key) of Some value \<Rightarrow> value | None \<Rightarrow> []))) parent"

definition patchGenesisModule ::
  "(string \<Rightarrow> string option) \<Rightarrow> string \<Rightarrow> (go_map \<Rightarrow> go_map) \<Rightarrow> bytes kv \<Rightarrow> bytes kv result" where
  "patchGenesisModule num_text moduleName patch genesis =
     (case kv_get genesis moduleName of
        None \<Rightarrow> Inr genesis
      | Some raw \<Rightarrow>
          if raw = [] \<or> raw = ''null'' then Inr genesis
          else
            (case Option.bind (json_read raw) (go_value num_text) of
               Some (JObj state) \<Rightarrow> Inr (kv_set moduleName (write_json (JObj (patch state))) genesis)
             | Some JNull \<Rightarrow> Inl Panic
             | _ \<Rightarrow> Inr genesis))"

definition denomMetadata :: "string \<Rightarrow> string \<Rightarrow> string \<Rightarrow> string \<Rightarrow> go_map" where
  "denomMetadata base display name symbol =
     [(''base'', JStr base),
      (''denom_units'', JArr
         [JObj [(''aliases'', JArr [JStr (''micro'' @ display)]), (''denom'', JStr base), (''exponent'', JNum ''0'')],
          JObj [(''aliases'', JArr []), (''denom'', JStr display), (''exponent'', JNum ''6'')]]),
      (''description'', JStr name),
      (''display'', JStr display),
      (''name'', JStr name),
      (''symbol'', JStr symbol),
      (''uri'', JStr []),
      (''uri_hash'', JStr [])]"

text \<open>\<open>v, _ := m[key].(string)\<close>: the empty string when there is none.\<close>

definition string_member :: "go_map \<Rightarrow> string \<Rightarrow> string" where
  "string_member m key = (case as_string (kv_get m key) of Some s \<Rightarrow> s | None \<Rightarrow> [])"

definition has_base :: "string \<Rightarrow> json \<Rightarrow> bool" where
  "has_base base item = (case as_map (Some item) of Some entry \<Rightarrow> string_member entry ''base'' = base | None \<Rightarrow> False)"

fun replace_base :: "string \<Rightarrow> go_map \<Rightarrow> json list \<Rightarrow> json list" where
  "replace_base base metadata [] = [JObj metadata]"
| "replace_base base metadata (item # items) =
     (if has_base base item then JObj metadata # items else item # replace_base base metadata items)"

definition ensureMetadata :: "json list \<Rightarrow> go_map \<Rightarrow> json list" where
  "ensureMetadata existing metadata = replace_base (string_member metadata ''base'') metadata existing"

definition coinListHasDenom :: "json list \<Rightarrow> string \<Rightarrow> bool" where
  "coinListHasDenom coins denom \<longleftrightarrow>
     list_ex (\<lambda>item. case as_map (Some item) of Some coin \<Rightarrow> string_member coin ''denom'' = denom | None \<Rightarrow> False) coins"

definition bankHasDenom :: "go_map \<Rightarrow> string \<Rightarrow> bool" where
  "bankHasDenom bank denom \<longleftrightarrow>
     (case as_array (kv_get bank ''supply'') of Some coins \<Rightarrow> coinListHasDenom coins denom | None \<Rightarrow> False) \<or>
     (case as_array (kv_get bank ''balances'') of
        None \<Rightarrow> False
      | Some balances \<Rightarrow>
          list_ex (\<lambda>item. case as_map (Some item) of
                            None \<Rightarrow> False
                          | Some balance \<Rightarrow>
                              coinListHasDenom (case as_array (kv_get balance ''coins'') of Some coins \<Rightarrow> coins | None \<Rightarrow> [])
                                denom) balances)"


section \<open>The patches\<close>

definition mainnetZeroTobinTax :: string where
  "mainnetZeroTobinTax = ''0.000000000000000000''"

definition mainnetUSDTobinTax :: string where
  "mainnetUSDTobinTax = ''0.002500000000000000''"

definition hardenWasmGenesis :: "go_map \<Rightarrow> go_map" where
  "hardenWasmGenesis state =
     ensureObject ''params'' (\<lambda>params.
       kv_set ''instantiate_default_permission'' (JStr ''Nobody'')
         (kv_set ''code_upload_access''
            (JObj [(''addresses'', JArr []), (''permission'', JStr ''Nobody'')]) params)) state"

definition hardenIBCGenesis :: "go_map \<Rightarrow> go_map" where
  "hardenIBCGenesis state =
     ensureObject ''client_genesis'' (ensureObject ''params''
       (kv_set ''allowed_clients'' (JArr [JStr ''07-tendermint'']))) state"

definition hardenICAGenesis :: "go_map \<Rightarrow> go_map" where
  "hardenICAGenesis state =
     ensureObject ''host_genesis_state'' (ensureObject ''params''
       (\<lambda>hostParams. kv_set ''allow_messages'' (JArr []) (kv_set ''host_enabled'' (JBool False) hostParams)))
     (ensureObject ''controller_genesis_state'' (ensureObject ''params''
       (kv_set ''controller_enabled'' (JBool False))) state)"

definition hardenTransferGenesis :: "go_map \<Rightarrow> go_map" where
  "hardenTransferGenesis state =
     ensureObject ''params'' (\<lambda>params.
       kv_set ''receive_enabled'' (JBool False) (kv_set ''send_enabled'' (JBool False) params)) state"

definition hardenOracleGenesis :: "go_map \<Rightarrow> go_map" where
  "hardenOracleGenesis state =
     kv_set ''tobin_taxes'' (JArr [])
       (kv_set ''exchange_rates'' (JArr [])
          (ensureObject ''params'' (kv_set ''whitelist'' (JArr
             [JObj [(''name'', JStr ''udo''), (''tobin_tax'', JStr mainnetZeroTobinTax)],
              JObj [(''name'', JStr ''uusd''), (''tobin_tax'', JStr mainnetUSDTobinTax)]])) state))"

definition hardenBankGenesis :: "go_map \<Rightarrow> go_map" where
  "hardenBankGenesis state =
     (let metadata = (case as_array (kv_get state ''denom_metadata'') of Some xs \<Rightarrow> xs | None \<Rightarrow> []);
          metadata = ensureMetadata metadata (denomMetadata ''udo'' ''do'' ''Do'' ''DO'');
          metadata = ensureMetadata metadata (denomMetadata ''udodx'' ''dodx'' ''Do governance token'' ''DODx'');
          metadata = ensureMetadata metadata (denomMetadata ''uusd'' ''usd'' ''Do USD oracle unit'' ''USD'');
          metadata = (if bankHasDenom state ''ubaked''
                      then ensureMetadata metadata (denomMetadata ''ubaked'' ''baked'' ''Do baked token'' ''BAKED'')
                      else metadata)
      in kv_set ''denom_metadata'' (JArr metadata) state)"

definition HardenMainnetGenesisDefaults :: "(string \<Rightarrow> string option) \<Rightarrow> bytes kv \<Rightarrow> bytes kv result" where
  "HardenMainnetGenesisDefaults num_text genesis =
     rbind (patchGenesisModule num_text ''wasm'' hardenWasmGenesis genesis) (\<lambda>genesis.
     rbind (patchGenesisModule num_text ''ibc'' hardenIBCGenesis genesis) (\<lambda>genesis.
     rbind (patchGenesisModule num_text ''interchainaccounts'' hardenICAGenesis genesis) (\<lambda>genesis.
     rbind (patchGenesisModule num_text ''transfer'' hardenTransferGenesis genesis) (\<lambda>genesis.
     rbind (patchGenesisModule num_text ''oracle'' hardenOracleGenesis genesis) (\<lambda>genesis.
     patchGenesisModule num_text ''bank'' hardenBankGenesis genesis)))))"

text \<open>\<open>DefaultGenesis\<close> of the module manager is a parameter.\<close>

definition NewDefaultGenesisState :: "(string \<Rightarrow> string option) \<Rightarrow> bytes kv \<Rightarrow> bytes kv result" where
  "NewDefaultGenesisState num_text DefaultGenesis = HardenMainnetGenesisDefaults num_text DefaultGenesis"



section \<open>Members\<close>

fun path_get :: "json \<Rightarrow> string list \<Rightarrow> json option" where
  "path_get j [] = Some j"
| "path_get (JObj m) (k # ks) = (case kv_get m k of Some j \<Rightarrow> path_get j ks | None \<Rightarrow> None)"
| "path_get _ (k # ks) = None"

text \<open>Below the member that is ensured one sees the changed map, elsewhere what was there.\<close>

lemma path_ensureObject:
  "path_get (JObj (ensureObject key f m)) (k # ks) =
     (if k = key then path_get (JObj (f (case as_map (kv_get m key) of Some v \<Rightarrow> v | None \<Rightarrow> []))) ks
      else path_get (JObj m) (k # ks))"
  by (simp add: ensureObject_def)

lemma path_member:
  "path_get (JObj (case as_map (kv_get m key) of Some v \<Rightarrow> v | None \<Rightarrow> [])) (k # ks) = path_get (JObj m) (key # k # ks)"
  by (auto simp: as_map_def split: option.splits json.splits)

lemma path_kv_set:
  "path_get (JObj (kv_set key v m)) (k # ks) = (if k = key then path_get v ks else path_get (JObj m) (k # ks))"
  by simp

text \<open>The members that the patches set, by module.\<close>

definition launch_values :: "string \<Rightarrow> (string list \<times> json) list" where
  "launch_values name =
     (if name = ''wasm'' then
        [([''params'', ''instantiate_default_permission''], JStr ''Nobody''),
         ([''params'', ''code_upload_access''], JObj [(''addresses'', JArr []), (''permission'', JStr ''Nobody'')])]
      else if name = ''ibc'' then
        [([''client_genesis'', ''params'', ''allowed_clients''], JArr [JStr ''07-tendermint''])]
      else if name = ''interchainaccounts'' then
        [([''controller_genesis_state'', ''params'', ''controller_enabled''], JBool False),
         ([''host_genesis_state'', ''params'', ''host_enabled''], JBool False),
         ([''host_genesis_state'', ''params'', ''allow_messages''], JArr [])]
      else if name = ''transfer'' then
        [([''params'', ''send_enabled''], JBool False), ([''params'', ''receive_enabled''], JBool False)]
      else if name = ''oracle'' then
        [([''params'', ''whitelist''], JArr
            [JObj [(''name'', JStr ''udo''), (''tobin_tax'', JStr mainnetZeroTobinTax)],
             JObj [(''name'', JStr ''uusd''), (''tobin_tax'', JStr mainnetUSDTobinTax)]]),
         ([''exchange_rates''], JArr []), ([''tobin_taxes''], JArr [])]
      else [])"

definition patch_of :: "string \<Rightarrow> go_map \<Rightarrow> go_map" where
  "patch_of name =
     (if name = ''wasm'' then hardenWasmGenesis else if name = ''ibc'' then hardenIBCGenesis
      else if name = ''interchainaccounts'' then hardenICAGenesis else if name = ''transfer'' then hardenTransferGenesis
      else if name = ''oracle'' then hardenOracleGenesis else if name = ''bank'' then hardenBankGenesis else id)"

lemmas patch_defs = hardenWasmGenesis_def hardenIBCGenesis_def hardenICAGenesis_def hardenTransferGenesis_def
  hardenOracleGenesis_def

lemma launch_set:
  assumes "(ks, v) \<in> set (launch_values name)"
  shows "path_get (JObj (patch_of name state)) ks = Some v"
  using assms
  by (auto simp: launch_values_def patch_of_def patch_defs path_ensureObject path_kv_set
      simp del: path_get.simps(2) split: if_splits)

definition apart :: "string list \<Rightarrow> string list \<Rightarrow> bool" where
  "apart xs ys \<longleftrightarrow> \<not> prefix xs ys \<and> \<not> prefix ys xs"

lemma apart_simps:
  "\<not> apart [] ys" "\<not> apart xs []" "apart (x # xs) (y # ys) \<longleftrightarrow> x \<noteq> y \<or> apart xs ys"
  by (auto simp: apart_def)

text \<open>A change of one member of an ensured map is seen on no path apart from it.\<close>

lemma ensure_frame:
  assumes "\<And>m' ks'. ks = key # ks' \<Longrightarrow> path_get (JObj (f m')) ks' = path_get (JObj m') ks'"
    and "ks \<noteq> []" and "ks \<noteq> [key]"
  shows "path_get (JObj (ensureObject key f m)) ks = path_get (JObj m) ks"
proof -
  obtain k ks' where ks: "ks = k # ks'" using assms(2) by (cases ks) auto
  show ?thesis
  proof (cases "k = key")
    case True
    with assms(3) ks obtain k' ks'' where ks': "ks' = k' # ks''" by (cases ks') auto
    show ?thesis using assms(1) True ks' unfolding ks by (simp only: path_ensureObject path_member simp_thms if_True)
  qed (simp add: ks path_ensureObject del: path_get.simps)
qed

lemma set_frame: "apart [key] ks \<Longrightarrow> path_get (JObj (kv_set key v m)) ks = path_get (JObj m) ks"
  by (cases ks) (auto simp: apart_simps)

lemma launch_frame:
  assumes "name \<noteq> ''bank''" and "\<forall>(ks', v) \<in> set (launch_values name). apart ks' ks"
  shows "path_get (JObj (patch_of name state)) ks = path_get (JObj state) ks"
proof -
  consider "name = ''wasm''" | "name = ''ibc''" | "name = ''interchainaccounts''" | "name = ''transfer''" | "name = ''oracle''"
    | "name \<notin> {''wasm'', ''ibc'', ''interchainaccounts'', ''transfer'', ''oracle'', ''bank''}"
    using assms(1) by auto
  then show ?thesis
  proof cases
    case 1
    with assms(2) show ?thesis
      by (auto simp: launch_values_def patch_of_def hardenWasmGenesis_def apart_simps set_frame intro!: ensure_frame)
  next
    case 2
    with assms(2) show ?thesis
      by (auto simp: launch_values_def patch_of_def hardenIBCGenesis_def apart_simps set_frame intro!: ensure_frame)
  next
    case 3
    with assms(2) show ?thesis
      by (auto simp: launch_values_def patch_of_def hardenICAGenesis_def apart_simps set_frame intro!: ensure_frame
          trans [OF ensure_frame ensure_frame])
  next
    case 4
    with assms(2) show ?thesis
      by (auto simp: launch_values_def patch_of_def hardenTransferGenesis_def apart_simps set_frame intro!: ensure_frame)
  next
    case 5
    with assms(2) show ?thesis
      by (auto simp: launch_values_def patch_of_def hardenOracleGenesis_def apart_simps set_frame intro!: ensure_frame)
  qed (auto simp: patch_of_def)
qed



section \<open>The hardened genesis\<close>

definition parsed :: "(string \<Rightarrow> string option) \<Rightarrow> bytes option \<Rightarrow> json option" where
  "parsed num_text raw =
     (case raw of None \<Rightarrow> None
      | Some r \<Rightarrow> if r = [] \<or> r = ''null'' then None else Option.bind (json_read r) (go_value num_text))"

definition hardened_text :: "(string \<Rightarrow> string option) \<Rightarrow> (go_map \<Rightarrow> go_map) \<Rightarrow> bytes option \<Rightarrow> bytes option" where
  "hardened_text num_text patch raw =
     (case parsed num_text raw of Some (JObj st) \<Rightarrow> Some (write_json (JObj (patch st))) | _ \<Rightarrow> raw)"

lemma patch_module_get:
  assumes "patchGenesisModule num_text name patch g = Inr g'"
  shows "kv_get g' n = (if n = name then hardened_text num_text patch (kv_get g name) else kv_get g n)"
  using assms
  by (auto simp: patchGenesisModule_def parsed_def hardened_text_def split: option.splits if_splits json.splits)

lemma patch_module_ok:
  "parsed num_text (kv_get g name) \<noteq> Some JNull \<Longrightarrow> \<exists>g'. patchGenesisModule num_text name patch g = Inr g'"
  by (auto simp: patchGenesisModule_def parsed_def split: option.splits if_splits json.splits)

definition patches :: "(string \<times> (go_map \<Rightarrow> go_map)) list" where
  "patches = map (\<lambda>name. (name, patch_of name)) [''wasm'', ''ibc'', ''interchainaccounts'', ''transfer'', ''oracle'', ''bank'']"

lemma patches_simps:
  "patches = [(''wasm'', hardenWasmGenesis), (''ibc'', hardenIBCGenesis), (''interchainaccounts'', hardenICAGenesis),
     (''transfer'', hardenTransferGenesis), (''oracle'', hardenOracleGenesis), (''bank'', hardenBankGenesis)]"
  by (simp add: patches_def patch_of_def)

lemma HardenMainnetGenesisDefaults_fold:
  "HardenMainnetGenesisDefaults num_text g = fold_res (\<lambda>(name, patch). patchGenesisModule num_text name patch) patches g"
proof -
  have "rbind m Inr = m" for m :: "bytes kv result" by (cases m) simp_all
  then show ?thesis
    by (simp add: HardenMainnetGenesisDefaults_def patches_simps fold_res_Cons_fun cong: rbind_cong)
qed

lemma patches_get:
  assumes "fold_res (\<lambda>(name, patch). patchGenesisModule num_text name patch) ps g = Inr g'" and "distinct (map fst ps)"
  shows "kv_get g' n =
    (case map_of ps n of Some patch \<Rightarrow> hardened_text num_text patch (kv_get g n) | None \<Rightarrow> kv_get g n)"
  using assms
proof (induction ps arbitrary: g)
  case (Cons p ps)
  obtain name patch where p: "p = (name, patch)" by (cases p)
  obtain g1 where g1: "patchGenesisModule num_text name patch g = Inr g1"
    "fold_res (\<lambda>(name, patch). patchGenesisModule num_text name patch) ps g1 = Inr g'"
    using Cons.prems(1) by (auto simp: p res_simps)
  have "map_of ps name = None" using Cons.prems(2) by (simp add: p map_of_eq_None_iff)
  then show ?case
    using Cons.IH [OF g1(2)] Cons.prems(2) patch_module_get [OF g1(1), of n] by (cases "n = name") (simp_all add: p split: option.split)
qed simp

lemma hardened_get:
  assumes "HardenMainnetGenesisDefaults num_text g = Inr g'"
  shows "kv_get g' n =
    (if n \<in> fst ` set patches then hardened_text num_text (patch_of n) (kv_get g n) else kv_get g n)"
proof -
  have "map_of patches n = (if n \<in> fst ` set patches then Some (patch_of n) else None)"
    by (simp add: patches_def map_of_map_restrict restrict_map_def image_image)
  then show ?thesis
    using patches_get [of num_text patches g g' n] assms
    by (simp add: HardenMainnetGenesisDefaults_fold) (simp add: patches_def)
qed

text \<open>It fails only on a module whose text is \<open>null\<close> with blanks around it.\<close>

lemma hardening_succeeds:
  assumes "\<forall>n \<in> fst ` set patches. parsed num_text (kv_get g n) \<noteq> Some JNull"
  shows "\<exists>g'. HardenMainnetGenesisDefaults num_text g = Inr g'"
proof -
  have "\<exists>g'. fold_res (\<lambda>(name, patch). patchGenesisModule num_text name patch) ps g = Inr g'"
    if "\<forall>n \<in> fst ` set ps. parsed num_text (kv_get g n) \<noteq> Some JNull" and "distinct (map fst ps)" for ps g
    using that
  proof (induction ps arbitrary: g)
    case (Cons p ps)
    obtain name patch where p: "p = (name, patch)" by (cases p)
    obtain g1 where g1: "patchGenesisModule num_text name patch g = Inr g1"
      using patch_module_ok [of num_text g name patch] Cons.prems(1) by (auto simp: p)
    have "\<forall>n \<in> fst ` set ps. parsed num_text (kv_get g1 n) \<noteq> Some JNull"
      using Cons.prems patch_module_get [OF g1] by (auto simp: p)
    then show ?case using Cons.IH Cons.prems(2) g1 by (simp add: p)
  qed simp
  from this [OF assms] show ?thesis unfolding HardenMainnetGenesisDefaults_fold by (simp add: patches_def)
qed


section \<open>Metadata\<close>

lemma find_ensureMetadata:
  assumes "kv_get md ''base'' = Some (JStr b)"
  shows "find (has_base base) (ensureMetadata xs md) = (if base = b then Some (JObj md) else find (has_base base) xs)"
proof -
  have "string_member md ''base'' = b" using assms by (simp add: string_member_def as_string_def)
  then have md: "has_base c (JObj md) \<longleftrightarrow> c = b" for c by (auto simp: has_base_def as_map_def)
  have other: "has_base b x \<Longrightarrow> has_base c x \<Longrightarrow> c = b" for c x
    by (auto simp: has_base_def split: option.splits)
  have "find (has_base base) (replace_base b md xs) = (if base = b then Some (JObj md) else find (has_base base) xs)"
    by (induction xs) (auto simp: md dest: other)
  then show ?thesis using \<open>string_member md ''base'' = b\<close> by (simp add: ensureMetadata_def)
qed


definition bank_metadata :: "go_map \<Rightarrow> json list" where
  "bank_metadata bank = (case as_array (kv_get bank ''denom_metadata'') of Some xs \<Rightarrow> xs | None \<Rightarrow> [])"

definition network_metadata :: "go_map \<Rightarrow> string \<Rightarrow> go_map option" where
  "network_metadata bank base =
     (if base = ''udo'' then Some (denomMetadata ''udo'' ''do'' ''Do'' ''DO'')
      else if base = ''udodx'' then Some (denomMetadata ''udodx'' ''dodx'' ''Do governance token'' ''DODx'')
      else if base = ''uusd'' then Some (denomMetadata ''uusd'' ''usd'' ''Do USD oracle unit'' ''USD'')
      else if base = ''ubaked'' \<and> bankHasDenom bank ''ubaked''
      then Some (denomMetadata ''ubaked'' ''baked'' ''Do baked token'' ''BAKED'')
      else None)"

lemma denomMetadata_base: "kv_get (denomMetadata b d n s) ''base'' = Some (JStr b)"
  by (simp add: denomMetadata_def kv_get_def)

lemma bank_hardened:
  "find (has_base base) (bank_metadata (hardenBankGenesis bank)) =
     (case network_metadata bank base of Some md \<Rightarrow> Some (JObj md) | None \<Rightarrow> find (has_base base) (bank_metadata bank))"
  by (simp add: bank_metadata_def hardenBankGenesis_def Let_def network_metadata_def as_array_def
      find_ensureMetadata [OF denomMetadata_base])

lemma bank_frame: "k \<noteq> ''denom_metadata'' \<Longrightarrow> kv_get (hardenBankGenesis bank) k = kv_get bank k"
  by (simp add: hardenBankGenesis_def Let_def)

lemma bank_balances_kept: "bankHasDenom (hardenBankGenesis bank) d \<longleftrightarrow> bankHasDenom bank d"
  by (simp add: bankHasDenom_def bank_frame)

text \<open>What becomes of the state of a module.\<close>

definition hardened :: "string \<Rightarrow> go_map \<Rightarrow> go_map \<Rightarrow> bool" where
  "hardened n st st' \<longleftrightarrow>
     (\<forall>(ks, v) \<in> set (launch_values n). path_get (JObj st') ks = Some v) \<and>
     (\<forall>ks. n \<noteq> ''bank'' \<and> (\<forall>(ks', v) \<in> set (launch_values n). apart ks' ks) \<longrightarrow>
        path_get (JObj st') ks = path_get (JObj st) ks) \<and>
     (n = ''bank'' \<longrightarrow>
        (\<forall>base. find (has_base base) (bank_metadata st') =
           (case network_metadata st base of Some md \<Rightarrow> Some (JObj md)
            | None \<Rightarrow> find (has_base base) (bank_metadata st))) \<and>
        (\<forall>k. k \<noteq> ''denom_metadata'' \<longrightarrow> kv_get st' k = kv_get st k))"

lemma hardened_patch: "hardened n st (patch_of n st)"
  using launch_set launch_frame bank_hardened bank_frame by (auto simp: hardened_def) (simp_all add: patch_of_def)

text \<open>
  C40: the generated genesis has the launch defaults, and nothing else is touched. Hardening succeeds unless the
  text of a module is \<open>null\<close> with blanks. Texts of other modules, and texts that are no JSON objects, stay
  as they are. A module that is an object is written with every launch value at its place: nobody uploads or
  instantiates contracts, only Tendermint clients, no interchain accounts, no transfers, the
  whitelist of the oracle and no rates; every path apart from these has what it had, as it was read, with its
  numbers as floats. The bank has exactly the metadata of the network's denoms at their first entry, and for
  every other base denom the first entry that it had.
\<close>

theorem launch_defaults:
  assumes "\<forall>n \<in> fst ` set patches. parsed num_text (kv_get g n) \<noteq> Some JNull"
  shows "\<exists>g'. HardenMainnetGenesisDefaults num_text g = Inr g' \<and>
    (\<forall>n. n \<notin> fst ` set patches \<or> (\<nexists>st. parsed num_text (kv_get g n) = Some (JObj st)) \<longrightarrow> kv_get g' n = kv_get g n) \<and>
    (\<forall>n st. n \<in> fst ` set patches \<and> parsed num_text (kv_get g n) = Some (JObj st) \<longrightarrow>
      (\<exists>st'. kv_get g' n = Some (write_json (JObj st')) \<and> hardened n st st'))"
proof -
  obtain g' where g': "HardenMainnetGenesisDefaults num_text g = Inr g'" using hardening_succeeds [OF assms] by blast
  have patch: "kv_get g' n = Some (write_json (JObj (patch_of n st)))"
    if "n \<in> fst ` set patches" "parsed num_text (kv_get g n) = Some (JObj st)" for n st
    using that hardened_get [OF g'] by (simp add: hardened_text_def)
  have "kv_get g' n = kv_get g n"
    if "n \<notin> fst ` set patches \<or> (\<nexists>st. parsed num_text (kv_get g n) = Some (JObj st))" for n
    using that hardened_get [OF g'] by (auto simp: hardened_text_def split: option.splits json.splits)
  then show ?thesis using g' patch hardened_patch by blast
qed


definition example_state :: go_map where
  "example_state = [(''params'', JObj [(''receive_enabled'', JBool True)]), (''port_id'', JStr ''transfer'')]"

definition example_genesis :: "bytes kv" where
  "example_genesis = [(''transfer'', write_json (JObj example_state))]"

lemma example_parsed: "parsed Some (kv_get example_genesis n) =
  (if n = ''transfer'' then Some (JObj [(''params'', JObj [(''receive_enabled'', JBool True)]), (''port_id'', JStr ''transfer'')])
   else None)"
proof -
  have "json_read (write_json (JObj example_state)) = Some (JObj example_state)"
    by (rule json_read_write) code_simp+
  moreover have "go_value Some (JObj example_state) = Some (JObj example_state)" by code_simp
  moreover have "write_json (JObj example_state) \<noteq> [] \<and> write_json (JObj example_state) \<noteq> ''null''" by code_simp
  ultimately show ?thesis by (simp add: parsed_def example_genesis_def kv_get_def example_state_def)
qed

theorem launch_defaults_witness:
  "\<exists>g' st'. HardenMainnetGenesisDefaults Some example_genesis = Inr g' \<and>
     kv_get g' ''transfer'' = Some (write_json (JObj st')) \<and>
     path_get (JObj st') [''params'', ''receive_enabled''] = Some (JBool False) \<and>
     path_get (JObj st') [''port_id''] = Some (JStr ''transfer'')"
proof -
  have null: "\<forall>n \<in> fst ` set patches. parsed Some (kv_get example_genesis n) \<noteq> Some JNull" by (simp add: example_parsed)
  have "''transfer'' \<in> fst ` set patches" by (simp add: patches_def)
  with launch_defaults [OF null] example_parsed [of "''transfer''"] obtain g' st' where *:
    "HardenMainnetGenesisDefaults Some example_genesis = Inr g'" "kv_get g' ''transfer'' = Some (write_json (JObj st'))"
    "hardened ''transfer'' [(''params'', JObj [(''receive_enabled'', JBool True)]), (''port_id'', JStr ''transfer'')] st'"
    by (metis (no_types, lifting))
  have "path_get (JObj st') [''port_id''] = Some (JStr ''transfer'')"
    using *(3) [unfolded hardened_def, THEN conjunct2, THEN conjunct1, rule_format, of "[''port_id'']"]
    by (simp add: launch_values_def apart_simps kv_get_def)
  with * show ?thesis by (auto simp: launch_values_def hardened_def)
qed

end
