(* ===== verification/App_Export.thy ===== *)
theory App_Export
  imports Oracle_Keeper Market
begin

text \<open>
  \<open>app/export.go\<close>: the export of the state for a new genesis, and the preparation of a chain that starts again
  at height zero. The stores of the oracle and the market are those of \<open>Oracle_Keeper\<close> and \<open>Market\<close>; the
  keepers of distribution, staking and slashing are the record \<open>export_keepers\<close> over their world \<open>'w\<close>, with
  the hooks of the distribution module (\<open>dist_\<close>), which get the height of the context.

  Shown here: what the preparation leaves of the oracle and the market, which validators it jails, and
  that the commissions are asked for under wrong addresses.
\<close>


section \<open>The modules of the SDK\<close>

record export_validator =
  UnbondingHeight :: int
  Jailed :: bool

text \<open>
  Redelegations and unbonding delegations are given by a key and the creation heights of their entries,
  signing infos by their start height; what else they hold is kept by the setters.
\<close>

record 'w export_keepers =
  operators :: "'w \<Rightarrow> string list"
  WithdrawValidatorCommission :: "bytes \<Rightarrow> 'w \<Rightarrow> 'w"
  GetAllDelegations :: "'w \<Rightarrow> (string \<times> string) list result"
  WithdrawDelegationRewards :: "address \<Rightarrow> address \<Rightarrow> 'w \<Rightarrow> 'w"
  DeleteAllValidatorSlashEvents :: "'w \<Rightarrow> 'w"
  DeleteAllValidatorHistoricalRewards :: "'w \<Rightarrow> 'w"
  GetValidatorOutstandingRewardsCoins :: "bytes \<Rightarrow> 'w \<Rightarrow> deccoin list result"
  GetFeePool :: "'w \<Rightarrow> deccoin list result"
  SetFeePool :: "deccoin list \<Rightarrow> 'w \<Rightarrow> 'w"
  dist_AfterValidatorCreated :: "int \<Rightarrow> bytes \<Rightarrow> 'w \<Rightarrow> 'w"
  dist_BeforeDelegationCreated :: "int \<Rightarrow> address \<Rightarrow> address \<Rightarrow> 'w \<Rightarrow> 'w"
  dist_AfterDelegationModified :: "int \<Rightarrow> address \<Rightarrow> address \<Rightarrow> 'w \<Rightarrow> 'w"
  redelegations :: "'w \<Rightarrow> (bytes \<times> int list) list"
  SetRedelegation :: "bytes \<Rightarrow> int list \<Rightarrow> 'w \<Rightarrow> 'w"
  unbondings :: "'w \<Rightarrow> (bytes \<times> int list) list"
  SetUnbondingDelegation :: "bytes \<Rightarrow> int list \<Rightarrow> 'w \<Rightarrow> 'w"
  validatorKeys :: "'w \<Rightarrow> address list"
  staking_GetValidator :: "'w \<Rightarrow> address \<Rightarrow> export_validator result"
  staking_SetValidator :: "'w \<Rightarrow> address \<Rightarrow> export_validator \<Rightarrow> 'w"
  ApplyAndReturnValidatorSetUpdates :: "'w \<Rightarrow> 'w result"
  signingInfos :: "'w \<Rightarrow> (address \<times> int) list"
  SetSigningInfoStart :: "address \<Rightarrow> int \<Rightarrow> 'w \<Rightarrow> 'w"


section \<open>Preparing height zero\<close>

text \<open>The addresses that stay unjailed; \<open>log.Fatal\<close> ends the program.\<close>

definition allowedAddrsMap :: "sdk \<Rightarrow> string list \<Rightarrow> string list result" where
  "allowedAddrsMap K jailAllowedAddrs =
     map_res (\<lambda>addr. case ValFromBech32 K addr of Inl _ \<Rightarrow> Inl (Text ''log.Fatal'') | Inr _ \<Rightarrow> Inr addr) jailAllowedAddrs"

text \<open>\<open>sdk.ValAddress(val.GetOperator())\<close> takes the bytes of the text.\<close>

definition withdraw_commissions :: "'w export_keepers \<Rightarrow> 'w \<Rightarrow> 'w" where
  "withdraw_commissions E w = fold (\<lambda>operator. WithdrawValidatorCommission E operator) (operators E w) w"

definition delegation_addresses :: "sdk \<Rightarrow> string \<times> string \<Rightarrow> (address \<times> address) result" where
  "delegation_addresses K del =
     rbind (must (ValFromBech32 K (snd del))) (\<lambda>valAddr.
     rbind (must (AccFromBech32 K (fst del))) (\<lambda>delAddr.
     Inr (delAddr, valAddr)))"

definition withdraw_rewards :: "sdk \<Rightarrow> 'w export_keepers \<Rightarrow> (string \<times> string) list \<Rightarrow> 'w \<Rightarrow> 'w result" where
  "withdraw_rewards K E dels w =
     fold_res (\<lambda>del w. rbind (delegation_addresses K del) (\<lambda>(delAddr, valAddr).
       Inr (WithdrawDelegationRewards E delAddr valAddr w))) dels w"

definition reinit_validators :: "sdk \<Rightarrow> 'w export_keepers \<Rightarrow> 'w \<Rightarrow> 'w result" where
  "reinit_validators K E w =
     fold_res (\<lambda>operator w.
       rbind (must (GetValidatorOutstandingRewardsCoins E operator w)) (\<lambda>scraps.
       rbind (must (GetFeePool E w)) (\<lambda>pool.
       rbind (DecCoinsAdd K pool scraps) (\<lambda>pool'.
       Inr (dist_AfterValidatorCreated E 0 operator (SetFeePool E pool' w)))))) (operators E w) w"

definition reinit_delegations :: "sdk \<Rightarrow> 'w export_keepers \<Rightarrow> (string \<times> string) list \<Rightarrow> 'w \<Rightarrow> 'w result" where
  "reinit_delegations K E dels w =
     fold_res (\<lambda>del w. rbind (delegation_addresses K del) (\<lambda>(delAddr, valAddr).
       Inr (dist_AfterDelegationModified E 0 delAddr valAddr (dist_BeforeDelegationCreated E 0 delAddr valAddr w)))) dels w"

definition reset_heights :: "'w export_keepers \<Rightarrow> 'w \<Rightarrow> 'w" where
  "reset_heights E w =
     (let w = fold (\<lambda>(red, entries). SetRedelegation E red (map (\<lambda>_. 0) entries)) (redelegations E w) w
      in fold (\<lambda>(ubd, entries). SetUnbondingDelegation E ubd (map (\<lambda>_. 0) entries)) (unbondings E w) w)"

definition reset_validators :: "sdk \<Rightarrow> 'w export_keepers \<Rightarrow> string list \<Rightarrow> 'w \<Rightarrow> 'w result" where
  "reset_validators K E allowed w =
     fold_res (\<lambda>addr w.
       case staking_GetValidator E w addr of
         Inl _ \<Rightarrow> Inl Panic
       | Inr validator \<Rightarrow>
           (let validator = validator\<lparr>UnbondingHeight := 0\<rparr>;
                validator = (if allowed \<noteq> [] \<and> ValString K addr \<notin> set allowed
                             then validator\<lparr>Jailed := True\<rparr> else validator)
            in Inr (staking_SetValidator E w addr validator))) (validatorKeys E w) w"

definition reset_signing :: "'w export_keepers \<Rightarrow> 'w \<Rightarrow> 'w" where
  "reset_signing E w = fold (\<lambda>(addr, _). SetSigningInfoStart E addr 0) (signingInfos E w) w"

definition reset_oracle :: "oracle_store \<Rightarrow> oracle_store result" where
  "reset_oracle s =
     rbind (IterateDoExchangeRates s (\<lambda>denom _ s. Inr (DeleteDoExchangeRate s denom, False)) s) (\<lambda>s.
     rbind (IterateMissCounters s (\<lambda>operator _ s. Inr (SetMissCounter s operator 0, False)) s) (\<lambda>s.
     rbind (IterateAggregateDoRatePrevotes s (\<lambda>voterAddr _ s. Inr (DeleteAggregateDoRatePrevote s voterAddr, False)) s) (\<lambda>s.
     IterateAggregateDoRateVotes s (\<lambda>voterAddr _ s. Inr (DeleteAggregateDoRateVote s voterAddr, False)) s)))"

type_synonym 'w app_state = "'w \<times> oracle_store \<times> market_store"

definition prepForZeroHeightGenesis ::
  "sdk \<Rightarrow> 'w export_keepers \<Rightarrow> int \<Rightarrow> string list \<Rightarrow> 'w app_state \<Rightarrow> 'w app_state result" where
  "prepForZeroHeightGenesis K E height jailAllowedAddrs st =
     (case st of (w, os, ms) \<Rightarrow>
     rbind (allowedAddrsMap K jailAllowedAddrs) (\<lambda>allowed.
     (let w = withdraw_commissions E w in
     rbind (must (GetAllDelegations E w)) (\<lambda>dels.
     rbind (withdraw_rewards K E dels w) (\<lambda>w.
     (let w = DeleteAllValidatorHistoricalRewards E (DeleteAllValidatorSlashEvents E w) in
     rbind (reinit_validators K E w) (\<lambda>w.
     rbind (reinit_delegations K E dels w) (\<lambda>w.
     rbind (reset_validators K E allowed (reset_heights E w)) (\<lambda>w.
     rbind (case ApplyAndReturnValidatorSetUpdates E w of Inl _ \<Rightarrow> Inl (Text ''log.Fatal'') | Inr w \<Rightarrow> Inr w) (\<lambda>w.
     rbind (reset_oracle os) (\<lambda>os.
     Inr (reset_signing E w, os, SetDoPoolDelta height ms 0)))))))))))) "

text \<open>
  The export itself: the genesis of the modules, their text and the validators are parameters, which may fail.
\<close>

definition ExportAppStateAndValidators ::
  "sdk \<Rightarrow> 'w export_keepers \<Rightarrow> ('w app_state \<Rightarrow> 'g result) \<Rightarrow> ('w app_state \<Rightarrow> 'v result) \<Rightarrow>
   int \<Rightarrow> bool \<Rightarrow> string list \<Rightarrow> 'w app_state \<Rightarrow> ('g \<times> 'v \<times> int) result" where
  "ExportAppStateAndValidators K E ExportGenesisForModules WriteValidators lastHeight forZeroHeight jailAllowedAddrs st =
     rbind (if forZeroHeight then prepForZeroHeightGenesis K E lastHeight jailAllowedAddrs st else Inr st) (\<lambda>st.
     rbind (ExportGenesisForModules st) (\<lambda>appState.
     rbind (WriteValidators st) (\<lambda>validators.
     Inr (appState, validators, if forZeroHeight then 0 else lastHeight + 1))))"



section \<open>The oracle\<close>

lemma reset_rates:
  assumes "part_ok GetExchangeRateKey (rates s)"
  shows "fold (\<lambda>(denom, _) s. DeleteDoExchangeRate s denom) (map (\<lambda>(k, d). (drop 1 k, d)) (rates s)) s = s\<lparr>rates := []\<rparr>"
proof -
  have "fold (\<lambda>(denom, _) s. DeleteDoExchangeRate s denom) (map (\<lambda>(k, d). (drop 1 k, d)) kvs) s =
      s\<lparr>rates := fold kv_del (map (\<lambda>(k, _). GetExchangeRateKey (drop 1 k)) kvs) (rates s)\<rparr>"
    for kvs :: "dec kv" and s :: oracle_store
    by (induction kvs arbitrary: s) (auto simp: DeleteDoExchangeRate_def)
  moreover have "map (\<lambda>(k, _). GetExchangeRateKey (drop 1 k)) (rates s) = map fst (rates s)"
    by (auto simp: map_eq_conv dest!: part_ok_key [OF assms])
  ultimately show ?thesis by (simp add: kv_del_fold_empty)
qed

lemma reset_prevotes:
  assumes "part_ok GetAggregateDoRatePrevoteKey (prevotes s)"
  shows "fold (\<lambda>(v, _) s. DeleteAggregateDoRatePrevote s v) (map (\<lambda>(k, p). (drop 2 k, p)) (prevotes s)) s = s\<lparr>prevotes := []\<rparr>"
  using prevotes_expired [OF assms, of "\<lambda>_. True"] by simp

lemma kv_zero:
  assumes "kv_ok m"
  shows "fold (\<lambda>k. kv_set k v) (map fst m) m = map (\<lambda>(k, _). (k, v)) m"
proof (rule kv_ext)
  have "kv_ok m' \<Longrightarrow> kv_ok (fold (\<lambda>k. kv_set k v) ks m')" for ks and m' :: "'a kv"
    by (induction ks arbitrary: m') auto
  then show "kv_ok (fold (\<lambda>k. kv_set k v) (map fst m) m)" using assms by simp
  show "kv_ok (map (\<lambda>(k, _). (k, v)) m)" using assms by (simp add: kv_ok_def comp_def case_prod_beta)
  fix k
  have "kv_get (fold (\<lambda>k. kv_set k v) ks m') k = (if k \<in> set ks then Some v else kv_get m' k)" for ks and m' :: "'a kv"
    by (induction ks arbitrary: m') auto
  moreover have "kv_get (map (\<lambda>(k, _). (k, v)) m) k = (if k \<in> fst ` set m then Some v else kv_get m k)"
    by (induction m) (auto simp: kv_get_def)
  ultimately show "kv_get (fold (\<lambda>k. kv_set k v) (map fst m) m) k = kv_get (map (\<lambda>(k, _). (k, v)) m) k"
    by simp
qed

lemma reset_counters:
  assumes "part_ok GetMissCounterKey (missCounters s)"
  shows "fold (\<lambda>(v, _) s. SetMissCounter s v 0) (map (\<lambda>(k, n). (drop 2 k, n)) (missCounters s)) s =
    s\<lparr>missCounters := map (\<lambda>(k, _). (k, 0)) (missCounters s)\<rparr>"
proof -
  have "fold (\<lambda>(v, _) s. SetMissCounter s v 0) (map (\<lambda>(k, n). (drop 2 k, n)) kvs) s =
      s\<lparr>missCounters := fold (\<lambda>k. kv_set k 0) (map (\<lambda>(k, _). GetMissCounterKey (drop 2 k)) kvs) (missCounters s)\<rparr>"
    for kvs :: "int kv" and s :: oracle_store
    by (induction kvs arbitrary: s) (auto simp: SetMissCounter_def)
  moreover have "map (\<lambda>(k, _). GetMissCounterKey (drop 2 k)) (missCounters s) = map fst (missCounters s)"
    by (auto simp: map_eq_conv dest!: part_ok_key [OF assms])
  ultimately show ?thesis by (simp only: kv_zero [OF part_ok_kv_ok [OF assms]])
qed

lemma reset_oracle_steps:
  assumes "oracle_ok s"
  shows "IterateDoExchangeRates s (\<lambda>denom _ s. Inr (DeleteDoExchangeRate s denom, False)) s = Inr (s\<lparr>rates := []\<rparr>)"
    and "IterateMissCounters s (\<lambda>operator _ s. Inr (SetMissCounter s operator 0, False)) s =
      Inr (s\<lparr>missCounters := map (\<lambda>(k, _). (k, 0)) (missCounters s)\<rparr>)"
    and "IterateAggregateDoRatePrevotes s (\<lambda>voterAddr _ s. Inr (DeleteAggregateDoRatePrevote s voterAddr, False)) s =
      Inr (s\<lparr>prevotes := []\<rparr>)"
    and "IterateAggregateDoRateVotes s (\<lambda>voterAddr _ s. Inr (DeleteAggregateDoRateVote s voterAddr, False)) s =
      Inr (s\<lparr>votes := []\<rparr>)"
  using assms reset_rates [of s] reset_counters [of s] reset_prevotes [of s] votes_cleared [of s]
  by (simp_all add: oracle_iterators iterate_pure oracle_ok_def)

lemma oracle_ok_counters: "oracle_ok s \<Longrightarrow> oracle_ok (s\<lparr>missCounters := map (\<lambda>(k, _). (k, n)) (missCounters s)\<rparr>)"
  by (auto simp: oracle_ok_def part_ok_def kv_ok_def comp_def case_prod_beta)

lemma reset_oracle_eq:
  assumes "oracle_ok s"
  shows "reset_oracle s =
    Inr (s\<lparr>rates := [], missCounters := map (\<lambda>(k, _). (k, 0)) (missCounters s), prevotes := [], votes := []\<rparr>)"
proof -
  let ?s1 = "s\<lparr>rates := []\<rparr>"
  let ?s2 = "?s1\<lparr>missCounters := map (\<lambda>(k, _). (k, 0)) (missCounters ?s1)\<rparr>"
  have "oracle_ok ?s1" using assms by (simp add: oracle_ok_def part_ok_def)
  moreover from this have "oracle_ok ?s2" by (rule oracle_ok_counters)
  moreover from this have "oracle_ok (?s2\<lparr>prevotes := []\<rparr>)" by (simp add: oracle_ok_def part_ok_def)
  ultimately show ?thesis
    unfolding reset_oracle_def by (simp only: reset_oracle_steps assms rbind_simps) simp
qed


text \<open>
  When the chain is prepared for height zero, the oracle has no rates and no pending votes or prevotes, no validator has
  missed a vote, feeders, tobin taxes and parameters stay, and the pools of the market are in balance.
\<close>

lemma zero_height_reset:
  assumes "prepForZeroHeightGenesis K E height jailAllowedAddrs (w, os, ms) = Inr (w', os', ms')" and "oracle_ok os"
  shows "os' = os\<lparr>rates := [], missCounters := map (\<lambda>(k, _). (k, 0)) (missCounters os), prevotes := [], votes := []\<rparr>"
    and "GetMissCounter os' v = 0" and "GetDoPoolDelta ms' = 0" and "mparams ms' = mparams ms"
proof -
  from assms(1) have "reset_oracle os = Inr os'" and ms: "ms' = SetDoPoolDelta height ms 0"
    by (auto simp: prepForZeroHeightGenesis_def Let_def res_simps)
  then show os: "os' = os\<lparr>rates := [], missCounters := map (\<lambda>(k, _). (k, 0)) (missCounters os), prevotes := [], votes := []\<rparr>"
    by (simp add: reset_oracle_eq [OF assms(2)])
  have "map_of (map (\<lambda>(k, _). (k, 0 :: int)) m) k = Some n \<Longrightarrow> n = 0" for m :: "int kv" and k n
    by (induction m) (auto split: if_splits)
  then show "GetMissCounter os' v = 0"
    by (auto simp: os GetMissCounter_def kv_get_def split: option.splits)
  show "GetDoPoolDelta ms' = 0" and "mparams ms' = mparams ms"
    by (simp_all add: ms GetDoPoolDelta_def SetDoPoolDelta_def)
qed

text \<open>
  The validators that are jailed: without a list none more than before, with one all that are not on it,
  under the text the chain itself writes.
\<close>

lemma reset_validators_jails:
  assumes cell: "keyed_cell (staking_GetValidator E) (staking_SetValidator E) (\<lambda>_ v. Inr v)"
    and "distinct (validatorKeys E w)" and "reset_validators K E allowed w = Inr w'"
  shows "staking_GetValidator E w' a =
    (if a \<in> set (validatorKeys E w)
     then map_sum (\<lambda>e. e) (\<lambda>v. v\<lparr>UnbondingHeight := 0,
            Jailed := Jailed v \<or> (allowed \<noteq> [] \<and> ValString K a \<notin> set allowed)\<rparr>) (staking_GetValidator E w a)
     else staking_GetValidator E w a)"
proof -
  let ?step = "\<lambda>addr w. case staking_GetValidator E w addr of
         Inl _ \<Rightarrow> Inl Panic
       | Inr validator \<Rightarrow>
           (let validator = validator\<lparr>UnbondingHeight := 0\<rparr>;
                validator = (if allowed \<noteq> [] \<and> ValString K addr \<notin> set allowed
                             then validator\<lparr>Jailed := True\<rparr> else validator)
            in Inr (staking_SetValidator E w addr validator))"
  let ?new = "\<lambda>a v. v\<lparr>UnbondingHeight := 0, Jailed := Jailed v \<or> (allowed \<noteq> [] \<and> ValString K a \<notin> set allowed)\<rparr>"
  have "staking_GetValidator E w' a =
      (if a \<in> set as then map_sum (\<lambda>e. e) (?new a) (staking_GetValidator E w a) else staking_GetValidator E w a)"
    if "fold_res ?step as w = Inr w'" and "distinct as" for as w
    using that
  proof (induction as arbitrary: w)
    case (Cons b as)
    from Cons.prems(1) obtain v where v: "staking_GetValidator E w b = Inr v"
      and rest: "fold_res ?step as (staking_SetValidator E w b (?new b v)) = Inr w'"
      by (auto simp: res_simps Let_def split: sum.splits if_splits)
    show ?case using Cons.IH [OF rest] Cons.prems(2) v by (auto simp: keyed_cell.get_put [OF cell] id_def)
  qed simp
  with assms(2,3) show ?thesis by (simp only: reset_validators_def)
qed

text \<open>
  The commission of a validator is asked for under the letters of its bech32 text instead of its address,
  and the error for the unknown validator is dropped. With a log of the addresses as the world:
\<close>

definition commission_log :: "address list \<Rightarrow> bytes list export_keepers \<Rightarrow> bytes list export_keepers" where
  "commission_log vs E = E\<lparr>operators := \<lambda>_. map (ValString ref_sdk) vs, WithdrawValidatorCommission := \<lambda>a log. log @ [a]\<rparr>"

lemma commission_wrong_address: "withdraw_commissions (commission_log vs E) log = log @ map (ValString ref_sdk) vs"
proof -
  have "fold (\<lambda>a log. log @ [a]) xs log = log @ xs" for xs log :: "bytes list"
    by (induction xs arbitrary: log) auto
  then show ?thesis by (simp add: withdraw_commissions_def commission_log_def)
qed

lemma commission_not_asked: "a \<notin> set (withdraw_commissions (commission_log [a] E) [])"
  by (simp add: commission_wrong_address ref_sdk_simps)

end
