(* ===== verification/Spec2Isabelle.thy ===== *)
theory Spec2Isabelle
  imports Oracle_Abci Oracle_Upkeep Oracle_Queries Treasury Vesting Dyncomm Gov_Tally Mempool Ante_Safety
    Wasm_Migration Wasm_Bindings Staking_Hooks Tx_Logs App_Genesis App_Export
begin

text \<open>
  A verification library for dochain-core, a Cosmos SDK application written in Go (directory
  \<open>src\<close>). Paths below are relative to that directory.

  \<^bold>\<open>The program.\<close> Validators feed exchange rates of Do to the oracle (\<open>x/oracle\<close>) by committing
  to a hash and revealing the rates one vote period later; the end-blocker tallies the ballots by
  a power-weighted median against a reference denom, rewards the validators close to the median,
  counts misses and slashes at the end of a window. The market (\<open>x/market\<close>) swaps coins at the
  oracle's rates with a spread that grows with the imbalance of a virtual pool. The treasury
  (\<open>x/treasury\<close>) keeps the tax and reward policies, indicators per epoch, the seigniorage and the
  burn account. DODx staking (\<open>x/dodxstaking\<close>) escrows DODx, and the governance tally
  (\<open>app/keepers/gov_tally.go\<close>) counts votes by delegations, capped delegations or staked DODx.
  Dynamic commissions (\<open>x/dyncomm\<close>) impose a minimum commission on large validators. Vesting
  accounts (\<open>x/vesting\<close>) release coins by schedules. The application mempool
  (\<open>app/mempool\<close>) offers oracle transactions to the proposer first. Before its messages run a
  transaction passes a chain of decorators (\<open>custom/auth/ante\<close>) that check its memo, votes, deposits
  and signatures and take the fee; those of the multi-factor module (\<open>x/mfa\<close>) ask for an approval
  of the account's second key when its Do is spent, and change its policy. Wasm contracts emit
  messages, swap on the market and ask for rates and taxes (\<open>custom/wasm/keeper\<close>, \<open>wasmbinding\<close>);
  queries about heights before the migration of the wasm module read the old database through a
  translating store (\<open>custom/wasm/legacy_store.go\<close>), and the upgrade \<open>v13\<close> rewrites its keys
  (\<open>app/upgrades/v13\<close>). A hook of the staking module (\<open>custom/staking\<close>) limits the power of a
  validator, and its end of a block gives every validator of the consensus engine the same power.
  The application hardens a generated genesis (\<open>app/genesis.go\<close>), resets the state for a
  start at height zero (\<open>app/export.go\<close>) and puts two middlewares in front of its HTTP API (\<open>server\<close>).

  \<^bold>\<open>How it is modelled.\<close> A module's store is a record whose partitions are key-value lists sorted
  by key (\<open>kv\<close> in \<open>Prelude\<close>) under the keys the code builds; an operation takes the store and
  returns it changed. Errors and panics are values: \<open>'a result\<close> is a sum of \<open>error\<close> and \<open>'a\<close>,
  \<open>Panic\<close> is a panic, \<open>must\<close> turns an error into one. Loops over stores and slices are folds with
  early exit (\<open>fold_res\<close>, \<open>map_res\<close>), so every loop of the model ends and no fuel is used; the
  loops whose recursion is not structural, the walks of a proposer (\<open>drain\<close>) and of a store iterator
  (\<open>drained\<close>), have termination proofs. Ranging over a Go map takes the order as an argument (\<open>range_keys\<close>), since Go does not
  fix it, and theorems show where it does not matter. Machine integers are wrapped at their width
  (\<open>Prelude\<close>, section on Go's integers), big integers and decimals are unbounded integers whose
  operations panic beyond the documented bit lengths.

  Code outside the repository is a parameter: the Cosmos SDK's arithmetic, coins, addresses and
  hashing are the fields of the record \<open>sdk\<close> (argument \<open>K\<close>), the other modules' keepers those of
  \<open>keepers\<close> (argument \<open>N\<close>) over an abstract world \<open>'w\<close>, the governance store \<open>gov\<close>, the linked
  list of CometBFT \<open>clist\<close>, signatures and the JSON form of messages \<open>mfa_lib\<close>, accounts and
  allowances \<open>fee_keepers\<close>, the SDK's own decorators \<open>ante_env\<close>, the message router \<open>msg_router\<close>,
  the codecs of the wasm module's values and \<open>PrefixEndBytes\<close> in \<open>wasm_lib\<close>, the keepers the export
  calls \<open>export_keepers\<close>. What the code relies on are the
  locales \<open>dec_math\<close>, \<open>coin_math\<close>, \<open>dec_coins_math\<close>, \<open>coin_lists\<close>, \<open>coin_order\<close>, \<open>bech32\<close>,
  \<open>bank\<close>, \<open>fee_pool\<close>, \<open>validator_set\<close>, \<open>reward_bank\<close>, \<open>feegrants\<close>, \<open>linked_list\<close>,
  \<open>prefix_ranges\<close>. Reference instances (\<open>ref_sdk\<close>, \<open>ref_keepers\<close>,
  \<open>ref_clist\<close>, \<open>ref_PrefixEndBytes\<close>) satisfy them all and are what the witnesses compute with. Two more locales are
  interfaces between the program's own parts and are interpreted on the model: \<open>keyed_cell\<close> (a
  getter and a setter per key; every accessor pair of the stores) and \<open>oracle_keeper\<close> (the rates
  the market reads; the oracle's store).

  \<^bold>\<open>The theories.\<close>
  \<^item> \<open>Prelude\<close>: results, folds, integers, key-value partitions, map ranges, \<open>keyed_cell\<close>.
  \<^item> \<open>Sdk_Math\<close>, \<open>Sdk_Reference\<close>, \<open>Sdk_Keepers\<close>: the parameters, their laws and instances.
  \<^item> \<open>Core_Types\<close> (\<open>types\<close>), \<open>Go_Lib\<close> (\<open>strings\<close>, \<open>hex\<close>, the square root through floats),
    \<open>Go_Json\<close> (\<open>encoding/json\<close>: the automaton of the reader, decoding into structs, writing, and
    that written texts are read back), \<open>Go_Value\<close> (JSON as maps and slices), \<open>Go_Encoding\<close> (SHA-256,
    base64).
  \<^item> \<open>Oracle_Types\<close> (\<open>x/oracle/types\<close>): keys, ballots, median and deviation, vote parser, hashes,
    parameters, messages. The weighted median splits the voting power in halves.
  \<^item> \<open>Oracle_Keeper\<close> (\<open>x/oracle/keeper\<close>, \<open>genesis.go\<close>): store, message server, ballots, whitelist,
    slashing, rewards. Only committed rates are revealed, the invariant of the store, the genesis
    round trip.
  \<^item> \<open>Oracle_Abci\<close> (\<open>x/oracle/abci.go\<close>, \<open>tally.go\<close>): the tally and the end-blocker. The tally does
    not depend on the order in which the ballots are walked, the reference denom is the best
    supported one, every reachable store is well-formed (\<open>oracle_step\<close>), and a commitment can be
    revealed in the next period whatever others do in between (\<open>meanwhile\<close>).
  \<^item> \<open>Oracle_Queries\<close> (\<open>x/oracle/keeper/querier.go\<close>): the queries about one entry and about all agree.
  \<^item> \<open>Oracle_Upkeep\<close>: rewards never exceed the module account, the whitelist update, the slash
    window.
  \<^item> \<open>Market\<close> (\<open>x/market\<close>): pool, swaps, messages, query, genesis. A swap burns the offer and
    mints what it pays, the query agrees with the message, pools return to balance.
  \<^item> \<open>Treasury\<close> (\<open>x/treasury\<close>): policies stay within their constraints, seigniorage is split
    without loss, rolling averages, the burn account, genesis.
  \<^item> \<open>Dodx_Staking\<close> (\<open>x/dodxstaking\<close>): the messages refine a ledger of deposits
    (\<open>ledger_step\<close>), the module account covers all stakes, genesis.
  \<^item> \<open>Gov_Tally\<close>: the standard count does not depend on the order of the validators, the
    community count is capped per voter, the DODx count is bounded by the stake.
  \<^item> \<open>Dyncomm\<close> (\<open>x/dyncomm\<close>): edits below the minimum stored under the text they name are refused
    wherever they are nested, the epoch raises every bonded validator to its minimum.
  \<^item> \<open>Vesting\<close> (\<open>x/vesting/types\<close>): the vested share grows with time, vested and vesting coins
    add up to the original ones.
  \<^item> \<open>Mempool\<close> (\<open>app/mempool\<close>, \<open>app/helper\<close>): the order of iteration and that it ends, the
    capacity under overlapping insertions (\<open>pool_step\<close>), what a repeated sequence does.
  \<^item> \<open>Mfa\<close> (\<open>x/mfa\<close>), \<open>Mfa_Memo\<close>, \<open>Mfa_Safety\<close>: policies, approvals, control actions and both
    decorators. Written memos are read back; Do is not spent without an approval, except by the
    carrier of a recovery, a policy changes
    only in the ways meant, survives the recovery delay against whoever has the account key, and
    can always be recovered after it.
  \<^item> \<open>Ante\<close>, \<open>Ante_Safety\<close> (\<open>custom/auth/ante\<close>): the decorators and their chain. What holds of every
    accepted transaction, exact fees, minimum gas prices, initial deposits, one vote per validator
    text and height.
  \<^item> \<open>Wasm_Legacy\<close> (\<open>custom/wasm/legacy_store.go\<close>, \<open>query_handler.go\<close>, \<open>query_server.go\<close>): the
    iterator delivers the translated entries of its range and ends, keys translated one way are found the
    other way, reads and listings of contracts with 20-byte addresses are complete.
  \<^item> \<open>Wasm_Migration\<close> (\<open>app/upgrades/v13/upgrades.go\<close>): the steps of the upgrade in their order. Every entry
    of the old layout, with addresses of 20 and 32 bytes, is found under its new key, and queries see what the translating store shows.
  \<^item> \<open>Wasm_Bindings\<close> (\<open>custom/wasm/keeper\<close>, \<open>custom/wasm/types/legacy/msgs.go\<close>, \<open>wasmbinding\<close>): the
    messages of a contract are dispatched exactly when all of them run (\<open>runs\<close>) and those that name
    signers name the contract, its swaps are the market swaps its message asks for, of its own coins, queries in the old shape are answered like the present ones, validated messages have a signer.
  \<^item> \<open>Staking_Hooks\<close> (\<open>custom/staking\<close>, \<open>custom/upgrade/legacy\<close>): delegations are refused exactly above
    a fifth of the bonded power; the consensus engine has the validators of the staking module, each
    with power one (\<open>EndBlock_equal_power\<close>).
  \<^item> \<open>Tx_Logs\<close> (\<open>server\<close>): the logs rebuilt for a response are its events in a stable order by message;
    other responses pass unchanged, and bad heights are refused.
  \<^item> \<open>App_Genesis\<close> (\<open>app/genesis.go\<close>): the launch defaults are in the hardened genesis and nothing else changes.
  \<^item> \<open>App_Export\<close> (\<open>app/export.go\<close>): what a start at height zero keeps of the oracle and the market, and
    which validators are jailed.

  \<^bold>\<open>What it shows to be wrong.\<close> A positive ballot without reference votes halts the chain
  (\<open>end_blocker_division_by_zero\<close>), a denom can stay a vote target after it left the whitelist
  (\<open>removed_denom_stays_target\<close>), a small seigniorage burden is divided by
  (\<open>reward_policy_division_by_zero\<close>), a commission set through authz is reverted
  (\<open>nested_edit_reverted\<close>), an edit that names its validator in capitals escapes the minimum
  commission (\<open>edits_respect_minimum\<close>), a valid vesting account can panic (\<open>valid_account_locks_itself\<close>), a
  repeated sequence leaves a transaction in the mempool for ever
  (\<open>duplicate_key_orphaned\<close>), an approval of a payment also approves the removal of the policy
  (\<open>approval_ignores_control\<close>), a vote with a bad signature keeps the real one out of the mempool
  (\<open>forged_vote_blocks\<close>). A contract can emit a message that does not implement \<open>GetSigners\<close> in
  anybody's name (\<open>unsigned_unchecked\<close>). Through the translating store contracts with 32-byte
  addresses or addresses that end in 255 are listed as empty (\<open>listing_lost_32\<close>,
  \<open>listing_lost_255\<close>), and an address that begins with 20 reads another contract's value
  (\<open>read_confused\<close>). An attribute of an event decides how much memory the API server asks for
  (\<open>logs_panic\<close>). Before a start at height zero commissions are withdrawn for addresses that are no
  validators (\<open>commission_not_asked\<close>). Against the specifications in \<open>x/*/spec\<close>, the swap fee goes to the
  oracle's pool (\<open>swap_conserves_value\<close>), the weighted share of the seigniorage is burnt
  (\<open>seigniorage_conserved\<close>) and its settlement is not called, and \<open>Clamp\<close> enforces the range last
  (\<open>policies_bounded\<close>).

  \<^bold>\<open>Bounds.\<close> Theorems about decimals assume the laws of \<open>dec_math\<close>, in which results beyond 315
  bits panic; where a theorem says that an operation succeeds its hypotheses exclude that.
  Gas, events, logging and telemetry are not part of the states.

  \<^bold>\<open>Not modelled.\<close> The other module wrappers under \<open>custom\<close> (\<open>auth\<close>, \<open>authz\<close>, \<open>bank\<close>, \<open>distribution\<close>,
  \<open>evidence\<close>, \<open>feegrant\<close>, \<open>gov\<close>, \<open>mint\<close>, \<open>params\<close>, \<open>slashing\<close>, \<open>upgrade\<close>, \<open>wasm/module.go\<close>), which set
  default parameters, register codecs and services and build commands for SDK modules; the upgrade handlers other than \<open>v13\<close>, which call other modules' migrations; the wiring of
  the application, commands, simulation, generated protobuf code, where only the message
  types are used, and the vendored \<open>third_party\<close> tree. They hold no state of their own or are
  not part of the repository's logic.
\<close>

end
